(* ===== verification/Prelude.thy ===== *)
theory Prelude
  imports Main "HOL-Library.Word" "HOL-Library.Multiset"
begin

text \<open>
  Shared vocabulary of the development: the machine types of the Go program, the
  error-and-state combinators in which its services are written, and the list lemmas the
  component theories use.

  A Go method that reads and writes a store and returns \<open>(T, error)\<close> becomes a function
  \<open>'s \<Rightarrow> ('e + 'a) \<times> 's\<close>: the store is passed explicitly, \<open>Inl\<close> is a non-nil error and
  \<open>Inr\<close> the returned value.  \<open>bindE\<close> is the shape \<open>x, err := m(); if err != nil { return err }\<close>,
  \<open>ignoreE\<close> the shape \<open>_ = m()\<close>.
\<close>

section \<open>Machine types\<close>

text \<open>\<open>uint64\<close> identifiers and the 64-bit \<open>int\<close> of the platform; the latter is read with \<open>sint\<close>.\<close>

type_synonym uint64 = "64 word"
type_synonym goint = "64 word"

text \<open>Instants (\<open>time.Time\<close>) and durations are nanosecond counts.\<close>

type_synonym time = int
type_synonym duration = int

text \<open>
  \<open>time.Now()\<close> is read several times in one call.  A \<open>clock\<close> gives the reading of each
  such call, one number per call; nothing is assumed of it unless a theorem says so.
\<close>

type_synonym clock = "nat \<Rightarrow> time"

abbreviation later :: "nat \<Rightarrow> clock \<Rightarrow> clock" where
  "later k clk \<equiv> \<lambda>i. clk (k + i)"

abbreviation second :: duration where "second \<equiv> 1000000000"

section \<open>Signed 64-bit integers\<close>

lemma sint_range64: "- (2 ^ 63) \<le> sint (a :: goint)" "sint (a :: goint) < 2 ^ 63"
  using sint_greater_eq [of a] sint_less [of a] by simp_all

lemma sint_word_of_int64: "- (2 ^ 63) \<le> n \<Longrightarrow> n < 2 ^ 63 \<Longrightarrow> sint (word_of_int n :: goint) = n"
  by (simp add: sint_sbintrunc' signed_take_bit_int_eq_self)

lemma sint_mult64:
  "- (2 ^ 63) \<le> sint a * sint b \<Longrightarrow> sint a * sint b < 2 ^ 63 \<Longrightarrow> sint (a * b :: goint) = sint a * sint b"
  by (simp add: sint_word_mult signed_take_bit_int_eq_self)

section \<open>Errors and state\<close>

named_theorems op_simps \<open>evaluation and inversion of the error-and-state combinators\<close>

type_synonym ('s, 'e, 'a) op = "'s \<Rightarrow> ('e + 'a) \<times> 's"

definition returnE :: "'a \<Rightarrow> ('s, 'e, 'a) op" where
  "returnE x s = (Inr x, s)"

definition throwE :: "'e \<Rightarrow> ('s, 'e, 'a) op" where
  "throwE e s = (Inl e, s)"

definition bindE :: "('s, 'e, 'a) op \<Rightarrow> ('a \<Rightarrow> ('s, 'e, 'b) op) \<Rightarrow> ('s, 'e, 'b) op" where
  "bindE m k s = (case m s of (Inl e, s') \<Rightarrow> (Inl e, s') | (Inr x, s') \<Rightarrow> k x s')"

definition ignoreE :: "('s, 'e, 'a) op \<Rightarrow> ('s, 'e, 'b) op \<Rightarrow> ('s, 'e, 'b) op" where
  "ignoreE m k s = k (snd (m s))"

text \<open>A read that leaves the store alone, and an operation on a part of the store.\<close>

definition readE :: "('s \<Rightarrow> 'e + 'a) \<Rightarrow> ('s, 'e, 'a) op" where
  "readE f s = (f s, s)"

definition zoomE :: "('s \<Rightarrow> 't) \<Rightarrow> ('t \<Rightarrow> 's \<Rightarrow> 's) \<Rightarrow> ('t, 'e, 'a) op \<Rightarrow> ('s, 'e, 'a) op" where
  "zoomE get put m s = (case m (get s) of (r, t) \<Rightarrow> (r, put t s))"

text \<open>Replacing the error of an operation, as wrappers that translate errors do.\<close>

definition mapErr :: "('e \<Rightarrow> 'f) \<Rightarrow> 'e + 'a \<Rightarrow> 'f + 'a" where
  "mapErr f r = (case r of Inl e \<Rightarrow> Inl (f e) | Inr x \<Rightarrow> Inr x)"

lemma returnE_simps [op_simps, simp]: "returnE x s = (Inr x, s)"
  by (simp add: returnE_def)

lemma throwE_simps [op_simps, simp]: "throwE e s = (Inl e, s)"
  by (simp add: throwE_def)

lemma bindE_Inr [op_simps]:
  "bindE m k s = (Inr y, s'') \<longleftrightarrow> (\<exists>x s'. m s = (Inr x, s') \<and> k x s' = (Inr y, s''))"
  by (auto simp: bindE_def split: prod.splits sum.splits)

lemma bindE_Inl:
  "bindE m k s = (Inl e, s'') \<longleftrightarrow>
     m s = (Inl e, s'') \<or> (\<exists>x s'. m s = (Inr x, s') \<and> k x s' = (Inl e, s''))"
  by (auto simp: bindE_def split: prod.splits sum.splits)

lemma bindE_step [op_simps]: "m s = (Inr x, s') \<Longrightarrow> bindE m k s = k x s'"
  by (simp add: bindE_def)

lemma bindE_fail [op_simps]: "m s = (Inl e, s') \<Longrightarrow> bindE m k s = (Inl e, s')"
  by (simp add: bindE_def)

lemma ignoreE_step [op_simps]: "ignoreE m k s = k (snd (m s))"
  by (simp add: ignoreE_def)

lemma readE_eq [op_simps]: "readE f s = (r, s') \<longleftrightarrow> r = f s \<and> s' = s"
  by (auto simp: readE_def)

lemma readE_simp [simp]: "readE f s = (f s, s)"
  by (simp add: readE_def)

lemma zoomE_eq [op_simps]:
  "zoomE get put m s = (r, s') \<longleftrightarrow> (\<exists>t. m (get s) = (r, t) \<and> s' = put t s)"
  by (auto simp: zoomE_def split: prod.splits)

lemma mapErr_Inr [op_simps, simp]: "mapErr f r = Inr x \<longleftrightarrow> r = Inr x"
  by (auto simp: mapErr_def split: sum.splits)

lemma mapErr_Inl [op_simps, simp]: "mapErr f r = Inl e \<longleftrightarrow> (\<exists>e'. r = Inl e' \<and> e = f e')"
  by (auto simp: mapErr_def split: sum.splits)

lemma mapErr_cases [simp]: "mapErr f (Inl e) = Inl (f e)" "mapErr f (Inr x) = Inr x"
  by (simp_all add: mapErr_def)

section \<open>Lists\<close>

lemma list_all2_rel_map:
  "list_all2 (\<lambda>x y. y = f x) xs ys \<longleftrightarrow> ys = map f xs"
  by (induction xs arbitrary: ys) (auto simp: list_all2_Cons1)

lemma list_all2_setD2: "list_all2 R xs ys \<Longrightarrow> y \<in> set ys \<Longrightarrow> \<exists>x \<in> set xs. R x y"
  by (induction xs ys rule: list_all2_induct) auto

lemma list_all2_setD1: "list_all2 R xs ys \<Longrightarrow> x \<in> set xs \<Longrightarrow> \<exists>y \<in> set ys. R x y"
  by (induction xs ys rule: list_all2_induct) auto

lemma find_snoc:
  "find P (xs @ [y]) = (case find P xs of Some z \<Rightarrow> Some z | None \<Rightarrow> if P y then Some y else None)"
  by (induction xs) auto

lemma list_ex_map: "list_ex P (map f xs) \<longleftrightarrow> list_ex (\<lambda>x. P (f x)) xs"
  by (induction xs) auto

lemma list_all_map: "list_all P (map f xs) \<longleftrightarrow> list_all (\<lambda>x. P (f x)) xs"
  by (induction xs) auto

lemma option_eqI: "(\<And>v. x = Some v \<longleftrightarrow> y = Some v) \<Longrightarrow> x = y"
  by (cases x; cases y) auto

end
