(* ===== verification/GoStd.thy ===== *)
theory GoStd
  imports Prelude
begin

text \<open>
  The parts of Go's standard library the program calls: packages \<open>strings\<close> and \<open>strconv\<close>.
  A Go string is a sequence of bytes; the case and white-space functions act on the ASCII
  range, which is all the program's headers, prefixes and keys use.
\<close>

section \<open>Package strings\<close>

definition HasPrefix :: "string \<Rightarrow> string \<Rightarrow> bool" where
  "HasPrefix s p = (take (length p) s = p)"

fun Contains :: "string \<Rightarrow> string \<Rightarrow> bool" where
  "Contains [] sub = (sub = [])"
| "Contains (c # s) sub = (HasPrefix (c # s) sub \<or> Contains s sub)"

definition is_upper :: "char \<Rightarrow> bool" where
  "is_upper c = (65 \<le> (of_char c :: nat) \<and> (of_char c :: nat) \<le> 90)"

definition lower_char :: "char \<Rightarrow> char" where
  "lower_char c = (if is_upper c then char_of ((of_char c :: nat) + 32) else c)"

definition ToLower :: "string \<Rightarrow> string" where
  "ToLower s = map lower_char s"

definition EqualFold :: "string \<Rightarrow> string \<Rightarrow> bool" where
  "EqualFold s t = (ToLower s = ToLower t)"

definition is_space :: "char \<Rightarrow> bool" where
  "is_space c = (of_char c = (32::nat) \<or> (9 \<le> (of_char c :: nat) \<and> (of_char c :: nat) \<le> 13))"

definition TrimSpace :: "string \<Rightarrow> string" where
  "TrimSpace s = rev (dropWhile is_space (rev (dropWhile is_space s)))"

lemma HasPrefix_append [simp]: "HasPrefix (p @ s) p"
  by (simp add: HasPrefix_def)

lemma HasPrefix_iff: "HasPrefix s p \<longleftrightarrow> (\<exists>t. s = p @ t)"
  by (metis HasPrefix_append HasPrefix_def append_take_drop_id)

lemma Contains_iff: "Contains s sub \<longleftrightarrow> (\<exists>a b. s = a @ sub @ b)"
proof (induction s)
  case (Cons c s)
  show ?case
  proof
    assume "Contains (c # s) sub"
    then consider "HasPrefix (c # s) sub" | "Contains s sub" by auto
    then show "\<exists>a b. c # s = a @ sub @ b"
    proof cases
      case 1 then show ?thesis by (metis HasPrefix_iff append_Nil)
    next
      case 2 then show ?thesis using Cons by (metis append_Cons)
    qed
  next
    assume "\<exists>a b. c # s = a @ sub @ b"
    then obtain a b where ab: "c # s = a @ sub @ b" by blast
    show "Contains (c # s) sub"
    proof (cases a)
      case Nil
      with ab have "HasPrefix (c # s) sub" by (auto simp: HasPrefix_iff)
      then show ?thesis by simp
    next
      case (Cons x xs) with ab Cons.IH show ?thesis by auto
    qed
  qed
qed auto

lemma TrimSpace_eq_Nil: "TrimSpace s = [] \<longleftrightarrow> (\<forall>c \<in> set s. is_space c)"
proof -
  have "TrimSpace s = [] \<longleftrightarrow> (\<forall>c \<in> set (dropWhile is_space s). is_space c)"
    by (simp add: TrimSpace_def)
  also have "\<dots> \<longleftrightarrow> (\<forall>c \<in> set s. is_space c)" by (induction s) auto
  finally show ?thesis .
qed

text \<open>The result of \<open>TrimSpace\<close> neither starts nor ends with white space.\<close>

lemma hd_TrimSpace: "TrimSpace s \<noteq> [] \<Longrightarrow> \<not> is_space (hd (TrimSpace s))"
proof -
  let ?d = "dropWhile is_space s"
  assume ne: "TrimSpace s \<noteq> []"
  then have d: "?d \<noteq> []" unfolding TrimSpace_def by (metis dropWhile.simps(1) rev.simps(1))
  then have h: "\<not> is_space (hd ?d)" by (rule hd_dropWhile)
  obtain suf where "?d = TrimSpace s @ suf"
    by (metis TrimSpace_def rev_append rev_rev_ident takeWhile_dropWhile_id)
  with ne h show ?thesis by simp
qed

lemma last_TrimSpace: "TrimSpace s \<noteq> [] \<Longrightarrow> \<not> is_space (last (TrimSpace s))"
  unfolding TrimSpace_def by (metis hd_dropWhile last_rev rev.simps(1))

lemma TrimSpace_id: "s = [] \<or> (\<not> is_space (hd s) \<and> \<not> is_space (last s)) \<Longrightarrow> TrimSpace s = s"
  unfolding TrimSpace_def by (metis dropWhile_eq_self_iff hd_rev rev.simps(1) rev_rev_ident)

lemma TrimSpace_idem [simp]: "TrimSpace (TrimSpace s) = TrimSpace s"
  by (rule TrimSpace_id) (auto dest: hd_TrimSpace last_TrimSpace)

section \<open>Package strconv\<close>

definition is_digit :: "char \<Rightarrow> bool" where
  "is_digit c = (48 \<le> (of_char c :: nat) \<and> (of_char c :: nat) \<le> 57)"

definition digit_val :: "char \<Rightarrow> nat" where
  "digit_val c = of_char c - 48"

fun decimal_val :: "nat \<Rightarrow> string \<Rightarrow> nat" where
  "decimal_val acc [] = acc"
| "decimal_val acc (c # s) = decimal_val (10 * acc + digit_val c) s"

text \<open>\<open>strconv.ParseUint(s, 10, 64)\<close>; \<open>None\<close> is a non-nil error.\<close>

definition ParseUint :: "string \<Rightarrow> uint64 option" where
  "ParseUint s = (if s \<noteq> [] \<and> list_all is_digit s \<and> decimal_val 0 s < 2 ^ 64
                  then Some (of_nat (decimal_val 0 s)) else None)"

text \<open>Decimal rendering, as \<open>%d\<close> and \<open>%v\<close> of an unsigned integer produce it; a sign for the signed ones.\<close>

fun decimal :: "nat \<Rightarrow> string" where
  "decimal n = (if n < 10 then [char_of (48 + n)] else decimal (n div 10) @ [char_of (48 + n mod 10)])"

declare decimal.simps [simp del]

definition FormatUint :: "uint64 \<Rightarrow> string" where
  "FormatUint w = decimal (unat w)"

definition FormatInt :: "int \<Rightarrow> string" where
  "FormatInt n = (if n < 0 then ''-'' @ decimal (nat (- n)) else decimal (nat n))"

lemma decimal_val_append: "decimal_val acc (s @ t) = decimal_val (decimal_val acc s) t"
  by (induction s arbitrary: acc) auto

lemma digit_char: "n < 10 \<Longrightarrow> is_digit (char_of (48 + n)) \<and> digit_val (char_of (48 + n)) = n"
  by (simp add: is_digit_def digit_val_def)

lemma decimal_digits: "decimal n \<noteq> [] \<and> list_all is_digit (decimal n)"
proof (induction n rule: decimal.induct)
  case (1 n)
  then show ?case using digit_char [of n] digit_char [of "n mod 10"]
    by (subst (1 2) decimal.simps) auto
qed

lemma decimal_val_decimal: "decimal_val 0 (decimal n) = n"
proof (induction n rule: decimal.induct)
  case (1 n)
  then show ?case using digit_char [of n] digit_char [of "n mod 10"]
    by (subst decimal.simps) (auto simp: decimal_val_append)
qed

lemma ParseUint_FormatUint [simp]: "ParseUint (FormatUint w) = Some w"
proof -
  have "unat w < 2 ^ 64" using unsigned_less [of w] by simp
  then show ?thesis
    using decimal_digits [of "unat w"] by (simp add: ParseUint_def FormatUint_def decimal_val_decimal)
qed

lemma FormatUint_inject [simp]: "FormatUint v = FormatUint w \<longleftrightarrow> v = w"
  by (metis ParseUint_FormatUint option.inject)

section \<open>Package time\<close>

text \<open>
  \<open>Duration.String\<close>.  The fraction is printed without trailing zeros; \<open>fmt_frac v n\<close> renders
  \<open>v / 10^n\<close> as the library's \<open>fmtFrac\<close> and \<open>fmtInt\<close> do together.
\<close>

fun frac_digits :: "nat \<Rightarrow> nat \<Rightarrow> string" where
  "frac_digits v 0 = ''''"
| "frac_digits v (Suc n) = frac_digits (v div 10) n @ [char_of (48 + v mod 10)]"

definition fmt_frac :: "nat \<Rightarrow> nat \<Rightarrow> string" where
  "fmt_frac v n =
     (let ds = rev (dropWhile (\<lambda>c. c = CHR ''0'') (rev (frac_digits (v mod 10 ^ n) n)))
      in decimal (v div 10 ^ n) @ (if ds = '''' then '''' else CHR ''.'' # ds))"

definition DurationString :: "duration \<Rightarrow> string" where
  "DurationString d =
     (let u = nat \<bar>d\<bar>;
          body =
            (if u = 0 then ''0s''
             else if u < 1000 then decimal u @ ''ns''
             else if u < 1000000 then fmt_frac u 3 @ [char_of (194 :: nat), char_of (181 :: nat)] @ ''s''
             else if u < 1000000000 then fmt_frac u 6 @ ''ms''
             else let secs = u div 1000000000;
                      m = secs div 60; h = m div 60;
                      s = fmt_frac (u mod 60000000000) 9 @ ''s''
                  in if m = 0 then s
                     else if h = 0 then decimal m @ ''m'' @ s
                     else decimal h @ ''h'' @ decimal (m mod 60) @ ''m'' @ s)
      in (if d < 0 then ''-'' else '''') @ body)"

end
