(* ===== verification/Errs.thy ===== *)
theory Errs
  imports GoStd
begin

text \<open>
  Package \<open>internal/common/errs\<close>: the typed application errors and their HTTP statuses,
  together with the other kinds of error value that reach the error handler (errors of the
  database library, validation errors of the binder, wrapped and plain errors).
\<close>

datatype db_error = ErrRecordNotFound | DbFailure string

text \<open>What the handler reads of a \<open>validator.FieldError\<close>.\<close>

record field_error =
  fe_Field :: string
  fe_Tag :: string
  fe_Param :: string

text \<open>
  \<open>AppError\<close> carries its cause, so the struct is a constructor of the error type.  The
  structured details \<open>Errors\<close> are a field map or absent.
\<close>

datatype go_error =
    AppError (ae_Status: int) (ae_Code: string) (ae_Message: string)
      (ae_Errors: "(string \<rightharpoonup> string) option") (ae_Cause: "go_error option")
  | DbError db_error
  | ValidationErrors "field_error list"
  | WrapError string go_error
  | PlainError string

type_synonym 'a result = "go_error + 'a"

fun db_error_string :: "db_error \<Rightarrow> string" where
  "db_error_string ErrRecordNotFound = ''record not found''"
| "db_error_string (DbFailure m) = m"

fun error_string :: "go_error \<Rightarrow> string" where
  "error_string (AppError _ _ m _ None) = m"
| "error_string (AppError _ _ m _ (Some c)) = m @ '': '' @ error_string c"
| "error_string (DbError e) = db_error_string e"
| "error_string (ValidationErrors _) = ''validation failed''"
| "error_string (WrapError m e) = m @ '': '' @ error_string e"
| "error_string (PlainError m) = m"

section \<open>Constructors\<close>

definition NotFound :: "string \<Rightarrow> uint64 \<Rightarrow> go_error" where
  "NotFound resource rid = AppError 404 ''RESOURCE_NOT_FOUND''
     (resource @ '' not found: '' @ FormatUint rid) None None"

definition BadRequest :: "string \<Rightarrow> go_error" where
  "BadRequest msg = AppError 400 ''BAD_REQUEST'' msg None None"

definition Validation :: "(string \<rightharpoonup> string) \<Rightarrow> go_error" where
  "Validation fieldErrors = AppError 400 ''VALIDATION_FAILED'' ''Validation failed'' (Some fieldErrors) None"

definition Unauthorized :: "string \<Rightarrow> go_error" where
  "Unauthorized msg = AppError 401 ''UNAUTHENTICATED''
     (if msg = '''' then ''Unauthenticated'' else msg) None None"

definition Forbidden :: "string \<Rightarrow> go_error" where
  "Forbidden msg = AppError 403 ''FORBIDDEN'' (if msg = '''' then ''Access denied'' else msg) None None"

definition Conflict :: "string \<Rightarrow> go_error" where
  "Conflict msg = AppError 409 ''CONFLICT'' msg None None"

definition Duplicate :: "string \<Rightarrow> go_error" where
  "Duplicate msg = AppError 409 ''DUPLICATE_RESOURCE'' msg None None"

definition TooManyRequests :: "string \<Rightarrow> go_error" where
  "TooManyRequests msg = AppError 429 ''RATE_LIMITED'' msg None None"

definition Internal :: "string \<Rightarrow> go_error" where
  "Internal msg = AppError 500 ''INTERNAL_ERROR'' msg None None"

text \<open>\<open>WithCause\<close> is a method of \<open>AppError\<close>; the other error values have none and are unchanged.\<close>

fun WithCause :: "go_error \<Rightarrow> go_error \<Rightarrow> go_error" where
  "WithCause (AppError s c m es _) err = AppError s c m es (Some err)"
| "WithCause e _ = e"

text \<open>\<open>Unwrap\<close> and the search of \<open>errors.As\<close> along the chain of wrapped errors.\<close>

fun Unwrap :: "go_error \<Rightarrow> go_error option" where
  "Unwrap (AppError _ _ _ _ c) = c"
| "Unwrap (WrapError _ e) = Some e"
| "Unwrap _ = None"

fun As :: "go_error \<Rightarrow> go_error option" where
  "As (AppError s c m es ca) = Some (AppError s c m es ca)"
| "As (WrapError _ e) = As e"
| "As _ = None"

fun AsValidation :: "go_error \<Rightarrow> field_error list option" where
  "AsValidation (ValidationErrors fes) = Some fes"
| "AsValidation (AppError _ _ _ _ (Some c)) = AsValidation c"
| "AsValidation (WrapError _ e) = AsValidation e"
| "AsValidation _ = None"

lemmas errs_defs = NotFound_def BadRequest_def Validation_def Unauthorized_def Forbidden_def
  Conflict_def Duplicate_def TooManyRequests_def Internal_def

text \<open>Attaching a cause changes what is logged and nothing a client sees.\<close>

lemma WithCause_client_view:
  "ae_Status (WithCause (AppError s c m es ca) e) = s"
  "ae_Message (WithCause (AppError s c m es ca) e) = m"
  "ae_Errors (WithCause (AppError s c m es ca) e) = es"
  "ae_Cause (WithCause (AppError s c m es ca) e) = Some e"
  by simp_all

lemma As_WithCause: "As (AppError s c m es ca) = Some a \<Longrightarrow> As (WithCause a e) = Some (WithCause a e)"
  by auto

lemma As_AppError: "As e = Some a \<Longrightarrow> \<exists>s c m es ca. a = AppError s c m es ca"
  by (induction e rule: As.induct) auto

end
