(* ===== verification/Principal.thy ===== *)
theory Principal
  imports Errs
begin

text \<open>
  The authenticated subject of a request (\<open>internal/common/security/principal.go\<close>) and its
  authority tests.  The loops of the source are the recursions below.
\<close>

record Principal =
  p_UserID :: uint64
  p_Username :: string
  p_SessionID :: uint64
  p_ImpersonatorID :: uint64
  p_Authorities :: "string list"

fun has_authority :: "string list \<Rightarrow> string \<Rightarrow> bool" where
  "has_authority [] name = False"
| "has_authority (a # as) name = (if a = name then True else has_authority as name)"

definition HasAuthority :: "Principal \<Rightarrow> string \<Rightarrow> bool" where
  "HasAuthority p name = has_authority (p_Authorities p) name"

fun HasAnyAuthority :: "Principal \<Rightarrow> string list \<Rightarrow> bool" where
  "HasAnyAuthority p [] = False"
| "HasAnyAuthority p (n # ns) = (if HasAuthority p n then True else HasAnyAuthority p ns)"

definition HasRole :: "Principal \<Rightarrow> string \<Rightarrow> bool" where
  "HasRole p role = HasAuthority p (''ROLE_'' @ role)"

lemma has_authority_iff [simp]: "has_authority as name \<longleftrightarrow> name \<in> set as"
  by (induction as) auto

lemma HasAuthority_iff [simp]: "HasAuthority p name \<longleftrightarrow> name \<in> set (p_Authorities p)"
  by (simp add: HasAuthority_def)

lemma HasAnyAuthority_iff [simp]: "HasAnyAuthority p ns \<longleftrightarrow> set ns \<inter> set (p_Authorities p) \<noteq> {}"
  by (induction ns) auto

lemma HasRole_iff [simp]: "HasRole p r \<longleftrightarrow> ''ROLE_'' @ r \<in> set (p_Authorities p)"
  by (simp add: HasRole_def)

end
