(* ===== verification/Float64.thy ===== *)
theory Float64
  imports Prelude Complex_Main
begin

text \<open>
  The \<open>float64\<close> arithmetic the program uses (page counts, token buckets): IEEE 754 binary64
  with rounding to nearest, ties to even, infinities and NaN.  The sign of a zero is not
  represented; no modelled operation divides by a negative zero.
\<close>

section \<open>Rounding\<close>

definition rne :: "real \<Rightarrow> int" where
  "rne x = (let f = \<lfloor>x\<rfloor>; d = x - of_int f
            in if d < 1/2 then f else if d > 1/2 then f + 1 else if even f then f else f + 1)"

text \<open>The exponent of the last place of \<open>x\<close>: 53 significant bits, at least \<open>-1074\<close>.\<close>

definition ulp_exp :: "real \<Rightarrow> int" where
  "ulp_exp x = max (-1074) (\<lfloor>log 2 \<bar>x\<bar>\<rfloor> - 52)"

definition fl :: "real \<Rightarrow> real" where
  "fl x = (if x = 0 then 0
           else of_int (rne (x / 2 powr of_int (ulp_exp x))) * 2 powr of_int (ulp_exp x))"

lemma rne_of_int [simp]: "rne (of_int n) = n"
  by (simp add: rne_def)

lemma rne_numeral [simp]: "rne (numeral n) = numeral n"
  using rne_of_int [of "numeral n"] by simp

lemma rne_mono: "x \<le> y \<Longrightarrow> rne x \<le> rne y"
proof -
  assume xy: "x \<le> y"
  then have "\<lfloor>x\<rfloor> \<le> \<lfloor>y\<rfloor>" by (rule floor_mono)
  then consider "\<lfloor>x\<rfloor> = \<lfloor>y\<rfloor>" | "\<lfloor>x\<rfloor> + 1 \<le> \<lfloor>y\<rfloor>" by linarith
  then show ?thesis
  proof cases
    case 1 with xy show ?thesis by (auto simp: rne_def Let_def)
  next
    case 2 then show ?thesis by (auto simp: rne_def Let_def)
  qed
qed

lemma rne_error: "\<bar>of_int (rne x) - x\<bar> \<le> 1/2"
proof -
  define f where "f = real_of_int \<lfloor>x\<rfloor>"
  have "f \<le> x" "x < f + 1" unfolding f_def by linarith+
  moreover have "of_int (rne x) = (if x - f < 1/2 then f else if x - f > 1/2 then f + 1
                    else if even \<lfloor>x\<rfloor> then f else f + 1)"
    by (simp add: rne_def Let_def f_def)
  ultimately show ?thesis by (auto simp: abs_if)
qed

lemma rne_minus: "rne (- x) = - rne x"
proof (cases "x = of_int \<lfloor>x\<rfloor>")
  case True
  then show ?thesis by (metis of_int_minus rne_of_int)
next
  case False
  then have "\<lfloor>- x\<rfloor> = - \<lfloor>x\<rfloor> - 1" by linarith
  then show ?thesis by (auto simp: rne_def Let_def)
qed

lemma fl_0 [simp]: "fl 0 = 0"
  by (simp add: fl_def)

lemma fl_minus: "fl (- x) = - fl x"
  by (simp add: fl_def ulp_exp_def rne_minus flip: minus_divide_left)

text \<open>A point of the grid of \<open>x\<close> is a fixed point of rounding.\<close>

lemma fl_grid:
  assumes "x = of_int m * 2 powr of_int k" "ulp_exp x \<le> k"
  shows "fl x = x"
proof (cases "x = 0")
  case False
  define j where "j = nat (k - ulp_exp x)"
  have j: "real_of_int k = of_int (ulp_exp x) + of_nat j"
    using assms(2) by (simp add: j_def)
  have "x / 2 powr of_int (ulp_exp x) = of_int (m * 2 ^ j)"
    by (subst assms(1), simp add: j powr_add powr_realpow)
  then have "fl x = of_int (m * 2 ^ j) * 2 powr of_int (ulp_exp x)"
    using False by (metis fl_def rne_of_int)
  also have "\<dots> = x"
    by (subst (2) assms(1), simp add: j powr_add powr_realpow)
  finally show ?thesis .
qed simp

lemma floor_log_powr_le: "0 < x \<Longrightarrow> 2 powr of_int \<lfloor>log 2 x\<rfloor> \<le> x"
proof -
  assume "0 < x"
  have "2 powr of_int \<lfloor>log 2 x\<rfloor> \<le> 2 powr (log 2 x)" by simp
  with \<open>0 < x\<close> show ?thesis by simp
qed

lemma less_floor_log_powr: "0 < x \<Longrightarrow> x < 2 powr of_int (\<lfloor>log 2 x\<rfloor> + 1)"
proof -
  assume "0 < x"
  have "log 2 x < of_int (\<lfloor>log 2 x\<rfloor> + 1)" by linarith
  then have "2 powr (log 2 x) < 2 powr of_int (\<lfloor>log 2 x\<rfloor> + 1)" by simp
  with \<open>0 < x\<close> show ?thesis by simp
qed

lemma fl_pos_mono:
  assumes "0 < x" "x \<le> y"
  shows "fl x \<le> fl y"
proof -
  have lg: "\<lfloor>log 2 x\<rfloor> \<le> \<lfloor>log 2 y\<rfloor>" using assms by (intro floor_mono) simp
  then have e: "ulp_exp x \<le> ulp_exp y" using assms by (simp add: ulp_exp_def)
  consider "ulp_exp x = ulp_exp y" | "ulp_exp x < ulp_exp y" using e by linarith
  then show ?thesis
  proof cases
    case 1
    with assms show ?thesis
      by (auto simp: fl_def intro!: mult_right_mono rne_mono divide_right_mono)
  next
    case 2
    define k where "k = \<lfloor>log 2 y\<rfloor>"
    define p where "p = 2 powr real_of_int k"
    have e: "max (-1074) (\<lfloor>log 2 x\<rfloor> - 52) < max (-1074) (k - 52)"
      using 2 assms by (simp add: ulp_exp_def k_def)
    have ky: "ulp_exp y = k - 52" using e assms by (simp add: ulp_exp_def k_def max_def split: if_splits)
    have kx: "\<lfloor>log 2 x\<rfloor> < k" using e by linarith
    have ex: "ulp_exp x \<le> k" using 2 ky by linarith
    have py: "p \<le> y" using assms floor_log_powr_le [of y] by (simp add: p_def k_def)
    have "x < 2 powr of_int (\<lfloor>log 2 x\<rfloor> + 1)" using assms by (intro less_floor_log_powr)
    also have "\<dots> \<le> p" using kx by (simp add: p_def)
    finally have xp: "x \<le> p" by simp
    have grid: "p / 2 powr of_int e = of_int (2 ^ nat (k - e))" if "e \<le> k" for e :: int
    proof -
      have "real_of_int k = of_int e + of_nat (nat (k - e))" using that by simp
      then have "p = 2 powr of_int e * 2 ^ nat (k - e)"
        unfolding p_def by (metis powr_add powr_realpow zero_less_numeral)
      then show ?thesis by simp
    qed
    have "rne (x / 2 powr of_int (ulp_exp x)) \<le> rne (p / 2 powr of_int (ulp_exp x))"
      using xp by (intro rne_mono divide_right_mono) auto
    then have 1: "fl x \<le> p"
      using assms ex grid [of "ulp_exp x"]
      by (simp add: fl_def flip: pos_le_divide_eq del: of_int_power)
    have "rne (p / 2 powr of_int (ulp_exp y)) \<le> rne (y / 2 powr of_int (ulp_exp y))"
      using py by (intro rne_mono divide_right_mono) auto
    then have 2: "p \<le> fl y"
      using assms ky grid [of "ulp_exp y"]
      by (simp add: fl_def flip: pos_divide_le_eq del: of_int_power)
    from 1 2 show ?thesis by linarith
  qed
qed

lemma fl_nonneg: "0 \<le> x \<Longrightarrow> 0 \<le> fl x"
proof -
  assume "0 \<le> x"
  then have "rne 0 \<le> rne (x / 2 powr of_int (ulp_exp x))" by (intro rne_mono) simp
  moreover have "rne 0 = 0" using rne_of_int [of 0] by simp
  ultimately show ?thesis by (simp add: fl_def)
qed

lemma fl_mono: "x \<le> y \<Longrightarrow> fl x \<le> fl y"
proof -
  assume xy: "x \<le> y"
  consider "0 < x" | "x \<le> 0" "0 \<le> y" | "y < 0" by linarith
  then show ?thesis
  proof cases
    case 1 with xy show ?thesis by (rule fl_pos_mono [rotated]) 
  next
    case 2
    then have "0 \<le> fl (- x)" "0 \<le> fl y" by (auto intro: fl_nonneg)
    then show ?thesis by (simp add: fl_minus)
  next
    case 3
    with xy have "fl (- y) \<le> fl (- x)" by (intro fl_pos_mono) auto
    then show ?thesis by (simp add: fl_minus)
  qed
qed

lemma fl_of_int [simp]: "\<bar>n\<bar> \<le> 2 ^ 53 \<Longrightarrow> fl (of_int n) = of_int n"
proof -
  assume n: "\<bar>n\<bar> \<le> 2 ^ 53"
  consider "n = 0" | "n \<noteq> 0" "\<bar>n\<bar> < 2 ^ 53" | "\<bar>n\<bar> = 2 ^ 53" using n by linarith
  then show ?thesis
  proof cases
    case 2
    have "real_of_int \<bar>n\<bar> < of_int (2 ^ 53)" using 2(2) by (simp only: of_int_less_iff)
    then have "\<bar>real_of_int n\<bar> < 2 ^ 53" by simp
    then have "log 2 \<bar>of_int n\<bar> < log 2 (2 ^ 53)" using 2(1) by (subst log_less_cancel_iff) auto
    moreover have "log 2 (2 ^ 53 :: real) = 53" by (subst log_nat_power) auto
    ultimately have "log 2 \<bar>of_int n\<bar> < 53" by linarith
    then have "ulp_exp (of_int n) \<le> 0" by (simp add: ulp_exp_def)
    then show ?thesis using fl_grid [of "of_int n" n 0] by simp
  next
    case 3
    have lg: "log 2 (2 ^ 53 :: real) = 53" by (subst log_nat_power) auto
    have "of_int \<bar>n\<bar> = real_of_int (2 ^ 53)" using 3 by (simp only:)
    then have abs: "\<bar>real_of_int n\<bar> = 2 ^ 53" by simp
    have "ulp_exp (of_int n) \<le> 53" unfolding ulp_exp_def abs lg by simp
    moreover have "real_of_int n = of_int (sgn n) * 2 powr of_int 53"
    proof -
      have "real_of_int n = of_int (sgn n) * \<bar>of_int n\<bar>" by (auto simp: sgn_if abs_if)
      also have "\<dots> = of_int (sgn n) * 2 powr of_int 53" unfolding abs by (simp add: powr_realpow flip: powr_numeral)
      finally show ?thesis .
    qed
    ultimately show ?thesis using fl_grid [of "of_int n" "sgn n" 53] by simp
  qed simp
qed

lemma fl_error:
  assumes "2 powr (-1022) \<le> \<bar>x\<bar>"
  shows "\<bar>fl x - x\<bar> \<le> 2 powr (-53) * \<bar>x\<bar>"
proof -
  define e where "e = ulp_exp x"
  have "(0::real) < 2 powr (-1022)" by simp
  with assms have x: "0 < \<bar>x\<bar>" by linarith
  have "-1022 \<le> log 2 \<bar>x\<bar>" using assms x by (simp add: le_log_iff)
  then have e: "e = \<lfloor>log 2 \<bar>x\<bar>\<rfloor> - 52" by (simp add: e_def ulp_exp_def) linarith
  have "fl x - x = (of_int (rne (x / 2 powr of_int e)) - x / 2 powr of_int e) * 2 powr of_int e"
    using x by (simp add: fl_def e_def algebra_simps)
  then have "\<bar>fl x - x\<bar> \<le> 1/2 * 2 powr of_int e"
    using rne_error [of "x / 2 powr of_int e"] by (simp add: abs_mult)
  also have "\<dots> = 2 powr (-53) * 2 powr of_int \<lfloor>log 2 \<bar>x\<bar>\<rfloor>"
  proof -
    have "real_of_int e = (-53 + of_int \<lfloor>log 2 \<bar>x\<bar>\<rfloor>) + 1" by (simp add: e)
    then show ?thesis by (simp only: powr_add) simp
  qed
  also have "\<dots> \<le> 2 powr (-53) * \<bar>x\<bar>"
    using floor_log_powr_le [OF x] by simp
  finally show ?thesis .
qed

section \<open>Values and operations\<close>

datatype f64 = Fin real | PInf | NInf | NaN

text \<open>The result of an exact operation: rounded, or an infinity beyond the largest exponent.\<close>

definition f64_round :: "real \<Rightarrow> f64" where
  "f64_round x = (if \<bar>fl x\<bar> < 2 ^ 1024 then Fin (fl x) else if 0 < x then PInf else NInf)"

text \<open>The conversion \<open>float64(n)\<close> of an integer.\<close>

definition f64_of_int :: "int \<Rightarrow> f64" where
  "f64_of_int n = f64_round (of_int n)"

fun f64_neg :: "f64 \<Rightarrow> f64" where
  "f64_neg (Fin x) = Fin (- x)"
| "f64_neg PInf = NInf"
| "f64_neg NInf = PInf"
| "f64_neg NaN = NaN"

fun f64_add :: "f64 \<Rightarrow> f64 \<Rightarrow> f64" where
  "f64_add (Fin x) (Fin y) = f64_round (x + y)"
| "f64_add NaN _ = NaN"
| "f64_add _ NaN = NaN"
| "f64_add PInf NInf = NaN"
| "f64_add NInf PInf = NaN"
| "f64_add PInf _ = PInf"
| "f64_add _ PInf = PInf"
| "f64_add NInf _ = NInf"
| "f64_add _ NInf = NInf"

definition f64_sub :: "f64 \<Rightarrow> f64 \<Rightarrow> f64" where
  "f64_sub a b = f64_add a (f64_neg b)"

text \<open>The sign of a value: \<open>1\<close>, \<open>-1\<close> or \<open>0\<close>, and an infinity of a given sign.\<close>

fun f64_sign :: "f64 \<Rightarrow> real" where
  "f64_sign (Fin x) = sgn x"
| "f64_sign PInf = 1"
| "f64_sign NInf = -1"
| "f64_sign NaN = 0"

definition f64_inf :: "real \<Rightarrow> f64" where
  "f64_inf s = (if 0 < s then PInf else if s < 0 then NInf else NaN)"

fun f64_mul :: "f64 \<Rightarrow> f64 \<Rightarrow> f64" where
  "f64_mul (Fin x) (Fin y) = f64_round (x * y)"
| "f64_mul NaN _ = NaN"
| "f64_mul _ NaN = NaN"
| "f64_mul a b = f64_inf (f64_sign a * f64_sign b)"

fun f64_div :: "f64 \<Rightarrow> f64 \<Rightarrow> f64" where
  "f64_div (Fin x) (Fin y) = (if y = 0 then f64_inf (sgn x) else f64_round (x / y))"
| "f64_div NaN _ = NaN"
| "f64_div _ NaN = NaN"
| "f64_div (Fin x) _ = Fin 0"
| "f64_div a (Fin y) = f64_inf (f64_sign a * (if y < 0 then -1 else 1))"
| "f64_div _ _ = NaN"

text \<open>Comparisons are false on NaN; \<open>math.Min\<close> and \<open>math.Ceil\<close> follow package \<open>math\<close>.\<close>

fun f64_le :: "f64 \<Rightarrow> f64 \<Rightarrow> bool" where
  "f64_le (Fin x) (Fin y) = (x \<le> y)"
| "f64_le NaN _ = False"
| "f64_le _ NaN = False"
| "f64_le NInf _ = True"
| "f64_le _ PInf = True"
| "f64_le _ _ = False"

fun math_Min :: "f64 \<Rightarrow> f64 \<Rightarrow> f64" where
  "math_Min NInf _ = NInf"
| "math_Min _ NInf = NInf"
| "math_Min NaN _ = NaN"
| "math_Min _ NaN = NaN"
| "math_Min a b = (if f64_le a b then a else b)"

fun math_Ceil :: "f64 \<Rightarrow> f64" where
  "math_Ceil (Fin x) = Fin (of_int \<lceil>x\<rceil>)"
| "math_Ceil a = a"

text \<open>
  The conversion \<open>int(f)\<close>: truncation toward zero.  A value outside the range of \<open>int64\<close>
  has an implementation-defined result; on amd64 it is the least integer.
\<close>

fun int_of_f64 :: "f64 \<Rightarrow> goint" where
  "int_of_f64 (Fin x) =
     (let n = (if 0 \<le> x then \<lfloor>x\<rfloor> else \<lceil>x\<rceil>)
      in if - (2 ^ 63) \<le> n \<and> n < 2 ^ 63 then word_of_int n else word_of_int (- (2 ^ 63)))"
| "int_of_f64 _ = word_of_int (- (2 ^ 63))"

lemma f64_round_of_int:
  assumes "\<bar>n\<bar> \<le> 2 ^ 53"
  shows "f64_round (of_int n) = Fin (of_int n)"
proof -
  have "\<bar>real_of_int n\<bar> \<le> 2 ^ 53" using assms by (metis of_int_abs of_int_le_iff of_int_numeral of_int_power)
  also have "\<dots> < (2 :: real) ^ 1024" by (rule power_strict_increasing) auto
  finally show ?thesis using assms by (simp add: f64_round_def)
qed

lemma f64_of_int_exact [simp]: "\<bar>n\<bar> \<le> 2 ^ 53 \<Longrightarrow> f64_of_int n = Fin (of_int n)"
  by (simp add: f64_of_int_def f64_round_of_int)

text \<open>A result between two small integers stays between them.\<close>

lemma f64_round_between:
  assumes "of_int m \<le> x" "x \<le> of_int n" "\<bar>m\<bar> \<le> 2 ^ 53" "\<bar>n\<bar> \<le> 2 ^ 53"
  shows "f64_round x = Fin (fl x) \<and> of_int m \<le> fl x \<and> fl x \<le> of_int n"
proof -
  have b: "of_int m \<le> fl x" "fl x \<le> of_int n"
    using fl_mono [OF assms(1)] fl_mono [OF assms(2)] assms(3,4) by simp_all
  have "\<bar>real_of_int m\<bar> \<le> 2 ^ 53" "\<bar>real_of_int n\<bar> \<le> 2 ^ 53"
    using assms(3,4) by (metis of_int_abs of_int_le_iff of_int_numeral of_int_power)+
  with b have "\<bar>fl x\<bar> \<le> 2 ^ 53" by linarith
  also have "\<dots> < (2 :: real) ^ 1024" by (rule power_strict_increasing) auto
  finally show ?thesis using b by (simp add: f64_round_def)
qed

text \<open>Powers of two are representable, so rounding respects bounds by them.\<close>

lemma fl_powr [simp]: "-1000 \<le> k \<Longrightarrow> fl (2 powr of_int k) = 2 powr of_int k"
  by (rule fl_grid [of _ 1 k]) (auto simp: ulp_exp_def)

lemma powr_below_max: "k \<le> 1000 \<Longrightarrow> 2 powr of_int k < (2::real) ^ 1024"
proof -
  assume "k \<le> 1000"
  then have "2 powr of_int k \<le> (2::real) powr real 1000" by (intro powr_mono) auto
  also have "\<dots> = 2 ^ 1000" by (rule powr_realpow) simp
  also have "\<dots> < 2 ^ 1024" by (rule power_strict_increasing) auto
  finally show ?thesis .
qed

lemma fl_between_powr:
  assumes "2 powr of_int j \<le> x" "x \<le> 2 powr of_int k" "-1000 \<le> j" "k \<le> 1000"
  shows "f64_round x = Fin (fl x)" "2 powr of_int j \<le> fl x" "fl x \<le> 2 powr of_int k"
proof -
  have jk: "j \<le> k" using order.trans [OF assms(1,2)] by simp
  show b: "2 powr of_int j \<le> fl x" "fl x \<le> 2 powr of_int k"
    using fl_mono [OF assms(1)] fl_mono [OF assms(2)] assms(3) jk by simp_all
  have "0 \<le> fl x" using b(1) powr_ge_zero [of 2 "of_int j"] by linarith
  then show "f64_round x = Fin (fl x)" using b(2) powr_below_max [OF assms(4)] by (simp add: f64_round_def)
qed

lemma f64_round_nonneg:
  assumes "0 \<le> x" "x \<le> 2 powr of_int k" "0 \<le> k" "k \<le> 1000"
  shows "f64_round x = Fin (fl x)" "0 \<le> fl x" "fl x \<le> 2 powr of_int k"
proof -
  show b: "0 \<le> fl x" "fl x \<le> 2 powr of_int k"
    using fl_nonneg [OF assms(1)] fl_mono [OF assms(2)] assms(3) by simp_all
  then show "f64_round x = Fin (fl x)" using powr_below_max [OF assms(4)] by (simp add: f64_round_def)
qed

lemma rne_bound: "\<bar>x\<bar> \<le> of_int n \<Longrightarrow> \<bar>rne x\<bar> \<le> n"
proof -
  assume "\<bar>x\<bar> \<le> of_int n"
  then have "x \<le> of_int n" "- x \<le> of_int n" by linarith+
  from rne_mono [OF this(1)] rne_mono [OF this(2)] show ?thesis by (simp add: rne_minus)
qed

text \<open>Rounding is idempotent.\<close>

lemma fl_grid_point:
  assumes "\<bar>m\<bar> \<le> 2 ^ 53" "-1074 \<le> e"
  shows "fl (of_int m * 2 powr of_int e) = of_int m * 2 powr of_int e"
proof -
  let ?y = "of_int m * 2 powr of_int e :: real"
  consider "m = 0" | "m \<noteq> 0" "\<bar>m\<bar> < 2 ^ 53" | "\<bar>m\<bar> = 2 ^ 53" using assms(1) by linarith
  then show ?thesis
  proof cases
    case 2
    have "log 2 \<bar>?y\<bar> = log 2 \<bar>of_int m\<bar> + of_int e" using 2(1) by (simp add: abs_mult log_mult)
    moreover have "log 2 \<bar>of_int m\<bar> < 53"
    proof -
      have "real_of_int \<bar>m\<bar> < of_int (2 ^ 53)" using 2(2) by (simp only: of_int_less_iff)
      then have "\<bar>real_of_int m\<bar> < 2 powr 53" by simp
      then show ?thesis using 2(1) by (simp add: log_less_iff)
    qed
    ultimately have "ulp_exp ?y \<le> e" using assms(2) by (simp add: ulp_exp_def)
    then show ?thesis by (intro fl_grid [of _ m e]) simp_all
  next
    case 3
    have "\<bar>real_of_int m\<bar> = 2 powr 53"
    proof -
      have "real_of_int \<bar>m\<bar> = of_int (2 ^ 53)" using 3 by (simp only:)
      then show ?thesis by simp
    qed
    then have "\<bar>?y\<bar> = 2 powr (53 + of_int e)" by (simp add: abs_mult powr_add)
    then have "ulp_exp ?y \<le> 53 + e" using assms(2) unfolding ulp_exp_def by simp
    moreover have "?y = of_int (sgn m) * 2 powr of_int (53 + e)"
    proof -
      have "real_of_int m = of_int (sgn m) * 2 powr 53" using \<open>\<bar>real_of_int m\<bar> = 2 powr 53\<close> by (auto simp: sgn_if abs_if)
      then show ?thesis by (simp add: powr_add)
    qed
    ultimately show ?thesis by (intro fl_grid [of _ "sgn m" "53 + e"]) simp_all
  qed simp
qed

lemma fl_fl [simp]: "fl (fl x) = fl x"
proof (cases "x = 0")
  case False
  let ?e = "ulp_exp x"
  have "\<bar>x\<bar> < 2 powr of_int (\<lfloor>log 2 \<bar>x\<bar>\<rfloor> + 1)" using False by (intro less_floor_log_powr) simp
  also have "\<dots> \<le> 2 powr of_int (53 + ?e)" by (simp add: ulp_exp_def)
  also have "\<dots> = 2 powr 53 * 2 powr of_int ?e" by (simp add: powr_add)
  finally have "\<bar>x / 2 powr of_int ?e\<bar> \<le> of_int (2 ^ 53)" by (simp add: abs_divide field_simps)
  then have "\<bar>rne (x / 2 powr of_int ?e)\<bar> \<le> 2 ^ 53" by (rule rne_bound)
  moreover have "-1074 \<le> ?e" by (simp add: ulp_exp_def)
  ultimately show ?thesis using False fl_grid_point by (simp add: fl_def)
qed simp

end
