(* ===== verification/Dto.thy ===== *)
theory Dto
  imports Errs Float64
begin

text \<open>
  Package \<open>internal/common/dto\<close>: the response envelope, the audit columns of responses and
  the paging types.  The payload of an envelope is a type parameter (the \<open>interface{}\<close> of
  the source); a nil payload is \<open>None\<close>.
\<close>

section \<open>The response envelope\<close>

record 'd ApiResponse =
  ar_Success :: bool
  ar_Message :: string
  ar_Data :: "'d option"
  ar_Errors :: "(string \<rightharpoonup> string) option"
  ar_Timestamp :: time
  ar_Status :: int

definition unwrap_data :: "'d option \<Rightarrow> 'd option" where
  "unwrap_data d = d"

definition OK :: "time \<Rightarrow> 'd option \<Rightarrow> 'd ApiResponse" where
  "OK now d = \<lparr>ar_Success = True, ar_Message = ''OK'', ar_Data = unwrap_data d, ar_Errors = None,
               ar_Timestamp = now, ar_Status = 200\<rparr>"

definition OKWithMessage :: "time \<Rightarrow> 'd option \<Rightarrow> string \<Rightarrow> 'd ApiResponse" where
  "OKWithMessage now d msg = (OK now d)\<lparr>ar_Message := msg\<rparr>"

definition Created :: "time \<Rightarrow> 'd option \<Rightarrow> 'd ApiResponse" where
  "Created now d = (OK now d)\<lparr>ar_Message := ''Created'', ar_Status := 201\<rparr>"

definition CreatedWithMessage :: "time \<Rightarrow> 'd option \<Rightarrow> string \<Rightarrow> 'd ApiResponse" where
  "CreatedWithMessage now d msg = (Created now d)\<lparr>ar_Message := msg\<rparr>"

definition NoContent :: "time \<Rightarrow> 'd ApiResponse" where
  "NoContent now = (OK now None)\<lparr>ar_Status := 204, ar_Message := ''''\<rparr>"

definition MessageResponse :: "time \<Rightarrow> string \<Rightarrow> 'd ApiResponse" where
  "MessageResponse now msg = (OK now None)\<lparr>ar_Message := msg\<rparr>"

definition ErrorResponse :: "time \<Rightarrow> int \<Rightarrow> string \<Rightarrow> (string \<rightharpoonup> string) option \<Rightarrow> 'd ApiResponse" where
  "ErrorResponse now status msg es =
     \<lparr>ar_Success = False, ar_Message = msg, ar_Data = None, ar_Errors = es, ar_Timestamp = now,
      ar_Status = (if status = 0 then 400 else status)\<rparr>"

lemmas envelope_defs = OK_def OKWithMessage_def Created_def CreatedWithMessage_def NoContent_def
  MessageResponse_def ErrorResponse_def unwrap_data_def

text \<open>The audit columns every entity response embeds.\<close>

record BaseResponse =
  br_CreatedAt :: time
  br_UpdatedAt :: time
  br_CreatedBy :: string
  br_UpdatedBy :: string
  br_DeletedAt :: "time option"
  br_DeletedBy :: string

section \<open>Paging\<close>

record PageRequest =
  pr_Page :: goint
  pr_Size :: goint
  pr_Sort :: string

definition Normalize :: "PageRequest \<Rightarrow> PageRequest" where
  "Normalize p =
     (let p = (if sint (pr_Page p) < 0 then p\<lparr>pr_Page := 0\<rparr> else p);
          p = (if sint (pr_Size p) \<le> 0 then p\<lparr>pr_Size := 20\<rparr> else p)
      in if sint (pr_Size p) > 200 then p\<lparr>pr_Size := 200\<rparr> else p)"

definition Offset :: "PageRequest \<Rightarrow> goint" where
  "Offset p = pr_Page p * pr_Size p"

definition Limit :: "PageRequest \<Rightarrow> goint" where
  "Limit p = pr_Size p"

record 't PageResponse =
  pg_Content :: "'t list"
  pg_Page :: goint
  pg_Size :: goint
  pg_TotalElements :: int
  pg_TotalPages :: goint
  pg_First :: bool
  pg_Last :: bool
  pg_Empty :: bool

definition total_pages :: "goint \<Rightarrow> int \<Rightarrow> goint" where
  "total_pages sz n =
     (if sint sz > 0
      then int_of_f64 (math_Ceil (f64_div (f64_of_int n) (f64_of_int (sint sz))))
      else 0)"

text \<open>A nil slice of rows is \<open>None\<close>.\<close>

definition NewPage :: "'t list option \<Rightarrow> PageRequest \<Rightarrow> int \<Rightarrow> 't PageResponse" where
  "NewPage content req n =
     (let content = (case content of None \<Rightarrow> [] | Some xs \<Rightarrow> xs);
          totalPages = total_pages (pr_Size req) n
      in \<lparr>pg_Content = content, pg_Page = pr_Page req, pg_Size = pr_Size req,
          pg_TotalElements = n, pg_TotalPages = totalPages,
          pg_First = (pr_Page req = 0),
          pg_Last = (sint (pr_Page req) \<ge> sint (totalPages - 1)),
          pg_Empty = (length content = 0)\<rparr>)"

definition MapPage :: "('s \<Rightarrow> 't) \<Rightarrow> 's PageResponse \<Rightarrow> 't PageResponse" where
  "MapPage f src =
     \<lparr>pg_Content = map f (pg_Content src), pg_Page = pg_Page src, pg_Size = pg_Size src,
      pg_TotalElements = pg_TotalElements src, pg_TotalPages = pg_TotalPages src,
      pg_First = pg_First src, pg_Last = pg_Last src, pg_Empty = pg_Empty src\<rparr>"

section \<open>Facts\<close>

lemma Normalize_range:
  "0 \<le> sint (pr_Page (Normalize p)) \<and> 1 \<le> sint (pr_Size (Normalize p)) \<and> sint (pr_Size (Normalize p)) \<le> 200"
  by (auto simp: Normalize_def Let_def)

lemma Normalize_idem: "Normalize (Normalize p) = Normalize p"
  using Normalize_range [of p] by (simp add: Normalize_def [of "Normalize p"])

lemma Normalize_id:
  "0 \<le> sint (pr_Page p) \<Longrightarrow> 1 \<le> sint (pr_Size p) \<Longrightarrow> sint (pr_Size p) \<le> 200 \<Longrightarrow> Normalize p = p"
  by (simp add: Normalize_def)

text \<open>The offset is the mathematical product exactly when the product fits an \<open>int\<close>.\<close>

lemma Offset_exact_iff:
  assumes "0 \<le> sint (pr_Page p)" "1 \<le> sint (pr_Size p)"
  shows "sint (Offset p) = sint (pr_Page p) * sint (pr_Size p)
         \<longleftrightarrow> sint (pr_Page p) * sint (pr_Size p) < 2 ^ 63"
proof
  assume "sint (Offset p) = sint (pr_Page p) * sint (pr_Size p)"
  then show "sint (pr_Page p) * sint (pr_Size p) < 2 ^ 63" using sint_range64(2) [of "Offset p"] by simp
next
  assume "sint (pr_Page p) * sint (pr_Size p) < 2 ^ 63"
  moreover have "0 \<le> sint (pr_Page p) * sint (pr_Size p)" using assms by simp
  ultimately show "sint (Offset p) = sint (pr_Page p) * sint (pr_Size p)"
    unfolding Offset_def by (simp add: sint_mult64)
qed

text \<open>
  The page count.  With at most \<open>2\<^sup>53\<close> elements the division of two \<open>float64\<close> values,
  rounded and then taken up to an integer, is the exact ceiling of the quotient.
\<close>

lemma ceil_div_bounds:
  fixes n s :: int
  assumes "0 < s" "0 \<le> n"
  defines "c \<equiv> (n + s - 1) div s"
  shows "0 \<le> c" "n \<le> c * s" "c * s < n + s" "c \<le> n"
proof -
  have "n + s - 1 = c * s + (n + s - 1) mod s" by (simp add: c_def)
  moreover have "0 \<le> (n + s - 1) mod s" "(n + s - 1) mod s < s" using assms(1) by simp_all
  ultimately show b: "n \<le> c * s" "c * s < n + s" by linarith+
  show "0 \<le> c" using assms by (simp add: c_def pos_imp_zdiv_nonneg_iff)
  show "c \<le> n"
  proof (rule ccontr)
    assume "\<not> c \<le> n"
    then have "(n + 1) * s \<le> c * s" using assms(1) by (intro mult_right_mono) auto
    moreover have "n \<le> n * s" using assms mult_left_mono [of 1 s n] by simp
    ultimately show False using b(2) by (simp add: algebra_simps)
  qed
qed

lemma fl_quotient_gt:
  fixes n sz k :: int
  assumes "0 < sz" "sz \<le> 2 ^ 53" "n < 2 ^ 53" "k * sz < n" "0 \<le> k"
  shows "real_of_int k < fl (of_int n / of_int sz)"
proof -
  let ?q = "real_of_int n / of_int sz"
  have s: "0 < real_of_int sz" "real_of_int sz \<le> 2 ^ 53"
    using assms(1,2) by (simp, metis of_int_le_iff of_int_numeral of_int_power)
  have "0 \<le> k * sz" using assms by simp
  then have t: "1 \<le> real_of_int n" using assms(4) by linarith
  have t53: "real_of_int n < 2 ^ 53" using assms(3) by (metis of_int_less_iff of_int_numeral of_int_power)
  have "of_int (k * sz + 1) \<le> real_of_int n" using assms(4) by linarith
  then have "(real_of_int k * of_int sz + 1) / of_int sz \<le> ?q"
    using s by (intro divide_right_mono) auto
  then have qk: "real_of_int k + 1 / of_int sz \<le> ?q" using s by (simp add: add_divide_distrib)
  have "(2::real) powr (-1022) \<le> 2 powr (-53)" by simp
  also have "\<dots> = 1 / 2 ^ 53" by (simp add: powr_minus_divide)
  also have "\<dots> \<le> ?q" using s t by (intro frac_le) auto
  finally have q: "2 powr (-1022) \<le> \<bar>?q\<bar>" by linarith
  have q0: "0 \<le> ?q" using s t by simp
  have "\<bar>fl ?q - ?q\<bar> \<le> 2 powr (-53) * ?q" using fl_error [OF q] unfolding abs_of_nonneg [OF q0] .
  also have "\<dots> = of_int n / 2 ^ 53 / of_int sz" by (simp add: powr_minus_divide)
  also have "\<dots> < 1 / of_int sz" using s t53 by (intro divide_strict_right_mono) auto
  finally show ?thesis using qk by linarith
qed

lemma ceiling_fl_quotient:
  fixes n sz :: int
  assumes "0 < sz" "sz \<le> 2 ^ 53" "0 \<le> n" "n < 2 ^ 53"
  shows "\<lceil>fl (of_int n / of_int sz)\<rceil> = (n + sz - 1) div sz"
proof -
  let ?q = "real_of_int n / of_int sz"
  define c where "c = (n + sz - 1) div sz"
  have c: "n \<le> c * sz" "c * sz < n + sz" and c0: "0 \<le> c" "c \<le> 2 ^ 53"
    using ceil_div_bounds [of sz n] assms by (simp_all add: c_def)
  have "of_int n \<le> real_of_int (c * sz)" using c(1) by (simp only: of_int_le_iff)
  then have "?q \<le> of_int c" using assms(1) by (simp add: pos_divide_le_eq)
  then have up: "fl ?q \<le> of_int c" using fl_mono [of ?q "of_int c"] c0 by simp
  have lo: "of_int c - 1 < fl ?q"
  proof (cases "c = 0")
    case True
    then have "n = 0" using c assms by simp
    then show ?thesis using True by simp
  next
    case False
    then have "real_of_int (c - 1) < fl ?q"
      using assms c c0 by (intro fl_quotient_gt) (auto simp: algebra_simps)
    then show ?thesis by simp
  qed
  from up lo show ?thesis unfolding c_def [symmetric] by (simp add: ceiling_eq_iff)
qed

lemma total_pages_exact:
  assumes "0 < sint sz" "sint sz \<le> 2 ^ 53" "0 \<le> n" "n < 2 ^ 53"
  shows "sint (total_pages sz n) = (n + sint sz - 1) div sint sz"
proof -
  obtain s where s: "s = sint sz" by simp
  let ?c = "(n + s - 1) div s" and ?q = "real_of_int n / of_int s"
  have sz: "0 < s" "s \<le> 2 ^ 53" using assms s by simp_all
  have q: "0 \<le> ?q" using assms sz by simp
  have "real_of_int n \<le> of_int n * of_int s"
    using assms sz mult_left_mono [of 1 "real_of_int s" "of_int n"] by simp
  then have "?q \<le> of_int n" using sz by (simp add: pos_divide_le_eq)
  then have r: "f64_round ?q = Fin (fl ?q)" "0 \<le> fl ?q" "fl ?q \<le> of_int n"
    using f64_round_between [of 0 ?q n] q assms by auto
  have c: "\<lceil>fl ?q\<rceil> = ?c" using assms sz by (intro ceiling_fl_quotient) auto
  have b: "0 \<le> ?c" "?c < 2 ^ 53" using ceil_div_bounds [of s n] assms sz by simp_all
  have "total_pages sz n = int_of_f64 (Fin (of_int ?c))"
    using assms r c sz by (simp add: total_pages_def flip: s)
  also have "\<dots> = word_of_int ?c" using b by simp
  finally show ?thesis using b unfolding s [symmetric] by (simp add: sint_word_of_int64)
qed

text \<open>
  The rows an SQL query with this offset and limit returns out of an ordered result: used by
  the contract of the database library and, here, to state what walking the pages gives.
\<close>

definition page_slice :: "goint \<Rightarrow> goint \<Rightarrow> 'a list \<Rightarrow> 'a list" where
  "page_slice off cnt xs = take (nat (sint cnt)) (drop (nat (sint off)) xs)"

lemma concat_slices: "concat (map (\<lambda>i. take s (drop (i * s) xs)) [0..<m]) = take (m * s) xs"
  by (induction m) (simp_all add: take_add add.commute [of s])

lemma page_request_slice:
  assumes "1 \<le> sint sz" "sint sz \<le> 200" "i < 2 ^ 53"
  shows "page_slice (Offset \<lparr>pr_Page = of_nat i, pr_Size = sz, pr_Sort = so\<rparr>)
           (Limit \<lparr>pr_Page = of_nat i, pr_Size = sz, pr_Sort = so\<rparr>) xs
         = take (nat (sint sz)) (drop (i * nat (sint sz)) xs)"
proof -
  let ?p = "\<lparr>pr_Page = of_nat i, pr_Size = sz, pr_Sort = so\<rparr>"
  have pg: "sint (of_nat i :: goint) = int i"
    using sint_word_of_int64 [of "int i"] assms(3) by simp
  have "int i * sint sz \<le> 2 ^ 53 * 200" using assms by (intro mult_mono) auto
  then have off: "sint (Offset ?p) = int i * sint sz"
    using Offset_exact_iff [of ?p] pg assms(1) by simp
  have "nat (sint (Offset ?p)) = i * nat (sint sz)"
    using assms(1) by (simp add: off nat_mult_distrib)
  then show ?thesis by (simp add: page_slice_def Limit_def)
qed

section \<open>Properties\<close>

text \<open>
  For every page request, after normalisation the offset sent to the database is
  \<open>page * size\<close> exactly when that product fits a 64-bit \<open>int\<close>; otherwise it has wrapped.
\<close>

theorem Normalize_Offset_exact_iff:
  "let p = Normalize req
   in sint (Offset p) = sint (pr_Page p) * sint (pr_Size p)
      \<longleftrightarrow> sint (pr_Page p) * sint (pr_Size p) < 2 ^ 63"
  using Normalize_range [of req] by (simp add: Let_def Offset_exact_iff)

text \<open>
  Reading the pages \<open>0 .. totalPages - 1\<close> that \<open>NewPage\<close> announces, each with the offset
  and limit of its page request, returns every row of an ordered result exactly once and in order.
\<close>

theorem page_walk_complete:
  fixes xs :: "'a list" and content :: "'b list option"
  assumes "1 \<le> sint sz" "sint sz \<le> 200" "int (length xs) < 2 ^ 53"
  shows "concat (map (\<lambda>i. let p = \<lparr>pr_Page = of_nat i, pr_Size = sz, pr_Sort = so\<rparr>
                          in page_slice (Offset p) (Limit p) xs)
               [0 ..< nat (sint (pg_TotalPages (NewPage content
                    \<lparr>pr_Page = pg, pr_Size = sz, pr_Sort = so\<rparr> (int (length xs)))))]) = xs"
proof -
  let ?s = "nat (sint sz)" and ?n = "length xs"
  define m where "m = nat (sint (total_pages sz (int ?n)))"
  have "sint (total_pages sz (int ?n)) = (int ?n + sint sz - 1) div sint sz"
    using assms by (intro total_pages_exact) auto
  then have m: "m \<le> ?n" "int ?n \<le> int m * sint sz"
    using ceil_div_bounds [of "sint sz" "int ?n"] assms(1) by (simp_all add: m_def)
  then have "int ?n \<le> int (m * ?s)" using assms(1) by simp
  then have "?n \<le> m * ?s" by linarith
  have "concat (map (\<lambda>i. let p = \<lparr>pr_Page = of_nat i, pr_Size = sz, pr_Sort = so\<rparr>
                          in page_slice (Offset p) (Limit p) xs) [0..<m])
        = concat (map (\<lambda>i. take ?s (drop (i * ?s) xs)) [0..<m])"
  proof (intro arg_cong [where f = concat] map_cong refl)
    fix i assume "i \<in> set [0..<m]"
    then have "i < 2 ^ 53" using m(1) assms(3) by simp
    then show "(let p = \<lparr>pr_Page = of_nat i, pr_Size = sz, pr_Sort = so\<rparr>
                in page_slice (Offset p) (Limit p) xs) = take ?s (drop (i * ?s) xs)"
      unfolding Let_def by (rule page_request_slice [OF assms(1,2)])
  qed
  also have "\<dots> = xs" using \<open>?n \<le> m * ?s\<close> by (simp add: concat_slices)
  finally show ?thesis by (simp add: NewPage_def Let_def m_def)
qed

theorem page_walk_complete_witness:
  "concat (map (\<lambda>i. let p = \<lparr>pr_Page = of_nat i, pr_Size = 2, pr_Sort = ''''\<rparr>
                    in page_slice (Offset p) (Limit p) [10, 20, 30, 40, 50 :: nat])
      [0 ..< nat (sint (pg_TotalPages (NewPage (Some [10 :: nat, 20])
           \<lparr>pr_Page = 0, pr_Size = 2, pr_Sort = ''''\<rparr> (int (length [10, 20, 30, 40, 50 :: nat])))))])
   = [10, 20, 30, 40, 50]"
  by (rule page_walk_complete) simp_all

end
