(* ===== verification/Gin.thy ===== *)
theory Gin
  imports Principal Dto
begin

text \<open>
  What the program sees and does of a \<open>gin.Context\<close>.  The request is read-only data.  The
  request-scoped keys and the abort flag are fields.  Everything the program asks gin to send
  is appended to the log \<open>c_Out\<close> in order, so no assumption on gin's writer is made.

  A handler works on a pair of the server state \<open>'w\<close> and the context.  A middleware takes the
  rest of the chain as an argument; calling it is \<open>c.Next()\<close>.
\<close>

text \<open>The dynamic types of values kept under a context key.\<close>

datatype any_val =
    AnyString string
  | AnyU64 uint64
  | AnyBool bool
  | AnyStrings "string list"
  | AnyPrincipal Principal
  | AnyTime time

text \<open>The values attached to the request's \<open>context.Context\<close>.\<close>

record request_context =
  rc_username :: "string option"
  rc_principal :: "Principal option"
  rc_fields :: "(string \<times> string) list"

datatype 'd effect =
    EJSON int "'d ApiResponse"
  | EStatus int
  | EBytes string
  | EHeader string string
  | EAbortJSON int string
  | EFile string

record 'd gin_context =
  c_Method :: string
  c_Path :: string
  c_RawQuery :: string
  c_Header :: "string \<Rightarrow> string"
  c_Param :: "string \<Rightarrow> string"
  c_Body :: string
  c_ClientIP :: string
  c_UserAgent :: string
  c_Context :: request_context
  c_Keys :: "string \<rightharpoonup> any_val"
  c_Out :: "'d effect list"
  c_Aborted :: bool

type_synonym ('w, 'd) handler = "'w \<times> 'd gin_context \<Rightarrow> 'w \<times> 'd gin_context"

definition send :: "'d effect \<Rightarrow> 'd gin_context \<Rightarrow> 'd gin_context" where
  "send e c = c\<lparr>c_Out := c_Out c @ [e]\<rparr>"

definition Abort :: "'d gin_context \<Rightarrow> 'd gin_context" where
  "Abort c = c\<lparr>c_Aborted := True\<rparr>"

definition SetKey :: "string \<Rightarrow> any_val \<Rightarrow> 'd gin_context \<Rightarrow> 'd gin_context" where
  "SetKey k v c = c\<lparr>c_Keys := (c_Keys c)(k \<mapsto> v)\<rparr>"

text \<open>The type assertions \<open>v.(string)\<close>, \<open>v.(uint64)\<close> and \<open>v.(bool)\<close> on a key.\<close>

definition GetString :: "string \<Rightarrow> 'd gin_context \<Rightarrow> string option" where
  "GetString k c = (case c_Keys c k of Some (AnyString s) \<Rightarrow> Some s | _ \<Rightarrow> None)"

definition GetU64 :: "string \<Rightarrow> 'd gin_context \<Rightarrow> uint64 option" where
  "GetU64 k c = (case c_Keys c k of Some (AnyU64 u) \<Rightarrow> Some u | _ \<Rightarrow> None)"

definition GetBool :: "string \<Rightarrow> 'd gin_context \<Rightarrow> bool option" where
  "GetBool k c = (case c_Keys c k of Some (AnyBool b) \<Rightarrow> Some b | _ \<Rightarrow> None)"

text \<open>
  Whether a body was sent, and the status that the log leaves on the response: the last
  positive code before the first body.
\<close>

fun writes_body :: "'d effect \<Rightarrow> bool" where
  "writes_body (EJSON _ _) = True"
| "writes_body (EBytes _) = True"
| "writes_body (EAbortJSON _ _) = True"
| "writes_body (EFile _) = True"
| "writes_body _ = False"

definition Written :: "'d gin_context \<Rightarrow> bool" where
  "Written c = list_ex writes_body (c_Out c)"

definition header_code :: "int \<Rightarrow> int option" where
  "header_code s = (if s > 0 then Some s else None)"

fun effect_status :: "'d effect \<Rightarrow> int option" where
  "effect_status (EJSON s _) = header_code s"
| "effect_status (EStatus s) = header_code s"
| "effect_status (EAbortJSON s _) = header_code s"
| "effect_status _ = None"

fun status_of :: "int \<Rightarrow> 'd effect list \<Rightarrow> int" where
  "status_of s [] = s"
| "status_of s (e # es) =
     (let s' = (case effect_status e of Some t \<Rightarrow> t | None \<Rightarrow> s)
      in if writes_body e then s' else status_of s' es)"

definition WriterStatus :: "'d gin_context \<Rightarrow> int" where
  "WriterStatus c = status_of 200 (c_Out c)"

lemmas gin_defs = send_def Abort_def SetKey_def GetString_def GetU64_def GetBool_def

lemma send_fields [simp]:
  "c_Out (send e c) = c_Out c @ [e]" "c_Aborted (send e c) = c_Aborted c"
  "c_Keys (send e c) = c_Keys c" "c_Context (send e c) = c_Context c"
  by (simp_all add: send_def)

lemma Abort_fields [simp]:
  "c_Out (Abort c) = c_Out c" "c_Aborted (Abort c)" "c_Keys (Abort c) = c_Keys c"
  "c_Context (Abort c) = c_Context c"
  by (simp_all add: Abort_def)

lemma SetKey_fields [simp]:
  "c_Out (SetKey k v c) = c_Out c" "c_Aborted (SetKey k v c) = c_Aborted c"
  "c_Keys (SetKey k v c) = (c_Keys c)(k \<mapsto> v)" "c_Context (SetKey k v c) = c_Context c"
  by (simp_all add: SetKey_def)

end
