(* ===== verification/Web.thy ===== *)
theory Web
  imports Gin
begin

text \<open>
  Package \<open>internal/common/web\<close>: the response writer, the handler wrapper with its error
  mapping, and the request-id, logging and recovery middleware.  \<open>cors.go\<close> is in theory
  \<open>Cors\<close>.
\<close>

section \<open>Writing a response\<close>

definition WriteResponse :: "'d ApiResponse option \<Rightarrow> 'd gin_context \<Rightarrow> 'd gin_context" where
  "WriteResponse r c =
     (case r of
        None \<Rightarrow> c
      | Some r \<Rightarrow>
          (let status = (if ar_Status r = 0 then 200 else ar_Status r)
           in if status = 204 then send (EStatus status) c else send (EJSON status r) c))"

section \<open>Errors\<close>

definition lowerFirst :: "string \<Rightarrow> string" where
  "lowerFirst s = (if s = '''' then s else ToLower (take 1 s) @ drop 1 s)"

definition humanReadable :: "field_error \<Rightarrow> string" where
  "humanReadable fe =
     (if fe_Tag fe = ''required'' then ''is required''
      else if fe_Tag fe = ''email'' then ''must be a well-formed email address''
      else if fe_Tag fe = ''min'' then ''must be at least '' @ fe_Param fe
      else if fe_Tag fe = ''max'' then ''must be at most '' @ fe_Param fe
      else if fe_Tag fe = ''len'' then ''must have length '' @ fe_Param fe
      else if fe_Tag fe = ''gte'' then ''must be greater than or equal to '' @ fe_Param fe
      else if fe_Tag fe = ''lte'' then ''must be less than or equal to '' @ fe_Param fe
      else if fe_Tag fe = ''oneof'' then ''must be one of: '' @ fe_Param fe
      else ''is invalid'')"

fun field_errors :: "field_error list \<Rightarrow> (string \<rightharpoonup> string) \<Rightarrow> (string \<rightharpoonup> string)" where
  "field_errors [] m = m"
| "field_errors (fe # fes) m = field_errors fes (m(lowerFirst (fe_Field fe) \<mapsto> humanReadable fe))"

text \<open>The envelope \<open>writeError\<close> sends for an error; logging is not represented.\<close>

definition error_envelope :: "time \<Rightarrow> go_error \<Rightarrow> 'd ApiResponse" where
  "error_envelope now err =
     (case As err of
        Some a \<Rightarrow> ErrorResponse now (ae_Status a) (ae_Message a) (ae_Errors a)
      | None \<Rightarrow>
          (case AsValidation err of
             Some ves \<Rightarrow> ErrorResponse now 400 ''Validation failed'' (Some (field_errors ves Map.empty))
           | None \<Rightarrow> ErrorResponse now 500 ''Internal server error'' None))"

definition writeError :: "time \<Rightarrow> go_error \<Rightarrow> 'd gin_context \<Rightarrow> 'd gin_context" where
  "writeError now err c = WriteResponse (Some (error_envelope now err)) c"

section \<open>The handler wrapper\<close>

type_synonym ('w, 'd) endpoint =
  "'w \<times> 'd gin_context \<Rightarrow> (go_error + 'd ApiResponse option) \<times> 'w \<times> 'd gin_context"

definition Handler :: "time \<Rightarrow> ('w, 'd) endpoint \<Rightarrow> ('w, 'd) handler" where
  "Handler now fn s =
     (case fn s of
        (Inl err, w, c) \<Rightarrow> (w, writeError now err c)
      | (Inr None, w, c) \<Rightarrow> (w, WriteResponse (Some (OK now None)) c)
      | (Inr (Some resp), w, c) \<Rightarrow> (w, WriteResponse (Some resp) c))"

text \<open>
  The endpoints of the modules return an envelope or an error and never write themselves; they
  are given as an operation on the server state that may read the context.
\<close>

definition endpoint :: "('d gin_context \<Rightarrow> ('w, go_error, 'd ApiResponse) op) \<Rightarrow> ('w, 'd) endpoint" where
  "endpoint f s = (case f (snd s) (fst s) of
                     (Inl e, w) \<Rightarrow> (Inl e, w, snd s)
                   | (Inr r, w) \<Rightarrow> (Inr (Some r), w, snd s))"

section \<open>Binding\<close>

text \<open>
  gin's binder and validator are third party: \<open>bind\<close> and \<open>bindq\<close> stand for \<open>ShouldBindJSON\<close> on
  the body and for what \<open>ShouldBindQuery\<close> leaves in the destination, whether or not it failed.
\<close>

definition BindJSON :: "(string \<Rightarrow> go_error + 'req) \<Rightarrow> 'd gin_context \<Rightarrow> go_error + 'req" where
  "BindJSON bind c = bind (c_Body c)"

definition BindPage :: "(string \<Rightarrow> PageRequest) \<Rightarrow> 'd gin_context \<Rightarrow> PageRequest" where
  "BindPage bindq c = Normalize (bindq (c_RawQuery c))"

text \<open>The path parameter \<open>:id\<close>; the five module handlers have the same helper.\<close>

definition parseID :: "'d gin_context \<Rightarrow> go_error + uint64" where
  "parseID c = (case ParseUint (c_Param c ''id'') of Some n \<Rightarrow> Inr n | None \<Rightarrow> Inl (BadRequest ''Invalid id''))"

section \<open>Middleware\<close>

definition CtxRequestID :: string where "CtxRequestID = ''request_id''"
definition CtxStart :: string where "CtxStart = ''request_start''"
definition requestIDHeader :: string where "requestIDHeader = ''X-Request-Id''"

definition RequestID :: "string \<Rightarrow> ('w, 'd) handler \<Rightarrow> ('w, 'd) handler" where
  "RequestID uuid next_h s =
     (let (w, c) = s;
          hid = c_Header c requestIDHeader;
          rid = (if hid = '''' then uuid else hid);
          c = SetKey CtxRequestID (AnyString rid) c;
          c = send (EHeader requestIDHeader rid) c
      in next_h (w, c))"

definition GetRequestID :: "'d gin_context \<Rightarrow> string" where
  "GetRequestID c = (case GetString CtxRequestID c of Some s \<Rightarrow> s | None \<Rightarrow> '''')"

datatype log_level = LInfo | LWarn | LError

record log_line =
  ll_level :: log_level
  ll_request_id :: string
  ll_method :: string
  ll_path :: string
  ll_query :: string
  ll_status :: int
  ll_latency :: duration
  ll_client_ip :: string
  ll_username :: "string option"

definition status_level :: "int \<Rightarrow> log_level" where
  "status_level status = (if status \<ge> 500 then LError else if status \<ge> 400 then LWarn else LInfo)"

text \<open>
  \<open>RequestLogging\<close>: the log is a list of lines in the server state.  Response size and
  \<open>c.Errors\<close>, which no code of the program fills, are left out of the line.
\<close>

definition RequestLogging ::
  "clock \<Rightarrow> ('w, 'd) handler \<Rightarrow> (log_line list \<times> 'w) \<times> 'd gin_context \<Rightarrow> (log_line list \<times> 'w) \<times> 'd gin_context" where
  "RequestLogging clk next_h s =
     (let ((logs, w), c) = s;
          start = clk 0;
          c = SetKey CtxStart (AnyTime start) c;
          rid = GetRequestID c;
          c = c\<lparr>c_Context := (c_Context c)\<lparr>rc_fields := rc_fields (c_Context c) @ [(''request_id'', rid)]\<rparr>\<rparr>;
          (w, c) = next_h (w, c);
          status = WriterStatus c;
          line = \<lparr>ll_level = status_level status, ll_request_id = rid, ll_method = c_Method c,
                  ll_path = c_Path c, ll_query = c_RawQuery c, ll_status = status,
                  ll_latency = clk 1 - start, ll_client_ip = c_ClientIP c,
                  ll_username = (case GetString ''username'' c of
                                   Some u \<Rightarrow> if u = '''' then None else Some u | None \<Rightarrow> None)\<rparr>
      in ((logs @ [line], w), c))"

text \<open>
  \<open>Recovery\<close>: the rest of the chain may panic; \<open>Some r\<close> is the recovered value, with the
  state and context as they were at the panic.
\<close>

definition Recovery ::
  "time \<Rightarrow> ('w \<times> 'd gin_context \<Rightarrow> string option \<times> 'w \<times> 'd gin_context) \<Rightarrow> ('w, 'd) handler" where
  "Recovery now next_h s =
     (case next_h s of
        (None, w, c) \<Rightarrow> (w, c)
      | (Some r, w, c) \<Rightarrow>
          (w, Abort (if \<not> Written c
                     then WriteResponse (Some (ErrorResponse now 500 ''Internal server error'' None)) c
                     else c)))"

section \<open>Facts\<close>

lemma WriteResponse_ErrorResponse [simp]:
  "status \<noteq> 204 \<Longrightarrow> WriteResponse (Some (ErrorResponse now status msg es)) c
     = send (EJSON (if status = 0 then 400 else status) (ErrorResponse now status msg es)) c"
  by (simp add: WriteResponse_def ErrorResponse_def Let_def)

lemma WriteResponse_keeps [simp]:
  "c_Aborted (WriteResponse r c) = c_Aborted c" "c_Keys (WriteResponse r c) = c_Keys c"
  "c_Context (WriteResponse r c) = c_Context c"
  by (auto simp: WriteResponse_def Let_def split: option.splits)

text \<open>Every run of a wrapped endpoint that does not itself write appends exactly one response.\<close>

lemma Handler_one_response:
  assumes "fn (w, c) = (r, w', c')" "c_Out c' = c_Out c"
  shows "\<exists>e. c_Out (snd (Handler now fn (w, c))) = c_Out c @ [e]"
  using assms by (auto simp: Handler_def WriteResponse_def writeError_def Let_def split: sum.splits option.splits)

lemma Handler_endpoint_ok:
  "f c w = (Inr r, w') \<Longrightarrow> Handler now (endpoint f) (w, c) = (w', WriteResponse (Some r) c)"
  by (simp add: Handler_def endpoint_def)

lemma Handler_endpoint_error:
  "f c w = (Inl e, w') \<Longrightarrow> Handler now (endpoint f) (w, c) = (w', writeError now e c)"
  by (simp add: Handler_def endpoint_def)

lemma parseID_Inr [simp]: "parseID c = Inr n \<longleftrightarrow> ParseUint (c_Param c ''id'') = Some n"
  by (simp add: parseID_def split: option.splits)

lemma field_errors_lookup:
  "field_errors fes m k =
     (case find (\<lambda>fe. lowerFirst (fe_Field fe) = k) (rev fes) of
        Some fe \<Rightarrow> Some (humanReadable fe) | None \<Rightarrow> m k)"
  by (induction fes arbitrary: m) (auto simp: find_snoc split: option.splits)

end
