(* ===== verification/Gorm.thy ===== *)
theory Gorm
  imports Dto
begin

text \<open>
  The interface of the database library (\<open>gorm.io/gorm\<close>, third party).  The program reaches
  its tables only through the operations of the record \<open>gorm\<close>, which every modelled operation
  takes as an argument; a \<open>Where\<close> clause is the predicate it denotes.

  What the program relies on is collected in the locales below, as documented by the library
  and by the constraints of \<open>migrations/\<close>: a query returns matching live rows, a failed
  statement leaves the table as it was, a created row gets a fresh positive key.  Reads are
  functions of the table; an operation may fail at any time unless a theorem asks for
  \<open>gorm_live\<close>.  An in-memory table satisfies every law (last section).
\<close>

record 'r table =
  rows :: "'r list"
  next_id :: nat

text \<open>
  \<open>db_Find\<close> takes the filter, the \<open>Order\<close> relation and an optional offset and limit;
  \<open>db_Updates\<close> the filter and the column assignment.  Writes return the row or the number of
  rows affected.
\<close>

record 'r gorm =
  db_First :: "('r \<Rightarrow> bool) \<Rightarrow> 'r table \<Rightarrow> db_error + 'r"
  db_Find :: "('r \<Rightarrow> bool) \<Rightarrow> ('r \<Rightarrow> 'r \<Rightarrow> bool) \<Rightarrow> (goint \<times> goint) option \<Rightarrow> 'r table \<Rightarrow> db_error + 'r list"
  db_Count :: "('r \<Rightarrow> bool) \<Rightarrow> 'r table \<Rightarrow> db_error + int"
  db_Create :: "'r \<Rightarrow> ('r table, db_error, 'r) op"
  db_Save :: "'r \<Rightarrow> ('r table, db_error, 'r) op"
  db_Updates :: "('r \<Rightarrow> bool) \<Rightarrow> ('r \<Rightarrow> 'r) \<Rightarrow> ('r table, db_error, int) op"
  db_Delete :: "('r \<Rightarrow> bool) \<Rightarrow> ('r table, db_error, int) op"

definition table_ok :: "('r \<Rightarrow> uint64) \<Rightarrow> ('r list \<Rightarrow> bool) \<Rightarrow> 'r table \<Rightarrow> bool" where
  "table_ok pk cons t =
     (distinct (map pk (rows t)) \<and> cons (rows t) \<and>
      list_all (\<lambda>r. 0 < unat (pk r) \<and> unat (pk r) < next_id t) (rows t))"

definition count_rows :: "('r \<Rightarrow> bool) \<Rightarrow> 'r list \<Rightarrow> int" where
  "count_rows P rs = int (length (filter P rs))"

text \<open>A database error as it reaches the program's \<open>error\<close> values.\<close>

definition dbE :: "('t, db_error, 'a) op \<Rightarrow> ('t, go_error, 'a) op" where
  "dbE m t = (case m t of (r, t') \<Rightarrow> (mapErr DbError r, t'))"

definition dbR :: "('t \<Rightarrow> db_error + 'a) \<Rightarrow> 't \<Rightarrow> go_error + 'a" where
  "dbR f t = mapErr DbError (f t)"

lemma dbE_Inr [op_simps, simp]: "dbE m t = (Inr x, t') \<longleftrightarrow> m t = (Inr x, t')"
  by (auto simp: dbE_def split: prod.splits)

lemma dbE_Inl [op_simps]: "dbE m t = (Inl e, t') \<longleftrightarrow> (\<exists>d. m t = (Inl d, t') \<and> e = DbError d)"
  by (auto simp: dbE_def split: prod.splits)

lemma dbR_Inr [op_simps, simp]: "dbR f t = Inr x \<longleftrightarrow> f t = Inr x"
  by (simp add: dbR_def)

lemma dbR_Inl [op_simps]: "dbR f t = Inl e \<longleftrightarrow> (\<exists>d. f t = Inl d \<and> e = DbError d)"
  by (simp add: dbR_def)

text \<open>A missing row is \<open>nil, nil\<close> in the source: \<open>Inr None\<close> here.\<close>

definition first_opt :: "('r gorm) \<Rightarrow> ('r \<Rightarrow> bool) \<Rightarrow> 'r table \<Rightarrow> go_error + 'r option" where
  "first_opt G P t =
     (case db_First G P t of
        Inl ErrRecordNotFound \<Rightarrow> Inr None
      | Inl err \<Rightarrow> Inl (DbError err)
      | Inr r \<Rightarrow> Inr (Some r))"

lemma first_opt_Inl: "first_opt G P t = Inl e \<Longrightarrow> \<exists>d. e = DbError d"
  by (auto simp: first_opt_def split: sum.splits db_error.splits)

text \<open>No \<open>Order\<close> clause: every order is acceptable.\<close>

definition unordered :: "'r \<Rightarrow> 'r \<Rightarrow> bool" where
  "unordered a b = True"

section \<open>The laws\<close>

text \<open>
  \<open>pk\<close> is the primary key, \<open>scope\<close> the default scope (live rows), \<open>filled\<close> what a created
  row may differ in from the value passed, \<open>touched\<close> what an update may change beside the
  columns assigned, \<open>cons\<close> the uniqueness constraints of the table.
\<close>

locale gorm_table =
  fixes G :: "'r gorm" and pk :: "'r \<Rightarrow> uint64" and scope :: "'r \<Rightarrow> bool"
    and filled :: "'r \<Rightarrow> 'r \<Rightarrow> bool" and touched :: "'r \<Rightarrow> 'r \<Rightarrow> bool" and cons :: "'r list \<Rightarrow> bool"
  assumes touched_pk: "touched r r' \<Longrightarrow> pk r' = pk r"
    and First_found: "db_First G P t = Inr r \<Longrightarrow> r \<in> set (rows t) \<and> scope r \<and> P r"
    and First_least: "db_First G P t = Inr r \<Longrightarrow> r' \<in> set (rows t) \<Longrightarrow> scope r' \<Longrightarrow> P r' \<Longrightarrow> pk r \<le> pk r'"
    and First_missing: "db_First G P t = Inl ErrRecordNotFound \<Longrightarrow> r \<in> set (rows t) \<Longrightarrow> scope r \<Longrightarrow> \<not> P r"
    and Find_rows: "db_Find G P ord pg t = Inr rs \<Longrightarrow>
        \<exists>ys. mset ys = mset (filter (\<lambda>r. scope r \<and> P r) (rows t))
           \<and> ((\<forall>a b. ord a b \<or> ord b a) \<longrightarrow> transp ord \<longrightarrow> sorted_wrt ord ys)
           \<and> rs = (case pg of None \<Rightarrow> ys | Some (off, cnt) \<Rightarrow> page_slice off cnt ys)"
    and Count_rows: "db_Count G P t = Inr n \<Longrightarrow> n = count_rows (\<lambda>r. scope r \<and> P r) (rows t)"
    and Create_ok: "db_Create G r t = (Inr r', t') \<Longrightarrow> pk r = 0 \<Longrightarrow>
        rows t' = rows t @ [r'] \<and> filled r r' \<and> cons (rows t')
        \<and> 0 < unat (pk r') \<and> next_id t \<le> unat (pk r') \<and> unat (pk r') < next_id t'"
    and Create_failed: "db_Create G r t = (Inl e, t') \<Longrightarrow> rows t' = rows t \<and> next_id t \<le> next_id t'"
    and Save_ok: "db_Save G r t = (Inr r', t') \<Longrightarrow> x \<in> set (rows t) \<Longrightarrow> scope x \<Longrightarrow> pk x = pk r \<Longrightarrow>
        touched r r' \<and> rows t' = map (\<lambda>y. if scope y \<and> pk y = pk r then r' else y) (rows t)
        \<and> next_id t' = next_id t \<and> cons (rows t')"
    and Save_failed: "db_Save G r t = (Inl e, t') \<Longrightarrow> t' = t"
    and Updates_ok: "db_Updates G P f t = (Inr n, t') \<Longrightarrow> (\<And>r. pk (f r) = pk r) \<Longrightarrow>
        list_all2 (\<lambda>r r'. if scope r \<and> P r then touched (f r) r' else r' = r) (rows t) (rows t')
        \<and> next_id t' = next_id t \<and> cons (rows t') \<and> n = count_rows (\<lambda>r. scope r \<and> P r) (rows t)"
    and Updates_failed: "db_Updates G P f t = (Inl e, t') \<Longrightarrow> t' = t"
    and Delete_failed: "db_Delete G P t = (Inl e, t') \<Longrightarrow> t' = t"
begin

text \<open>Keys stay distinct, positive and below the sequence, and constraints keep holding.\<close>

lemma Create_table_ok:
  assumes "table_ok pk cons t" "pk r = 0" "db_Create G r t = (res, t')"
  shows "table_ok pk cons t'"
proof (cases res)
  case (Inl e)
  then show ?thesis using assms Create_failed [of r t e t']
    by (auto simp: table_ok_def list_all_iff dest: bspec)
next
  case (Inr r')
  have "rows t' = rows t @ [r']" "cons (rows t')" "0 < unat (pk r')" "next_id t \<le> unat (pk r')"
    "unat (pk r') < next_id t'"
    using assms Inr Create_ok [of r t r' t'] by auto
  then show ?thesis using assms(1) by (fastforce simp: table_ok_def list_all_iff)
qed

lemma list_all2_pk:
  assumes "list_all2 (\<lambda>r r'. if scope r \<and> P r then touched (f r) r' else r' = r) xs ys"
    and "\<And>r. pk (f r) = pk r"
  shows "map pk ys = map pk xs"
  using assms(1) by (induction rule: list_all2_induct) (auto dest: touched_pk simp: assms(2) split: if_splits)

lemma table_ok_same_keys:
  assumes "table_ok pk cons t" "map pk (rows t') = map pk (rows t)" "next_id t' = next_id t" "cons (rows t')"
  shows "table_ok pk cons t'"
proof -
  have "list_all (\<lambda>k. 0 < unat k \<and> unat k < next_id t) (map pk (rows t'))"
    using assms(1) unfolding assms(2) by (simp add: table_ok_def list.pred_map comp_def)
  then have "list_all (\<lambda>r. 0 < unat (pk r) \<and> unat (pk r) < next_id t) (rows t')"
    by (simp only: list.pred_map comp_def)
  then show ?thesis using assms by (simp add: table_ok_def)
qed

lemma Updates_table_ok:
  assumes "table_ok pk cons t" "\<And>r. pk (f r) = pk r" "db_Updates G P f t = (res, t')"
  shows "table_ok pk cons t'"
proof (cases res)
  case (Inl e)
  then show ?thesis using assms Updates_failed [of P f t e t'] by auto
next
  case (Inr n)
  then show ?thesis
    using assms Updates_ok [of P f t n t'] list_all2_pk [of P f] table_ok_same_keys [of t t'] by auto
qed

lemma Save_table_ok:
  assumes "table_ok pk cons t" "x \<in> set (rows t)" "scope x" "pk x = pk r" "db_Save G r t = (res, t')"
  shows "table_ok pk cons t'"
proof (cases res)
  case (Inl e)
  then show ?thesis using assms Save_failed by auto
next
  case (Inr r')
  then have s: "touched r r'" "rows t' = map (\<lambda>y. if scope y \<and> pk y = pk r then r' else y) (rows t)"
    "next_id t' = next_id t" "cons (rows t')"
    using assms Save_ok [of r t r' t' x] by auto
  have "map pk (rows t') = map pk (rows t)" unfolding s(2) using touched_pk [OF s(1)] by auto
  then show ?thesis using assms(1) s table_ok_same_keys by blast
qed

lemma First_by_key:
  assumes "table_ok pk cons t" "r \<in> set (rows t)" "pk r = k" "db_First G (\<lambda>r. pk r = k) t = Inr r'"
  shows "r' = r"
proof -
  have "inj_on pk (set (rows t))" using assms(1) by (simp add: table_ok_def distinct_map)
  moreover have "r' \<in> set (rows t)" "pk r' = k" using First_found [OF assms(4)] by auto
  ultimately show ?thesis using assms(2,3) by (auto dest: inj_onD)
qed

lemma first_opt_Some: "first_opt G P t = Inr (Some r) \<Longrightarrow> r \<in> set (rows t) \<and> scope r \<and> P r"
  using First_found [of P t r] by (auto simp: first_opt_def split: sum.splits db_error.splits)

lemma first_opt_None: "first_opt G P t = Inr None \<Longrightarrow> r \<in> set (rows t) \<Longrightarrow> scope r \<Longrightarrow> \<not> P r"
  using First_missing [of P t r] by (auto simp: first_opt_def split: sum.splits db_error.splits)

end

text \<open>Tables without a soft-delete column: deletion removes the rows.\<close>

locale gorm_hard = gorm_table G pk "\<lambda>_. True" filled "(=)" cons
  for G :: "'r gorm" and pk filled cons +
  assumes Delete_rows: "db_Delete G P t = (Inr n, t') \<Longrightarrow>
      rows t' = filter (\<lambda>r. \<not> P r) (rows t) \<and> next_id t' = next_id t \<and> n = count_rows P (rows t)"
    and cons_filter: "cons rs \<Longrightarrow> cons (filter Q rs)"
begin

lemma Updates_rows:
  assumes "db_Updates G P f t = (Inr n, t')" "\<And>r. pk (f r) = pk r"
  shows "rows t' = map (\<lambda>r. if P r then f r else r) (rows t)" "next_id t' = next_id t"
proof -
  have "list_all2 (\<lambda>r r'. r' = (if P r then f r else r)) (rows t) (rows t') \<and> next_id t' = next_id t"
    using Updates_ok [OF assms] by (auto elim!: list_all2_mono split: if_splits)
  then show "rows t' = map (\<lambda>r. if P r then f r else r) (rows t)" "next_id t' = next_id t"
    by (simp_all add: list_all2_rel_map)
qed

lemma Delete_table_ok:
  assumes "table_ok pk cons t" "db_Delete G P t = (res, t')"
  shows "table_ok pk cons t'"
proof (cases res)
  case (Inl e)
  then show ?thesis using assms Delete_failed by auto
next
  case (Inr n)
  then show ?thesis using assms Delete_rows [of P t n t'] cons_filter
    by (auto simp: table_ok_def distinct_map inj_on_def list_all_iff)
qed

end

text \<open>
  Tables of entities that embed \<open>BaseModel\<close>: deletion marks the row, which then leaves the
  default scope.  \<open>dropped\<close> is what a marked row may differ in.
\<close>

locale gorm_soft = gorm_table G pk scope filled touched cons
  for G :: "'r gorm" and pk scope filled touched cons +
  fixes dropped :: "'r \<Rightarrow> 'r \<Rightarrow> bool"
  assumes dropped_out: "dropped r r' \<Longrightarrow> \<not> scope r' \<and> pk r' = pk r"
    and touched_scope: "touched r r' \<Longrightarrow> scope r' = scope r"
    and filled_scope: "filled r r' \<Longrightarrow> scope r' = scope r"
    and Delete_marks: "db_Delete G P t = (Inr n, t') \<Longrightarrow>
      list_all2 (\<lambda>r r'. if scope r \<and> P r then dropped r r' else r' = r) (rows t) (rows t')
      \<and> next_id t' = next_id t \<and> (cons (rows t) \<longrightarrow> cons (rows t'))
      \<and> n = count_rows (\<lambda>r. scope r \<and> P r) (rows t)"
begin

lemma Delete_table_ok:
  assumes "table_ok pk cons t" "db_Delete G P t = (res, t')"
  shows "table_ok pk cons t'"
proof (cases res)
  case (Inl e)
  then show ?thesis using assms Delete_failed by auto
next
  case (Inr n)
  then have d: "list_all2 (\<lambda>r r'. if scope r \<and> P r then dropped r r' else r' = r) (rows t) (rows t')"
    "next_id t' = next_id t" "cons (rows t')"
    using assms Delete_marks [of P t n t'] by (auto simp: table_ok_def)
  have "map pk (rows t') = map pk (rows t)"
    using d(1) by (induction rule: list_all2_induct) (auto dest: dropped_out split: if_splits)
  then show ?thesis using assms(1) d table_ok_same_keys by blast
qed

lemma Delete_live_rows:
  assumes "db_Delete G P t = (Inr n, t')"
  shows "filter scope (rows t') = filter (\<lambda>r. scope r \<and> \<not> P r) (rows t)"
proof -
  have "list_all2 (\<lambda>r r'. if scope r \<and> P r then dropped r r' else r' = r) (rows t) (rows t')"
    using Delete_marks [OF assms] by simp
  then show ?thesis by (induction rule: list_all2_induct) (auto dest: dropped_out split: if_splits)
qed

lemma Delete_gone:
  assumes "db_Delete G P t = (Inr n, t')" "r \<in> set (rows t')" "scope r"
  shows "r \<in> set (rows t) \<and> \<not> P r"
  using list_all2_setD2 [OF conjunct1 [OF Delete_marks [OF assms(1)]] assms(2)] assms(3)
  by (auto dest: dropped_out split: if_splits)

end

text \<open>A connection on which statements succeed unless they must fail.\<close>

locale gorm_live = gorm_table +
  assumes First_live: "r \<in> set (rows t) \<Longrightarrow> scope r \<Longrightarrow> P r \<Longrightarrow> \<exists>r'. db_First G P t = Inr r'"
    and First_none: "(\<And>r. r \<in> set (rows t) \<Longrightarrow> scope r \<Longrightarrow> \<not> P r) \<Longrightarrow> db_First G P t = Inl ErrRecordNotFound"
    and Find_live: "\<exists>rs. db_Find G P ord pg t = Inr rs"
    and Count_live: "\<exists>n. db_Count G P t = Inr n"
    and Create_live: "pk r = 0 \<Longrightarrow> next_id t < 2 ^ 63 \<Longrightarrow> (\<And>r'. filled r r' \<Longrightarrow> cons (rows t @ [r'])) \<Longrightarrow>
        \<exists>r' t'. db_Create G r t = (Inr r', t')"
    and Save_live: "x \<in> set (rows t) \<Longrightarrow> scope x \<Longrightarrow> pk x = pk r \<Longrightarrow>
        (\<And>r'. touched r r' \<Longrightarrow> cons (map (\<lambda>y. if scope y \<and> pk y = pk r then r' else y) (rows t))) \<Longrightarrow>
        \<exists>r' t'. db_Save G r t = (Inr r', t')"
    and Updates_live: "(\<And>r. pk (f r) = pk r) \<Longrightarrow>
        (\<And>rs. list_all2 (\<lambda>r r'. if scope r \<and> P r then touched (f r) r' else r' = r) (rows t) rs \<Longrightarrow> cons rs) \<Longrightarrow>
        \<exists>n t'. db_Updates G P f t = (Inr n, t')"
    and Delete_live: "\<exists>n t'. db_Delete G P t = (Inr n, t')"

section \<open>An in-memory table\<close>

text \<open>
  \<open>setpk\<close> writes the key of a created row; \<open>del\<close> is what remains of a deleted row (nothing,
  or the marked row).
\<close>

fun insert_by :: "('r \<Rightarrow> 'r \<Rightarrow> bool) \<Rightarrow> 'r \<Rightarrow> 'r list \<Rightarrow> 'r list" where
  "insert_by ord x [] = [x]"
| "insert_by ord x (y # ys) = (if ord x y then x # y # ys else y # insert_by ord x ys)"

definition sort_by :: "('r \<Rightarrow> 'r \<Rightarrow> bool) \<Rightarrow> 'r list \<Rightarrow> 'r list" where
  "sort_by ord xs = foldr (insert_by ord) xs []"

definition mem_gorm ::
  "('r \<Rightarrow> uint64) \<Rightarrow> (uint64 \<Rightarrow> 'r \<Rightarrow> 'r) \<Rightarrow> ('r \<Rightarrow> bool) \<Rightarrow> ('r \<Rightarrow> 'r option) \<Rightarrow> ('r list \<Rightarrow> bool) \<Rightarrow> 'r gorm" where
  "mem_gorm pk setpk scope del cons =
     \<lparr>db_First = (\<lambda>P t. case sort_by (\<lambda>a b. pk a \<le> pk b) (filter (\<lambda>r. scope r \<and> P r) (rows t)) of
                          [] \<Rightarrow> Inl ErrRecordNotFound | r # _ \<Rightarrow> Inr r),
      db_Find = (\<lambda>P ord pg t. let ys = sort_by ord (filter (\<lambda>r. scope r \<and> P r) (rows t))
                   in Inr (case pg of None \<Rightarrow> ys | Some (off, cnt) \<Rightarrow> page_slice off cnt ys)),
      db_Count = (\<lambda>P t. Inr (count_rows (\<lambda>r. scope r \<and> P r) (rows t))),
      db_Create = (\<lambda>r t. let r' = setpk (of_nat (max 1 (next_id t))) r
                   in if next_id t < 2 ^ 63 \<and> cons (rows t @ [r'])
                      then (Inr r', \<lparr>rows = rows t @ [r'], next_id = Suc (max 1 (next_id t))\<rparr>)
                      else (Inl (DbFailure ''insert''), t)),
      db_Save = (\<lambda>r t. let rs = map (\<lambda>y. if scope y \<and> pk y = pk r then r else y) (rows t)
                   in if cons rs then (Inr r, t\<lparr>rows := rs\<rparr>) else (Inl (DbFailure ''update''), t)),
      db_Updates = (\<lambda>P f t. let rs = map (\<lambda>r. if scope r \<and> P r then f r else r) (rows t)
                   in if cons rs then (Inr (count_rows (\<lambda>r. scope r \<and> P r) (rows t)), t\<lparr>rows := rs\<rparr>)
                      else (Inl (DbFailure ''update''), t)),
      db_Delete = (\<lambda>P t. (Inr (count_rows (\<lambda>r. scope r \<and> P r) (rows t)),
                   t\<lparr>rows := List.map_filter (\<lambda>r. if scope r \<and> P r then del r else Some r) (rows t)\<rparr>))\<rparr>"

lemma mset_insert_by [simp]: "mset (insert_by ord x ys) = add_mset x (mset ys)"
  by (induction ys) auto

lemma mset_sort_by [simp]: "mset (sort_by ord xs) = mset xs"
  by (induction xs) (auto simp: sort_by_def)

lemma set_insert_by [simp]: "set (insert_by ord x ys) = insert x (set ys)"
  by (induction ys) auto

lemma set_sort_by [simp]: "set (sort_by ord xs) = set xs"
  by (metis mset_sort_by set_mset_mset)

lemma sort_by_Nil: "sort_by ord xs = [] \<longleftrightarrow> xs = []"
  by (metis set_sort_by set_empty)

lemma sorted_insert_by:
  assumes "\<And>a b. ord a b \<or> ord b a" "transp ord" "sorted_wrt ord ys"
  shows "sorted_wrt ord (insert_by ord x ys)"
  using assms(3)
proof (induction ys)
  case (Cons y ys)
  then show ?case using assms(1) [of x y] assms(1) [of y y] transpD [OF assms(2), of x y] by auto
qed simp

lemma sorted_sort_by:
  assumes "\<And>a b. ord a b \<or> ord b a" "transp ord"
  shows "sorted_wrt ord (sort_by ord xs)"
  by (induction xs) (auto simp: sort_by_def intro: sorted_insert_by [OF assms])

lemma mem_First:
  "db_First (mem_gorm pk setpk scope del cons) P t = Inr r \<Longrightarrow>
     r \<in> set (rows t) \<and> scope r \<and> P r \<and> (\<forall>r' \<in> set (rows t). scope r' \<and> P r' \<longrightarrow> pk r \<le> pk r')"
proof -
  assume a: "db_First (mem_gorm pk setpk scope del cons) P t = Inr r"
  let ?fs = "filter (\<lambda>r. scope r \<and> P r) (rows t)" and ?ord = "\<lambda>a b. pk a \<le> pk b"
  obtain rs where rs: "sort_by ?ord ?fs = r # rs"
    using a by (auto simp: mem_gorm_def split: list.splits)
  have "set (sort_by ?ord ?fs) = set ?fs" by (rule set_sort_by)
  then have s: "set ?fs = insert r (set rs)" unfolding rs by simp
  have "sorted_wrt ?ord (r # rs)"
    unfolding rs [symmetric] by (rule sorted_sort_by) (auto simp: transp_def)
  then have le: "\<And>r'. r' \<in> set ?fs \<Longrightarrow> pk r \<le> pk r'" unfolding s by auto
  have "r \<in> set ?fs" unfolding s by simp
  then show ?thesis using le by simp
qed

lemma mem_First_none:
  "db_First (mem_gorm pk setpk scope del cons) P t = Inl e \<longleftrightarrow>
     e = ErrRecordNotFound \<and> filter (\<lambda>r. scope r \<and> P r) (rows t) = []"
proof -
  let ?fs = "filter (\<lambda>r. scope r \<and> P r) (rows t)" and ?ord = "\<lambda>a b. pk a \<le> pk b"
  have "sort_by ?ord ?fs = [] \<longleftrightarrow> ?fs = []" by (rule sort_by_Nil)
  then show ?thesis by (auto simp: mem_gorm_def split: list.splits)
qed

lemma mem_gorm_table:
  assumes "\<And>r k. filled r (setpk k r)" "\<And>r k. pk (setpk k r) = k" "\<And>r. touched r r"
    and "\<And>r r'. touched r r' \<Longrightarrow> pk r' = pk r"
  shows "gorm_table (mem_gorm pk setpk scope del cons) pk scope filled touched cons"
proof (unfold_locales, goal_cases)
  case (1 r r') then show ?case by (rule assms(4))
next
  case (2 P t r) then show ?case using mem_First [OF 2] by simp
next
  case (3 P t r r') then show ?case using mem_First [OF 3(1)] by simp
next
  case (4 P t r) then show ?case by (simp add: mem_First_none filter_empty_conv)
next
  case (5 P ord pg t rs)
  then show ?case
    by (intro exI [of _ "sort_by ord (filter (\<lambda>r. scope r \<and> P r) (rows t))"])
       (auto simp: mem_gorm_def Let_def sorted_sort_by)
next
  case (6 P t n) then show ?case by (simp add: mem_gorm_def)
next
  case (7 r t r' t')
  let ?k = "max 1 (next_id t)"
  from 7 have c: "next_id t < 2 ^ 63" "r' = setpk (of_nat ?k) r" "cons (rows t @ [r'])"
    "t' = \<lparr>rows = rows t @ [r'], next_id = Suc ?k\<rparr>"
    by (auto simp: mem_gorm_def Let_def split: if_splits)
  have "unat (of_nat ?k :: uint64) = ?k" using c(1) by (simp add: unat_of_nat take_bit_nat_eq_self)
  then show ?case using c assms by (simp add: max_def split: if_splits)
next
  case (8 r t e t') then show ?case by (auto simp: mem_gorm_def Let_def split: if_splits)
next
  case (9 r t r' t' x) then show ?case using assms(3) by (auto simp: mem_gorm_def Let_def split: if_splits)
next
  case (10 r t e t') then show ?case by (auto simp: mem_gorm_def Let_def split: if_splits)
next
  case (11 P f t n t')
  then show ?case using assms(3)
    by (auto simp: mem_gorm_def Let_def list_all2_conv_all_nth split: if_splits)
next
  case (12 P f t e t') then show ?case by (auto simp: mem_gorm_def Let_def split: if_splits)
next
  case (13 P t e t') then show ?case by (simp add: mem_gorm_def)
qed

lemma mem_gorm_hard:
  assumes "\<And>r k. filled r (setpk k r)" "\<And>r k. pk (setpk k r) = k"
    and "\<And>rs Q. cons rs \<Longrightarrow> cons (filter Q rs)"
  shows "gorm_hard (mem_gorm pk setpk (\<lambda>_. True) (\<lambda>_. None) cons) pk filled cons"
proof -
  have mf: "List.map_filter (\<lambda>r. if P r then None else Some r) rs = filter (\<lambda>r. \<not> P r) rs" for P rs
    by (induction rs) (auto simp: List.map_filter_def)
  show ?thesis
    unfolding gorm_hard_def gorm_hard_axioms_def
    using mem_gorm_table [of filled setpk pk "(=)" "\<lambda>_. True" "\<lambda>_. None" cons] assms mf
    by (auto simp: mem_gorm_def)
qed

lemma mem_gorm_soft:
  assumes "\<And>r k. filled r (setpk k r)" "\<And>r k. pk (setpk k r) = k" "\<And>r. touched r r"
    and "\<And>r r'. touched r r' \<Longrightarrow> pk r' = pk r \<and> scope r' = scope r"
    and "\<And>r r'. filled r r' \<Longrightarrow> scope r' = scope r"
    and "\<And>r. dropped r (mark r)" "\<And>r r'. dropped r r' \<Longrightarrow> \<not> scope r' \<and> pk r' = pk r"
    and "\<And>rs P. cons rs \<Longrightarrow> cons (map (\<lambda>r. if P r then mark r else r) rs)"
  shows "gorm_soft (mem_gorm pk setpk scope (Some \<circ> mark) cons) pk scope filled touched cons dropped"
proof -
  let ?del = "\<lambda>P r. if scope r \<and> P r then (Some \<circ> mark) r else Some r"
  have mf: "List.map_filter (?del P) rs = map (\<lambda>r. if scope r \<and> P r then mark r else r) rs" for P rs
    by (induction rs) (auto simp: List.map_filter_def)
  have "gorm_table (mem_gorm pk setpk scope (Some \<circ> mark) cons) pk scope filled touched cons"
    by (rule mem_gorm_table) (use assms in auto)
  then show ?thesis
    unfolding gorm_soft_def gorm_soft_axioms_def
    using assms(4-8) by (auto simp: mem_gorm_def mf list_all2_conv_all_nth)
qed

lemma mem_gorm_live:
  assumes "gorm_table (mem_gorm pk setpk scope del cons) pk scope filled touched cons"
    and "\<And>r k. filled r (setpk k r)" "\<And>r. touched r r"
  shows "gorm_live (mem_gorm pk setpk scope del cons) pk scope filled touched cons"
proof (intro gorm_live.intro gorm_live_axioms.intro assms(1), goal_cases)
  case (1 r t P)
  then show ?case using mem_First_none [of pk setpk scope del cons P t]
    by (cases "db_First (mem_gorm pk setpk scope del cons) P t") (auto simp: filter_empty_conv)
next
  case (2 t P)
  then show ?case by (simp add: mem_First_none filter_empty_conv)
next
  case (5 r t)
  then show ?case using assms(2) by (auto simp: mem_gorm_def Let_def)
next
  case (6 x t r)
  then show ?case using assms(3) by (auto simp: mem_gorm_def Let_def)
next
  case (7 f P t)
  have "list_all2 (\<lambda>r r'. if scope r \<and> P r then touched (f r) r' else r' = r) (rows t)
          (map (\<lambda>r. if scope r \<and> P r then f r else r) (rows t))"
    using assms(3) by (simp add: list_all2_conv_all_nth)
  then show ?case using 7 by (auto simp: mem_gorm_def Let_def)
qed (auto simp: mem_gorm_def Let_def)

end
