(* ===== verification/BaseModel.thy ===== *)
theory BaseModel
  imports Gorm Gin
begin

text \<open>
  Package \<open>internal/common/audit\<close>: the columns every entity embeds, the request-scoped
  username, and the callbacks that copy it into the blame columns before a statement runs.
  Entities extend the record, so the callbacks and the laws of the soft-delete tables are
  stated once for all of them.
\<close>

record BaseModel =
  bm_ID :: uint64
  bm_CreatedAt :: time
  bm_UpdatedAt :: time
  bm_CreatedBy :: string
  bm_UpdatedBy :: string
  bm_DeletedAt :: "time option"
  bm_DeletedBy :: string
  bm_Version :: uint64

text \<open>The zero value of the embedded struct.\<close>

definition zero_base :: "'a \<Rightarrow> 'a BaseModel_scheme" where
  "zero_base ext = \<lparr>bm_ID = 0, bm_CreatedAt = 0, bm_UpdatedAt = 0, bm_CreatedBy = '''', bm_UpdatedBy = '''',
                    bm_DeletedAt = None, bm_DeletedBy = '''', bm_Version = 0, \<dots> = ext\<rparr>"

definition MarkDeleted :: "time \<Rightarrow> string \<Rightarrow> 'a BaseModel_scheme \<Rightarrow> 'a BaseModel_scheme" where
  "MarkDeleted now by_user b = b\<lparr>bm_DeletedAt := Some now, bm_DeletedBy := by_user\<rparr>"

definition Restore :: "'a BaseModel_scheme \<Rightarrow> 'a BaseModel_scheme" where
  "Restore b = b\<lparr>bm_DeletedAt := None, bm_DeletedBy := ''''\<rparr>"

text \<open>The audit columns of a response, copied the same way by every module.\<close>

definition base_response :: "'a BaseModel_scheme \<Rightarrow> BaseResponse" where
  "base_response p =
     \<lparr>br_CreatedAt = bm_CreatedAt p, br_UpdatedAt = bm_UpdatedAt p, br_CreatedBy = bm_CreatedBy p,
      br_UpdatedBy = bm_UpdatedBy p, br_DeletedAt = bm_DeletedAt p,
      br_DeletedBy = (case bm_DeletedAt p of None \<Rightarrow> '''' | Some _ \<Rightarrow> bm_DeletedBy p)\<rparr>"

section \<open>The username of a request\<close>

definition SetUsernameOnContext :: "string \<Rightarrow> request_context \<Rightarrow> request_context" where
  "SetUsernameOnContext username ctx = (if username = '''' then ctx else ctx\<lparr>rc_username := Some username\<rparr>)"

text \<open>A nil context is \<open>None\<close>.\<close>

definition usernameFromContext :: "request_context option \<Rightarrow> string" where
  "usernameFromContext ctx =
     (case ctx of
        None \<Rightarrow> ''''
      | Some c \<Rightarrow> (case rc_username c of Some v \<Rightarrow> if v \<noteq> '''' then v else ''system'' | None \<Rightarrow> ''system''))"

definition setCreatedBy :: "request_context option \<Rightarrow> 'a BaseModel_scheme \<Rightarrow> 'a BaseModel_scheme" where
  "setCreatedBy ctx r = (let user = usernameFromContext ctx in r\<lparr>bm_CreatedBy := user, bm_UpdatedBy := user\<rparr>)"

definition setUpdatedBy :: "request_context option \<Rightarrow> 'a BaseModel_scheme \<Rightarrow> 'a BaseModel_scheme" where
  "setUpdatedBy ctx r = (let user = usernameFromContext ctx in r\<lparr>bm_UpdatedBy := user\<rparr>)"

definition setDeletedBy :: "request_context option \<Rightarrow> 'a BaseModel_scheme \<Rightarrow> 'a BaseModel_scheme" where
  "setDeletedBy ctx r = (let user = usernameFromContext ctx in r\<lparr>bm_DeletedBy := user\<rparr>)"

text \<open>
  \<open>RegisterCallbacks\<close>: \<open>register\<close> stands for the registration of a hook before one of GORM's own
  callbacks.  The first registration that fails ends it.
\<close>

datatype callback_point = BeforeCreate | BeforeUpdate | BeforeDelete

type_synonym callback = "request_context option \<Rightarrow> BaseModel \<Rightarrow> BaseModel"

definition RegisterCallbacks :: "(callback_point \<Rightarrow> string \<Rightarrow> callback \<Rightarrow> go_error option) \<Rightarrow> go_error option" where
  "RegisterCallbacks register =
     (case register BeforeCreate ''audit:set_created_by'' setCreatedBy of
        Some err \<Rightarrow> Some err
      | None \<Rightarrow>
          (case register BeforeUpdate ''audit:set_updated_by'' setUpdatedBy of
             Some err \<Rightarrow> Some err
           | None \<Rightarrow>
               (case register BeforeDelete ''audit:set_deleted_by'' setDeletedBy of
                  Some err \<Rightarrow> Some err
                | None \<Rightarrow> None)))"

section \<open>Tables of entities\<close>

text \<open>
  What the library may set beside the program: on insert the key and the two timestamps, on
  update \<open>updated_at\<close>, on delete the deletion columns.
\<close>

definition base_live :: "'a BaseModel_scheme \<Rightarrow> bool" where
  "base_live r = (bm_DeletedAt r = None)"

definition base_filled :: "'a BaseModel_scheme \<Rightarrow> 'a BaseModel_scheme \<Rightarrow> bool" where
  "base_filled r r' = (\<exists>k a b. r' = r\<lparr>bm_ID := k, bm_CreatedAt := a, bm_UpdatedAt := b\<rparr>)"

definition base_touched :: "'a BaseModel_scheme \<Rightarrow> 'a BaseModel_scheme \<Rightarrow> bool" where
  "base_touched r r' = (\<exists>b. r' = r\<lparr>bm_UpdatedAt := b\<rparr>)"

definition base_dropped :: "'a BaseModel_scheme \<Rightarrow> 'a BaseModel_scheme \<Rightarrow> bool" where
  "base_dropped r r' = (\<exists>d u b. r' = r\<lparr>bm_DeletedAt := Some d, bm_DeletedBy := u, bm_UpdatedAt := b\<rparr>)"

lemmas base_rel_defs = base_live_def base_filled_def base_touched_def base_dropped_def

lemma callbacks_keep [simp]:
  "bm_ID (setCreatedBy ctx r) = bm_ID r" "bm_ID (setUpdatedBy ctx r) = bm_ID r"
  "bm_DeletedAt (setCreatedBy ctx r) = bm_DeletedAt r" "bm_DeletedAt (setUpdatedBy ctx r) = bm_DeletedAt r"
  "BaseModel.more (setCreatedBy ctx r) = BaseModel.more r" "BaseModel.more (setUpdatedBy ctx r) = BaseModel.more r"
  by (simp_all add: setCreatedBy_def setUpdatedBy_def Let_def)

lemma base_live_callbacks [simp]:
  "base_live (setCreatedBy ctx r) = base_live r" "base_live (setUpdatedBy ctx r) = base_live r"
  by (simp_all add: base_live_def)

text \<open>The payload of an entity (the fields the program defines) survives every table operation.\<close>

lemma base_rel_more:
  "base_filled r r' \<Longrightarrow> BaseModel.more r' = BaseModel.more r"
  "base_touched r r' \<Longrightarrow> BaseModel.more r' = BaseModel.more r"
  "base_dropped r r' \<Longrightarrow> BaseModel.more r' = BaseModel.more r"
  by (auto simp: base_rel_defs)

text \<open>
  A constraint on the payloads only, such as the uniqueness of a name, over all rows: the
  indexes of \<open>migrations/\<close> are not partial, so marked rows count.
\<close>

definition unique_on :: "('r \<Rightarrow> 'k) \<Rightarrow> 'r list \<Rightarrow> bool" where
  "unique_on f rs = distinct (map f rs)"

definition mark :: "'a BaseModel_scheme \<Rightarrow> 'a BaseModel_scheme" where
  "mark r = r\<lparr>bm_DeletedAt := Some 0\<rparr>"

definition mem_base :: "('a BaseModel_scheme list \<Rightarrow> bool) \<Rightarrow> 'a BaseModel_scheme gorm" where
  "mem_base cons = mem_gorm bm_ID (\<lambda>k r. r\<lparr>bm_ID := k\<rparr>) base_live (Some \<circ> mark) cons"

lemma mem_base_soft:
  assumes "\<And>rs P. cons rs \<Longrightarrow> cons (map (\<lambda>r. if P r then mark r else r) rs)"
  shows "gorm_soft (mem_base cons) bm_ID base_live base_filled base_touched cons base_dropped"
  unfolding mem_base_def
proof (rule mem_gorm_soft)
  show "base_filled r (r\<lparr>bm_ID := k\<rparr>)" for r :: "'a BaseModel_scheme" and k
    unfolding base_filled_def by (intro exI [of _ k] exI [of _ "bm_CreatedAt r"] exI [of _ "bm_UpdatedAt r"]) simp
  show "base_touched r r" for r :: "'a BaseModel_scheme"
    unfolding base_touched_def by (intro exI [of _ "bm_UpdatedAt r"]) simp
  show "base_dropped r (mark r)" for r :: "'a BaseModel_scheme"
    unfolding base_dropped_def mark_def
    by (intro exI [of _ 0] exI [of _ "bm_DeletedBy r"] exI [of _ "bm_UpdatedAt r"]) simp
qed (use assms in \<open>auto simp: base_rel_defs\<close>)

lemma mem_base_live:
  assumes "\<And>rs P. cons rs \<Longrightarrow> cons (map (\<lambda>r. if P r then mark r else r) rs)"
  shows "gorm_live (mem_base cons) bm_ID base_live base_filled base_touched cons"
proof -
  have "gorm_table (mem_base cons) bm_ID base_live base_filled base_touched cons"
    using mem_base_soft [of cons, OF assms] unfolding gorm_soft_def by blast
  then show ?thesis
    unfolding mem_base_def
  proof (rule mem_gorm_live)
    show "base_filled r (r\<lparr>bm_ID := k\<rparr>)" for r :: "'a BaseModel_scheme" and k
      unfolding base_filled_def by (intro exI [of _ k] exI [of _ "bm_CreatedAt r"] exI [of _ "bm_UpdatedAt r"]) simp
    show "base_touched r r" for r :: "'a BaseModel_scheme"
      unfolding base_touched_def by (intro exI [of _ "bm_UpdatedAt r"]) simp
  qed
qed

lemma unique_on_mark:
  assumes "\<And>r. f (mark r) = f r"
  shows "unique_on f rs \<Longrightarrow> unique_on f (map (\<lambda>r. if P r then mark r else r) rs)"
proof -
  have "f \<circ> (\<lambda>r. if P r then mark r else r) = f" using assms by auto
  then show "unique_on f rs \<Longrightarrow> unique_on f (map (\<lambda>r. if P r then mark r else r) rs)"
    by (simp add: unique_on_def)
qed

text \<open>\<open>Restore\<close> undoes \<open>MarkDeleted\<close> on every row that was live.\<close>

lemma Restore_MarkDeleted:
  "base_live b \<Longrightarrow> bm_DeletedBy b = '''' \<Longrightarrow> Restore (MarkDeleted now by_user b) = b"
  by (simp add: Restore_def MarkDeleted_def base_live_def)

end
