(* ===== verification/Encoding.thy ===== *)
theory Encoding
  imports GoStd
begin

text \<open>
  The encoders of Go's standard library the program uses: \<open>encoding/hex\<close>,
  \<open>encoding/base64\<close> (decoding, standard alphabet with padding) and \<open>crypto/sha256\<close>.  Bytes
  are characters.
\<close>

unbundle bit_operations_syntax

section \<open>Hexadecimal\<close>

definition hex_digit :: "nat \<Rightarrow> char" where
  "hex_digit n = ''0123456789abcdef'' ! n"

definition byte_val :: "char \<Rightarrow> nat" where
  "byte_val c = of_char c"

definition EncodeToString :: "string \<Rightarrow> string" where
  "EncodeToString bs = concat (map (\<lambda>b. [hex_digit (byte_val b div 16), hex_digit (byte_val b mod 16)]) bs)"

definition hex_val :: "char \<Rightarrow> nat" where
  "hex_val c = (let n = byte_val c in if n < 58 then n - 48 else n - 87)"

fun hex_decode :: "string \<Rightarrow> string" where
  "hex_decode (a # b # s) = char_of (hex_val a * 16 + hex_val b) # hex_decode s"
| "hex_decode _ = []"

section \<open>Base64\<close>

definition b64_val :: "char \<Rightarrow> nat option" where
  "b64_val c =
     (let n = byte_val c
      in if 65 \<le> n \<and> n \<le> 90 then Some (n - 65)
         else if 97 \<le> n \<and> n \<le> 122 then Some (n - 71)
         else if 48 \<le> n \<and> n \<le> 57 then Some (n + 4)
         else if n = 43 then Some 62 else if n = 47 then Some 63 else None)"

text \<open>Four characters at a time; padding only in the last group, whose spare bits are ignored.\<close>

fun b64_decode :: "string \<Rightarrow> string option" where
  "b64_decode [] = Some []"
| "b64_decode (a # b # c # d # s) =
     (case (b64_val a, b64_val b) of
        (Some x, Some y) \<Rightarrow>
          (if d = CHR ''='' then
             (if s \<noteq> [] then None
              else if c = CHR ''='' then Some [char_of (x * 4 + y div 16)]
              else case b64_val c of
                     None \<Rightarrow> None
                   | Some z \<Rightarrow> Some [char_of (x * 4 + y div 16), char_of ((y mod 16) * 16 + z div 4)])
           else case (b64_val c, b64_val d, b64_decode s) of
                  (Some z, Some w, Some bs) \<Rightarrow>
                    Some (char_of (x * 4 + y div 16) # char_of ((y mod 16) * 16 + z div 4)
                          # char_of ((z mod 4) * 64 + w) # bs)
                | _ \<Rightarrow> None)
      | _ \<Rightarrow> None)"
| "b64_decode _ = None"

text \<open>\<open>base64.StdEncoding.DecodeString\<close> skips line breaks; \<open>None\<close> is a non-nil error.\<close>

definition DecodeString :: "string \<Rightarrow> string option" where
  "DecodeString s = b64_decode (filter (\<lambda>c. byte_val c \<noteq> 10 \<and> byte_val c \<noteq> 13) s)"

section \<open>SHA-256\<close>

text \<open>
  The round constants are the first 32 fractional bits of the cube roots of the first 64
  primes; \<open>cube_root n r k\<close> adds the bits \<open>k - 1, ..., 0\<close> to the approximation \<open>r\<close>.
\<close>

fun cube_root :: "nat \<Rightarrow> nat \<Rightarrow> nat \<Rightarrow> nat" where
  "cube_root n r 0 = r"
| "cube_root n r (Suc k) = (let r' = r + 2 ^ k in cube_root n (if r' ^ 3 \<le> n then r' else r) k)"

definition is_prime :: "nat \<Rightarrow> bool" where
  "is_prime p = (2 \<le> p \<and> list_all (\<lambda>d. p mod d \<noteq> 0) [2..<p])"

definition sha_K :: "32 word list" where
  "sha_K = map (\<lambda>p. of_nat (cube_root (p * 2 ^ 96) 0 36)) (filter is_prime [2..<312])"

type_synonym sha_state = "32 word \<times> 32 word \<times> 32 word \<times> 32 word \<times> 32 word \<times> 32 word \<times> 32 word \<times> 32 word"

definition sha_H0 :: sha_state where
  "sha_H0 =
    (0x6a09e667, 0xbb67ae85, 0x3c6ef372, 0xa54ff53a,
     0x510e527f, 0x9b05688c, 0x1f83d9ab, 0x5be0cd19)"

definition rotr :: "nat \<Rightarrow> 32 word \<Rightarrow> 32 word" where
  "rotr n w = drop_bit n w OR push_bit (32 - n) w"

fun be_word :: "char list \<Rightarrow> 32 word" where
  "be_word [] = 0"
| "be_word (b # bs) = push_bit (8 * length bs) (of_nat (byte_val b)) OR be_word bs"

definition word_bytes :: "32 word \<Rightarrow> char list" where
  "word_bytes w = map (\<lambda>i. char_of (uint (drop_bit i w) mod 256)) [24, 16, 8, 0]"

definition len_bytes :: "nat \<Rightarrow> char list" where
  "len_bytes n = map (\<lambda>i. char_of (drop_bit i (int n) mod 256)) [56, 48, 40, 32, 24, 16, 8, 0]"

definition sha_pad :: "char list \<Rightarrow> char list" where
  "sha_pad m = m @ [char_of (128 :: nat)] @ replicate ((119 - length m mod 64) mod 64) (char_of (0 :: nat))
               @ len_bytes (8 * length m)"

fun chunk :: "nat \<Rightarrow> nat \<Rightarrow> 'a list \<Rightarrow> 'a list list" where
  "chunk 0 n xs = []"
| "chunk (Suc k) n xs = take n xs # chunk k n (drop n xs)"

text \<open>The message schedule, kept in reverse: the newest word first.\<close>

fun sha_expand :: "nat \<Rightarrow> 32 word list \<Rightarrow> 32 word list" where
  "sha_expand 0 ws = ws"
| "sha_expand (Suc k) ws =
     (let w2 = ws ! 1; w7 = ws ! 6; w15 = ws ! 14; w16 = ws ! 15;
          s0 = rotr 7 w15 XOR rotr 18 w15 XOR drop_bit 3 w15;
          s1 = rotr 17 w2 XOR rotr 19 w2 XOR drop_bit 10 w2
      in sha_expand k ((w16 + s0 + w7 + s1) # ws))"

fun sha_round :: "32 word \<times> 32 word \<Rightarrow> sha_state \<Rightarrow> sha_state" where
  "sha_round (k, w) (a, b, c, d, e, f, g, h) =
     (let s1 = rotr 6 e XOR rotr 11 e XOR rotr 25 e;
          ch = (e AND f) XOR ((NOT e) AND g);
          t1 = h + s1 + ch + k + w;
          s0 = rotr 2 a XOR rotr 13 a XOR rotr 22 a;
          maj = (a AND b) XOR (a AND c) XOR (b AND c);
          t2 = s0 + maj
      in (t1 + t2, a, b, c, d + t1, e, f, g))"

fun sha_add :: "sha_state \<Rightarrow> sha_state \<Rightarrow> sha_state" where
  "sha_add (a, b, c, d, e, f, g, h) (a', b', c', d', e', f', g', h') =
     (a + a', b + b', c + c', d + d', e + e', f + f', g + g', h + h')"

definition sha_block :: "sha_state \<Rightarrow> char list \<Rightarrow> sha_state" where
  "sha_block s bs = (let ws = rev (sha_expand 48 (rev (map be_word (chunk 16 4 bs))))
                     in sha_add s (fold sha_round (zip sha_K ws) s))"

fun sha_digest :: "sha_state \<Rightarrow> char list" where
  "sha_digest (a, b, c, d, e, f, g, h) = concat (map word_bytes [a, b, c, d, e, f, g, h])"

definition Sum256 :: "string \<Rightarrow> string" where
  "Sum256 m = (let p = sha_pad m in sha_digest (fold (\<lambda>bs s. sha_block s bs) (chunk (length p div 64) 64 p) sha_H0))"

section \<open>Facts\<close>

lemma length_EncodeToString [simp]: "length (EncodeToString bs) = 2 * length bs"
  by (induction bs) (auto simp: EncodeToString_def)

lemma length_Sum256 [simp]: "length (Sum256 m) = 32"
proof -
  have "length (sha_digest s) = 32" for s
    by (cases s rule: sha_digest.cases) (simp add: word_bytes_def)
  then show ?thesis by (simp add: Sum256_def Let_def)
qed

lemma hex_digit_inj: "m < 16 \<Longrightarrow> n < 16 \<Longrightarrow> hex_digit m = hex_digit n \<longleftrightarrow> m = n"
proof -
  have "distinct ''0123456789abcdef''" "length ''0123456789abcdef'' = 16" by simp_all
  then show "m < 16 \<Longrightarrow> n < 16 \<Longrightarrow> hex_digit m = hex_digit n \<longleftrightarrow> m = n"
    unfolding hex_digit_def by (metis nth_eq_iff_index_eq)
qed

lemma byte_hex_inj:
  assumes "hex_digit (byte_val a div 16) = hex_digit (byte_val b div 16)"
    and "hex_digit (byte_val a mod 16) = hex_digit (byte_val b mod 16)"
  shows "a = b"
proof -
  have lt: "byte_val c < 256" for c by (simp add: byte_val_def)
  have "byte_val a div 16 = byte_val b div 16" "byte_val a mod 16 = byte_val b mod 16"
    using assms lt [of a] lt [of b] by (simp_all add: hex_digit_inj)
  then have "byte_val a = byte_val b" by (metis div_mult_mod_eq)
  then show ?thesis by (simp add: byte_val_def)
qed

lemma EncodeToString_inject [simp]: "EncodeToString a = EncodeToString b \<longleftrightarrow> a = b"
proof (induction a arbitrary: b)
  case Nil
  then show ?case by (cases b) (auto simp: EncodeToString_def)
next
  case (Cons x a)
  then show ?case by (cases b) (auto simp: EncodeToString_def dest: byte_hex_inj)
qed

text \<open>The padded message is a whole number of blocks, so no byte is left out.\<close>

lemma length_sha_pad: "64 dvd length (sha_pad m)"
proof -
  define n where "n = length m mod 64"
  have n: "n < 64" by (simp add: n_def)
  have "length (sha_pad m) = 64 * (length m div 64) + (n + 9 + (119 - n) mod 64)"
    by (simp add: sha_pad_def len_bytes_def n_def)
  moreover have "64 dvd (n + 9 + (119 - n) mod 64)"
  proof (cases "n < 56")
    case True
    then have "119 - n = 64 + (55 - n)" by simp
    moreover have "(64 + (55 - n)) mod 64 = 55 - n" by simp
    ultimately have "(119 - n) mod 64 = 55 - n" by (simp only:)
    then show ?thesis using True by simp
  next
    case False
    then have "(119 - n) mod 64 = 119 - n" using n by simp
    then show ?thesis using n by simp
  qed
  ultimately show ?thesis by simp
qed

lemma hex_digit_cases: "n < 16 \<Longrightarrow> hex_val (hex_digit n) = n \<and> \<not> is_space (hex_digit n)"
proof -
  assume "n < 16"
  moreover have "list_all (\<lambda>n. hex_val (hex_digit n) = n \<and> \<not> is_space (hex_digit n)) [0 ..< 16]"
    by (simp add: hex_val_def hex_digit_def byte_val_def is_space_def upt_rec)
  ultimately show ?thesis by (simp add: list_all_iff)
qed

lemma hex_decode_EncodeToString [simp]: "hex_decode (EncodeToString bs) = bs"
proof (induction bs)
  case (Cons b bs)
  have "byte_val b < 256" by (simp add: byte_val_def)
  then have "hex_val (hex_digit (byte_val b div 16)) * 16 + hex_val (hex_digit (byte_val b mod 16)) = byte_val b"
    by (simp add: hex_digit_cases)
  then show ?case using Cons by (simp add: EncodeToString_def) (simp add: byte_val_def)
qed (simp add: EncodeToString_def)

lemma EncodeToString_no_space: "list_all (\<lambda>c. \<not> is_space c) (EncodeToString bs)"
proof (induction bs)
  case (Cons b bs)
  have "byte_val b < 256" by (simp add: byte_val_def)
  then show ?case using Cons by (simp add: EncodeToString_def hex_digit_cases)
qed (simp add: EncodeToString_def)

end
