(* ===== verification/Jwt.thy ===== *)
theory Jwt
  imports Encoding Errs
begin

text \<open>
  Tokens and passwords: \<open>internal/common/security/jwt_service.go\<close> and \<open>password.go\<close>.  The
  libraries \<open>golang-jwt/jwt/v5\<close> and \<open>x/crypto/bcrypt\<close> are third party: records of their
  operations, with the laws the program relies on as locales.
\<close>

section \<open>Claims and the token library\<close>

definition TokenTypeAccess :: string where "TokenTypeAccess = ''access''"
definition TokenTypeRefresh :: string where "TokenTypeRefresh = ''refresh''"

text \<open>The embedded \<open>RegisteredClaims\<close> are the last five fields; a nil date is \<open>None\<close>.\<close>

record Claims =
  cl_UserID :: uint64
  cl_Username :: string
  cl_SessionID :: uint64
  cl_ImpersonatorID :: uint64
  cl_Authorities :: "string list"
  cl_Type :: string
  cl_Issuer :: string
  cl_IssuedAt :: "time option"
  cl_NotBefore :: "time option"
  cl_ExpiresAt :: "time option"
  cl_Subject :: string

datatype signing_method = SigningMethodHMAC string | SigningMethodOther string

text \<open>
  \<open>jl_Sign\<close> is \<open>NewWithClaims(HS256, claims).SignedString(key)\<close>.  \<open>jl_ParseWithClaims\<close> takes the
  key function, the required issuer, the accepted algorithms, the current time and the token,
  and returns the claims with the \<open>Valid\<close> flag.  \<open>jl_NumericDate\<close> is \<open>NewNumericDate\<close>.
\<close>

record jwt_lib =
  jl_Sign :: "string \<Rightarrow> Claims \<Rightarrow> go_error + string"
  jl_ParseWithClaims :: "(signing_method \<Rightarrow> go_error + string) \<Rightarrow> string \<Rightarrow> string list \<Rightarrow> time \<Rightarrow> string
                         \<Rightarrow> go_error + Claims \<times> bool"
  jl_NumericDate :: "time \<Rightarrow> time"

section \<open>The service\<close>

record JWTConfig =
  jc_Secret :: string
  jc_Issuer :: string
  jc_AccessTTL :: duration
  jc_RefreshTTL :: duration

record JwtService =
  js_secret :: string
  js_issuer :: string
  js_accessTTL :: duration
  js_refreshTTL :: duration

definition NewJwtService :: "JWTConfig \<Rightarrow> go_error + JwtService" where
  "NewJwtService cfg =
     (if jc_Secret cfg = '''' then Inl (PlainError ''jwt: empty secret'')
      else let raw = (case DecodeString (jc_Secret cfg) of
                        None \<Rightarrow> jc_Secret cfg
                      | Some raw \<Rightarrow> if length raw < 32 then jc_Secret cfg else raw)
           in if length raw < 32
              then Inl (PlainError ''jwt: secret must be at least 32 bytes after decoding'')
              else Inr \<lparr>js_secret = raw, js_issuer = jc_Issuer cfg,
                        js_accessTTL = jc_AccessTTL cfg, js_refreshTTL = jc_RefreshTTL cfg\<rparr>)"

definition issue_claims ::
  "jwt_lib \<Rightarrow> JwtService \<Rightarrow> time \<Rightarrow> uint64 \<Rightarrow> string \<Rightarrow> uint64 \<Rightarrow> uint64 \<Rightarrow> string list \<Rightarrow> string \<Rightarrow> duration \<Rightarrow> Claims" where
  "issue_claims L s now userID username sessionID impersonatorID authorities typ ttl =
     \<lparr>cl_UserID = userID, cl_Username = username, cl_SessionID = sessionID,
      cl_ImpersonatorID = impersonatorID, cl_Authorities = authorities, cl_Type = typ,
      cl_Issuer = js_issuer s, cl_IssuedAt = Some (jl_NumericDate L now),
      cl_NotBefore = Some (jl_NumericDate L now),
      cl_ExpiresAt = Some (jl_NumericDate L (now + ttl)), cl_Subject = username\<rparr>"

definition issue ::
  "jwt_lib \<Rightarrow> JwtService \<Rightarrow> time \<Rightarrow> uint64 \<Rightarrow> string \<Rightarrow> uint64 \<Rightarrow> uint64 \<Rightarrow> string list \<Rightarrow> string \<Rightarrow> duration
   \<Rightarrow> go_error + string \<times> time" where
  "issue L s now userID username sessionID impersonatorID authorities typ ttl =
     (let expiry = now + ttl;
          claims = issue_claims L s now userID username sessionID impersonatorID authorities typ ttl
      in case jl_Sign L (js_secret s) claims of
           Inl err \<Rightarrow> Inl err
         | Inr tok \<Rightarrow> Inr (tok, expiry))"

definition IssueAccess ::
  "jwt_lib \<Rightarrow> JwtService \<Rightarrow> time \<Rightarrow> uint64 \<Rightarrow> string \<Rightarrow> uint64 \<Rightarrow> uint64 \<Rightarrow> string list \<Rightarrow> go_error + string \<times> time" where
  "IssueAccess L s now userID username sessionID impersonatorID authorities =
     issue L s now userID username sessionID impersonatorID authorities TokenTypeAccess (js_accessTTL s)"

definition IssueRefresh ::
  "jwt_lib \<Rightarrow> JwtService \<Rightarrow> time \<Rightarrow> uint64 \<Rightarrow> string \<Rightarrow> uint64 \<Rightarrow> uint64 \<Rightarrow> string list \<Rightarrow> go_error + string \<times> time" where
  "IssueRefresh L s now userID username sessionID impersonatorID authorities =
     issue L s now userID username sessionID impersonatorID authorities TokenTypeRefresh (js_refreshTTL s)"

definition jwt_AccessTTL :: "JwtService \<Rightarrow> duration" where
  "jwt_AccessTTL s = js_accessTTL s"

definition jwt_RefreshTTL :: "JwtService \<Rightarrow> duration" where
  "jwt_RefreshTTL s = js_refreshTTL s"

declare jwt_AccessTTL_def [simp] jwt_RefreshTTL_def [simp]

definition keyfunc :: "JwtService \<Rightarrow> signing_method \<Rightarrow> go_error + string" where
  "keyfunc s m = (case m of
                    SigningMethodHMAC _ \<Rightarrow> Inr (js_secret s)
                  | SigningMethodOther alg \<Rightarrow> Inl (PlainError (''unexpected signing method: '' @ alg)))"

definition jwt_Parse :: "jwt_lib \<Rightarrow> JwtService \<Rightarrow> time \<Rightarrow> string \<Rightarrow> go_error + Claims" where
  "jwt_Parse L s now raw =
     (case jl_ParseWithClaims L (keyfunc s) (js_issuer s) [''HS256''] now raw of
        Inl err \<Rightarrow> Inl err
      | Inr (claims, valid) \<Rightarrow> if \<not> valid then Inl (PlainError ''token is invalid'') else Inr claims)"

section \<open>Passwords\<close>

text \<open>\<open>GenerateFromPassword\<close> (with the random salt it draws) and \<open>CompareHashAndPassword\<close>.\<close>

record bcrypt_lib =
  bc_Generate :: "nat \<Rightarrow> string \<Rightarrow> go_error + string"
  bc_Compare :: "string \<Rightarrow> string \<Rightarrow> bool"

definition HashPassword :: "bcrypt_lib \<Rightarrow> nat \<Rightarrow> string \<Rightarrow> go_error + string" where
  "HashPassword B salt plain =
     (case bc_Generate B salt plain of Inl err \<Rightarrow> Inl err | Inr b \<Rightarrow> Inr b)"

definition CheckPassword :: "bcrypt_lib \<Rightarrow> string \<Rightarrow> string \<Rightarrow> bool" where
  "CheckPassword B hash plain = bc_Compare B hash plain"

section \<open>What the libraries promise\<close>

text \<open>
  A signed token parses back while it is valid: the key function must return the signing key
  for HMAC, HS256 must be accepted and the issuer must match; validity is \<open>nbf \<le> now < exp\<close>.
  Only the JSON fields survive, and \<open>sub\<close> is read into the outermost field of that name, the
  username.  A token is not empty and has no white space.  Conversely a token that parses was accepted under a key the key function returned
  for an accepted method, has the required issuer and is in its validity window.
\<close>

locale jwt_library =
  fixes L :: jwt_lib
  assumes parse_signed:
    "jl_Sign L key cl = Inr tok \<Longrightarrow> kf (SigningMethodHMAC ''HS256'') = Inr key \<Longrightarrow> ''HS256'' \<in> set algs \<Longrightarrow>
     cl_Issuer cl = iss \<Longrightarrow> (case cl_NotBefore cl of None \<Rightarrow> True | Some t \<Rightarrow> t \<le> now) \<Longrightarrow>
     (case cl_ExpiresAt cl of None \<Rightarrow> True | Some t \<Rightarrow> now < t) \<Longrightarrow>
     jl_ParseWithClaims L kf iss algs now tok = Inr (cl\<lparr>cl_Subject := ''''\<rparr>, True)"
    and parse_window:
    "jl_ParseWithClaims L kf iss algs now tok = Inr (cl, v) \<Longrightarrow>
     cl_Issuer cl = iss \<and> (case cl_NotBefore cl of None \<Rightarrow> True | Some t \<Rightarrow> t \<le> now)
     \<and> (case cl_ExpiresAt cl of None \<Rightarrow> True | Some t \<Rightarrow> now < t)"
    and token_shape: "jl_Sign L key cl = Inr tok \<Longrightarrow> tok \<noteq> [] \<and> list_all (\<lambda>c. \<not> is_space c) tok"
    and date_second: "jl_NumericDate L t \<le> t \<and> t < jl_NumericDate L t + second"
begin

lemma Parse_issue:
  assumes "issue L s now uid name sid imp auths typ ttl = Inr (tok, expiry)"
    and "now \<le> now'" "now' \<le> expiry - second"
  shows "jwt_Parse L s now' tok =
           Inr ((issue_claims L s now uid name sid imp auths typ ttl)\<lparr>cl_Subject := ''''\<rparr>)"
proof -
  let ?c = "issue_claims L s now uid name sid imp auths typ ttl"
  have s: "jl_Sign L (js_secret s) ?c = Inr tok" "expiry = now + ttl"
    using assms(1) by (auto simp: issue_def split: sum.splits)
  have "jl_ParseWithClaims L (keyfunc s) (js_issuer s) [''HS256''] now' tok = Inr (?c\<lparr>cl_Subject := ''''\<rparr>, True)"
    using s assms(2,3) date_second [of now] date_second [of "now + ttl"]
    by (intro parse_signed [OF s(1)]) (auto simp: keyfunc_def issue_claims_def)
  then show ?thesis by (simp add: jwt_Parse_def)
qed

lemma issue_shape:
  "issue L s now uid name sid imp auths typ ttl = Inr (tok, expiry) \<Longrightarrow>
     tok \<noteq> [] \<and> \<not> is_space (hd tok) \<and> \<not> is_space (last tok)"
  using token_shape by (auto simp: issue_def list_all_iff split: sum.splits)

lemma Parse_expired:
  assumes "jwt_Parse L s now tok = Inr cl"
  shows "cl_Issuer cl = js_issuer s \<and> (case cl_ExpiresAt cl of None \<Rightarrow> True | Some t \<Rightarrow> now < t)"
  using assms parse_window [of "keyfunc s" "js_issuer s" "[''HS256'']" now tok]
  by (auto simp: jwt_Parse_def split: sum.splits prod.splits if_splits)

end

text \<open>
  Hashing a password and comparing it with the result succeeds; passwords of more than 72
  bytes are refused.
\<close>

locale bcrypt_library =
  fixes B :: bcrypt_lib
  assumes compare_generated: "bc_Generate B salt p = Inr h \<Longrightarrow> bc_Compare B h p"
    and generate_long: "72 < length p \<Longrightarrow> \<exists>e. bc_Generate B salt p = Inl e"
begin

lemma Check_Hash: "HashPassword B salt p = Inr h \<Longrightarrow> CheckPassword B h p"
  by (auto simp: HashPassword_def CheckPassword_def split: sum.splits intro: compare_generated)

lemma Hash_long: "72 < length p \<Longrightarrow> \<exists>e. HashPassword B salt p = Inl e"
  using generate_long [of p salt] by (auto simp: HashPassword_def)

end

section \<open>Instances of the libraries\<close>

text \<open>
  A token library whose tokens carry the key and the claims in a self-delimiting form, and a
  password library that stores the password.  They satisfy the laws and can be evaluated.
\<close>

definition enc_str :: "string \<Rightarrow> string" where
  "enc_str s = concat (map (\<lambda>c. [CHR ''x'', c]) s) @ ''.''"

fun dec_all :: "string \<Rightarrow> string \<Rightarrow> string list" where
  "dec_all cur [] = []"
| "dec_all cur [m] = [rev cur]"
| "dec_all cur (m # c # s) = (if m = CHR ''.'' then rev cur # dec_all [] (c # s) else dec_all (c # cur) s)"

definition enc_time :: "time option \<Rightarrow> string" where
  "enc_time t = (case t of None \<Rightarrow> '''' | Some i \<Rightarrow> (if i < 0 then CHR ''-'' else CHR ''+'') # decimal (nat \<bar>i\<bar>))"

definition dec_time :: "string \<Rightarrow> time option" where
  "dec_time s = (case s of [] \<Rightarrow> None
                 | c # ds \<Rightarrow> Some (if c = CHR ''-'' then - int (decimal_val 0 ds) else int (decimal_val 0 ds)))"

definition enc_token :: "string \<Rightarrow> Claims \<Rightarrow> string" where
  "enc_token key cl = EncodeToString (concat (map enc_str ([key, FormatUint (cl_UserID cl), cl_Username cl, FormatUint (cl_SessionID cl),
     FormatUint (cl_ImpersonatorID cl), cl_Type cl, cl_Issuer cl, enc_time (cl_IssuedAt cl),
     enc_time (cl_NotBefore cl), enc_time (cl_ExpiresAt cl)] @ cl_Authorities cl)))"

definition dec_token :: "string \<Rightarrow> (string \<times> Claims) option" where
  "dec_token tok =
     (case dec_all [] (hex_decode tok) of
        key # uid # name # sid # imp # typ # iss # iat # nbf # expi # auths \<Rightarrow>
          (case (ParseUint uid, ParseUint sid, ParseUint imp) of
             (Some u, Some s, Some i) \<Rightarrow>
               Some (key, \<lparr>cl_UserID = u, cl_Username = name, cl_SessionID = s, cl_ImpersonatorID = i,
                           cl_Authorities = auths, cl_Type = typ, cl_Issuer = iss, cl_IssuedAt = dec_time iat,
                           cl_NotBefore = dec_time nbf, cl_ExpiresAt = dec_time expi, cl_Subject = ''''\<rparr>)
           | _ \<Rightarrow> None)
      | _ \<Rightarrow> None)"

definition in_window :: "time \<Rightarrow> Claims \<Rightarrow> bool" where
  "in_window now cl = ((case cl_NotBefore cl of None \<Rightarrow> True | Some t \<Rightarrow> t \<le> now)
                       \<and> (case cl_ExpiresAt cl of None \<Rightarrow> True | Some t \<Rightarrow> now < t))"

definition plain_jwt :: jwt_lib where
  "plain_jwt =
     \<lparr>jl_Sign = (\<lambda>key cl. Inr (enc_token key cl)),
      jl_ParseWithClaims = (\<lambda>kf iss algs now tok.
        case dec_token tok of
          None \<Rightarrow> Inl (PlainError ''token is malformed'')
        | Some (key, cl) \<Rightarrow>
            (case kf (SigningMethodHMAC ''HS256'') of
               Inl e \<Rightarrow> Inl e
             | Inr k \<Rightarrow>
                 if k \<noteq> key \<or> \<not> List.member algs ''HS256'' then Inl (PlainError ''signature is invalid'')
                 else if cl_Issuer cl \<noteq> iss \<or> \<not> in_window now cl then Inl (PlainError ''claims are invalid'')
                 else Inr (cl, True))),
      jl_NumericDate = (\<lambda>t. t div second * second)\<rparr>"

definition plain_bcrypt :: bcrypt_lib where
  "plain_bcrypt = \<lparr>bc_Generate = (\<lambda>salt p. if 72 < length p then Inl (PlainError ''password length exceeds 72 bytes'')
                                           else Inr (CHR ''$'' # p)),
                   bc_Compare = (\<lambda>h p. h = CHR ''$'' # p)\<rparr>"

lemma dec_enc_str: "dec_all cur (enc_str s @ r) = (rev cur @ s) # dec_all [] r"
  by (induction s arbitrary: cur) (cases r, auto simp: enc_str_def)

lemma dec_enc_all: "dec_all [] (concat (map enc_str xs)) = xs"
  by (induction xs) (auto simp: dec_enc_str)

lemma dec_enc_time [simp]: "dec_time (enc_time t) = t"
  by (cases t) (auto simp: dec_time_def enc_time_def decimal_val_decimal)

lemma dec_enc_token: "dec_token (enc_token key cl) = Some (key, cl\<lparr>cl_Subject := ''''\<rparr>)"
  unfolding dec_token_def enc_token_def hex_decode_EncodeToString dec_enc_all by simp

lemma enc_token_shape: "enc_token key cl \<noteq> [] \<and> list_all (\<lambda>c. \<not> is_space c) (enc_token key cl)"
proof -
  have "length (enc_token key cl) > 0"
    unfolding enc_token_def length_EncodeToString by (simp add: enc_str_def)
  moreover have "list_all (\<lambda>c. \<not> is_space c) (enc_token key cl)"
    unfolding enc_token_def by (rule EncodeToString_no_space)
  ultimately show ?thesis by auto
qed

lemma plain_jwt_Sign: "jl_Sign plain_jwt key cl = Inr (enc_token key cl)"
  by (simp add: plain_jwt_def)

lemma date_truncation: "(t :: int) div second * second \<le> t \<and> t < t div second * second + second"
proof -
  have "t mod second = t - t div second * second" by (simp add: minus_div_mult_eq_mod)
  then show ?thesis using pos_mod_bound [of second t] pos_mod_sign [of second t] by linarith
qed

interpretation plain_jwt: jwt_library plain_jwt
proof
  show "jl_ParseWithClaims plain_jwt kf iss algs now tok = Inr (cl\<lparr>cl_Subject := ''''\<rparr>, True)"
    if "jl_Sign plain_jwt key cl = Inr tok" "kf (SigningMethodHMAC ''HS256'') = Inr key" "''HS256'' \<in> set algs"
      "cl_Issuer cl = iss" "case cl_NotBefore cl of None \<Rightarrow> True | Some t \<Rightarrow> t \<le> now"
      "case cl_ExpiresAt cl of None \<Rightarrow> True | Some t \<Rightarrow> now < t"
    for key cl tok kf algs iss now
  proof -
    have "tok = enc_token key cl" using that(1) by (simp add: plain_jwt_def)
    then show ?thesis using that(2-) by (simp add: plain_jwt_def dec_enc_token in_window_def)
  qed
  show "cl_Issuer cl = iss \<and> (case cl_NotBefore cl of None \<Rightarrow> True | Some t \<Rightarrow> t \<le> now)
     \<and> (case cl_ExpiresAt cl of None \<Rightarrow> True | Some t \<Rightarrow> now < t)"
    if "jl_ParseWithClaims plain_jwt kf iss algs now tok = Inr (cl, v)" for kf iss algs now tok cl v
    using that by (auto simp: plain_jwt_def in_window_def split: option.splits sum.splits if_splits)
  show "tok \<noteq> [] \<and> list_all (\<lambda>c. \<not> is_space c) tok" if "jl_Sign plain_jwt key cl = Inr tok" for key cl tok
    using that enc_token_shape [of key cl] by (simp add: plain_jwt_Sign)
  show "jl_NumericDate plain_jwt t \<le> t \<and> t < jl_NumericDate plain_jwt t + second" for t
    using date_truncation [of t] by (simp add: plain_jwt_def)
qed

interpretation plain_bcrypt: bcrypt_library plain_bcrypt
  by unfold_locales (auto simp: plain_bcrypt_def split: if_splits)

section \<open>Properties\<close>

text \<open>
  The service starts only with a signing key of at least 32 bytes, namely the decoded
  secret when it is base64 for at least 32 bytes and otherwise the secret itself, and it
  starts with every secret that gives such a key.
\<close>

theorem NewJwtService_key:
  "(case NewJwtService cfg of
      Inl _ \<Rightarrow> length (jc_Secret cfg) < 32
    | Inr s \<Rightarrow> 32 \<le> length (js_secret s)
        \<and> (js_secret s = jc_Secret cfg \<or> DecodeString (jc_Secret cfg) = Some (js_secret s))
        \<and> js_issuer s = jc_Issuer cfg)"
  by (auto simp: NewJwtService_def Let_def split: option.splits)

text \<open>
  C19: an issued token parses back, from the moment it is issued until one second before the
  announced expiry, to the identity, session, impersonator, authorities and type it was
  issued for.
\<close>

theorem issued_token_round_trip:
  assumes "jwt_library L" "issue L s now uid name sid imp auths typ ttl = Inr (tok, expiry)"
    and "now \<le> now'" "now' \<le> expiry - second"
  shows "\<exists>cl. jwt_Parse L s now' tok = Inr cl \<and> cl_UserID cl = uid \<and> cl_Username cl = name
     \<and> cl_SessionID cl = sid \<and> cl_ImpersonatorID cl = imp \<and> cl_Authorities cl = auths \<and> cl_Type cl = typ"
  using jwt_library.Parse_issue [OF assms] by (simp add: issue_claims_def)

definition demo_jwt :: JwtService where
  "demo_jwt = \<lparr>js_secret = replicate 32 (CHR ''k''), js_issuer = ''gin-template'',
               js_accessTTL = 900 * second, js_refreshTTL = 604800 * second\<rparr>"

theorem issued_token_round_trip_witness:
  "\<exists>cl. jwt_Parse plain_jwt demo_jwt (5 * second)
          (enc_token (js_secret demo_jwt) (issue_claims plain_jwt demo_jwt 0 7 ''ada'' 3 0 [''ROLE_USER''] ''access'' (900 * second))) = Inr cl
     \<and> cl_UserID cl = 7 \<and> cl_Username cl = ''ada''
     \<and> cl_SessionID cl = 3 \<and> cl_ImpersonatorID cl = 0 \<and> cl_Authorities cl = [''ROLE_USER''] \<and> cl_Type cl = ''access''"
  by (rule issued_token_round_trip [where now = 0 and ttl = "900 * second" and expiry = "900 * second"])
     (simp_all add: plain_jwt.jwt_library_axioms issue_def plain_jwt_Sign)

end
