(* ===== verification/Security.thy ===== *)
theory Security
  imports Web BaseModel Jwt
begin

text \<open>
  The request side of \<open>internal/common/security\<close>: the context keys, the principal of a
  request, the bearer header, the authentication middleware and the two authorisation gates.
  The interface \<open>SessionValidator\<close> of the source is a record of operations and a locale.
\<close>

section \<open>The principal of a request\<close>

definition CtxUserID :: string where "CtxUserID = ''user_id''"
definition CtxUsername :: string where "CtxUsername = ''username''"
definition CtxSessionID :: string where "CtxSessionID = ''session_id''"
definition CtxAuthorities :: string where "CtxAuthorities = ''authorities''"
definition CtxPrincipal :: string where "CtxPrincipal = ''principal''"

lemmas ctx_key_defs = CtxUserID_def CtxUsername_def CtxSessionID_def CtxAuthorities_def CtxPrincipal_def

definition CurrentPrincipal :: "'d gin_context \<Rightarrow> go_error + Principal" where
  "CurrentPrincipal c = (case c_Keys c CtxPrincipal of
                           Some (AnyPrincipal p) \<Rightarrow> Inr p
                         | _ \<Rightarrow> Inl (Unauthorized ''Authentication required''))"

definition WithPrincipal :: "Principal \<Rightarrow> request_context \<Rightarrow> request_context" where
  "WithPrincipal p ctx = ctx\<lparr>rc_principal := Some p\<rparr>"

definition FromContext :: "request_context option \<Rightarrow> Principal option" where
  "FromContext ctx = (case ctx of None \<Rightarrow> None | Some c \<Rightarrow> rc_principal c)"

text \<open>Every refusal of this package writes an error envelope and aborts the chain.\<close>

definition deny :: "time \<Rightarrow> int \<Rightarrow> string \<Rightarrow> ('w, 'd) handler" where
  "deny now status msg s = (fst s, Abort (WriteResponse (Some (ErrorResponse now status msg None)) (snd s)))"

definition MustPrincipal :: "time \<Rightarrow> 'd gin_context \<Rightarrow> Principal option \<times> 'd gin_context" where
  "MustPrincipal now c =
     (case CurrentPrincipal c of
        Inl _ \<Rightarrow> (None, Abort (WriteResponse (Some (ErrorResponse now 401 ''Authentication required'' None)) c))
      | Inr p \<Rightarrow> (Some p, c))"

section \<open>Authorisation gates\<close>

definition HasPermission :: "time \<Rightarrow> string list \<Rightarrow> ('w, 'd) handler \<Rightarrow> ('w, 'd) handler" where
  "HasPermission now permissions next_h s =
     (case CurrentPrincipal (snd s) of
        Inl _ \<Rightarrow> deny now 401 ''Authentication required'' s
      | Inr p \<Rightarrow> if \<not> HasAnyAuthority p permissions then deny now 403 ''Access denied'' s else next_h s)"

fun owns_any_role :: "Principal \<Rightarrow> string list \<Rightarrow> bool" where
  "owns_any_role p [] = False"
| "owns_any_role p (r # rs) = (if HasRole p r then True else owns_any_role p rs)"

definition HasRole_gate :: "time \<Rightarrow> string list \<Rightarrow> ('w, 'd) handler \<Rightarrow> ('w, 'd) handler" where
  "HasRole_gate now roles next_h s =
     (case CurrentPrincipal (snd s) of
        Inl _ \<Rightarrow> deny now 401 ''Authentication required'' s
      | Inr p \<Rightarrow> if owns_any_role p roles then next_h s else deny now 403 ''Access denied'' s)"

definition RequireAuth :: "time \<Rightarrow> ('w, 'd) handler \<Rightarrow> ('w, 'd) handler" where
  "RequireAuth now next_h s =
     (case CurrentPrincipal (snd s) of
        Inl _ \<Rightarrow> deny now 401 ''Authentication required'' s
      | Inr _ \<Rightarrow> next_h s)"

section \<open>Authentication\<close>

definition extractBearer :: "string \<Rightarrow> string" where
  "extractBearer h =
     (let h = TrimSpace h
      in if h = '''' then ''''
         else let prefix = ''Bearer ''
              in if length h > length prefix \<and> EqualFold (take (length prefix) h) prefix
                 then TrimSpace (drop (length prefix) h)
                 else h)"

record 's SessionValidator =
  sv_Validate :: "time \<Rightarrow> uint64 \<Rightarrow> uint64 \<Rightarrow> 's \<Rightarrow> go_error + unit"
  sv_Touch :: "time \<Rightarrow> uint64 \<Rightarrow> 's \<Rightarrow> 's"

definition principal_of :: "Claims \<Rightarrow> Principal" where
  "principal_of claims =
     \<lparr>p_UserID = cl_UserID claims, p_Username = cl_Username claims, p_SessionID = cl_SessionID claims,
      p_ImpersonatorID = cl_ImpersonatorID claims, p_Authorities = cl_Authorities claims\<rparr>"

text \<open>The context after the middleware has accepted the claims.\<close>

definition set_principal :: "Principal \<Rightarrow> 'd gin_context \<Rightarrow> 'd gin_context" where
  "set_principal p c =
     (let c = SetKey CtxPrincipal (AnyPrincipal p) c;
          c = SetKey CtxUserID (AnyU64 (p_UserID p)) c;
          c = SetKey CtxUsername (AnyString (p_Username p)) c;
          c = SetKey CtxSessionID (AnyU64 (p_SessionID p)) c;
          c = SetKey CtxAuthorities (AnyStrings (p_Authorities p)) c;
          ctx = WithPrincipal p (c_Context c);
          ctx = SetUsernameOnContext (p_Username p) ctx
      in c\<lparr>c_Context := ctx\<rparr>)"

text \<open>
  \<open>JWTAuth\<close>.  The clock is read by the token library (0), by \<open>Validate\<close> (1), by \<open>Touch\<close> (2)
  and for the timestamp of an error envelope (3).  A nil validator is \<open>None\<close>.
\<close>

definition JWTAuth ::
  "jwt_lib \<Rightarrow> JwtService \<Rightarrow> 'w SessionValidator option \<Rightarrow> clock \<Rightarrow> ('w, 'd) handler \<Rightarrow> ('w, 'd) handler" where
  "JWTAuth L jwtSvc sessions clk next_h s =
     (let (w, c) = s;
          raw = extractBearer (c_Header c ''Authorization'')
      in if raw = '''' then next_h (w, c)
         else case jwt_Parse L jwtSvc (clk 0) raw of
           Inl _ \<Rightarrow> deny (clk 3) 401 ''Invalid or expired token'' (w, c)
         | Inr claims \<Rightarrow>
             if cl_Type claims \<noteq> TokenTypeAccess then deny (clk 3) 401 ''Access token required'' (w, c)
             else (case (if cl_SessionID claims \<noteq> 0 then sessions else None) of
                     None \<Rightarrow> next_h (w, set_principal (principal_of claims) c)
                   | Some V \<Rightarrow>
                       (case sv_Validate V (clk 1) (cl_SessionID claims) (cl_UserID claims) w of
                          Inl _ \<Rightarrow> deny (clk 3) 401 ''Session no longer active'' (w, c)
                        | Inr _ \<Rightarrow>
                            next_h (sv_Touch V (clk 2) (cl_SessionID claims) w,
                                    set_principal (principal_of claims) c))))"

section \<open>Facts\<close>

lemma deny_simps [simp]:
  "fst (deny now status msg s) = fst s" "c_Aborted (snd (deny now status msg s))"
  "c_Keys (snd (deny now status msg s)) = c_Keys (snd s)"
  by (simp_all add: deny_def)

lemma deny_out:
  "status \<noteq> 204 \<Longrightarrow> status \<noteq> 0 \<Longrightarrow>
     c_Out (snd (deny now status msg s)) = c_Out (snd s) @ [EJSON status (ErrorResponse now status msg None)]"
  by (simp add: deny_def)

lemma owns_any_role_iff [simp]: "owns_any_role p rs \<longleftrightarrow> list_ex (\<lambda>r. ''ROLE_'' @ r \<in> set (p_Authorities p)) rs"
  by (induction rs) auto

lemma CurrentPrincipal_set_principal [simp]: "CurrentPrincipal (set_principal p c) = Inr p"
  by (simp add: set_principal_def CurrentPrincipal_def ctx_key_defs Let_def)

lemma extractBearer_nonblank: "TrimSpace h \<noteq> '''' \<Longrightarrow> extractBearer h \<noteq> ''''"
proof -
  assume h: "TrimSpace h \<noteq> ''''"
  let ?t = "TrimSpace h"
  have "TrimSpace (drop 7 ?t) \<noteq> ''''" if "7 < length ?t"
  proof -
    have "last ?t \<in> set (drop 7 ?t)" using that by (metis last_drop last_in_set drop_eq_Nil2 not_le)
    then show ?thesis using last_TrimSpace [OF h] by (auto simp: TrimSpace_eq_Nil)
  qed
  then show ?thesis using h by (simp add: extractBearer_def Let_def eval_nat_numeral)
qed

lemma extractBearer_empty_iff: "extractBearer h = '''' \<longleftrightarrow> TrimSpace h = ''''"
  using extractBearer_nonblank [of h] by (cases "TrimSpace h = ''''") (simp_all add: extractBearer_def)

lemma extractBearer_Bearer:
  assumes "tok \<noteq> ''''" "\<not> is_space (hd tok)" "\<not> is_space (last tok)"
  shows "extractBearer (''Bearer '' @ tok) = tok"
proof -
  have "TrimSpace (''Bearer '' @ tok) = ''Bearer '' @ tok"
    using assms by (intro TrimSpace_id) (simp add: is_space_def)
  moreover have "TrimSpace tok = tok" using assms by (intro TrimSpace_id) simp
  ultimately show ?thesis using assms(1) by (simp add: extractBearer_def EqualFold_def)
qed

section \<open>The session contract\<close>

text \<open>
  What the authentication middleware relies on: a successful \<open>Validate\<close> means the session is
  active for that user, and \<open>Touch\<close> does not change which sessions are active.
\<close>

locale session_validator =
  fixes V :: "'w SessionValidator" and active :: "time \<Rightarrow> uint64 \<Rightarrow> uint64 \<Rightarrow> 'w \<Rightarrow> bool"
  assumes Validate_sound: "sv_Validate V now sid uid w = Inr () \<Longrightarrow> active now sid uid w"
    and Touch_active: "active now sid uid (sv_Touch V now' sid' w) \<longleftrightarrow> active now sid uid w"
begin

lemma JWTAuth_inactive:
  assumes "extractBearer (c_Header c ''Authorization'') = raw" "raw \<noteq> ''''"
    and "jwt_Parse L svc (clk 0) raw = Inr cl" "cl_Type cl = TokenTypeAccess" "cl_SessionID cl \<noteq> 0"
    and "\<not> active (clk 1) (cl_SessionID cl) (cl_UserID cl) w"
  shows "JWTAuth L svc (Some V) clk next_h (w, c) = deny (clk 3) 401 ''Session no longer active'' (w, c)"
proof -
  obtain e where "sv_Validate V (clk 1) (cl_SessionID cl) (cl_UserID cl) w = Inl e"
    using assms(6) Validate_sound by (cases "sv_Validate V (clk 1) (cl_SessionID cl) (cl_UserID cl) w") auto
  then show ?thesis using assms by (simp add: JWTAuth_def Let_def)
qed

text \<open>Three ways through the middleware.\<close>

lemma JWTAuth_cases:
  obtains (anonymous) "TrimSpace (c_Header c ''Authorization'') = ''''"
      "JWTAuth L svc (Some V) clk next_h (w, c) = next_h (w, c)"
  | (denied) msg where "JWTAuth L svc (Some V) clk next_h (w, c) = deny (clk 3) 401 msg (w, c)"
  | (accepted) cl w' where
      "jwt_Parse L svc (clk 0) (extractBearer (c_Header c ''Authorization'')) = Inr cl"
      "cl_Type cl = TokenTypeAccess"
      "cl_SessionID cl \<noteq> 0 \<longrightarrow> active (clk 1) (cl_SessionID cl) (cl_UserID cl) w"
      "\<forall>now sid uid. active now sid uid w' \<longleftrightarrow> active now sid uid w"
      "JWTAuth L svc (Some V) clk next_h (w, c) = next_h (w', set_principal (principal_of cl) c)"
proof (cases "extractBearer (c_Header c ''Authorization'') = ''''")
  case True
  then show ?thesis by (intro anonymous) (simp_all add: extractBearer_empty_iff JWTAuth_def Let_def)
next
  case raw: False
  show ?thesis
  proof (cases "jwt_Parse L svc (clk 0) (extractBearer (c_Header c ''Authorization''))")
    case (Inl e)
    then show ?thesis using raw by (intro denied) (simp add: JWTAuth_def Let_def)
  next
    case (Inr cl)
    consider "cl_Type cl \<noteq> TokenTypeAccess" | "cl_Type cl = TokenTypeAccess" "cl_SessionID cl = 0"
      | e where "cl_Type cl = TokenTypeAccess" "cl_SessionID cl \<noteq> 0"
          "sv_Validate V (clk 1) (cl_SessionID cl) (cl_UserID cl) w = Inl e"
      | "cl_Type cl = TokenTypeAccess" "cl_SessionID cl \<noteq> 0"
          "sv_Validate V (clk 1) (cl_SessionID cl) (cl_UserID cl) w = Inr ()"
      by (cases "sv_Validate V (clk 1) (cl_SessionID cl) (cl_UserID cl) w") auto
    then show ?thesis
    proof cases
      case 1 then show ?thesis using raw Inr by (intro denied) (simp add: JWTAuth_def Let_def)
    next
      case 2 then show ?thesis using raw Inr by (intro accepted [of cl w]) (simp_all add: JWTAuth_def Let_def)
    next
      case 3 then show ?thesis using raw Inr by (intro denied) (simp add: JWTAuth_def Let_def)
    next
      case 4
      then show ?thesis using raw Inr Validate_sound Touch_active
        by (intro accepted [of cl "sv_Touch V (clk 2) (cl_SessionID cl) w"]) (simp_all add: JWTAuth_def Let_def)
    qed
  qed
qed

end

section \<open>Properties\<close>


text \<open>
  A request is let through without a principal only when the Authorization header is blank.
  Every other header, with or without the Bearer prefix, is read as a token, and a token the
  service does not accept is answered with 401 before the rest of the chain runs.
\<close>

theorem JWTAuth_unparsable_header:
  assumes "TrimSpace (c_Header c ''Authorization'') \<noteq> ''''"
    and "jwt_Parse L svc (clk 0) (extractBearer (c_Header c ''Authorization'')) = Inl err"
  shows "JWTAuth L svc sessions clk next_h (w, c)
         = (w, Abort (send (EJSON 401 (ErrorResponse (clk 3) 401 ''Invalid or expired token'' None)) c))"
  using assms extractBearer_nonblank [OF assms(1)] by (simp add: JWTAuth_def deny_def Let_def)

definition demo_context :: "string \<Rightarrow> 'd gin_context" where
  "demo_context auth =
     \<lparr>c_Method = ''GET'', c_Path = ''/api/v1/users/me'', c_RawQuery = '''',
      c_Header = (\<lambda>h. if h = ''Authorization'' then auth else ''''), c_Param = (\<lambda>_. ''''), c_Body = '''',
      c_ClientIP = ''10.0.0.1'', c_UserAgent = ''curl/8'',
      c_Context = \<lparr>rc_username = None, rc_principal = None, rc_fields = []\<rparr>,
      c_Keys = Map.empty, c_Out = [], c_Aborted = False\<rparr>"

theorem JWTAuth_unparsable_header_witness:
  "JWTAuth plain_jwt demo_jwt None (\<lambda>_. 0) (\<lambda>s. s) ((), demo_context ''Basic YWRhOnB3'' :: nat gin_context)
   = ((), Abort (send (EJSON 401 (ErrorResponse 0 401 ''Invalid or expired token'' None)) (demo_context ''Basic YWRhOnB3'')))"
proof -
  have h: "c_Header (demo_context ''Basic YWRhOnB3'' :: nat gin_context) ''Authorization'' = ''Basic YWRhOnB3''"
    by (simp add: demo_context_def)
  have t: "TrimSpace ''Basic YWRhOnB3'' = ''Basic YWRhOnB3''" by code_simp
  have "extractBearer ''Basic YWRhOnB3'' = ''Basic YWRhOnB3''" by code_simp
  moreover have "dec_token ''Basic YWRhOnB3'' = None" by code_simp
  ultimately have "\<exists>e. jwt_Parse plain_jwt demo_jwt 0 (extractBearer ''Basic YWRhOnB3'') = Inl e"
    by (simp add: jwt_Parse_def plain_jwt_def)
  then obtain e where "jwt_Parse plain_jwt demo_jwt 0 (extractBearer ''Basic YWRhOnB3'') = Inl e" by blast
  then show ?thesis
    using JWTAuth_unparsable_header [of "demo_context ''Basic YWRhOnB3'' :: nat gin_context" plain_jwt demo_jwt "\<lambda>_. 0" e
        None "\<lambda>s. s" "()"] h t by simp
qed

end
