(* ===== verification/Names.thy ===== *)
theory Names
  imports Principal
begin

text \<open>The catalogue of permission names (\<open>internal/modules/permission/names.go\<close>).\<close>

definition UserRead :: string where "UserRead = ''USER_READ''"
definition UserWrite :: string where "UserWrite = ''USER_WRITE''"
definition UserDelete :: string where "UserDelete = ''USER_DELETE''"
definition RoleRead :: string where "RoleRead = ''ROLE_READ''"
definition RoleWrite :: string where "RoleWrite = ''ROLE_WRITE''"
definition RoleDelete :: string where "RoleDelete = ''ROLE_DELETE''"
definition PermissionRead :: string where "PermissionRead = ''PERMISSION_READ''"
definition PermissionWrite :: string where "PermissionWrite = ''PERMISSION_WRITE''"
definition PermissionDelete :: string where "PermissionDelete = ''PERMISSION_DELETE''"
definition SessionRead :: string where "SessionRead = ''SESSION_READ''"
definition SessionRevoke :: string where "SessionRevoke = ''SESSION_REVOKE''"
definition AuditRead :: string where "AuditRead = ''AUDIT_READ''"
definition AdminRead :: string where "AdminRead = ''ADMIN_READ''"
definition AdminWrite :: string where "AdminWrite = ''ADMIN_WRITE''"
definition AdminEdit :: string where "AdminEdit = ''ADMIN_EDIT''"
definition AdminDelete :: string where "AdminDelete = ''ADMIN_DELETE''"
definition UserImpersonate :: string where "UserImpersonate = ''USER_IMPERSONATE''"
definition ProductRead :: string where "ProductRead = ''PRODUCT_READ''"
definition ProductWrite :: string where "ProductWrite = ''PRODUCT_WRITE''"
definition ProductDelete :: string where "ProductDelete = ''PRODUCT_DELETE''"

lemmas permission_name_defs = UserRead_def UserWrite_def UserDelete_def RoleRead_def
  RoleWrite_def RoleDelete_def PermissionRead_def PermissionWrite_def PermissionDelete_def
  SessionRead_def SessionRevoke_def AuditRead_def AdminRead_def AdminWrite_def AdminEdit_def
  AdminDelete_def UserImpersonate_def ProductRead_def ProductWrite_def ProductDelete_def

definition AdminAny :: "string list" where
  "AdminAny = [AdminRead, AdminWrite, AdminEdit, AdminDelete]"

definition AllPermissions :: "string list" where
  "AllPermissions =
     [UserRead, UserWrite, UserDelete, RoleRead, RoleWrite, RoleDelete,
      PermissionRead, PermissionWrite, PermissionDelete, SessionRead, SessionRevoke, AuditRead,
      AdminRead, AdminWrite, AdminEdit, AdminDelete, UserImpersonate,
      ProductRead, ProductWrite, ProductDelete]"

text \<open>
  The catalogue has no duplicate, and, although role permissions start with \<open>ROLE_\<close> as role
  authorities do, none of them is the authority of one of the two built-in roles.
\<close>

lemma AllPermissions_distinct: "distinct AllPermissions"
  by (simp add: AllPermissions_def permission_name_defs)

lemma AllPermissions_not_role: "''ROLE_ADMIN'' \<notin> set AllPermissions \<and> ''ROLE_USER'' \<notin> set AllPermissions"
  by (simp add: AllPermissions_def permission_name_defs)

end
