(* ===== verification/Permission.thy ===== *)
theory Permission
  imports Security Names
begin

text \<open>
  Module \<open>internal/modules/permission\<close>: entity, repository, service and endpoints.  The
  blame columns are set by the callbacks of theory \<open>BaseModel\<close> before each statement.
\<close>

section \<open>Entity and responses\<close>

record Permission = BaseModel +
  pm_Name :: string
  pm_Description :: string

record PermissionRequest =
  pq_Name :: string
  pq_Description :: string

record PermissionResponse =
  px_ID :: uint64
  px_Name :: string
  px_Description :: string
  px_Base :: BaseResponse

record PermissionFilter =
  pf_Q :: string

definition permission_ToResponse :: "Permission \<Rightarrow> PermissionResponse" where
  "permission_ToResponse p =
     \<lparr>px_ID = bm_ID p, px_Name = pm_Name p, px_Description = pm_Description p, px_Base = base_response p\<rparr>"

definition permission_ToResponses :: "Permission list \<Rightarrow> PermissionResponse list" where
  "permission_ToResponses ps = map permission_ToResponse ps"

section \<open>Repository\<close>

type_synonym permissions = "Permission table"

definition permission_repo_Create ::
  "Permission gorm \<Rightarrow> request_context option \<Rightarrow> Permission \<Rightarrow> (permissions, go_error, Permission) op" where
  "permission_repo_Create G ctx p = dbE (db_Create G (setCreatedBy ctx p))"

definition permission_repo_Update ::
  "Permission gorm \<Rightarrow> request_context option \<Rightarrow> Permission \<Rightarrow> (permissions, go_error, Permission) op" where
  "permission_repo_Update G ctx p = dbE (db_Save G (setUpdatedBy ctx p))"

definition permission_repo_Delete :: "Permission gorm \<Rightarrow> uint64 \<Rightarrow> (permissions, go_error, unit) op" where
  "permission_repo_Delete G pid = bindE (dbE (db_Delete G (\<lambda>r. bm_ID r = pid))) (\<lambda>_. returnE ())"

definition permission_repo_GetByID :: "Permission gorm \<Rightarrow> uint64 \<Rightarrow> permissions \<Rightarrow> go_error + Permission option" where
  "permission_repo_GetByID G pid = first_opt G (\<lambda>r. bm_ID r = pid)"

definition permission_repo_GetByName :: "Permission gorm \<Rightarrow> string \<Rightarrow> permissions \<Rightarrow> go_error + Permission option" where
  "permission_repo_GetByName G name = first_opt G (\<lambda>r. pm_Name r = name)"

definition permission_repo_FindAllByNames ::
  "Permission gorm \<Rightarrow> string list \<Rightarrow> permissions \<Rightarrow> go_error + Permission list" where
  "permission_repo_FindAllByNames G names t =
     (if length names = 0 then Inr []
      else dbR (db_Find G (\<lambda>r. List.member names (pm_Name r)) unordered None) t)"

text \<open>\<open>ORDER BY name ASC\<close>, with the collation of the database as a parameter.\<close>

definition permission_matches :: "(string \<Rightarrow> string \<Rightarrow> bool) \<Rightarrow> PermissionFilter \<Rightarrow> Permission \<Rightarrow> bool" where
  "permission_matches like f r =
     (if pf_Q f \<noteq> ''''
      then let pat = ''%'' @ pf_Q f @ ''%'' in like (pm_Name r) pat \<or> like (pm_Description r) pat
      else True)"

definition permission_repo_Search ::
  "Permission gorm \<Rightarrow> (string \<Rightarrow> string \<Rightarrow> bool) \<Rightarrow> (string \<Rightarrow> string \<Rightarrow> bool) \<Rightarrow> PermissionFilter \<Rightarrow> goint \<Rightarrow> goint \<Rightarrow> permissions
   \<Rightarrow> go_error + Permission list \<times> int" where
  "permission_repo_Search G collate like f offset cnt t =
     (case db_Count G (permission_matches like f) t of
        Inl err \<Rightarrow> Inl (DbError err)
      | Inr n \<Rightarrow>
          (case db_Find G (permission_matches like f) (\<lambda>a b. collate (pm_Name a) (pm_Name b)) (Some (offset, cnt)) t of
             Inl err \<Rightarrow> Inl (DbError err)
           | Inr rs \<Rightarrow> Inr (rs, n)))"

definition permission_repo_List ::
  "Permission gorm \<Rightarrow> (string \<Rightarrow> string \<Rightarrow> bool) \<Rightarrow> permissions \<Rightarrow> go_error + Permission list" where
  "permission_repo_List G collate =
     dbR (db_Find G (\<lambda>_. True) (\<lambda>a b. collate (pm_Name a) (pm_Name b)) None)"

section \<open>Service\<close>

definition new_permission :: "string \<Rightarrow> string \<Rightarrow> Permission" where
  "new_permission name description = zero_base \<lparr>pm_Name = name, pm_Description = description\<rparr>"

definition permission_Create ::
  "Permission gorm \<Rightarrow> request_context option \<Rightarrow> PermissionRequest \<Rightarrow> (permissions, go_error, PermissionResponse) op" where
  "permission_Create G ctx req =
     bindE (readE (permission_repo_GetByName G (pq_Name req))) (\<lambda>existing.
     if existing \<noteq> None then throwE (Duplicate ''Permission with that name already exists'')
     else bindE (permission_repo_Create G ctx (new_permission (pq_Name req) (pq_Description req))) (\<lambda>p.
     returnE (permission_ToResponse p)))"

definition permission_Update ::
  "Permission gorm \<Rightarrow> request_context option \<Rightarrow> uint64 \<Rightarrow> PermissionRequest \<Rightarrow> (permissions, go_error, PermissionResponse) op" where
  "permission_Update G ctx pid req =
     bindE (readE (permission_repo_GetByID G pid)) (\<lambda>p.
     case p of
       None \<Rightarrow> throwE (NotFound ''Permission'' pid)
     | Some p \<Rightarrow>
         bindE (permission_repo_Update G ctx (p\<lparr>pm_Name := pq_Name req, pm_Description := pq_Description req\<rparr>)) (\<lambda>p.
         returnE (permission_ToResponse p)))"

definition permission_Delete :: "Permission gorm \<Rightarrow> uint64 \<Rightarrow> (permissions, go_error, unit) op" where
  "permission_Delete G pid =
     bindE (readE (permission_repo_GetByID G pid)) (\<lambda>p.
     case p of None \<Rightarrow> throwE (NotFound ''Permission'' pid) | Some _ \<Rightarrow> permission_repo_Delete G pid)"

definition permission_GetByID :: "Permission gorm \<Rightarrow> uint64 \<Rightarrow> permissions \<Rightarrow> go_error + PermissionResponse" where
  "permission_GetByID G pid t =
     (case permission_repo_GetByID G pid t of
        Inl err \<Rightarrow> Inl err
      | Inr None \<Rightarrow> Inl (NotFound ''Permission'' pid)
      | Inr (Some p) \<Rightarrow> Inr (permission_ToResponse p))"

definition permission_Search ::
  "Permission gorm \<Rightarrow> (string \<Rightarrow> string \<Rightarrow> bool) \<Rightarrow> (string \<Rightarrow> string \<Rightarrow> bool) \<Rightarrow> PermissionFilter \<Rightarrow> PageRequest \<Rightarrow> permissions
   \<Rightarrow> go_error + PermissionResponse PageResponse" where
  "permission_Search G collate like f page t =
     (case permission_repo_Search G collate like f (Offset page) (Limit page) t of
        Inl err \<Rightarrow> Inl err
      | Inr (rs, n) \<Rightarrow> Inr (NewPage (Some (permission_ToResponses rs)) page n))"

definition permission_List ::
  "Permission gorm \<Rightarrow> (string \<Rightarrow> string \<Rightarrow> bool) \<Rightarrow> permissions \<Rightarrow> go_error + PermissionResponse list" where
  "permission_List G collate t =
     (case permission_repo_List G collate t of Inl err \<Rightarrow> Inl err | Inr rs \<Rightarrow> Inr (permission_ToResponses rs))"

section \<open>Endpoints\<close>

datatype permission_data = PermissionPage "PermissionResponse PageResponse" | PermissionOne PermissionResponse

type_synonym permission_endpoint =
  "permission_data gin_context \<Rightarrow> (permissions, go_error, permission_data ApiResponse) op"

definition permission_list ::
  "Permission gorm \<Rightarrow> (string \<Rightarrow> string \<Rightarrow> bool) \<Rightarrow> (string \<Rightarrow> string \<Rightarrow> bool) \<Rightarrow> (string \<Rightarrow> PermissionFilter)
   \<Rightarrow> (string \<Rightarrow> PageRequest) \<Rightarrow> time \<Rightarrow> permission_endpoint" where
  "permission_list G collate like bindf bindp now c =
     bindE (readE (permission_Search G collate like (bindf (c_RawQuery c)) (BindPage bindp c))) (\<lambda>res.
     returnE (OK now (Some (PermissionPage res))))"

definition permission_get :: "Permission gorm \<Rightarrow> time \<Rightarrow> permission_endpoint" where
  "permission_get G now c =
     bindE (readE (\<lambda>_. parseID c)) (\<lambda>pid.
     bindE (readE (permission_GetByID G pid)) (\<lambda>res.
     returnE (OK now (Some (PermissionOne res)))))"

definition permission_create ::
  "Permission gorm \<Rightarrow> (string \<Rightarrow> go_error + PermissionRequest) \<Rightarrow> time \<Rightarrow> permission_endpoint" where
  "permission_create G bind now c =
     bindE (readE (\<lambda>_. BindJSON bind c)) (\<lambda>req.
     bindE (permission_Create G (Some (c_Context c)) req) (\<lambda>res.
     returnE (Created now (Some (PermissionOne res)))))"

definition permission_update ::
  "Permission gorm \<Rightarrow> (string \<Rightarrow> go_error + PermissionRequest) \<Rightarrow> time \<Rightarrow> permission_endpoint" where
  "permission_update G bind now c =
     bindE (readE (\<lambda>_. parseID c)) (\<lambda>pid.
     bindE (readE (\<lambda>_. BindJSON bind c)) (\<lambda>req.
     bindE (permission_Update G (Some (c_Context c)) pid req) (\<lambda>res.
     returnE (OK now (Some (PermissionOne res))))))"

definition permission_delete :: "Permission gorm \<Rightarrow> time \<Rightarrow> permission_endpoint" where
  "permission_delete G now c =
     bindE (readE (\<lambda>_. parseID c)) (\<lambda>pid.
     bindE (permission_Delete G pid) (\<lambda>_.
     returnE (MessageResponse now ''Deleted'')))"

datatype permission_route =
  PermissionRouteList | PermissionRouteGet | PermissionRouteCreate | PermissionRouteUpdate | PermissionRouteDelete

text \<open>\<open>Register\<close>: the gate and the endpoint of each route.\<close>

fun permission_gate :: "permission_route \<Rightarrow> string list" where
  "permission_gate PermissionRouteList = [PermissionRead]"
| "permission_gate PermissionRouteGet = [PermissionRead]"
| "permission_gate PermissionRouteCreate = [PermissionWrite]"
| "permission_gate PermissionRouteUpdate = [PermissionWrite]"
| "permission_gate PermissionRouteDelete = [PermissionDelete]"

definition permission_Register ::
  "Permission gorm \<Rightarrow> (string \<Rightarrow> string \<Rightarrow> bool) \<Rightarrow> (string \<Rightarrow> string \<Rightarrow> bool) \<Rightarrow> (string \<Rightarrow> PermissionFilter)
   \<Rightarrow> (string \<Rightarrow> PageRequest) \<Rightarrow> (string \<Rightarrow> go_error + PermissionRequest) \<Rightarrow> clock \<Rightarrow> permission_route
   \<Rightarrow> (permissions, permission_data) handler" where
  "permission_Register G collate like bindf bindp bind clk route =
     HasPermission (clk 0) (permission_gate route) (Handler (clk 2) (endpoint
       (case route of
          PermissionRouteList \<Rightarrow> permission_list G collate like bindf bindp (clk 1)
        | PermissionRouteGet \<Rightarrow> permission_get G (clk 1)
        | PermissionRouteCreate \<Rightarrow> permission_create G bind (clk 1)
        | PermissionRouteUpdate \<Rightarrow> permission_update G bind (clk 1)
        | PermissionRouteDelete \<Rightarrow> permission_delete G (clk 1))))"

section \<open>The catalogue\<close>

text \<open>The abstract view: a finite map from the names of the live permissions to descriptions.\<close>

definition catalogue :: "permissions \<Rightarrow> (string \<rightharpoonup> string)" where
  "catalogue t = map_of (map (\<lambda>p. (pm_Name p, pm_Description p)) (filter base_live (rows t)))"

abbreviation permissions_ok :: "permissions \<Rightarrow> bool" where
  "permissions_ok t \<equiv> table_ok bm_ID (unique_on pm_Name) t"

lemma pm_rel:
  "base_filled r r' \<Longrightarrow> pm_Name r' = pm_Name r \<and> pm_Description r' = pm_Description r"
  "base_touched r r' \<Longrightarrow> pm_Name r' = pm_Name r \<and> pm_Description r' = pm_Description r"
  "base_dropped r r' \<Longrightarrow> pm_Name r' = pm_Name r \<and> pm_Description r' = pm_Description r"
  by (auto simp: base_rel_defs)

lemma pm_callbacks [simp]:
  "pm_Name (setCreatedBy ctx r) = pm_Name r" "pm_Description (setCreatedBy ctx r) = pm_Description r"
  "pm_Name (setUpdatedBy ctx r) = pm_Name r" "pm_Description (setUpdatedBy ctx r) = pm_Description r"
  by (simp_all add: setCreatedBy_def setUpdatedBy_def Let_def)

lemma catalogue_Some:
  assumes "unique_on pm_Name (rows t)"
  shows "catalogue t n = Some d \<longleftrightarrow>
           (\<exists>p. (p \<in> set (rows t) \<and> base_live p) \<and> pm_Name p = n \<and> pm_Description p = d)"
proof -
  have "distinct (map pm_Name (filter base_live (rows t)))"
    using assms by (simp add: unique_on_def distinct_map_filter)
  then have "distinct (map fst (map (\<lambda>p. (pm_Name p, pm_Description p)) (filter base_live (rows t))))"
    by (simp add: comp_def)
  then show ?thesis by (auto simp: catalogue_def)
qed

lemma catalogue_None: "catalogue t n = None \<longleftrightarrow> (\<forall>p \<in> set (rows t). base_live p \<longrightarrow> pm_Name p \<noteq> n)"
  by (force simp: catalogue_def map_of_eq_None_iff)

locale permission_store = gorm_soft G bm_ID base_live base_filled base_touched "unique_on pm_Name" base_dropped
  for G :: "Permission gorm"
begin

lemma Create_refines:
  assumes "permission_Create G ctx req t = (Inr resp, t')"
  shows "catalogue t (pq_Name req) = None" "catalogue t' = (catalogue t)(pq_Name req \<mapsto> pq_Description req)"
    "px_Name resp = pq_Name req" "br_CreatedBy (px_Base resp) = usernameFromContext ctx"
proof -
  let ?p = "setCreatedBy ctx (new_permission (pq_Name req) (pq_Description req))"
  obtain p where g: "permission_repo_GetByName G (pq_Name req) t = Inr None"
    and c: "db_Create G ?p t = (Inr p, t')" and r: "resp = permission_ToResponse p"
    using assms unfolding permission_Create_def permission_repo_Create_def
    by (auto simp: bindE_Inr split: if_splits)
  have z: "bm_ID ?p = 0" "base_live ?p" "pm_Name ?p = pq_Name req" "pm_Description ?p = pq_Description req"
    "bm_CreatedBy ?p = usernameFromContext ctx"
    by (simp_all add: new_permission_def zero_base_def base_live_def setCreatedBy_def Let_def)
  from Create_ok [OF c z(1)] have rs: "rows t' = rows t @ [p]" "base_filled ?p p" by auto
  have p: "pm_Name p = pq_Name req" "pm_Description p = pq_Description req" "base_live p"
    "bm_CreatedBy p = usernameFromContext ctx"
    using rs(2) pm_rel(1) [OF rs(2)] filled_scope [OF rs(2)] z by (auto simp: base_filled_def)
  show n: "catalogue t (pq_Name req) = None"
    using g first_opt_None unfolding permission_repo_GetByName_def catalogue_None by blast
  show "catalogue t' = (catalogue t)(pq_Name req \<mapsto> pq_Description req)"
    using n p by (auto simp: catalogue_def rs(1) map_add_def fun_eq_iff split: option.splits)
  show "px_Name resp = pq_Name req" "br_CreatedBy (px_Base resp) = usernameFromContext ctx"
    using p by (simp_all add: r permission_ToResponse_def base_response_def)
qed

lemma GetByID_Some:
  "permission_repo_GetByID G pid t = Inr (Some p) \<Longrightarrow> p \<in> set (rows t) \<and> base_live p \<and> bm_ID p = pid"
  unfolding permission_repo_GetByID_def by (rule first_opt_Some)

text \<open>In a consistent table a live permission is determined by its key and by its name.\<close>

lemma key_name:
  assumes "permissions_ok t" "p \<in> set (rows t)" "q \<in> set (rows t)"
  shows "bm_ID p = bm_ID q \<longleftrightarrow> pm_Name p = pm_Name q"
  using assms by (auto simp: table_ok_def unique_on_def distinct_map dest: inj_onD)

lemma Delete_refines:
  assumes "permissions_ok t" "permission_Delete G pid t = (Inr (), t')"
  shows "\<exists>p \<in> set (rows t). base_live p \<and> bm_ID p = pid \<and> catalogue t' = (catalogue t)(pm_Name p := None)"
proof -
  obtain p n where p: "p \<in> set (rows t)" "base_live p" "bm_ID p = pid"
    and d: "db_Delete G (\<lambda>r. bm_ID r = pid) t = (Inr n, t')"
    using assms(2) unfolding permission_Delete_def permission_repo_Delete_def
    by (auto simp: bindE_Inr split: option.splits dest!: GetByID_Some)
  have u: "unique_on pm_Name (rows t)" "unique_on pm_Name (rows t')"
    using assms(1) Delete_table_ok [OF assms(1) d] by (simp_all add: table_ok_def)
  have live: "q \<in> set (rows t') \<and> base_live q \<longleftrightarrow> q \<in> set (rows t) \<and> base_live q \<and> bm_ID q \<noteq> pid" for q
    using arg_cong [OF Delete_live_rows [OF d], of set] by auto
  have "catalogue t' k = ((catalogue t)(pm_Name p := None)) k" for k
  proof (rule option_eqI)
    show "catalogue t' k = Some v \<longleftrightarrow> ((catalogue t)(pm_Name p := None)) k = Some v" for v
      unfolding fun_upd_apply catalogue_Some [OF u(2)] live using key_name [OF assms(1) p(1)] p(3)
      by (cases "k = pm_Name p") (simp_all add: catalogue_Some [OF u(1)], metis+)
  qed
  then show ?thesis using p by blast
qed

lemma Update_refines:
  assumes "permissions_ok t" "permission_Update G ctx pid req t = (Inr resp, t')"
  shows "\<exists>p \<in> set (rows t). base_live p \<and> bm_ID p = pid \<and>
           catalogue t' = (catalogue t)(pm_Name p := None, pq_Name req \<mapsto> pq_Description req)"
proof -
  let ?u = "\<lambda>p. setUpdatedBy ctx (p\<lparr>pm_Name := pq_Name req, pm_Description := pq_Description req\<rparr>)"
  obtain p q where p: "p \<in> set (rows t)" "base_live p" "bm_ID p = pid"
    and s: "db_Save G (?u p) t = (Inr q, t')"
    using assms(2) unfolding permission_Update_def permission_repo_Update_def
    by (auto simp: bindE_Inr split: option.splits dest!: GetByID_Some)
  have pk: "bm_ID (?u p) = pid" "base_live (?u p)" using p by (simp_all add: base_live_def)
  have sv: "base_touched (?u p) q" "rows t' = map (\<lambda>y. if base_live y \<and> bm_ID y = pid then q else y) (rows t)"
    using Save_ok [OF s p(1,2)] pk p(3) by simp_all
  have q: "pm_Name q = pq_Name req" "pm_Description q = pq_Description req" "base_live q"
    using pm_rel(2) [OF sv(1)] touched_scope [OF sv(1)] pk by simp_all
  have u: "unique_on pm_Name (rows t)" "unique_on pm_Name (rows t')"
    using assms(1) Save_table_ok [OF assms(1) p(1,2) _ s] pk p(3) by (simp_all add: table_ok_def)
  have live: "x \<in> set (rows t') \<and> base_live x \<longleftrightarrow> x = q \<or> x \<in> set (rows t) \<and> base_live x \<and> bm_ID x \<noteq> pid" for x
    using p q(3) unfolding sv(2) by auto
  have new: "pm_Name x \<noteq> pq_Name req" if "x \<in> set (rows t)" "base_live x" "bm_ID x \<noteq> pid" for x
  proof
    assume "pm_Name x = pq_Name req"
    then have "x = q" using live [of x] live [of q] that u(2) q(1)
      by (auto simp: unique_on_def distinct_map inj_on_def)
    then have "bm_ID x = pid" using touched_pk [OF sv(1)] pk(1) by simp
    then show False using that(3) by simp
  qed
  have "catalogue t' k = ((catalogue t)(pm_Name p := None, pq_Name req \<mapsto> pq_Description req)) k" for k
  proof (rule option_eqI)
    show "catalogue t' k = Some v \<longleftrightarrow> ((catalogue t)(pm_Name p := None, pq_Name req \<mapsto> pq_Description req)) k = Some v" for v
      unfolding fun_upd_apply catalogue_Some [OF u(2)] live using key_name [OF assms(1) p(1)] p(3) q new
      by (cases "k = pm_Name p"; cases "k = pq_Name req") (simp_all add: catalogue_Some [OF u(1)], metis+)
  qed
  then show ?thesis using p by blast
qed

lemma Create_clash:
  assumes "catalogue t (pq_Name req) = None" "p \<in> set (rows t)" "pm_Name p = pq_Name req"
  shows "\<exists>d. fst (permission_Create G ctx req t) = Inl (DbError d)"
proof (cases "permission_Create G ctx req t")
  case (Pair res t')
  show ?thesis
  proof (cases res)
    case (Inr resp)
    let ?p = "setCreatedBy ctx (new_permission (pq_Name req) (pq_Description req))"
    obtain r where c: "db_Create G ?p t = (Inr r, t')"
      using Pair Inr unfolding permission_Create_def permission_repo_Create_def by (auto simp: bindE_Inr split: if_splits)
    have "bm_ID ?p = 0" by (simp add: new_permission_def zero_base_def)
    from Create_ok [OF c this] have "rows t' = rows t @ [r]" "unique_on pm_Name (rows t')" "base_filled ?p r" by auto
    moreover from this(3) have "pm_Name r = pq_Name req"
      by (simp add: pm_rel(1) new_permission_def zero_base_def)
    ultimately show ?thesis using assms(2,3) by (force simp: unique_on_def)
  next
    case (Inl e)
    have "permission_repo_GetByName G (pq_Name req) t \<noteq> Inr (Some q)" for q
      using assms(1) first_opt_Some [of "\<lambda>r. pm_Name r = pq_Name req" t q]
      by (auto simp: permission_repo_GetByName_def catalogue_None)
    then consider d where "permission_repo_GetByName G (pq_Name req) t = Inl (DbError d)"
      | "permission_repo_GetByName G (pq_Name req) t = Inr None"
      by (cases "permission_repo_GetByName G (pq_Name req) t")
         (auto simp: permission_repo_GetByName_def dest: first_opt_Inl)
    then show ?thesis using Pair Inl
      by cases (auto simp: permission_Create_def permission_repo_Create_def bindE_Inl dbE_Inl bindE_fail bindE_step)
  qed
qed

end

section \<open>An instance\<close>

definition mem_permissions :: "Permission gorm" where
  "mem_permissions = mem_base (unique_on pm_Name)"

lemma unique_name_mark: "unique_on pm_Name rs \<Longrightarrow> unique_on pm_Name (map (\<lambda>r. if P r then mark r else r) rs)"
  by (rule unique_on_mark) (simp add: mark_def)

interpretation mem_permissions: permission_store mem_permissions
  unfolding permission_store_def mem_permissions_def by (rule mem_base_soft) (rule unique_name_mark)

definition demo_permission :: "uint64 \<Rightarrow> string \<Rightarrow> time option \<Rightarrow> Permission" where
  "demo_permission pid name deleted = (new_permission name ''demo'')\<lparr>bm_ID := pid, bm_DeletedAt := deleted\<rparr>"

definition demo_permissions :: permissions where
  "demo_permissions = \<lparr>rows = [demo_permission 1 ''A_READ'' None, demo_permission 2 ''B_READ'' (Some 5)], next_id = 3\<rparr>"

lemmas demo_permission_defs = demo_permissions_def demo_permission_def new_permission_def zero_base_def

lemma demo_permissions_ok: "permissions_ok demo_permissions"
  by (simp add: table_ok_def unique_on_def demo_permission_defs)

section \<open>Properties\<close>



text \<open>
  On a consistent table a successful \<open>Update\<close> or \<open>Delete\<close> of a permission moves or removes
  exactly the catalogue entry of the live row with that id.
\<close>

theorem permission_Update_Delete_refine:
  assumes "permission_store G" "permissions_ok t"
  shows "(permission_Update G ctx pid req t = (Inr resp, t') \<longrightarrow>
            (\<exists>p \<in> set (rows t). base_live p \<and> bm_ID p = pid \<and>
               catalogue t' = (catalogue t)(pm_Name p := None, pq_Name req \<mapsto> pq_Description req)))
       \<and> (permission_Delete G pid t = (Inr (), t') \<longrightarrow>
            (\<exists>p \<in> set (rows t). base_live p \<and> bm_ID p = pid \<and> catalogue t' = (catalogue t)(pm_Name p := None)))"
  using permission_store.Update_refines [OF assms] permission_store.Delete_refines [OF assms] by blast

theorem permission_Update_Delete_refine_witness:
  "catalogue (snd (permission_Delete mem_permissions 1 demo_permissions)) ''A_READ'' = None"
proof -
  let ?r = "permission_Delete mem_permissions 1 demo_permissions"
  have "fst ?r = Inr ()"
    by (simp add: permission_Delete_def permission_repo_Delete_def permission_repo_GetByID_def first_opt_def
        bindE_def dbE_def mem_permissions_def mem_base_def mem_gorm_def demo_permission_defs base_live_def
        sort_by_def Let_def)
  then have "?r = (Inr (), snd ?r)" by (metis prod.collapse)
  then obtain p where p: "p \<in> set (rows demo_permissions)" "bm_ID p = 1"
      "catalogue (snd ?r) = (catalogue demo_permissions)(pm_Name p := None)"
    using permission_Update_Delete_refine [OF mem_permissions.permission_store_axioms demo_permissions_ok] by blast
  have "pm_Name p = ''A_READ''" using p(1,2) by (auto simp: demo_permission_defs)
  then show ?thesis using p(3) by simp
qed

text \<open>
  A name that belongs to a deleted permission cannot be used again: the service finds no
  permission of that name, the unique index refuses the insert, and the request ends with an
  internal error (500) instead of the conflict (409) a live duplicate gets.
\<close>

theorem permission_Create_deleted_name:
  assumes "permission_store G" "catalogue t (pq_Name req) = None"
    and "p \<in> set (rows t)" "pm_Name p = pq_Name req"
  shows "\<exists>d. fst (permission_Create G ctx req t) = Inl (DbError d)
             \<and> ar_Status (error_envelope now (DbError d)) = 500"
  using permission_store.Create_clash [OF assms] by (auto simp: error_envelope_def ErrorResponse_def)

theorem permission_Create_deleted_name_witness:
  "\<exists>d. fst (permission_Create mem_permissions None \<lparr>pq_Name = ''B_READ'', pq_Description = ''b''\<rparr> demo_permissions) = Inl (DbError d)"
proof -
  have "catalogue demo_permissions ''B_READ'' = None"
    by (simp add: catalogue_def demo_permission_defs base_live_def)
  then show ?thesis
    using permission_Create_deleted_name [OF mem_permissions.permission_store_axioms,
        of demo_permissions "\<lparr>pq_Name = ''B_READ'', pq_Description = ''b''\<rparr>" "demo_permission 2 ''B_READ'' (Some 5)" None]
    by (auto simp: demo_permission_defs)
qed

end
