(* ===== verification/Assoc.thy ===== *)
theory Assoc
  imports BaseModel
begin

text \<open>
  Many-to-many associations of the database library (\<open>Preload\<close>, \<open>Association.Replace\<close>, and the
  saving of associations with the row that owns them).  A join table is a list of pairs of
  keys; \<open>'r\<close> is the owner and \<open>'a\<close> the associated entity.
\<close>

type_synonym joins = "(uint64 \<times> uint64) list"

record ('r, 'a) gorm_assoc =
  ga_Create :: "'r \<Rightarrow> uint64 list \<Rightarrow> ('r table \<times> joins, db_error, 'r) op"
  ga_Save :: "'r \<Rightarrow> uint64 list \<Rightarrow> ('r table \<times> joins, db_error, 'r) op"
  ga_Replace :: "uint64 \<Rightarrow> uint64 list \<Rightarrow> (joins, db_error, unit) op"
  ga_Preload :: "uint64 \<Rightarrow> joins \<Rightarrow> 'a table \<Rightarrow> db_error + 'a list"

definition linked :: "uint64 \<Rightarrow> uint64 list \<Rightarrow> (uint64 \<times> uint64) set" where
  "linked owner ids = Pair owner ` set ids"

locale gorm_m2m = gorm_soft G bm_ID base_live base_filled base_touched cons base_dropped
  for G :: "('b BaseModel_scheme) gorm" and cons +
  fixes A :: "('b BaseModel_scheme, 'a BaseModel_scheme) gorm_assoc"
  assumes assoc_Create_ok: "ga_Create A r ids (t, j) = (Inr r', (t', j')) \<Longrightarrow> bm_ID r = 0 \<Longrightarrow>
      rows t' = rows t @ [r'] \<and> base_filled r r' \<and> cons (rows t')
      \<and> 0 < unat (bm_ID r') \<and> next_id t \<le> unat (bm_ID r') \<and> unat (bm_ID r') < next_id t'
      \<and> set j' = set j \<union> linked (bm_ID r') ids"
    and assoc_Create_failed: "ga_Create A r ids (t, j) = (Inl e, (t', j')) \<Longrightarrow>
      rows t' = rows t \<and> next_id t \<le> next_id t' \<and> j' = j"
    and assoc_Save_ok: "ga_Save A r ids (t, j) = (Inr r', (t', j')) \<Longrightarrow>
      x \<in> set (rows t) \<Longrightarrow> base_live x \<Longrightarrow> bm_ID x = bm_ID r \<Longrightarrow>
      base_touched r r' \<and> rows t' = map (\<lambda>y. if base_live y \<and> bm_ID y = bm_ID r then r' else y) (rows t)
      \<and> next_id t' = next_id t \<and> cons (rows t') \<and> set j' = set j \<union> linked (bm_ID r) ids"
    and assoc_Save_failed: "ga_Save A r ids (t, j) = (Inl e, tj) \<Longrightarrow> tj = (t, j)"
    and Replace_ok: "ga_Replace A k ids j = (Inr u, j') \<Longrightarrow> set j' = {p \<in> set j. fst p \<noteq> k} \<union> linked k ids"
    and Replace_failed: "ga_Replace A k ids j = (Inl e, j') \<Longrightarrow> j' = j"
    and Preload_ok: "ga_Preload A k j ot = Inr xs \<Longrightarrow>
      mset xs = mset (filter (\<lambda>x. base_live x \<and> (k, bm_ID x) \<in> set j) (rows ot))"
begin

lemma Preload_set: "ga_Preload A k j ot = Inr xs \<Longrightarrow> set xs = {x \<in> set (rows ot). base_live x \<and> (k, bm_ID x) \<in> set j}"
  using arg_cong [OF Preload_ok [of k j ot xs], of set_mset] by simp

lemma assoc_Create_table_ok:
  assumes "table_ok bm_ID cons t" "bm_ID r = 0" "ga_Create A r ids (t, j) = (res, (t', j'))"
  shows "table_ok bm_ID cons t'"
proof (cases res)
  case (Inl e)
  then show ?thesis using assms assoc_Create_failed [of r ids t j e t' j']
    by (auto simp: table_ok_def list_all_iff dest: bspec)
next
  case (Inr r')
  have "rows t' = rows t @ [r']" "cons (rows t')" "0 < unat (bm_ID r')" "next_id t \<le> unat (bm_ID r')"
    "unat (bm_ID r') < next_id t'"
    using assms Inr assoc_Create_ok [of r ids t j r' t' j'] by auto
  then show ?thesis using assms(1) by (fastforce simp: table_ok_def list_all_iff)
qed

lemma assoc_Save_table_ok:
  assumes "table_ok bm_ID cons t" "x \<in> set (rows t)" "base_live x" "bm_ID x = bm_ID r"
    and "ga_Save A r ids (t, j) = (res, (t', j'))"
  shows "table_ok bm_ID cons t'"
proof (cases res)
  case (Inl e)
  then show ?thesis using assms assoc_Save_failed [of r ids t j e "(t', j')"] by auto
next
  case (Inr r')
  then have s: "base_touched r r'" "rows t' = map (\<lambda>y. if base_live y \<and> bm_ID y = bm_ID r then r' else y) (rows t)"
    "next_id t' = next_id t" "cons (rows t')"
    using assms assoc_Save_ok [of r ids t j r' t' j' x] by auto
  have "map bm_ID (rows t') = map bm_ID (rows t)" unfolding s(2) using touched_pk [OF s(1)] by auto
  then show ?thesis using assms(1) s table_ok_same_keys by blast
qed

end

section \<open>In memory\<close>

definition add_joins :: "uint64 \<Rightarrow> uint64 list \<Rightarrow> joins \<Rightarrow> joins" where
  "add_joins k ids j = j @ filter (\<lambda>p. \<not> List.member j p) (remdups (map (Pair k) ids))"

definition mem_assoc :: "'b BaseModel_scheme gorm \<Rightarrow> ('b BaseModel_scheme, 'a BaseModel_scheme) gorm_assoc" where
  "mem_assoc G =
     \<lparr>ga_Create = (\<lambda>r ids (t, j). case db_Create G r t of
                     (Inl e, t') \<Rightarrow> (Inl e, (t', j))
                   | (Inr r', t') \<Rightarrow> (Inr r', (t', add_joins (bm_ID r') ids j))),
      ga_Save = (\<lambda>r ids (t, j). case db_Save G r t of
                     (Inl e, t') \<Rightarrow> (Inl e, (t', j))
                   | (Inr r', t') \<Rightarrow> (Inr r', (t', add_joins (bm_ID r) ids j))),
      ga_Replace = (\<lambda>k ids j. (Inr (), add_joins k ids (filter (\<lambda>p. fst p \<noteq> k) j))),
      ga_Preload = (\<lambda>k j ot. Inr (filter (\<lambda>x. base_live x \<and> List.member j (k, bm_ID x)) (rows ot)))\<rparr>"

lemma set_add_joins: "set (add_joins k ids j) = set j \<union> linked k ids"
  by (auto simp: add_joins_def linked_def)

lemma mem_assoc_m2m:
  assumes "gorm_soft G bm_ID base_live base_filled base_touched cons base_dropped"
  shows "gorm_m2m G cons (mem_assoc G)"
proof -
  have t: "gorm_table G bm_ID base_live base_filled base_touched cons"
    using assms by (simp add: gorm_soft_def)
  show ?thesis
  proof (intro gorm_m2m.intro gorm_m2m_axioms.intro assms, goal_cases)
    case (1 r ids t j r' t' j')
    then have "db_Create G r t = (Inr r', t')" "j' = add_joins (bm_ID r') ids j"
      by (auto simp: mem_assoc_def split: prod.splits sum.splits)
    then show ?case using gorm_table.Create_ok [OF t, of r t r' t'] 1(2) by (auto simp: set_add_joins)
  next
    case (2 r ids t j e t' j')
    then show ?case using gorm_table.Create_failed [OF t, of r t e t']
      by (auto simp: mem_assoc_def split: prod.splits sum.splits)
  next
    case (3 r ids t j r' t' j' x)
    then have "db_Save G r t = (Inr r', t')" "j' = add_joins (bm_ID r) ids j"
      by (auto simp: mem_assoc_def split: prod.splits sum.splits)
    then show ?case using gorm_table.Save_ok [OF t, of r t r' t' x] 3(2-) by (auto simp: set_add_joins)
  next
    case (4 r ids t j e tj)
    then show ?case using gorm_table.Save_failed [OF t, of r t e]
      by (auto simp: mem_assoc_def split: prod.splits sum.splits)
  next
    case (5 k ids j u j')
    then show ?case by (auto simp: mem_assoc_def set_add_joins)
  qed (auto simp: mem_assoc_def)
qed

end
