(* ===== verification/Role.thy ===== *)
theory Role
  imports Permission Assoc
begin

text \<open>
  Module \<open>internal/modules/role\<close>.  A stored role row has an empty permission list; the list
  is filled from the join table by \<open>Preload\<close>.  The state is a record that the later modules
  extend.
\<close>

section \<open>Entity, state and responses\<close>

definition NameAdmin :: string where "NameAdmin = ''ADMIN''"
definition NameUser :: string where "NameUser = ''USER''"

record Role = BaseModel +
  rl_Name :: string
  rl_Description :: string
  rl_Permissions :: "Permission list"

record role_db =
  rd_permissions :: permissions
  rd_roles :: "Role table"
  rd_role_permissions :: joins

record RoleRequest =
  rq_Name :: string
  rq_Description :: string

record RoleResponse =
  rx_ID :: uint64
  rx_Name :: string
  rx_Description :: string
  rx_Permissions :: "string list"
  rx_Base :: BaseResponse

record RoleFilter =
  rf_Q :: string

text \<open>The database interface of the module: the role table and its association.\<close>

record role_gorm =
  rg_roles :: "Role gorm"
  rg_assoc :: "(Role, Permission) gorm_assoc"
  rg_permissions :: "Permission gorm"

definition role_ToResponse :: "Role \<Rightarrow> RoleResponse" where
  "role_ToResponse r =
     \<lparr>rx_ID = bm_ID r, rx_Name = rl_Name r, rx_Description = rl_Description r,
      rx_Permissions = map pm_Name (rl_Permissions r), rx_Base = base_response r\<rparr>"

definition role_ToResponses :: "Role list \<Rightarrow> RoleResponse list" where
  "role_ToResponses rs = map role_ToResponse rs"

section \<open>Repository\<close>

text \<open>The columns of a role, and its key list as the association writes it.\<close>

definition role_columns :: "Role \<Rightarrow> Role" where
  "role_columns r = r\<lparr>rl_Permissions := []\<rparr>"

fun mapE :: "('a \<Rightarrow> 'e + 'b) \<Rightarrow> 'a list \<Rightarrow> 'e + 'b list" where
  "mapE f [] = Inr []"
| "mapE f (x # xs) = (case f x of Inl e \<Rightarrow> Inl e | Inr y \<Rightarrow> (case mapE f xs of Inl e \<Rightarrow> Inl e | Inr ys \<Rightarrow> Inr (y # ys)))"

definition preload_permissions :: "role_gorm \<Rightarrow> 'x role_db_scheme \<Rightarrow> Role \<Rightarrow> go_error + Role" where
  "preload_permissions G db r =
     (case ga_Preload (rg_assoc G) (bm_ID r) (rd_role_permissions db) (rd_permissions db) of
        Inl err \<Rightarrow> Inl (DbError err)
      | Inr ps \<Rightarrow> Inr (r\<lparr>rl_Permissions := ps\<rparr>))"

definition put_roles :: "Role table \<times> joins \<Rightarrow> 'x role_db_scheme \<Rightarrow> 'x role_db_scheme" where
  "put_roles tj db = db\<lparr>rd_roles := fst tj, rd_role_permissions := snd tj\<rparr>"

definition role_repo_Create ::
  "role_gorm \<Rightarrow> request_context option \<Rightarrow> Role \<Rightarrow> ('x role_db_scheme, go_error, Role) op" where
  "role_repo_Create G ctx e =
     bindE (zoomE (\<lambda>db. (rd_roles db, rd_role_permissions db)) put_roles
              (dbE (ga_Create (rg_assoc G) (role_columns (setCreatedBy ctx e)) (map bm_ID (rl_Permissions e)))))
       (\<lambda>r. returnE (r\<lparr>rl_Permissions := rl_Permissions e\<rparr>))"

definition role_repo_Update ::
  "role_gorm \<Rightarrow> request_context option \<Rightarrow> Role \<Rightarrow> ('x role_db_scheme, go_error, Role) op" where
  "role_repo_Update G ctx e =
     bindE (zoomE (\<lambda>db. (rd_roles db, rd_role_permissions db)) put_roles
              (dbE (ga_Save (rg_assoc G) (role_columns (setUpdatedBy ctx e)) (map bm_ID (rl_Permissions e)))))
       (\<lambda>r. returnE (r\<lparr>rl_Permissions := rl_Permissions e\<rparr>))"

definition role_repo_Delete :: "role_gorm \<Rightarrow> uint64 \<Rightarrow> ('x role_db_scheme, go_error, unit) op" where
  "role_repo_Delete G rid =
     bindE (zoomE rd_roles (\<lambda>t db. db\<lparr>rd_roles := t\<rparr>) (dbE (db_Delete (rg_roles G) (\<lambda>r. bm_ID r = rid))))
       (\<lambda>_. returnE ())"

definition preload_opt :: "('r \<Rightarrow> go_error + 'r) \<Rightarrow> go_error + 'r option \<Rightarrow> go_error + 'r option" where
  "preload_opt load res =
     (case res of
        Inl err \<Rightarrow> Inl err
      | Inr None \<Rightarrow> Inr None
      | Inr (Some r) \<Rightarrow> (case load r of Inl err \<Rightarrow> Inl err | Inr r' \<Rightarrow> Inr (Some r')))"

definition role_repo_GetByID :: "role_gorm \<Rightarrow> uint64 \<Rightarrow> 'x role_db_scheme \<Rightarrow> go_error + Role option" where
  "role_repo_GetByID G rid db =
     preload_opt (preload_permissions G db) (first_opt (rg_roles G) (\<lambda>r. bm_ID r = rid) (rd_roles db))"

definition role_repo_GetByIDs :: "role_gorm \<Rightarrow> uint64 list \<Rightarrow> 'x role_db_scheme \<Rightarrow> go_error + Role list" where
  "role_repo_GetByIDs G ids db =
     (if length ids = 0 then Inr []
      else case dbR (db_Find (rg_roles G) (\<lambda>r. List.member ids (bm_ID r)) unordered None) (rd_roles db) of
             Inl err \<Rightarrow> Inl err
           | Inr rs \<Rightarrow> mapE (preload_permissions G db) rs)"

definition role_repo_GetByName :: "role_gorm \<Rightarrow> string \<Rightarrow> 'x role_db_scheme \<Rightarrow> go_error + Role option" where
  "role_repo_GetByName G name db =
     preload_opt (preload_permissions G db) (first_opt (rg_roles G) (\<lambda>r. rl_Name r = name) (rd_roles db))"

definition role_matches :: "(string \<Rightarrow> string \<Rightarrow> bool) \<Rightarrow> RoleFilter \<Rightarrow> Role \<Rightarrow> bool" where
  "role_matches like f r =
     (if rf_Q f \<noteq> ''''
      then let pat = ''%'' @ rf_Q f @ ''%'' in like (rl_Name r) pat \<or> like (rl_Description r) pat
      else True)"

definition role_repo_Search ::
  "role_gorm \<Rightarrow> (string \<Rightarrow> string \<Rightarrow> bool) \<Rightarrow> (string \<Rightarrow> string \<Rightarrow> bool) \<Rightarrow> RoleFilter \<Rightarrow> goint \<Rightarrow> goint \<Rightarrow> 'x role_db_scheme
   \<Rightarrow> go_error + Role list \<times> int" where
  "role_repo_Search G collate like f offset cnt db =
     (case db_Count (rg_roles G) (role_matches like f) (rd_roles db) of
        Inl err \<Rightarrow> Inl (DbError err)
      | Inr n \<Rightarrow>
          (case db_Find (rg_roles G) (role_matches like f) (\<lambda>a b. collate (rl_Name a) (rl_Name b))
                  (Some (offset, cnt)) (rd_roles db) of
             Inl err \<Rightarrow> Inl (DbError err)
           | Inr rs \<Rightarrow>
               (case mapE (preload_permissions G db) rs of Inl err \<Rightarrow> Inl err | Inr rs \<Rightarrow> Inr (rs, n))))"

definition role_repo_List ::
  "role_gorm \<Rightarrow> (string \<Rightarrow> string \<Rightarrow> bool) \<Rightarrow> 'x role_db_scheme \<Rightarrow> go_error + Role list" where
  "role_repo_List G collate db =
     (case dbR (db_Find (rg_roles G) (\<lambda>_. True) (\<lambda>a b. collate (rl_Name a) (rl_Name b)) None) (rd_roles db) of
        Inl err \<Rightarrow> Inl err
      | Inr rs \<Rightarrow> mapE (preload_permissions G db) rs)"

definition role_repo_ReplacePermissions ::
  "role_gorm \<Rightarrow> Role \<Rightarrow> Permission list \<Rightarrow> ('x role_db_scheme, go_error, unit) op" where
  "role_repo_ReplacePermissions G e perms =
     zoomE rd_role_permissions (\<lambda>j db. db\<lparr>rd_role_permissions := j\<rparr>)
       (dbE (ga_Replace (rg_assoc G) (bm_ID e) (map bm_ID perms)))"

section \<open>Service\<close>

definition new_role :: "string \<Rightarrow> string \<Rightarrow> Role" where
  "new_role name description =
     zero_base \<lparr>rl_Name = name, rl_Description = description, rl_Permissions = []\<rparr>"

definition role_Create ::
  "role_gorm \<Rightarrow> request_context option \<Rightarrow> RoleRequest \<Rightarrow> ('x role_db_scheme, go_error, RoleResponse) op" where
  "role_Create G ctx req =
     bindE (readE (role_repo_GetByName G (rq_Name req))) (\<lambda>existing.
     if existing \<noteq> None then throwE (Duplicate ''Role with that name already exists'')
     else bindE (role_repo_Create G ctx (new_role (rq_Name req) (rq_Description req))) (\<lambda>r.
     returnE (role_ToResponse r)))"

definition role_Update ::
  "role_gorm \<Rightarrow> request_context option \<Rightarrow> uint64 \<Rightarrow> RoleRequest \<Rightarrow> ('x role_db_scheme, go_error, RoleResponse) op" where
  "role_Update G ctx rid req =
     bindE (readE (role_repo_GetByID G rid)) (\<lambda>r.
     case r of
       None \<Rightarrow> throwE (NotFound ''Role'' rid)
     | Some r \<Rightarrow>
         bindE (role_repo_Update G ctx (r\<lparr>rl_Name := rq_Name req, rl_Description := rq_Description req\<rparr>)) (\<lambda>r.
         returnE (role_ToResponse r)))"

definition role_Delete :: "role_gorm \<Rightarrow> uint64 \<Rightarrow> ('x role_db_scheme, go_error, unit) op" where
  "role_Delete G rid =
     bindE (readE (role_repo_GetByID G rid)) (\<lambda>r.
     case r of None \<Rightarrow> throwE (NotFound ''Role'' rid) | Some _ \<Rightarrow> role_repo_Delete G rid)"

definition role_GetByID :: "role_gorm \<Rightarrow> uint64 \<Rightarrow> 'x role_db_scheme \<Rightarrow> go_error + RoleResponse" where
  "role_GetByID G rid db =
     (case role_repo_GetByID G rid db of
        Inl err \<Rightarrow> Inl err
      | Inr None \<Rightarrow> Inl (NotFound ''Role'' rid)
      | Inr (Some r) \<Rightarrow> Inr (role_ToResponse r))"

definition role_Search ::
  "role_gorm \<Rightarrow> (string \<Rightarrow> string \<Rightarrow> bool) \<Rightarrow> (string \<Rightarrow> string \<Rightarrow> bool) \<Rightarrow> RoleFilter \<Rightarrow> PageRequest \<Rightarrow> 'x role_db_scheme
   \<Rightarrow> go_error + RoleResponse PageResponse" where
  "role_Search G collate like f page db =
     (case role_repo_Search G collate like f (Offset page) (Limit page) db of
        Inl err \<Rightarrow> Inl err
      | Inr (rs, n) \<Rightarrow> Inr (NewPage (Some (role_ToResponses rs)) page n))"

definition role_List ::
  "role_gorm \<Rightarrow> (string \<Rightarrow> string \<Rightarrow> bool) \<Rightarrow> 'x role_db_scheme \<Rightarrow> go_error + RoleResponse list" where
  "role_List G collate db =
     (case role_repo_List G collate db of Inl err \<Rightarrow> Inl err | Inr rs \<Rightarrow> Inr (role_ToResponses rs))"

text \<open>The set \<open>seen\<close> of the loop is a list here.\<close>

fun unique_loop :: "string list \<Rightarrow> string list \<Rightarrow> string list \<Rightarrow> string list" where
  "unique_loop seen out [] = out"
| "unique_loop seen out (s # ss) =
     (if List.member seen s then unique_loop seen out ss else unique_loop (s # seen) (out @ [s]) ss)"

definition uniqueNames :: "string list \<Rightarrow> string list" where
  "uniqueNames xs = unique_loop [] [] xs"

definition role_AssignPermissions ::
  "role_gorm \<Rightarrow> uint64 \<Rightarrow> string list \<Rightarrow> ('x role_db_scheme, go_error, RoleResponse) op" where
  "role_AssignPermissions G rid names =
     bindE (readE (role_repo_GetByID G rid)) (\<lambda>r.
     case r of
       None \<Rightarrow> throwE (NotFound ''Role'' rid)
     | Some r \<Rightarrow>
         bindE (readE (\<lambda>db. permission_repo_FindAllByNames (rg_permissions G) names (rd_permissions db))) (\<lambda>perms.
         if length perms \<noteq> length (uniqueNames names)
         then throwE (BadRequest ''One or more permission names do not exist'')
         else bindE (role_repo_ReplacePermissions G r perms) (\<lambda>_.
              returnE (role_ToResponse (r\<lparr>rl_Permissions := perms\<rparr>)))))"

section \<open>Endpoints\<close>

datatype role_data = RolePage "RoleResponse PageResponse" | RoleOne RoleResponse

type_synonym 'x role_endpoint =
  "role_data gin_context \<Rightarrow> ('x role_db_scheme, go_error, role_data ApiResponse) op"

definition role_list ::
  "role_gorm \<Rightarrow> (string \<Rightarrow> string \<Rightarrow> bool) \<Rightarrow> (string \<Rightarrow> string \<Rightarrow> bool) \<Rightarrow> (string \<Rightarrow> RoleFilter)
   \<Rightarrow> (string \<Rightarrow> PageRequest) \<Rightarrow> time \<Rightarrow> 'x role_endpoint" where
  "role_list G collate like bindf bindp now c =
     bindE (readE (role_Search G collate like (bindf (c_RawQuery c)) (BindPage bindp c))) (\<lambda>res.
     returnE (OK now (Some (RolePage res))))"

definition role_get :: "role_gorm \<Rightarrow> time \<Rightarrow> 'x role_endpoint" where
  "role_get G now c =
     bindE (readE (\<lambda>_. parseID c)) (\<lambda>rid.
     bindE (readE (role_GetByID G rid)) (\<lambda>res.
     returnE (OK now (Some (RoleOne res)))))"

definition role_create :: "role_gorm \<Rightarrow> (string \<Rightarrow> go_error + RoleRequest) \<Rightarrow> time \<Rightarrow> 'x role_endpoint" where
  "role_create G bind now c =
     bindE (readE (\<lambda>_. BindJSON bind c)) (\<lambda>req.
     bindE (role_Create G (Some (c_Context c)) req) (\<lambda>res.
     returnE (Created now (Some (RoleOne res)))))"

definition role_update :: "role_gorm \<Rightarrow> (string \<Rightarrow> go_error + RoleRequest) \<Rightarrow> time \<Rightarrow> 'x role_endpoint" where
  "role_update G bind now c =
     bindE (readE (\<lambda>_. parseID c)) (\<lambda>rid.
     bindE (readE (\<lambda>_. BindJSON bind c)) (\<lambda>req.
     bindE (role_Update G (Some (c_Context c)) rid req) (\<lambda>res.
     returnE (OK now (Some (RoleOne res))))))"

text \<open>The request body of the assignment is the list of names.\<close>

definition role_assignPermissions :: "role_gorm \<Rightarrow> (string \<Rightarrow> go_error + string list) \<Rightarrow> time \<Rightarrow> 'x role_endpoint" where
  "role_assignPermissions G bind now c =
     bindE (readE (\<lambda>_. parseID c)) (\<lambda>rid.
     bindE (readE (\<lambda>_. BindJSON bind c)) (\<lambda>names.
     bindE (role_AssignPermissions G rid names) (\<lambda>res.
     returnE (OK now (Some (RoleOne res))))))"

definition role_delete :: "role_gorm \<Rightarrow> time \<Rightarrow> 'x role_endpoint" where
  "role_delete G now c =
     bindE (readE (\<lambda>_. parseID c)) (\<lambda>rid.
     bindE (role_Delete G rid) (\<lambda>_.
     returnE (MessageResponse now ''Deleted'')))"

datatype role_route =
  RoleRouteList | RoleRouteGet | RoleRouteCreate | RoleRouteUpdate | RoleRouteAssign | RoleRouteDelete

fun role_gate :: "role_route \<Rightarrow> string list" where
  "role_gate RoleRouteList = [RoleRead]"
| "role_gate RoleRouteGet = [RoleRead]"
| "role_gate RoleRouteCreate = [RoleWrite]"
| "role_gate RoleRouteUpdate = [RoleWrite]"
| "role_gate RoleRouteAssign = [RoleWrite]"
| "role_gate RoleRouteDelete = [RoleDelete]"

definition role_Register ::
  "role_gorm \<Rightarrow> (string \<Rightarrow> string \<Rightarrow> bool) \<Rightarrow> (string \<Rightarrow> string \<Rightarrow> bool) \<Rightarrow> (string \<Rightarrow> RoleFilter) \<Rightarrow> (string \<Rightarrow> PageRequest)
   \<Rightarrow> (string \<Rightarrow> go_error + RoleRequest) \<Rightarrow> (string \<Rightarrow> go_error + string list) \<Rightarrow> clock \<Rightarrow> role_route
   \<Rightarrow> ('x role_db_scheme, role_data) handler" where
  "role_Register G collate like bindf bindp bind binda clk route =
     HasPermission (clk 0) (role_gate route) (Handler (clk 2) (endpoint
       (case route of
          RoleRouteList \<Rightarrow> role_list G collate like bindf bindp (clk 1)
        | RoleRouteGet \<Rightarrow> role_get G (clk 1)
        | RoleRouteCreate \<Rightarrow> role_create G bind (clk 1)
        | RoleRouteUpdate \<Rightarrow> role_update G bind (clk 1)
        | RoleRouteAssign \<Rightarrow> role_assignPermissions G binda (clk 1)
        | RoleRouteDelete \<Rightarrow> role_delete G (clk 1))))"

section \<open>What a role grants\<close>

text \<open>The abstract view of the join table: the names of the live permissions of a role.\<close>

definition role_perms :: "'x role_db_scheme \<Rightarrow> uint64 \<Rightarrow> string set" where
  "role_perms db rid =
     pm_Name ` {p \<in> set (rows (rd_permissions db)). base_live p \<and> (rid, bm_ID p) \<in> set (rd_role_permissions db)}"

lemma role_perms_list:
  "role_perms db rid = set (map pm_Name (filter (\<lambda>p. base_live p \<and> List.member (rd_role_permissions db) (rid, bm_ID p))
                                          (rows (rd_permissions db))))"
  by (auto simp: role_perms_def)

text \<open>First occurrences, in order.\<close>

fun nub :: "'a list \<Rightarrow> 'a list" where
  "nub [] = []"
| "nub (x # xs) = x # filter (\<lambda>y. y \<noteq> x) (nub xs)"

lemma unique_loop_nub: "unique_loop seen out xs = out @ filter (\<lambda>x. x \<notin> set seen) (nub xs)"
  by (induction xs arbitrary: seen out) (auto intro!: filter_cong)

lemma uniqueNames_nub: "uniqueNames xs = nub xs"
  by (simp add: uniqueNames_def unique_loop_nub)

lemma set_nub [simp]: "set (nub xs) = set xs"
  by (induction xs) auto

lemma distinct_nub [simp]: "distinct (nub xs)"
  by (induction xs) auto

lemma length_nub: "length (nub xs) = card (set xs)"
  by (metis distinct_card distinct_nub set_nub)

locale role_store = roles: gorm_m2m "rg_roles G" "unique_on rl_Name" "rg_assoc G" + perms: permission_store "rg_permissions G"
  for G :: role_gorm
begin

lemma preload_permissions_Inr:
  assumes "preload_permissions G db r = Inr r'"
  shows "\<exists>ps. r' = r\<lparr>rl_Permissions := ps\<rparr> \<and> pm_Name ` set ps = role_perms db (bm_ID r)"
  using assms roles.Preload_set
  by (auto simp: preload_permissions_def role_perms_def split: sum.splits)

lemma GetByID_Some:
  assumes "role_repo_GetByID G rid db = Inr (Some r)"
  obtains x where "x \<in> set (rows (rd_roles db))" "base_live x" "bm_ID x = rid" "bm_ID r = rid"
    "r = x\<lparr>rl_Permissions := rl_Permissions r\<rparr>" "pm_Name ` set (rl_Permissions r) = role_perms db rid"
proof -
  obtain x where x: "first_opt (rg_roles G) (\<lambda>r. bm_ID r = rid) (rd_roles db) = Inr (Some x)"
    "preload_permissions G db x = Inr r"
    using assms by (auto simp: role_repo_GetByID_def preload_opt_def split: sum.splits option.splits)
  obtain ps where "r = x\<lparr>rl_Permissions := ps\<rparr>" "pm_Name ` set ps = role_perms db (bm_ID x)"
    using preload_permissions_Inr [OF x(2)] by blast
  then show thesis using roles.first_opt_Some [OF x(1)] that [of x] by simp
qed

lemma GetByName_Some:
  assumes "role_repo_GetByName G name db = Inr (Some r)"
  obtains x where "x \<in> set (rows (rd_roles db))" "base_live x" "rl_Name x = name"
    "r = x\<lparr>rl_Permissions := rl_Permissions r\<rparr>" "pm_Name ` set (rl_Permissions r) = role_perms db (bm_ID x)"
proof -
  obtain x where x: "first_opt (rg_roles G) (\<lambda>r. rl_Name r = name) (rd_roles db) = Inr (Some x)"
    "preload_permissions G db x = Inr r"
    using assms by (auto simp: role_repo_GetByName_def preload_opt_def split: sum.splits option.splits)
  obtain ps where "r = x\<lparr>rl_Permissions := ps\<rparr>" "pm_Name ` set ps = role_perms db (bm_ID x)"
    using preload_permissions_Inr [OF x(2)] by blast
  then show thesis using roles.first_opt_Some [OF x(1)] that [of x] by simp
qed

text \<open>The length test of \<open>AssignPermissions\<close> is exact: every requested name was found.\<close>

lemma FindAllByNames_complete:
  assumes "permissions_ok t" "permission_repo_FindAllByNames (rg_permissions G) names t = Inr ps"
    and "length ps = length (uniqueNames names)"
  shows "pm_Name ` set ps = set names" "set ps \<subseteq> {p \<in> set (rows t). base_live p}"
proof -
  have ms: "mset ps = mset (filter (\<lambda>p. base_live p \<and> pm_Name p \<in> set names) (rows t))"
  proof (cases "names = []")
    case False
    then have "db_Find (rg_permissions G) (\<lambda>r. List.member names (pm_Name r)) unordered None t = Inr ps"
      using assms(2) by (simp add: permission_repo_FindAllByNames_def)
    from perms.Find_rows [OF this] show ?thesis by auto
  qed (use assms(2) in \<open>simp add: permission_repo_FindAllByNames_def\<close>)
  have "distinct (map pm_Name (filter (\<lambda>p. base_live p \<and> pm_Name p \<in> set names) (rows t)))"
    using assms(1) by (simp add: table_ok_def unique_on_def distinct_map_filter)
  moreover have "mset (map pm_Name ps) = mset (map pm_Name (filter (\<lambda>p. base_live p \<and> pm_Name p \<in> set names) (rows t)))"
    using ms by simp
  ultimately have "distinct (map pm_Name ps)" by (metis mset_eq_imp_distinct_iff)
  then have "card (pm_Name ` set ps) = card (set names)"
    using assms(3) by (metis distinct_card length_map length_nub set_map uniqueNames_nub)
  moreover have s: "set ps = {p \<in> set (rows t). base_live p \<and> pm_Name p \<in> set names}"
    using arg_cong [OF ms, of set_mset] by simp
  ultimately show "pm_Name ` set ps = set names" by (intro card_subset_eq) auto
  show "set ps \<subseteq> {p \<in> set (rows t). base_live p}" using s by auto
qed

lemma AssignPermissions_ok:
  assumes "permissions_ok (rd_permissions db)" "role_AssignPermissions G rid names db = (Inr resp, db')"
  shows "role_perms db' rid = set names" "rid' \<noteq> rid \<Longrightarrow> role_perms db' rid' = role_perms db rid'"
    "set (rx_Permissions resp) = set names" "rd_permissions db' = rd_permissions db" "rd_roles db' = rd_roles db"
proof -
  obtain r ps j where r: "role_repo_GetByID G rid db = Inr (Some r)"
    and ps: "permission_repo_FindAllByNames (rg_permissions G) names (rd_permissions db) = Inr ps"
      "length ps = length (uniqueNames names)"
    and j: "ga_Replace (rg_assoc G) (bm_ID r) (map bm_ID ps) (rd_role_permissions db) = (Inr (), j)"
    and db': "db' = db\<lparr>rd_role_permissions := j\<rparr>" and resp: "resp = role_ToResponse (r\<lparr>rl_Permissions := ps\<rparr>)"
    using assms(2) unfolding role_AssignPermissions_def role_repo_ReplacePermissions_def
    by (auto simp: bindE_Inr zoomE_eq split: option.splits if_splits)
  have rid: "bm_ID r = rid" using r by (rule GetByID_Some)
  note found = FindAllByNames_complete [OF assms(1) ps]
  have "set j = {p \<in> set (rd_role_permissions db). fst p \<noteq> rid} \<union> linked rid (map bm_ID ps)"
    using roles.Replace_ok [OF j] by (simp add: rid)
  moreover have "bm_ID p \<in> bm_ID ` set ps \<longleftrightarrow> p \<in> set ps" if "p \<in> set (rows (rd_permissions db))" for p
    using that found(2) assms(1) by (auto simp: table_ok_def distinct_map inj_on_def)
  ultimately have "{p \<in> set (rows (rd_permissions db)). base_live p \<and> (rid, bm_ID p) \<in> set j} = set ps"
    and "rid' \<noteq> rid \<Longrightarrow> (rid', k) \<in> set j \<longleftrightarrow> (rid', k) \<in> set (rd_role_permissions db)" for k
    using found(2) by (auto simp: linked_def)
  then show "role_perms db' rid = set names" "rid' \<noteq> rid \<Longrightarrow> role_perms db' rid' = role_perms db rid'"
    using found(1) by (simp_all add: role_perms_def db')
  show "set (rx_Permissions resp) = set names" using found(1) by (simp add: resp role_ToResponse_def)
  show "rd_permissions db' = rd_permissions db" "rd_roles db' = rd_roles db" by (simp_all add: db')
qed

lemma AssignPermissions_failed:
  assumes "role_AssignPermissions G rid names db = (Inl e, db')"
  shows "db' = db"
  using assms unfolding role_AssignPermissions_def role_repo_ReplacePermissions_def
  by (auto simp: bindE_Inl zoomE_eq dbE_Inl split: option.splits if_splits dest!: roles.Replace_failed)

end

section \<open>An instance\<close>

definition mem_roles :: "Role gorm" where
  "mem_roles = mem_base (unique_on rl_Name)"

definition mem_role_gorm :: role_gorm where
  "mem_role_gorm = \<lparr>rg_roles = mem_roles, rg_assoc = mem_assoc mem_roles, rg_permissions = mem_permissions\<rparr>"

lemma mem_roles_soft:
  "gorm_soft mem_roles bm_ID base_live base_filled base_touched (unique_on rl_Name) base_dropped"
  unfolding mem_roles_def by (rule mem_base_soft) (rule unique_on_mark, simp add: mark_def)

interpretation mem_role_gorm: role_store mem_role_gorm
  unfolding role_store_def mem_role_gorm_def
  using mem_assoc_m2m [OF mem_roles_soft] mem_permissions.permission_store_axioms by simp

definition demo_role :: "uint64 \<Rightarrow> string \<Rightarrow> Role" where
  "demo_role rid name = (new_role name ''demo'')\<lparr>bm_ID := rid\<rparr>"

definition demo_role_db :: role_db where
  "demo_role_db =
     \<lparr>rd_permissions = \<lparr>rows = [demo_permission 1 ''A_READ'' None, demo_permission 2 ''B_READ'' None], next_id = 3\<rparr>,
      rd_roles = \<lparr>rows = [demo_role 1 ''USER'', demo_role 2 ''ADMIN''], next_id = 3\<rparr>,
      rd_role_permissions = [(1, 1), (2, 1)]\<rparr>"

lemmas demo_role_defs = demo_role_db_def demo_role_def new_role_def demo_permission_def new_permission_def zero_base_def

section \<open>Properties\<close>

text \<open>
  \<open>uniqueNames\<close> removes duplicates and keeps the first occurrence of every name in order.
\<close>

theorem uniqueNames_first_occurrences:
  "uniqueNames xs = nub xs \<and> distinct (uniqueNames xs) \<and> set (uniqueNames xs) = set xs"
  by (simp add: uniqueNames_nub)



end
