(* ===== verification/Session.thy ===== *)
theory Session
  imports Security Names
begin

text \<open>
  Module \<open>internal/modules/session\<close>: the per-device session rows, the service over their
  table, and the admin endpoints.  The table is reached through the database interface \<open>G\<close>.
\<close>

section \<open>Rows and responses\<close>

record UserSession =
  us_ID :: uint64
  us_UserID :: uint64
  us_ImpersonatorID :: uint64
  us_DeviceName :: string
  us_UserAgent :: string
  us_IPAddress :: string
  us_IssuedAt :: time
  us_LastUsedAt :: time
  us_ExpiresAt :: time
  us_RevokedAt :: "time option"
  us_RevokedReason :: string

definition Active :: "time \<Rightarrow> UserSession \<Rightarrow> bool" where
  "Active now s = (case us_RevokedAt s of Some _ \<Rightarrow> False | None \<Rightarrow> now < us_ExpiresAt s)"

record SessionResponse =
  sr_ID :: uint64
  sr_UserID :: uint64
  sr_ImpersonatorID :: uint64
  sr_DeviceName :: string
  sr_UserAgent :: string
  sr_IPAddress :: string
  sr_IssuedAt :: time
  sr_LastUsedAt :: time
  sr_ExpiresAt :: time
  sr_RevokedAt :: "time option"
  sr_RevokedReason :: string
  sr_Current :: bool

record SessionFilter =
  sf_UserID :: "uint64 option"
  sf_Active :: "bool option"
  sf_Q :: string

definition session_ToResponse :: "UserSession \<Rightarrow> uint64 \<Rightarrow> SessionResponse" where
  "session_ToResponse s currentID =
     \<lparr>sr_ID = us_ID s, sr_UserID = us_UserID s, sr_ImpersonatorID = us_ImpersonatorID s,
      sr_DeviceName = us_DeviceName s, sr_UserAgent = us_UserAgent s, sr_IPAddress = us_IPAddress s,
      sr_IssuedAt = us_IssuedAt s, sr_LastUsedAt = us_LastUsedAt s, sr_ExpiresAt = us_ExpiresAt s,
      sr_RevokedAt = us_RevokedAt s, sr_RevokedReason = us_RevokedReason s, sr_Current = (us_ID s = currentID)\<rparr>"

definition session_ToResponses :: "UserSession list \<Rightarrow> uint64 \<Rightarrow> SessionResponse list" where
  "session_ToResponses rs currentID = map (\<lambda>s. session_ToResponse s currentID) rs"

section \<open>The service\<close>

type_synonym sessions = "UserSession table"

definition session_Create ::
  "UserSession gorm \<Rightarrow> time \<Rightarrow> uint64 \<Rightarrow> uint64 \<Rightarrow> time \<Rightarrow> string \<Rightarrow> string \<Rightarrow> string \<Rightarrow> (sessions, go_error, UserSession) op" where
  "session_Create G now userID impersonatorID expiresAt deviceName userAgent ip =
     dbE (db_Create G
       \<lparr>us_ID = 0, us_UserID = userID, us_ImpersonatorID = impersonatorID, us_DeviceName = deviceName,
        us_UserAgent = userAgent, us_IPAddress = ip, us_IssuedAt = now, us_LastUsedAt = now,
        us_ExpiresAt = expiresAt, us_RevokedAt = None, us_RevokedReason = ''''\<rparr>)"

definition session_Validate :: "UserSession gorm \<Rightarrow> time \<Rightarrow> uint64 \<Rightarrow> uint64 \<Rightarrow> sessions \<Rightarrow> go_error + unit" where
  "session_Validate G now sessionID userID t =
     (case db_First G (\<lambda>r. us_ID r = sessionID) t of
        Inl ErrRecordNotFound \<Rightarrow> Inl (Unauthorized ''Session not found'')
      | Inl err \<Rightarrow> Inl (DbError err)
      | Inr row \<Rightarrow>
          if us_UserID row \<noteq> userID then Inl (Unauthorized ''Session does not match user'')
          else if \<not> Active now row then Inl (Unauthorized ''Session is no longer active'')
          else Inr ())"

definition session_Touch :: "UserSession gorm \<Rightarrow> time \<Rightarrow> uint64 \<Rightarrow> sessions \<Rightarrow> sessions" where
  "session_Touch G now sessionID t =
     snd (db_Updates G (\<lambda>r. us_ID r = sessionID) (\<lambda>r. r\<lparr>us_LastUsedAt := now\<rparr>) t)"

definition session_Revoke :: "UserSession gorm \<Rightarrow> time \<Rightarrow> uint64 \<Rightarrow> string \<Rightarrow> (sessions, go_error, unit) op" where
  "session_Revoke G now sessionID reason =
     bindE (dbE (db_Updates G (\<lambda>r. us_ID r = sessionID \<and> us_RevokedAt r = None)
                  (\<lambda>r. r\<lparr>us_RevokedAt := Some now, us_RevokedReason := reason\<rparr>)))
       (\<lambda>_. returnE ())"

definition session_RevokeAllForUser ::
  "UserSession gorm \<Rightarrow> time \<Rightarrow> uint64 \<Rightarrow> string \<Rightarrow> (sessions, go_error, unit) op" where
  "session_RevokeAllForUser G now userID reason =
     bindE (dbE (db_Updates G (\<lambda>r. us_UserID r = userID \<and> us_RevokedAt r = None)
                  (\<lambda>r. r\<lparr>us_RevokedAt := Some now, us_RevokedReason := reason\<rparr>)))
       (\<lambda>_. returnE ())"

definition session_GetByID :: "UserSession gorm \<Rightarrow> uint64 \<Rightarrow> sessions \<Rightarrow> go_error + UserSession" where
  "session_GetByID G sid t =
     (case db_First G (\<lambda>r. us_ID r = sid) t of
        Inl ErrRecordNotFound \<Rightarrow> Inl (NotFound ''Session'' sid)
      | Inl err \<Rightarrow> Inl (DbError err)
      | Inr row \<Rightarrow> Inr row)"

text \<open>\<open>ORDER BY last_used_at DESC\<close>.\<close>

definition by_last_used :: "UserSession \<Rightarrow> UserSession \<Rightarrow> bool" where
  "by_last_used a b = (us_LastUsedAt a \<ge> us_LastUsedAt b)"

definition session_ListForUser ::
  "UserSession gorm \<Rightarrow> uint64 \<Rightarrow> uint64 \<Rightarrow> sessions \<Rightarrow> go_error + SessionResponse list" where
  "session_ListForUser G userID currentID t =
     (case db_Find G (\<lambda>r. us_UserID r = userID \<and> us_RevokedAt r = None) by_last_used None t of
        Inl err \<Rightarrow> Inl (DbError err)
      | Inr rs \<Rightarrow> Inr (session_ToResponses rs currentID))"

text \<open>The \<open>WHERE\<close> clauses of \<open>Search\<close>; \<open>like\<close> is the SQL operator.\<close>

definition session_matches :: "(string \<Rightarrow> string \<Rightarrow> bool) \<Rightarrow> time \<Rightarrow> SessionFilter \<Rightarrow> UserSession \<Rightarrow> bool" where
  "session_matches like now f r =
     ((case sf_UserID f of None \<Rightarrow> True | Some u \<Rightarrow> us_UserID r = u)
      \<and> (case sf_Active f of
           None \<Rightarrow> True
         | Some True \<Rightarrow> us_RevokedAt r = None \<and> us_ExpiresAt r > now
         | Some False \<Rightarrow> us_RevokedAt r \<noteq> None \<or> us_ExpiresAt r \<le> now)
      \<and> (if sf_Q f \<noteq> ''''
         then let pat = ''%'' @ sf_Q f @ ''%''
              in like (us_DeviceName r) pat \<or> like (us_UserAgent r) pat \<or> like (us_IPAddress r) pat
         else True))"

definition session_Search ::
  "UserSession gorm \<Rightarrow> (string \<Rightarrow> string \<Rightarrow> bool) \<Rightarrow> time \<Rightarrow> SessionFilter \<Rightarrow> PageRequest \<Rightarrow> uint64 \<Rightarrow> sessions
   \<Rightarrow> go_error + SessionResponse PageResponse" where
  "session_Search G like now f page currentID t =
     (case db_Count G (session_matches like now f) t of
        Inl err \<Rightarrow> Inl (DbError err)
      | Inr n \<Rightarrow>
          (case db_Find G (session_matches like now f) by_last_used (Some (Offset page, Limit page)) t of
             Inl err \<Rightarrow> Inl (DbError err)
           | Inr rs \<Rightarrow> Inr (NewPage (Some (session_ToResponses rs currentID)) page n)))"

definition session_CleanupExpired :: "UserSession gorm \<Rightarrow> time \<Rightarrow> duration \<Rightarrow> (sessions, go_error, int) op" where
  "session_CleanupExpired G now retention =
     (let cutoff = now - retention
      in dbE (db_Delete G (\<lambda>r. us_ExpiresAt r \<le> cutoff
                               \<or> (case us_RevokedAt r of None \<Rightarrow> False | Some v \<Rightarrow> v \<le> cutoff))))"

section \<open>The admin endpoints\<close>

datatype session_data = SessionPage "SessionResponse PageResponse" | SessionOne SessionResponse

definition caller_sid :: "'d gin_context \<Rightarrow> uint64" where
  "caller_sid c = (case CurrentPrincipal c of Inr p \<Rightarrow> p_SessionID p | Inl _ \<Rightarrow> 0)"

definition session_search ::
  "UserSession gorm \<Rightarrow> (string \<Rightarrow> string \<Rightarrow> bool) \<Rightarrow> (string \<Rightarrow> SessionFilter) \<Rightarrow> (string \<Rightarrow> PageRequest) \<Rightarrow> clock
   \<Rightarrow> session_data gin_context \<Rightarrow> (sessions, go_error, session_data ApiResponse) op" where
  "session_search G like bindf bindp clk c =
     bindE (readE (session_Search G like (clk 0) (bindf (c_RawQuery c)) (BindPage bindp c) (caller_sid c)))
       (\<lambda>res. returnE (OK (clk 1) (Some (SessionPage res))))"

definition session_get ::
  "UserSession gorm \<Rightarrow> clock \<Rightarrow> session_data gin_context \<Rightarrow> (sessions, go_error, session_data ApiResponse) op" where
  "session_get G clk c =
     bindE (readE (\<lambda>_. parseID c)) (\<lambda>sid.
     bindE (readE (session_GetByID G sid)) (\<lambda>s.
     returnE (OK (clk 0) (Some (SessionOne (session_ToResponse s (caller_sid c)))))))"

definition session_revoke ::
  "UserSession gorm \<Rightarrow> clock \<Rightarrow> session_data gin_context \<Rightarrow> (sessions, go_error, session_data ApiResponse) op" where
  "session_revoke G clk c =
     bindE (readE (\<lambda>_. parseID c)) (\<lambda>sid.
     bindE (session_Revoke G (clk 0) sid ''admin-revoked'') (\<lambda>_.
     returnE (MessageResponse (clk 1) ''Session revoked'')))"

text \<open>\<open>Register\<close>: each route with its gate.\<close>

datatype session_route = SessionRouteSearch | SessionRouteGet | SessionRouteRevoke

fun session_Register ::
  "UserSession gorm \<Rightarrow> (string \<Rightarrow> string \<Rightarrow> bool) \<Rightarrow> (string \<Rightarrow> SessionFilter) \<Rightarrow> (string \<Rightarrow> PageRequest) \<Rightarrow> clock
   \<Rightarrow> session_route \<Rightarrow> (sessions, session_data) handler" where
  "session_Register G like bindf bindp clk SessionRouteSearch =
     HasPermission (clk 0) [SessionRead] (Handler (clk 3) (endpoint (session_search G like bindf bindp (later 1 clk))))"
| "session_Register G like bindf bindp clk SessionRouteGet =
     HasPermission (clk 0) [SessionRead] (Handler (clk 3) (endpoint (session_get G (later 1 clk))))"
| "session_Register G like bindf bindp clk SessionRouteRevoke =
     HasPermission (clk 0) [SessionRevoke] (Handler (clk 3) (endpoint (session_revoke G (later 1 clk))))"

section \<open>Which sessions are usable\<close>

definition session_active :: "time \<Rightarrow> uint64 \<Rightarrow> uint64 \<Rightarrow> sessions \<Rightarrow> bool" where
  "session_active now sid uid t =
     list_ex (\<lambda>r. us_ID r = sid \<and> us_UserID r = uid \<and> us_RevokedAt r = None \<and> now < us_ExpiresAt r) (rows t)"

text \<open>An issued session id none of whose rows can ever be valid again from \<open>now\<close> on.\<close>

definition session_dead :: "time \<Rightarrow> uint64 \<Rightarrow> sessions \<Rightarrow> bool" where
  "session_dead now sid t =
     (unat sid < next_id t \<and>
      list_all (\<lambda>r. us_ID r = sid \<longrightarrow> us_RevokedAt r \<noteq> None \<or> us_ExpiresAt r \<le> now) (rows t))"

text \<open>Everything the service can do to the table, whether the statement succeeds or not.\<close>

inductive session_step :: "UserSession gorm \<Rightarrow> sessions \<Rightarrow> sessions \<Rightarrow> bool" for G where
  step_Create: "session_step G t (snd (session_Create G now uid imp expi dev ua ip t))"
| step_Touch: "session_step G t (session_Touch G now sid t)"
| step_Revoke: "session_step G t (snd (session_Revoke G now sid reason t))"
| step_RevokeAll: "session_step G t (snd (session_RevokeAllForUser G now uid reason t))"
| step_Cleanup: "session_step G t (snd (session_CleanupExpired G now retention t))"

definition session_steps :: "UserSession gorm \<Rightarrow> sessions \<Rightarrow> sessions \<Rightarrow> bool" where
  "session_steps G = (session_step G)\<^sup>*\<^sup>*"

definition session_sv :: "UserSession gorm \<Rightarrow> sessions SessionValidator" where
  "session_sv G = \<lparr>sv_Validate = session_Validate G, sv_Touch = session_Touch G\<rparr>"

section \<open>The service over a table that obeys the laws\<close>

definition session_filled :: "UserSession \<Rightarrow> UserSession \<Rightarrow> bool" where
  "session_filled r r' = (r' = r\<lparr>us_ID := us_ID r'\<rparr>)"

locale session_store = gorm_hard G us_ID session_filled "\<lambda>_. True"
  for G :: "UserSession gorm"
begin

lemma Create_cases [consumes 1]:
  assumes "session_Create G now uid imp expi dev ua ip t = (res, t')"
  obtains (failed) e where "res = Inl e" "rows t' = rows t" "next_id t \<le> next_id t'"
  | (created) r where "res = Inr r" "rows t' = rows t @ [r]" "0 < unat (us_ID r)" "next_id t \<le> unat (us_ID r)"
      "unat (us_ID r) < next_id t'" "us_UserID r = uid" "us_ImpersonatorID r = imp" "us_ExpiresAt r = expi"
      "us_RevokedAt r = None"
proof (cases res)
  case (Inl e)
  then show thesis using assms Create_failed failed by (auto simp: session_Create_def dbE_Inl)
next
  case (Inr r)
  let ?r = "\<lparr>us_ID = 0, us_UserID = uid, us_ImpersonatorID = imp, us_DeviceName = dev,
        us_UserAgent = ua, us_IPAddress = ip, us_IssuedAt = now, us_LastUsedAt = now,
        us_ExpiresAt = expi, us_RevokedAt = None, us_RevokedReason = ''''\<rparr>"
  have "db_Create G ?r t = (Inr r, t')" using assms Inr by (simp add: session_Create_def)
  from Create_ok [OF this] have c: "rows t' = rows t @ [r]" "session_filled ?r r" "0 < unat (us_ID r)"
    "next_id t \<le> unat (us_ID r)" "unat (us_ID r) < next_id t'" by simp_all
  have r: "r = ?r\<lparr>us_ID := us_ID r\<rparr>" using c(2) unfolding session_filled_def .
  have "us_UserID r = uid" "us_ImpersonatorID r = imp" "us_ExpiresAt r = expi" "us_RevokedAt r = None"
    by (subst r, simp)+
  then show thesis using created [OF Inr c(1,3-5)] by simp
qed

text \<open>The three updates change matching rows in place and nothing when they fail.\<close>

lemma Updates_cases:
  assumes "\<And>r. us_ID (f r) = us_ID r"
  obtains (failed) e where "db_Updates G P f t = (Inl e, t)"
  | (updated) n t' where "db_Updates G P f t = (Inr n, t')"
      "rows t' = map (\<lambda>r. if P r then f r else r) (rows t)" "next_id t' = next_id t"
proof (cases "db_Updates G P f t")
  case (Pair res t')
  then show thesis
    using Updates_failed [of P f t _ t'] Updates_rows [of P f t _ t'] assms failed updated by (cases res) auto
qed

lemma Updates_void_cases:
  assumes "bindE (dbE (db_Updates G P f)) (\<lambda>_. returnE ()) t = (res, t')" "\<And>r. us_ID (f r) = us_ID r"
  obtains (failed) e where "res = Inl e" "t' = t"
  | (updated) "res = Inr ()" "rows t' = map (\<lambda>r. if P r then f r else r) (rows t)" "next_id t' = next_id t"
proof (cases rule: Updates_cases [of f P t, OF assms(2)])
  case (1 e)
  then show thesis using assms(1) failed by (auto simp: bindE_def dbE_def)
next
  case (2 n u)
  then show thesis using assms(1) updated by (simp add: bindE_def dbE_def)
qed

lemma Touch_cases:
  obtains (failed) "session_Touch G now sid t = t"
  | (touched) "rows (session_Touch G now sid t) = map (\<lambda>r. if us_ID r = sid then r\<lparr>us_LastUsedAt := now\<rparr> else r) (rows t)"
    "next_id (session_Touch G now sid t) = next_id t"
  using Updates_cases [of "\<lambda>r. r\<lparr>us_LastUsedAt := now\<rparr>" "\<lambda>r. us_ID r = sid" t thesis] failed touched
  by (auto simp: session_Touch_def)

lemma Revoke_cases [consumes 1]:
  assumes "session_Revoke G now sid reason t = (res, t')"
  obtains (failed) e where "res = Inl e" "t' = t"
  | (revoked) "res = Inr ()"
      "rows t' = map (\<lambda>r. if us_ID r = sid \<and> us_RevokedAt r = None
                          then r\<lparr>us_RevokedAt := Some now, us_RevokedReason := reason\<rparr> else r) (rows t)"
      "next_id t' = next_id t"
  by (rule Updates_void_cases [OF assms [unfolded session_Revoke_def]]) (simp_all add: failed revoked)

lemma RevokeAll_cases [consumes 1]:
  assumes "session_RevokeAllForUser G now uid reason t = (res, t')"
  obtains (failed) e where "res = Inl e" "t' = t"
  | (revoked) "res = Inr ()"
      "rows t' = map (\<lambda>r. if us_UserID r = uid \<and> us_RevokedAt r = None
                          then r\<lparr>us_RevokedAt := Some now, us_RevokedReason := reason\<rparr> else r) (rows t)"
      "next_id t' = next_id t"
  by (rule Updates_void_cases [OF assms [unfolded session_RevokeAllForUser_def]]) (simp_all add: failed revoked)

lemma Cleanup_cases [consumes 1]:
  assumes "session_CleanupExpired G now retention t = (res, t')"
  obtains (failed) e where "res = Inl e" "t' = t"
  | (deleted) n where "res = Inr n" "next_id t' = next_id t"
      "rows t' = filter (\<lambda>r. \<not> (us_ExpiresAt r \<le> now - retention
           \<or> (case us_RevokedAt r of None \<Rightarrow> False | Some v \<Rightarrow> v \<le> now - retention))) (rows t)"
proof (cases res)
  case (Inl e)
  then show thesis using assms failed by (auto simp: session_CleanupExpired_def dbE_Inl Let_def dest: Delete_failed)
next
  case (Inr n)
  then show thesis using assms deleted by (auto simp: session_CleanupExpired_def Let_def dest: Delete_rows)
qed

lemma Validate_sound:
  assumes "session_Validate G now sid uid t = Inr ()"
  shows "session_active now sid uid t"
proof -
  obtain row where "db_First G (\<lambda>r. us_ID r = sid) t = Inr row" "us_UserID row = uid" "Active now row"
    using assms by (auto simp: session_Validate_def split: sum.splits db_error.splits if_splits)
  then show ?thesis using First_found [of "\<lambda>r. us_ID r = sid" t row]
    by (auto simp: session_active_def Active_def list_ex_iff split: option.splits)
qed

lemma active_map:
  assumes "rows t' = map f (rows t)"
    and "\<And>r. us_ID (f r) = us_ID r" "\<And>r. us_UserID (f r) = us_UserID r"
    and "\<And>r. r \<in> set (rows t) \<Longrightarrow> us_ID r = sid \<Longrightarrow> us_UserID r = uid \<Longrightarrow> us_RevokedAt (f r) = us_RevokedAt r"
    and "\<And>r. us_ExpiresAt (f r) = us_ExpiresAt r"
  shows "session_active now sid uid t' \<longleftrightarrow> session_active now sid uid t"
  using assms(2-5) by (auto simp: session_active_def list_ex_iff assms(1))

lemma Touch_active:
  "session_active now sid uid (session_Touch G now' sid' t) \<longleftrightarrow> session_active now sid uid t"
proof (cases rule: Touch_cases [of now' sid' t])
  case failed then show ?thesis by simp
next
  case touched then show ?thesis by (intro active_map [OF touched(1)]) auto
qed

lemma dead_not_active:
  "session_dead now sid t \<Longrightarrow> now \<le> now' \<Longrightarrow> \<not> session_active now' sid uid t"
  by (auto simp: session_dead_def session_active_def list_all_iff list_ex_iff)

lemma dead_map:
  assumes "session_dead now sid t" "rows t' = map f (rows t)" "next_id t' = next_id t"
    and "\<And>r. us_ID (f r) = us_ID r" "\<And>r. us_ExpiresAt (f r) = us_ExpiresAt r"
    and "\<And>r. us_RevokedAt r \<noteq> None \<Longrightarrow> us_RevokedAt (f r) \<noteq> None"
  shows "session_dead now sid t'"
  using assms(1) assms(4-6) by (fastforce simp: session_dead_def assms(2,3) list_all_iff)

lemma step_dead: "session_step G t t' \<Longrightarrow> session_dead now sid t \<Longrightarrow> session_dead now sid t'"
proof (induction rule: session_step.induct)
  case (step_Create t cnow uid imp expi dev ua ip)
  obtain res t' where c: "session_Create G cnow uid imp expi dev ua ip t = (res, t')" by fastforce
  from step_Create show ?case unfolding c by (rule_tac Create_cases [OF c]) (auto simp: session_dead_def list_all_iff)
next
  case (step_Touch t tnow tsid)
  show ?case
    by (rule Touch_cases [of tnow tsid t]) (use step_Touch in \<open>auto elim!: dead_map\<close>)
next
  case (step_Revoke t rnow rsid reason)
  obtain res t' where c: "session_Revoke G rnow rsid reason t = (res, t')" by fastforce
  show ?case unfolding c by (rule Revoke_cases [OF c]) (use step_Revoke in \<open>auto elim!: dead_map\<close>)
next
  case (step_RevokeAll t rnow uid reason)
  obtain res t' where c: "session_RevokeAllForUser G rnow uid reason t = (res, t')" by fastforce
  show ?case unfolding c by (rule RevokeAll_cases [OF c]) (use step_RevokeAll in \<open>auto elim!: dead_map\<close>)
next
  case (step_Cleanup t cnow retention)
  obtain res t' where c: "session_CleanupExpired G cnow retention t = (res, t')" by fastforce
  show ?case unfolding c
    by (rule Cleanup_cases [OF c]) (use step_Cleanup in \<open>auto simp: session_dead_def list_all_iff\<close>)
qed

lemma steps_dead: "session_steps G t t' \<Longrightarrow> session_dead now sid t \<Longrightarrow> session_dead now sid t'"
  unfolding session_steps_def by (induction rule: rtranclp_induct) (auto dest: step_dead)

lemma table_ok_map:
  fixes t t' :: sessions
  assumes "table_ok us_ID (\<lambda>_. True) t" "rows t' = map f (rows t)" "next_id t' = next_id t"
    and "\<And>r. us_ID (f r) = us_ID r"
  shows "table_ok us_ID (\<lambda>_. True) t'"
  using assms(4) by (intro table_ok_same_keys [OF assms(1)]) (auto simp: assms(2,3))

lemma step_table_ok: "session_step G t t' \<Longrightarrow> table_ok us_ID (\<lambda>_. True) t \<Longrightarrow> table_ok us_ID (\<lambda>_. True) t'"
proof (induction rule: session_step.induct)
  case (step_Create t now uid imp expi dev ua ip)
  then show ?case unfolding session_Create_def dbE_def
    by (auto split: prod.splits elim!: Create_table_ok)
next
  case (step_Touch t now sid)
  show ?case
    by (rule Touch_cases [of now sid t]) (use step_Touch in \<open>auto elim!: table_ok_map\<close>)
next
  case (step_Revoke t now sid reason)
  obtain res t' where c: "session_Revoke G now sid reason t = (res, t')" by fastforce
  show ?case unfolding c by (rule Revoke_cases [OF c]) (use step_Revoke in \<open>auto elim!: table_ok_map\<close>)
next
  case (step_RevokeAll t now uid reason)
  obtain res t' where c: "session_RevokeAllForUser G now uid reason t = (res, t')" by fastforce
  show ?case unfolding c by (rule RevokeAll_cases [OF c]) (use step_RevokeAll in \<open>auto elim!: table_ok_map\<close>)
next
  case (step_Cleanup t now retention)
  then show ?case unfolding session_CleanupExpired_def dbE_def Let_def
    by (auto split: prod.splits elim!: Delete_table_ok)
qed

text \<open>What the two revocations achieve.\<close>

lemma Revoke_dead:
  assumes "session_Revoke G now sid reason t = (Inr (), t')" "unat sid < next_id t"
  shows "session_dead now' sid t'"
  using assms(1)
proof (cases rule: Revoke_cases)
  case revoked
  show ?thesis unfolding session_dead_def revoked list_all_map using assms(2) by (auto simp: list_all_iff)
qed simp

lemma Revoke_others:
  assumes "session_Revoke G now sid reason t = (Inr (), t')" "sid' \<noteq> sid"
  shows "session_active now' sid' uid t' \<longleftrightarrow> session_active now' sid' uid t"
  using assms(1)
proof (cases rule: Revoke_cases)
  case revoked
  then show ?thesis using assms(2) by (intro active_map [OF revoked(2)]) auto
qed simp

lemma RevokeAll_none_active:
  assumes "session_RevokeAllForUser G now uid reason t = (Inr (), t')"
  shows "\<not> session_active now' sid uid t'"
  using assms
proof (cases rule: RevokeAll_cases)
  case revoked
  show ?thesis unfolding session_active_def revoked list_ex_map by (auto simp: list_ex_iff)
qed simp

lemma RevokeAll_dead:
  assumes "session_RevokeAllForUser G now uid reason t = (Inr (), t')" "table_ok us_ID (\<lambda>_. True) t"
    and "r \<in> set (rows t)" "us_UserID r = uid"
  shows "session_dead now' (us_ID r) t'"
  using assms(1)
proof (cases rule: RevokeAll_cases)
  case revoked
  have key: "\<And>x. x \<in> set (rows t) \<Longrightarrow> us_ID x = us_ID r \<Longrightarrow> us_UserID x = uid"
    using assms(2-4) by (auto simp: table_ok_def distinct_map dest: inj_onD)
  have "unat (us_ID r) < next_id t" using assms(2,3) by (auto simp: table_ok_def list_all_iff)
  then show ?thesis unfolding session_dead_def revoked list_all_map using key by (auto simp: list_all_iff)
qed simp

lemma RevokeAll_others:
  assumes "session_RevokeAllForUser G now uid reason t = (Inr (), t')" "uid' \<noteq> uid"
  shows "session_active now' sid uid' t' \<longleftrightarrow> session_active now' sid uid' t"
  using assms(1)
proof (cases rule: RevokeAll_cases)
  case revoked
  then show ?thesis using assms(2) by (intro active_map [OF revoked(2)]) auto
qed simp

lemma Cleanup_active:
  assumes "session_CleanupExpired G now retention t = (res, t')" "0 \<le> retention" "now \<le> now'"
  shows "session_active now' sid uid t' \<longleftrightarrow> session_active now' sid uid t"
  by (rule Cleanup_cases [OF assms(1)]) (use assms(2,3) in \<open>auto simp: session_active_def list_ex_iff\<close>)

end

text \<open>The session service satisfies the contract of the authentication middleware.\<close>

sublocale session_store \<subseteq> sv: session_validator "session_sv G" session_active
  by unfold_locales (auto simp: session_sv_def Touch_active intro: Validate_sound)

text \<open>On a connection without failures a session validates exactly when it is active.\<close>

locale session_store_live = session_store G + gorm_live G us_ID "\<lambda>_. True" session_filled "(=)" "\<lambda>_. True"
  for G :: "UserSession gorm"
begin

lemma Validate_active:
  assumes "table_ok us_ID (\<lambda>_. True) t" "session_active now sid uid t"
  shows "session_Validate G now sid uid t = Inr ()"
proof -
  obtain r where r: "r \<in> set (rows t)" "us_ID r = sid" "us_UserID r = uid" "Active now r"
    using assms(2) by (auto simp: session_active_def list_ex_iff Active_def)
  moreover obtain r' where "db_First G (\<lambda>r. us_ID r = sid) t = Inr r'"
    using First_live [of r t "\<lambda>r. us_ID r = sid"] r by auto
  ultimately have "db_First G (\<lambda>r. us_ID r = sid) t = Inr r"
    using First_by_key [OF assms(1) r(1,2)] by simp
  then show ?thesis using r by (simp add: session_Validate_def)
qed

lemma Validate_iff:
  "table_ok us_ID (\<lambda>_. True) t \<Longrightarrow> session_Validate G now sid uid t = Inr () \<longleftrightarrow> session_active now sid uid t"
  using Validate_active Validate_sound by blast

lemma Create_live_ok: "next_id t < 2 ^ 63 \<Longrightarrow>
  \<exists>r t'. session_Create G now uid imp expi dev ua ip t = (Inr r, t')"
  using Create_live unfolding session_Create_def by simp

lemma RevokeAll_live: "\<exists>t'. session_RevokeAllForUser G now uid reason t = (Inr (), t')"
proof -
  let ?P = "\<lambda>r. us_UserID r = uid \<and> us_RevokedAt r = None"
    and ?f = "\<lambda>r. r\<lparr>us_RevokedAt := Some now, us_RevokedReason := reason\<rparr>"
  obtain n t' where "db_Updates G ?P ?f t = (Inr n, t')" using Updates_live [of ?f ?P t] by auto
  then show ?thesis by (simp add: session_RevokeAllForUser_def bindE_def dbE_def)
qed

end

section \<open>An instance\<close>

definition mem_sessions :: "UserSession gorm" where
  "mem_sessions = mem_gorm us_ID (\<lambda>k r. r\<lparr>us_ID := k\<rparr>) (\<lambda>_. True) (\<lambda>_. None) (\<lambda>_. True)"

interpretation mem_sessions: session_store_live mem_sessions
proof -
  have h: "gorm_hard mem_sessions us_ID session_filled (\<lambda>_. True)"
    unfolding mem_sessions_def by (rule mem_gorm_hard) (auto simp: session_filled_def)
  then have t: "gorm_table mem_sessions us_ID (\<lambda>_. True) session_filled (=) (\<lambda>_. True)"
    unfolding gorm_hard_def by blast
  have "gorm_live mem_sessions us_ID (\<lambda>_. True) session_filled (=) (\<lambda>_. True)"
    unfolding mem_sessions_def
    by (rule mem_gorm_live) (use t in \<open>auto simp: session_filled_def mem_sessions_def\<close>)
  with h show "session_store_live mem_sessions"
    by (simp add: session_store_live_def session_store_def)
qed

definition demo_session :: "uint64 \<Rightarrow> uint64 \<Rightarrow> UserSession" where
  "demo_session sid uid =
     \<lparr>us_ID = sid, us_UserID = uid, us_ImpersonatorID = 0, us_DeviceName = ''curl'', us_UserAgent = ''curl/8'',
      us_IPAddress = ''10.0.0.1'', us_IssuedAt = 0, us_LastUsedAt = 0, us_ExpiresAt = 100,
      us_RevokedAt = None, us_RevokedReason = ''''\<rparr>"

definition demo_sessions :: sessions where
  "demo_sessions = \<lparr>rows = [demo_session 1 7, demo_session 2 8], next_id = 3\<rparr>"

lemma demo_sessions_ok: "table_ok us_ID (\<lambda>_. True) demo_sessions"
  by (simp add: table_ok_def demo_sessions_def demo_session_def)

lemma mem_sessions_Revoke:
  "session_Revoke mem_sessions now sid reason t =
     (Inr (), t\<lparr>rows := map (\<lambda>r. if us_ID r = sid \<and> us_RevokedAt r = None
        then r\<lparr>us_RevokedAt := Some now, us_RevokedReason := reason\<rparr> else r) (rows t)\<rparr>)"
  by (simp add: session_Revoke_def bindE_def dbE_def mem_sessions_def mem_gorm_def)

lemma mem_sessions_RevokeAll:
  "session_RevokeAllForUser mem_sessions now uid reason t =
     (Inr (), t\<lparr>rows := map (\<lambda>r. if us_UserID r = uid \<and> us_RevokedAt r = None
        then r\<lparr>us_RevokedAt := Some now, us_RevokedReason := reason\<rparr> else r) (rows t)\<rparr>)"
  by (simp add: session_RevokeAllForUser_def bindE_def dbE_def mem_sessions_def mem_gorm_def)

section \<open>Properties\<close>

text \<open>
  C3: revocation is permanent.  Once \<open>Revoke\<close> has succeeded for an issued session, no sequence of
  service operations (creating, touching, revoking, cleaning up, each succeeding or failing)
  makes \<open>Validate\<close> accept that session again, for any user and at any time.
\<close>

theorem revoked_session_never_validates:
  assumes "session_store G" "session_Revoke G now sid reason t = (Inr (), t1)" "unat sid < next_id t"
    and "session_steps G t1 t2"
  shows "\<exists>e. session_Validate G now' sid uid t2 = Inl e"
proof -
  have "session_dead now' sid t2"
    using assms session_store.Revoke_dead session_store.steps_dead by blast
  then have "\<not> session_active now' sid uid t2"
    by (rule session_store.dead_not_active [OF assms(1)]) simp
  then show ?thesis using session_store.Validate_sound [OF assms(1), of now' sid uid t2]
    by (cases "session_Validate G now' sid uid t2") auto
qed

theorem revoked_session_never_validates_witness:
  "\<exists>e. session_Validate mem_sessions 20 1 7
         (session_Touch mem_sessions 15 1 (snd (session_Revoke mem_sessions 10 1 ''user-logout'' demo_sessions))) = Inl e"
proof (rule revoked_session_never_validates [OF mem_sessions.session_store_axioms])
  show "session_Revoke mem_sessions 10 1 ''user-logout'' demo_sessions
        = (Inr (), snd (session_Revoke mem_sessions 10 1 ''user-logout'' demo_sessions))"
    by (simp add: mem_sessions_Revoke)
  show "unat (1 :: uint64) < next_id demo_sessions" by (simp add: demo_sessions_def)
  show "session_steps mem_sessions (snd (session_Revoke mem_sessions 10 1 ''user-logout'' demo_sessions))
     (session_Touch mem_sessions 15 1 (snd (session_Revoke mem_sessions 10 1 ''user-logout'' demo_sessions)))"
    unfolding session_steps_def by (intro r_into_rtranclp step_Touch)
qed

text \<open>
  A successful \<open>Revoke\<close> takes out exactly one session: afterwards a session is active exactly
  if it was active before and is not the revoked one.
\<close>

theorem session_Revoke_exact:
  assumes "session_store G" "session_Revoke G now sid reason t = (Inr (), t')"
  shows "session_active now' sid' uid t' \<longleftrightarrow> sid' \<noteq> sid \<and> session_active now' sid' uid t"
proof (cases "sid' = sid")
  case True
  show ?thesis using assms(2) True
  proof (cases rule: session_store.Revoke_cases [OF assms(1), consumes 1])
    case 2
    show ?thesis unfolding session_active_def 2 list_ex_map True by (auto simp: list_ex_iff)
  qed simp
next
  case False
  then show ?thesis using session_store.Revoke_others [OF assms(1,2) False] by simp
qed

theorem session_Revoke_exact_witness:
  "\<not> session_active 20 1 7 (snd (session_Revoke mem_sessions 10 1 ''user-logout'' demo_sessions))
   \<and> session_active 20 2 8 (snd (session_Revoke mem_sessions 10 1 ''user-logout'' demo_sessions))"
proof -
  let ?t = "snd (session_Revoke mem_sessions 10 1 ''user-logout'' demo_sessions)"
  have r: "session_Revoke mem_sessions 10 1 ''user-logout'' demo_sessions = (Inr (), ?t)"
    by (simp add: mem_sessions_Revoke)
  have "session_active 20 2 8 demo_sessions"
    by (simp add: session_active_def demo_sessions_def demo_session_def)
  then show ?thesis
    unfolding session_Revoke_exact [OF mem_sessions.session_store_axioms r] by simp
qed

text \<open>
  A successful \<open>RevokeAllForUser\<close> ends every session of that user and no session of anyone
  else.
\<close>

theorem session_RevokeAll_exact:
  assumes "session_store G" "session_RevokeAllForUser G now uid reason t = (Inr (), t')"
  shows "session_active now' sid uid' t' \<longleftrightarrow> uid' \<noteq> uid \<and> session_active now' sid uid' t"
  using session_store.RevokeAll_none_active [OF assms] session_store.RevokeAll_others [OF assms]
  by (cases "uid' = uid") auto

theorem session_RevokeAll_exact_witness:
  "\<not> session_active 20 1 7 (snd (session_RevokeAllForUser mem_sessions 10 7 ''user-logout-all'' demo_sessions))
   \<and> session_active 20 2 8 (snd (session_RevokeAllForUser mem_sessions 10 7 ''user-logout-all'' demo_sessions))"
proof -
  let ?t = "snd (session_RevokeAllForUser mem_sessions 10 7 ''user-logout-all'' demo_sessions)"
  have r: "session_RevokeAllForUser mem_sessions 10 7 ''user-logout-all'' demo_sessions = (Inr (), ?t)"
    by (simp add: mem_sessions_RevokeAll)
  have "session_active 20 2 8 demo_sessions"
    by (simp add: session_active_def demo_sessions_def demo_session_def)
  then show ?thesis
    unfolding session_RevokeAll_exact [OF mem_sessions.session_store_axioms r] by simp
qed

text \<open>
  With a working connection and a consistent table, \<open>Validate\<close> accepts exactly the sessions
  that exist, belong to the user, are not revoked and have not reached their expiry.
\<close>

theorem session_Validate_exact:
  assumes "session_store_live G" "table_ok us_ID (\<lambda>_. True) t"
  shows "session_Validate G now sid uid t = Inr () \<longleftrightarrow> session_active now sid uid t"
  by (rule session_store_live.Validate_iff [OF assms])

theorem session_Validate_exact_witness:
  "session_Validate mem_sessions 99 1 7 demo_sessions = Inr ()
   \<and> session_Validate mem_sessions 100 1 7 demo_sessions \<noteq> Inr ()
   \<and> session_Validate mem_sessions 99 1 8 demo_sessions \<noteq> Inr ()"
  unfolding session_Validate_exact [OF mem_sessions.session_store_live_axioms demo_sessions_ok]
  by (simp add: session_active_def demo_sessions_def demo_session_def)

text \<open>
  The cleanup job never ends a usable session: with a non-negative retention, the sessions
  active at the time of the cleanup or later are the same before and after it.
\<close>

theorem session_Cleanup_keeps_active:
  assumes "session_store G" "session_CleanupExpired G now retention t = (res, t')" "0 \<le> retention" "now \<le> now'"
  shows "session_active now' sid uid t' \<longleftrightarrow> session_active now' sid uid t"
  by (rule session_store.Cleanup_active [OF assms])

theorem session_Cleanup_keeps_active_witness:
  "session_active 60 1 7 (snd (session_CleanupExpired mem_sessions 50 10 demo_sessions))"
proof -
  obtain res t' where c: "session_CleanupExpired mem_sessions 50 10 demo_sessions = (res, t')" by fastforce
  have "session_active 60 1 7 demo_sessions"
    by (simp add: session_active_def demo_sessions_def demo_session_def)
  then show ?thesis
    using session_Cleanup_keeps_active [OF mem_sessions.session_store_axioms c, of 60 1 7] by (simp add: c)
qed

text \<open>
  \<open>ListForUser\<close> returns the unrevoked sessions of the user, each exactly once, most recently
  used first, with the flag \<open>Current\<close> set on the caller's own session only.
\<close>

theorem session_ListForUser_exact:
  assumes "session_store G" "session_ListForUser G uid cur t = Inr resp"
  shows "mset resp = mset (map (\<lambda>r. session_ToResponse r cur)
                          (filter (\<lambda>r. us_UserID r = uid \<and> us_RevokedAt r = None) (rows t)))
         \<and> sorted_wrt (\<lambda>a b. sr_LastUsedAt a \<ge> sr_LastUsedAt b) resp
         \<and> list_all (\<lambda>a. sr_Current a = (sr_ID a = cur)) resp"
proof -
  let ?P = "\<lambda>r. us_UserID r = uid \<and> us_RevokedAt r = None"
  obtain rs where rs: "db_Find G ?P by_last_used None t = Inr rs" "resp = map (\<lambda>r. session_ToResponse r cur) rs"
    using assms(2) by (auto simp: session_ListForUser_def session_ToResponses_def split: sum.splits)
  have law: "gorm_table G us_ID (\<lambda>_. True) session_filled (=) (\<lambda>_. True)"
    using assms(1) by (simp add: session_store_def gorm_hard_def)
  have "mset rs = mset (filter ?P (rows t)) \<and> sorted_wrt by_last_used rs"
    using gorm_table.Find_rows [OF law rs(1)]
    by (auto simp: by_last_used_def transp_def)
  then show ?thesis
    unfolding rs(2) by (auto simp: sorted_wrt_map session_ToResponse_def by_last_used_def [abs_def] list_all_iff)
qed

theorem session_ListForUser_exact_witness:
  "\<exists>resp. session_ListForUser mem_sessions 7 1 demo_sessions = Inr resp
     \<and> mset resp = {# session_ToResponse (demo_session 1 7) 1 #}"
proof -
  obtain resp where r: "session_ListForUser mem_sessions 7 1 demo_sessions = Inr resp"
    by (simp add: session_ListForUser_def mem_sessions_def mem_gorm_def)
  then show ?thesis
    using session_ListForUser_exact [OF mem_sessions.session_store_axioms r]
    by (simp add: demo_sessions_def demo_session_def)
qed

end
