(* ===== verification/User.thy ===== *)
theory User
  imports Role Session
begin

text \<open>
  Module \<open>internal/modules/user\<close>.  The interface \<open>SessionRevoker\<close> of the source is the optional
  argument \<open>rvk\<close> (a nil interface is \<open>None\<close>).  A stored user row has an empty role list, which
  \<open>Preload\<close> fills.
\<close>

section \<open>Entity, state and responses\<close>

record User = BaseModel +
  u_Username :: string
  u_Email :: string
  u_PasswordHash :: string
  u_FullName :: string
  u_Enabled :: bool
  u_TokenVersion :: uint64
  u_Roles :: "Role list"

record user_db = role_db +
  ud_users :: "User table"
  ud_user_roles :: joins
  ud_sessions :: sessions

record user_gorm =
  ug_users :: "User gorm"
  ug_assoc :: "(User, Role) gorm_assoc"
  ug_role :: role_gorm

type_synonym SessionRevoker = "(time \<Rightarrow> uint64 \<Rightarrow> string \<Rightarrow> (sessions, go_error, unit) op) option"

record UserUpdateRequest =
  uq_Email :: string
  uq_FullName :: string
  uq_Enabled :: "bool option"

text \<open>
  The permissions of a response are collected by ranging over a map, whose order Go leaves
  unspecified: the field holds the set.
\<close>

record UserResponse =
  ux_ID :: uint64
  ux_Username :: string
  ux_Email :: string
  ux_FullName :: string
  ux_Enabled :: bool
  ux_Roles :: "string list"
  ux_Permissions :: "string set"
  ux_Base :: BaseResponse

record UserFilter =
  uf_Q :: string
  uf_Role :: string
  uf_Enabled :: "bool option"

definition user_ToResponse :: "User \<Rightarrow> UserResponse" where
  "user_ToResponse u =
     \<lparr>ux_ID = bm_ID u, ux_Username = u_Username u, ux_Email = u_Email u, ux_FullName = u_FullName u,
      ux_Enabled = u_Enabled u, ux_Roles = map rl_Name (u_Roles u),
      ux_Permissions = set (concat (map (\<lambda>r. map pm_Name (rl_Permissions r)) (u_Roles u))),
      ux_Base = base_response u\<rparr>"

definition user_ToResponses :: "User list \<Rightarrow> UserResponse list" where
  "user_ToResponses us = map user_ToResponse us"

text \<open>\<open>AuthoritiesOf\<close>: the two nested loops with their \<open>seen\<close> set.\<close>

definition add_authority :: "string \<Rightarrow> string list \<times> string list \<Rightarrow> string list \<times> string list" where
  "add_authority key s = (let (out, seen) = s in if List.member seen key then s else (out @ [key], key # seen))"

fun add_permissions :: "Permission list \<Rightarrow> string list \<times> string list \<Rightarrow> string list \<times> string list" where
  "add_permissions [] s = s"
| "add_permissions (p # ps) s = add_permissions ps (add_authority (pm_Name p) s)"

fun add_roles :: "Role list \<Rightarrow> string list \<times> string list \<Rightarrow> string list \<times> string list" where
  "add_roles [] s = s"
| "add_roles (r # rs) s = add_roles rs (add_permissions (rl_Permissions r) (add_authority (''ROLE_'' @ rl_Name r) s))"

definition AuthoritiesOf :: "User \<Rightarrow> string list" where
  "AuthoritiesOf u = fst (add_roles (u_Roles u) ([], []))"

section \<open>Repository\<close>

definition user_columns :: "User \<Rightarrow> User" where
  "user_columns u = u\<lparr>u_Roles := []\<rparr>"

definition preload_roles :: "user_gorm \<Rightarrow> 'x user_db_scheme \<Rightarrow> User \<Rightarrow> go_error + User" where
  "preload_roles G db u =
     (case ga_Preload (ug_assoc G) (bm_ID u) (ud_user_roles db) (rd_roles db) of
        Inl err \<Rightarrow> Inl (DbError err)
      | Inr rs \<Rightarrow>
          (case mapE (preload_permissions (ug_role G) db) rs of
             Inl err \<Rightarrow> Inl err
           | Inr rs \<Rightarrow> Inr (u\<lparr>u_Roles := rs\<rparr>)))"

definition put_users :: "User table \<times> joins \<Rightarrow> 'x user_db_scheme \<Rightarrow> 'x user_db_scheme" where
  "put_users tj db = db\<lparr>ud_users := fst tj, ud_user_roles := snd tj\<rparr>"

definition user_repo_Create ::
  "user_gorm \<Rightarrow> request_context option \<Rightarrow> User \<Rightarrow> ('x user_db_scheme, go_error, User) op" where
  "user_repo_Create G ctx u =
     bindE (zoomE (\<lambda>db. (ud_users db, ud_user_roles db)) put_users
              (dbE (ga_Create (ug_assoc G) (user_columns (setCreatedBy ctx u)) (map bm_ID (u_Roles u)))))
       (\<lambda>r. returnE (r\<lparr>u_Roles := u_Roles u\<rparr>))"

definition user_repo_Update ::
  "user_gorm \<Rightarrow> request_context option \<Rightarrow> User \<Rightarrow> ('x user_db_scheme, go_error, User) op" where
  "user_repo_Update G ctx u =
     bindE (zoomE (\<lambda>db. (ud_users db, ud_user_roles db)) put_users
              (dbE (ga_Save (ug_assoc G) (user_columns (setUpdatedBy ctx u)) (map bm_ID (u_Roles u)))))
       (\<lambda>r. returnE (r\<lparr>u_Roles := u_Roles u\<rparr>))"

definition user_repo_Delete :: "user_gorm \<Rightarrow> uint64 \<Rightarrow> ('x user_db_scheme, go_error, unit) op" where
  "user_repo_Delete G uid =
     bindE (zoomE ud_users (\<lambda>t db. db\<lparr>ud_users := t\<rparr>) (dbE (db_Delete (ug_users G) (\<lambda>r. bm_ID r = uid))))
       (\<lambda>_. returnE ())"

definition user_repo_GetByID :: "user_gorm \<Rightarrow> uint64 \<Rightarrow> 'x user_db_scheme \<Rightarrow> go_error + User option" where
  "user_repo_GetByID G uid db =
     preload_opt (preload_roles G db) (first_opt (ug_users G) (\<lambda>r. bm_ID r = uid) (ud_users db))"

definition user_repo_GetByUsernameOrEmail ::
  "user_gorm \<Rightarrow> string \<Rightarrow> 'x user_db_scheme \<Rightarrow> go_error + User option" where
  "user_repo_GetByUsernameOrEmail G identifier db =
     preload_opt (preload_roles G db)
       (first_opt (ug_users G) (\<lambda>r. u_Username r = identifier \<or> u_Email r = identifier) (ud_users db))"

definition user_repo_ExistsByUsername :: "user_gorm \<Rightarrow> string \<Rightarrow> 'x user_db_scheme \<Rightarrow> go_error + bool" where
  "user_repo_ExistsByUsername G username db =
     (case db_Count (ug_users G) (\<lambda>r. u_Username r = username) (ud_users db) of
        Inl err \<Rightarrow> Inl (DbError err) | Inr n \<Rightarrow> Inr (n > 0))"

definition user_repo_ExistsByEmail :: "user_gorm \<Rightarrow> string \<Rightarrow> 'x user_db_scheme \<Rightarrow> go_error + bool" where
  "user_repo_ExistsByEmail G email db =
     (case db_Count (ug_users G) (\<lambda>r. u_Email r = email) (ud_users db) of
        Inl err \<Rightarrow> Inl (DbError err) | Inr n \<Rightarrow> Inr (n > 0))"

text \<open>The \<open>JOIN\<close> of the role filter reads the roles table without the default scope.\<close>

definition joined_role :: "'x user_db_scheme \<Rightarrow> string \<Rightarrow> User \<Rightarrow> bool" where
  "joined_role db name u =
     list_ex (\<lambda>(uid, rid). uid = bm_ID u \<and> list_ex (\<lambda>r. bm_ID r = rid \<and> rl_Name r = name) (rows (rd_roles db)))
       (ud_user_roles db)"

definition user_matches :: "(string \<Rightarrow> string \<Rightarrow> bool) \<Rightarrow> 'x user_db_scheme \<Rightarrow> UserFilter \<Rightarrow> User \<Rightarrow> bool" where
  "user_matches like db f u =
     ((if uf_Q f \<noteq> ''''
       then let pat = ''%'' @ uf_Q f @ ''%'' in like (u_Username u) pat \<or> like (u_Email u) pat \<or> like (u_FullName u) pat
       else True)
      \<and> (case uf_Enabled f of None \<Rightarrow> True | Some b \<Rightarrow> u_Enabled u = b)
      \<and> (if uf_Role f \<noteq> '''' then joined_role db (uf_Role f) u else True))"

definition user_repo_Search ::
  "user_gorm \<Rightarrow> (string \<Rightarrow> string \<Rightarrow> bool) \<Rightarrow> UserFilter \<Rightarrow> goint \<Rightarrow> goint \<Rightarrow> 'x user_db_scheme \<Rightarrow> go_error + User list \<times> int" where
  "user_repo_Search G like f offset cnt db =
     (case db_Count (ug_users G) (user_matches like db f) (ud_users db) of
        Inl err \<Rightarrow> Inl (DbError err)
      | Inr n \<Rightarrow>
          (case db_Find (ug_users G) (user_matches like db f) (\<lambda>a b. bm_ID a \<ge> bm_ID b) (Some (offset, cnt)) (ud_users db) of
             Inl err \<Rightarrow> Inl (DbError err)
           | Inr us \<Rightarrow> (case mapE (preload_roles G db) us of Inl err \<Rightarrow> Inl err | Inr us \<Rightarrow> Inr (us, n))))"

definition user_repo_ReplaceRoles :: "user_gorm \<Rightarrow> User \<Rightarrow> Role list \<Rightarrow> ('x user_db_scheme, go_error, unit) op" where
  "user_repo_ReplaceRoles G u rs =
     zoomE ud_user_roles (\<lambda>j db. db\<lparr>ud_user_roles := j\<rparr>)
       (dbE (ga_Replace (ug_assoc G) (bm_ID u) (map bm_ID rs)))"

definition user_repo_IncrementTokenVersion ::
  "user_gorm \<Rightarrow> request_context option \<Rightarrow> uint64 \<Rightarrow> ('x user_db_scheme, go_error, unit) op" where
  "user_repo_IncrementTokenVersion G ctx uid =
     bindE (zoomE ud_users (\<lambda>t db. db\<lparr>ud_users := t\<rparr>)
              (dbE (db_Updates (ug_users G) (\<lambda>r. bm_ID r = uid)
                      (\<lambda>r. setUpdatedBy ctx (r\<lparr>u_TokenVersion := u_TokenVersion r + 1\<rparr>)))))
       (\<lambda>_. returnE ())"

section \<open>Service\<close>

text \<open>\<open>if s.sessions != nil { _ = s.sessions.RevokeAllForUser(...) }\<close>.\<close>

definition revoke_ignored ::
  "SessionRevoker \<Rightarrow> time \<Rightarrow> uint64 \<Rightarrow> string \<Rightarrow> ('x user_db_scheme, go_error, 'a) op \<Rightarrow> ('x user_db_scheme, go_error, 'a) op" where
  "revoke_ignored rvk now uid reason k =
     (case rvk of
        None \<Rightarrow> k
      | Some f \<Rightarrow> ignoreE (zoomE ud_sessions (\<lambda>t db. db\<lparr>ud_sessions := t\<rparr>) (f now uid reason)) k)"

definition user_GetByID :: "user_gorm \<Rightarrow> uint64 \<Rightarrow> 'x user_db_scheme \<Rightarrow> go_error + UserResponse" where
  "user_GetByID G uid db =
     (case user_repo_GetByID G uid db of
        Inl err \<Rightarrow> Inl err
      | Inr None \<Rightarrow> Inl (NotFound ''User'' uid)
      | Inr (Some u) \<Rightarrow> Inr (user_ToResponse u))"

definition user_Search ::
  "user_gorm \<Rightarrow> (string \<Rightarrow> string \<Rightarrow> bool) \<Rightarrow> UserFilter \<Rightarrow> PageRequest \<Rightarrow> 'x user_db_scheme \<Rightarrow> go_error + UserResponse PageResponse" where
  "user_Search G like f page db =
     (case user_repo_Search G like f (Offset page) (Limit page) db of
        Inl err \<Rightarrow> Inl err
      | Inr (us, n) \<Rightarrow> Inr (NewPage (Some (user_ToResponses us)) page n))"

text \<open>The shape \<open>u, err := s.repo.GetByID(...)\<close> with its two early returns.\<close>

definition with_user ::
  "user_gorm \<Rightarrow> uint64 \<Rightarrow> (User \<Rightarrow> ('x user_db_scheme, go_error, 'a) op) \<Rightarrow> ('x user_db_scheme, go_error, 'a) op" where
  "with_user G uid k =
     bindE (readE (user_repo_GetByID G uid)) (\<lambda>u.
     case u of None \<Rightarrow> throwE (NotFound ''User'' uid) | Some u \<Rightarrow> k u)"

definition user_Update ::
  "user_gorm \<Rightarrow> SessionRevoker \<Rightarrow> time \<Rightarrow> request_context option \<Rightarrow> uint64 \<Rightarrow> UserUpdateRequest
   \<Rightarrow> ('x user_db_scheme, go_error, UserResponse) op" where
  "user_Update G rvk now ctx uid req =
     with_user G uid (\<lambda>u.
     bindE (if uq_Email req \<noteq> '''' \<and> uq_Email req \<noteq> u_Email u
            then bindE (readE (user_repo_ExistsByEmail G (uq_Email req))) (\<lambda>exists.
                 if exists then throwE (Duplicate ''Email already in use'')
                 else returnE (u\<lparr>u_Email := uq_Email req\<rparr>))
            else returnE u) (\<lambda>u.
     let u = (if uq_FullName req \<noteq> '''' then u\<lparr>u_FullName := uq_FullName req\<rparr> else u);
         wasEnabled = u_Enabled u;
         u = (case uq_Enabled req of None \<Rightarrow> u | Some b \<Rightarrow> u\<lparr>u_Enabled := b\<rparr>)
     in bindE (user_repo_Update G ctx u) (\<lambda>u.
        if wasEnabled \<and> \<not> u_Enabled u \<and> rvk \<noteq> None
        then revoke_ignored rvk now (bm_ID u) ''account-deactivated''
               (ignoreE (user_repo_IncrementTokenVersion G ctx (bm_ID u)) (returnE (user_ToResponse u)))
        else returnE (user_ToResponse u))))"

definition user_Delete ::
  "user_gorm \<Rightarrow> SessionRevoker \<Rightarrow> time \<Rightarrow> uint64 \<Rightarrow> ('x user_db_scheme, go_error, unit) op" where
  "user_Delete G rvk now uid =
     with_user G uid (\<lambda>_.
     bindE (user_repo_Delete G uid) (\<lambda>_.
     revoke_ignored rvk now uid ''account-deleted'' (returnE ())))"

definition user_Activate ::
  "user_gorm \<Rightarrow> request_context option \<Rightarrow> uint64 \<Rightarrow> ('x user_db_scheme, go_error, UserResponse) op" where
  "user_Activate G ctx uid =
     with_user G uid (\<lambda>u.
     bindE (user_repo_Update G ctx (u\<lparr>u_Enabled := True\<rparr>)) (\<lambda>u.
     returnE (user_ToResponse u)))"

definition user_Deactivate ::
  "user_gorm \<Rightarrow> SessionRevoker \<Rightarrow> time \<Rightarrow> request_context option \<Rightarrow> uint64 \<Rightarrow> uint64 \<Rightarrow> ('x user_db_scheme, go_error, UserResponse) op" where
  "user_Deactivate G rvk now ctx uid callerID =
     (if uid = callerID then throwE (BadRequest ''Cannot deactivate your own account'')
      else with_user G uid (\<lambda>u.
           bindE (user_repo_Update G ctx (u\<lparr>u_Enabled := False\<rparr>)) (\<lambda>u.
           revoke_ignored rvk now uid ''account-deactivated''
             (ignoreE (user_repo_IncrementTokenVersion G ctx uid) (returnE (user_ToResponse u))))))"

definition user_ForceLogout ::
  "user_gorm \<Rightarrow> SessionRevoker \<Rightarrow> time \<Rightarrow> request_context option \<Rightarrow> uint64 \<Rightarrow> ('x user_db_scheme, go_error, unit) op" where
  "user_ForceLogout G rvk now ctx uid =
     with_user G uid (\<lambda>_.
     revoke_ignored rvk now uid ''admin-force-logout'' (user_repo_IncrementTokenVersion G ctx uid))"

text \<open>The loop that resolves role names; \<open>seen\<close> is a list.\<close>

fun resolve_roles ::
  "role_gorm \<Rightarrow> 'x role_db_scheme \<Rightarrow> string list \<Rightarrow> Role list \<Rightarrow> string list \<Rightarrow> go_error + Role list" where
  "resolve_roles G db seen resolved [] = Inr resolved"
| "resolve_roles G db seen resolved (name # names) =
     (if List.member seen name then resolve_roles G db seen resolved names
      else case role_repo_GetByName G name db of
             Inl err \<Rightarrow> Inl err
           | Inr None \<Rightarrow> Inl (BadRequest (''Role does not exist: '' @ name))
           | Inr (Some r) \<Rightarrow> resolve_roles G db (name # seen) (resolved @ [r]) names)"

definition user_AssignRoles ::
  "user_gorm \<Rightarrow> SessionRevoker \<Rightarrow> time \<Rightarrow> request_context option \<Rightarrow> uint64 \<Rightarrow> string list \<Rightarrow> ('x user_db_scheme, go_error, UserResponse) op" where
  "user_AssignRoles G rvk now ctx uid roleNames =
     with_user G uid (\<lambda>u.
     bindE (readE (\<lambda>db. resolve_roles (ug_role G) db [] [] roleNames)) (\<lambda>resolved.
     bindE (user_repo_ReplaceRoles G u resolved) (\<lambda>_.
     revoke_ignored rvk now uid ''roles-changed''
       (ignoreE (user_repo_IncrementTokenVersion G ctx uid)
         (returnE (user_ToResponse (u\<lparr>u_Roles := resolved\<rparr>)))))))"

section \<open>Endpoints\<close>

datatype user_data = UserPage "UserResponse PageResponse" | UserOne UserResponse

type_synonym 'x user_endpoint =
  "user_data gin_context \<Rightarrow> ('x user_db_scheme, go_error, user_data ApiResponse) op"

definition user_me :: "user_gorm \<Rightarrow> time \<Rightarrow> 'x user_endpoint" where
  "user_me G now c =
     bindE (readE (\<lambda>_. CurrentPrincipal c)) (\<lambda>p.
     bindE (readE (user_GetByID G (p_UserID p))) (\<lambda>res.
     returnE (OK now (Some (UserOne res)))))"

definition user_list ::
  "user_gorm \<Rightarrow> (string \<Rightarrow> string \<Rightarrow> bool) \<Rightarrow> (string \<Rightarrow> UserFilter) \<Rightarrow> (string \<Rightarrow> PageRequest) \<Rightarrow> time \<Rightarrow> 'x user_endpoint" where
  "user_list G like bindf bindp now c =
     bindE (readE (user_Search G like (bindf (c_RawQuery c)) (BindPage bindp c))) (\<lambda>res.
     returnE (OK now (Some (UserPage res))))"

definition user_get :: "user_gorm \<Rightarrow> time \<Rightarrow> 'x user_endpoint" where
  "user_get G now c =
     bindE (readE (\<lambda>_. parseID c)) (\<lambda>uid.
     bindE (readE (user_GetByID G uid)) (\<lambda>res.
     returnE (OK now (Some (UserOne res)))))"

definition user_update ::
  "user_gorm \<Rightarrow> SessionRevoker \<Rightarrow> (string \<Rightarrow> go_error + UserUpdateRequest) \<Rightarrow> clock \<Rightarrow> 'x user_endpoint" where
  "user_update G rvk bind clk c =
     bindE (readE (\<lambda>_. parseID c)) (\<lambda>uid.
     bindE (readE (\<lambda>_. BindJSON bind c)) (\<lambda>req.
     bindE (user_Update G rvk (clk 0) (Some (c_Context c)) uid req) (\<lambda>res.
     returnE (OK (clk 1) (Some (UserOne res))))))"

definition user_activate :: "user_gorm \<Rightarrow> time \<Rightarrow> 'x user_endpoint" where
  "user_activate G now c =
     bindE (readE (\<lambda>_. parseID c)) (\<lambda>uid.
     bindE (user_Activate G (Some (c_Context c)) uid) (\<lambda>res.
     returnE (OK now (Some (UserOne res)))))"

definition user_deactivate :: "user_gorm \<Rightarrow> SessionRevoker \<Rightarrow> clock \<Rightarrow> 'x user_endpoint" where
  "user_deactivate G rvk clk c =
     bindE (readE (\<lambda>_. parseID c)) (\<lambda>uid.
     bindE (readE (\<lambda>_. CurrentPrincipal c)) (\<lambda>p.
     bindE (user_Deactivate G rvk (clk 0) (Some (c_Context c)) uid (p_UserID p)) (\<lambda>res.
     returnE (OK (clk 1) (Some (UserOne res))))))"

definition user_forceLogout :: "user_gorm \<Rightarrow> SessionRevoker \<Rightarrow> clock \<Rightarrow> 'x user_endpoint" where
  "user_forceLogout G rvk clk c =
     bindE (readE (\<lambda>_. parseID c)) (\<lambda>uid.
     bindE (user_ForceLogout G rvk (clk 0) (Some (c_Context c)) uid) (\<lambda>_.
     returnE (MessageResponse (clk 1) ''User sessions revoked'')))"

text \<open>The request body of the assignment is the list of role names.\<close>

definition user_assignRoles ::
  "user_gorm \<Rightarrow> SessionRevoker \<Rightarrow> (string \<Rightarrow> go_error + string list) \<Rightarrow> clock \<Rightarrow> 'x user_endpoint" where
  "user_assignRoles G rvk bind clk c =
     bindE (readE (\<lambda>_. parseID c)) (\<lambda>uid.
     bindE (readE (\<lambda>_. BindJSON bind c)) (\<lambda>names.
     bindE (user_AssignRoles G rvk (clk 0) (Some (c_Context c)) uid names) (\<lambda>res.
     returnE (OK (clk 1) (Some (UserOne res))))))"

definition user_delete :: "user_gorm \<Rightarrow> SessionRevoker \<Rightarrow> clock \<Rightarrow> 'x user_endpoint" where
  "user_delete G rvk clk c =
     bindE (readE (\<lambda>_. parseID c)) (\<lambda>uid.
     bindE (user_Delete G rvk (clk 0) uid) (\<lambda>_.
     returnE (MessageResponse (clk 1) ''Deleted'')))"

datatype user_route =
  UserRouteMe | UserRouteList | UserRouteGet | UserRouteUpdate | UserRouteActivate | UserRouteDeactivate
  | UserRouteForceLogout | UserRouteRoles | UserRouteDelete

text \<open>\<open>Register\<close>: \<open>None\<close> for the route without a permission gate.\<close>

fun user_gate :: "user_route \<Rightarrow> string list option" where
  "user_gate UserRouteMe = None"
| "user_gate UserRouteList = Some [UserRead]"
| "user_gate UserRouteGet = Some [UserRead]"
| "user_gate UserRouteUpdate = Some [UserWrite]"
| "user_gate UserRouteActivate = Some [UserWrite]"
| "user_gate UserRouteDeactivate = Some [UserWrite]"
| "user_gate UserRouteForceLogout = Some [UserWrite]"
| "user_gate UserRouteRoles = Some [UserWrite]"
| "user_gate UserRouteDelete = Some [UserDelete]"

record user_binders =
  ub_filter :: "string \<Rightarrow> UserFilter"
  ub_page :: "string \<Rightarrow> PageRequest"
  ub_update :: "string \<Rightarrow> go_error + UserUpdateRequest"
  ub_roles :: "string \<Rightarrow> go_error + string list"

definition user_Register ::
  "user_gorm \<Rightarrow> SessionRevoker \<Rightarrow> (string \<Rightarrow> string \<Rightarrow> bool) \<Rightarrow> user_binders \<Rightarrow> clock \<Rightarrow> user_route
   \<Rightarrow> ('x user_db_scheme, user_data) handler" where
  "user_Register G rvk like b clk route =
     (let h = Handler (clk 3) (endpoint
            (case route of
               UserRouteMe \<Rightarrow> user_me G (clk 2)
             | UserRouteList \<Rightarrow> user_list G like (ub_filter b) (ub_page b) (clk 2)
             | UserRouteGet \<Rightarrow> user_get G (clk 2)
             | UserRouteUpdate \<Rightarrow> user_update G rvk (ub_update b) (later 1 clk)
             | UserRouteActivate \<Rightarrow> user_activate G (clk 2)
             | UserRouteDeactivate \<Rightarrow> user_deactivate G rvk (later 1 clk)
             | UserRouteForceLogout \<Rightarrow> user_forceLogout G rvk (later 1 clk)
             | UserRouteRoles \<Rightarrow> user_assignRoles G rvk (ub_roles b) (later 1 clk)
             | UserRouteDelete \<Rightarrow> user_delete G rvk (later 1 clk)))
      in case user_gate route of None \<Rightarrow> h | Some perms \<Rightarrow> HasPermission (clk 0) perms h)"

section \<open>Authorities\<close>

lemma add_authority_inv:
  "set (snd s) = set (fst s) \<Longrightarrow> add_authority k s = (fst s @ filter (\<lambda>x. x \<notin> set (fst s)) [k], snd (add_authority k s))
     \<and> set (snd (add_authority k s)) = set (fst (add_authority k s))"
  by (auto simp: add_authority_def split: prod.splits)

text \<open>Every key a role contributes, in the order the loops visit them.\<close>

definition role_keys :: "Role \<Rightarrow> string list" where
  "role_keys r = (''ROLE_'' @ rl_Name r) # map pm_Name (rl_Permissions r)"

lemma nub_append: "nub (xs @ ys) = nub xs @ filter (\<lambda>y. y \<notin> set xs) (nub ys)"
  by (induction xs) (auto intro!: filter_cong)

lemma add_keys:
  "set (snd s) = set (fst s) \<Longrightarrow> s' = fold add_authority ks s \<Longrightarrow>
     fst s' = fst s @ filter (\<lambda>x. x \<notin> set (fst s)) (nub ks) \<and> set (snd s') = set (fst s')"
proof (induction ks arbitrary: s s')
  case (Cons k ks)
  let ?t = "add_authority k s"
  have t: "fst ?t = fst s @ filter (\<lambda>x. x \<notin> set (fst s)) [k]" "set (snd ?t) = set (fst ?t)"
    using add_authority_inv [OF Cons.prems(1), of k] by (auto simp: prod_eq_iff)
  have "fst s' = fst ?t @ filter (\<lambda>x. x \<notin> set (fst ?t)) (nub ks) \<and> set (snd s') = set (fst s')"
    using Cons.IH [OF t(2)] Cons.prems(2) by simp
  moreover have "fst ?t @ filter (\<lambda>x. x \<notin> set (fst ?t)) (nub ks) = fst s @ filter (\<lambda>x. x \<notin> set (fst s)) (nub (k # ks))"
    unfolding t(1) by (auto intro!: filter_cong)
  ultimately show ?case by simp
qed simp

lemma add_permissions_fold: "add_permissions ps s = fold add_authority (map pm_Name ps) s"
  by (induction ps arbitrary: s) auto

lemma add_roles_fold: "add_roles rs s = fold add_authority (concat (map role_keys rs)) s"
  by (induction rs arbitrary: s) (auto simp: role_keys_def add_permissions_fold)

lemma AuthoritiesOf_nub: "AuthoritiesOf u = nub (concat (map role_keys (u_Roles u)))"
  using add_keys [of "([], [])" _ "concat (map role_keys (u_Roles u))"] by (simp add: AuthoritiesOf_def add_roles_fold)

text \<open>What the tables say a user may do: live roles linked to it, and their live permissions.\<close>

definition roles_of :: "'x user_db_scheme \<Rightarrow> uint64 \<Rightarrow> Role set" where
  "roles_of db uid = {r \<in> set (rows (rd_roles db)). base_live r \<and> (uid, bm_ID r) \<in> set (ud_user_roles db)}"

definition granted :: "'x user_db_scheme \<Rightarrow> uint64 \<Rightarrow> string set" where
  "granted db uid = (\<Union>r \<in> roles_of db uid. insert (''ROLE_'' @ rl_Name r) (role_perms db (bm_ID r)))"

lemma mapE_Inr: "mapE f xs = Inr ys \<Longrightarrow> list_all2 (\<lambda>x y. f x = Inr y) xs ys"
  by (induction xs arbitrary: ys) (auto split: sum.splits)

lemma with_user_Inr:
  "with_user G uid k db = (Inr y, db') \<longleftrightarrow> (\<exists>u. user_repo_GetByID G uid db = Inr (Some u) \<and> k u db = (Inr y, db'))"
  by (auto simp: with_user_def bindE_Inr split: option.splits)

lemma with_user_Inl:
  "with_user G uid k db = (Inl e, db') \<Longrightarrow>
     db' = db \<or> (\<exists>u. user_repo_GetByID G uid db = Inr (Some u) \<and> k u db = (Inl e, db'))"
  by (auto simp: with_user_def bindE_Inl split: option.splits)

lemma revoke_ignored_total: "revoke_ignored rvk now uid reason (ignoreE m (returnE resp)) db \<noteq> (Inl e, db')"
  by (auto simp: revoke_ignored_def ignoreE_def split: option.splits)

section \<open>The revocation contract\<close>

text \<open>
  What the user service expects of its \<open>SessionRevoker\<close>: no session of the user survives, the
  sessions of others are untouched.  The service ignores the returned error, so its own
  guarantees hold for a revoker that always takes effect.
\<close>

locale session_revoker =
  fixes revoke :: "time \<Rightarrow> uint64 \<Rightarrow> string \<Rightarrow> (sessions, go_error, unit) op"
    and active :: "time \<Rightarrow> uint64 \<Rightarrow> uint64 \<Rightarrow> sessions \<Rightarrow> bool"
  assumes revoke_ends: "revoke now uid reason t = (res, t') \<Longrightarrow> \<not> active now' sid uid t'"
    and revoke_others: "revoke now uid reason t = (res, t') \<Longrightarrow> uid' \<noteq> uid \<Longrightarrow>
      active now' sid uid' t' \<longleftrightarrow> active now' sid uid' t"
begin

lemma revoke_ignored_run:
  "\<exists>t. revoke_ignored (Some revoke) now uid reason k db = k (db\<lparr>ud_sessions := t\<rparr>)
      \<and> (\<forall>now' sid. \<not> active now' sid uid t)
      \<and> (\<forall>now' sid uid'. uid' \<noteq> uid \<longrightarrow> active now' sid uid' t = active now' sid uid' (ud_sessions db))"
proof -
  obtain res t where r: "revoke now uid reason (ud_sessions db) = (res, t)" by fastforce
  then have "revoke_ignored (Some revoke) now uid reason k db = k (db\<lparr>ud_sessions := t\<rparr>)"
    by (simp add: revoke_ignored_def ignoreE_def zoomE_def)
  then show ?thesis using revoke_ends [OF r] revoke_others [OF r] by blast
qed

end

sublocale session_store_live \<subseteq> rvk: session_revoker "session_RevokeAllForUser G" session_active
proof
  fix now uid reason t res t' now' sid
  assume r: "session_RevokeAllForUser G now uid reason t = (res, t')"
  then have ok: "session_RevokeAllForUser G now uid reason t = (Inr (), t')"
    using RevokeAll_live [of now uid reason t] by auto
  show "\<not> session_active now' sid uid t'" by (rule RevokeAll_none_active [OF ok])
  show "session_active now' sid uid' t' \<longleftrightarrow> session_active now' sid uid' t" if "uid' \<noteq> uid" for uid'
    by (rule RevokeAll_others [OF ok that])
qed

section \<open>The service over tables that obey the laws\<close>

definition unique_users :: "User list \<Rightarrow> bool" where
  "unique_users rs = (unique_on u_Username rs \<and> unique_on u_Email rs)"

text \<open>The columns of a user that a version bump leaves alone.\<close>

definition user_core :: "User \<Rightarrow> uint64 \<times> time option \<times> string \<times> string \<times> string \<times> string \<times> bool" where
  "user_core r = (bm_ID r, bm_DeletedAt r, u_Username r, u_Email r, u_PasswordHash r, u_FullName r, u_Enabled r)"

locale user_store = users: gorm_m2m "ug_users G" unique_users "ug_assoc G" + rs: role_store "ug_role G"
  for G :: user_gorm
begin

lemma preload_roles_Inr:
  assumes "preload_roles G db u = Inr u'"
  obtains rs where "u' = u\<lparr>u_Roles := rs\<rparr>" "set (concat (map role_keys rs)) = granted db (bm_ID u)"
    "rl_Name ` set rs = rl_Name ` roles_of db (bm_ID u)" "bm_ID ` set rs = bm_ID ` roles_of db (bm_ID u)"
proof -
  obtain xs rs where xs: "ga_Preload (ug_assoc G) (bm_ID u) (ud_user_roles db) (rd_roles db) = Inr xs"
    and rs: "list_all2 (\<lambda>x y. preload_permissions (ug_role G) db x = Inr y) xs rs" and u': "u' = u\<lparr>u_Roles := rs\<rparr>"
    using assms by (auto simp: preload_roles_def dest!: mapE_Inr split: sum.splits)
  have "list_all2 (\<lambda>x y. bm_ID y = bm_ID x \<and> rl_Name y = rl_Name x
            \<and> set (role_keys y) = insert (''ROLE_'' @ rl_Name x) (role_perms db (bm_ID x))) xs rs"
    by (rule list_all2_mono [OF rs]) (auto simp: role_keys_def dest!: rs.preload_permissions_Inr)
  then have "(\<Union>y \<in> set rs. set (role_keys y)) = (\<Union>x \<in> set xs. insert (''ROLE_'' @ rl_Name x) (role_perms db (bm_ID x)))
      \<and> rl_Name ` set rs = rl_Name ` set xs \<and> bm_ID ` set rs = bm_ID ` set xs"
    by (induction rule: list_all2_induct) auto
  moreover have "set xs = roles_of db (bm_ID u)" using users.Preload_set [OF xs] by (simp add: roles_of_def)
  ultimately show thesis using that [OF u'] by (simp add: granted_def)
qed

lemma GetByID_Some:
  assumes "user_repo_GetByID G uid db = Inr (Some u)"
  obtains x where "x \<in> set (rows (ud_users db))" "base_live x" "bm_ID x = uid" "bm_ID u = uid" "base_live u"
    "u = x\<lparr>u_Roles := u_Roles u\<rparr>" "set (AuthoritiesOf u) = granted db uid"
    "bm_ID ` set (u_Roles u) = bm_ID ` roles_of db uid"
proof -
  obtain x where x: "first_opt (ug_users G) (\<lambda>r. bm_ID r = uid) (ud_users db) = Inr (Some x)"
    "preload_roles G db x = Inr u"
    using assms by (auto simp: user_repo_GetByID_def preload_opt_def split: sum.splits option.splits)
  note f = users.first_opt_Some [OF x(1)]
  from x(2) show thesis
    by (rule preload_roles_Inr) (use f that [of x] in \<open>simp add: AuthoritiesOf_nub base_live_def\<close>)
qed

text \<open>Writing a user back with the roles it was loaded with leaves the join table's content alone.\<close>

lemma repo_Update_ok:
  assumes "user_repo_GetByID G uid db = Inr (Some u0)" "bm_ID u = uid" "base_live u" "u_Roles u = u_Roles u0"
    and "user_repo_Update G ctx u db = (Inr u', db')"
  obtains r t j where "db' = db\<lparr>ud_users := t, ud_user_roles := j\<rparr>"
    "rows t = map (\<lambda>y. if base_live y \<and> bm_ID y = uid then r else y) (rows (ud_users db))"
    "base_touched (user_columns (setUpdatedBy ctx u)) r" "u' = r\<lparr>u_Roles := u_Roles u\<rparr>"
    "set j = set (ud_user_roles db)"
proof -
  obtain x where x: "x \<in> set (rows (ud_users db))" "base_live x" "bm_ID x = uid"
    "bm_ID ` set (u_Roles u0) = bm_ID ` roles_of db uid"
    using assms(1) by (rule GetByID_Some)
  let ?c = "user_columns (setUpdatedBy ctx u)"
  obtain r t j where s: "ga_Save (ug_assoc G) ?c (map bm_ID (u_Roles u)) (ud_users db, ud_user_roles db) = (Inr r, (t, j))"
    and db': "db' = put_users (t, j) db" and u': "u' = r\<lparr>u_Roles := u_Roles u\<rparr>"
    using assms(5) by (auto simp: user_repo_Update_def bindE_Inr zoomE_eq)
  have c: "bm_ID ?c = uid" using assms(2) by (simp add: user_columns_def)
  note sv = users.assoc_Save_ok [OF s x(1,2), unfolded c, OF x(3)]
  have "linked uid (map bm_ID (u_Roles u)) \<subseteq> set (ud_user_roles db)"
    using x(4) assms(4) by (auto simp: linked_def roles_of_def)
  then show thesis using that [where r = r and t = t and j = j] sv u' by (auto simp: db' put_users_def)
qed

lemma Increment_core:
  assumes "user_repo_IncrementTokenVersion G ctx uid db = (res, db')"
  shows "db' = db\<lparr>ud_users := ud_users db'\<rparr> \<and> map user_core (rows (ud_users db')) = map user_core (rows (ud_users db))"
proof -
  let ?f = "\<lambda>r :: User. setUpdatedBy ctx (r\<lparr>u_TokenVersion := u_TokenVersion r + 1\<rparr>)"
  obtain ures t where u: "db_Updates (ug_users G) (\<lambda>r. bm_ID r = uid) ?f (ud_users db) = (ures, t)" by fastforce
  have db': "db' = db\<lparr>ud_users := t\<rparr>"
    using assms u by (auto simp: user_repo_IncrementTokenVersion_def bindE_def zoomE_def dbE_def split: sum.splits)
  have "map user_core (rows t) = map user_core (rows (ud_users db))"
  proof (cases ures)
    case (Inl e)
    then show ?thesis using users.Updates_failed u by blast
  next
    case (Inr n)
    have "list_all2 (\<lambda>r r'. if base_live r \<and> bm_ID r = uid then base_touched (?f r) r' else r' = r) (rows (ud_users db)) (rows t)"
      using users.Updates_ok [OF u [unfolded Inr]] by simp
    then show ?thesis
      by (induction rule: list_all2_induct)
         (auto simp: user_core_def base_touched_def setUpdatedBy_def Let_def split: if_splits)
  qed
  then show ?thesis by (simp add: db')
qed

lemma core_rows:
  assumes "map user_core (rows t') = map user_core (rows t)" "r' \<in> set (rows t')"
  shows "\<exists>r \<in> set (rows t). user_core r = user_core r'"
proof -
  have "user_core r' \<in> set (map user_core (rows t'))" using assms(2) by simp
  then show ?thesis unfolding assms(1) by auto
qed

lemma resolve_roles_Inr:
  assumes "resolve_roles (ug_role G) db seen res names = Inr rs"
  shows "\<exists>new. rs = res @ new \<and> rl_Name ` set new = set names - set seen
           \<and> (\<forall>r \<in> set new. \<exists>x \<in> set (rows (rd_roles db)). base_live x \<and> bm_ID x = bm_ID r \<and> rl_Name x = rl_Name r)"
  using assms
proof (induction names arbitrary: seen res)
  case (Cons n ns)
  show ?case
  proof (cases "List.member seen n")
    case True
    then have n: "n \<in> set seen" by simp
    then show ?thesis using Cons.IH [of seen res] Cons.prems True by (simp add: insert_Diff_if)
  next
    case False
    then obtain r where r: "role_repo_GetByName (ug_role G) n db = Inr (Some r)"
      "resolve_roles (ug_role G) db (n # seen) (res @ [r]) ns = Inr rs"
      using Cons.prems by (auto split: sum.splits option.splits)
    obtain x where x: "x \<in> set (rows (rd_roles db))" "base_live x" "rl_Name x = n" "r = x\<lparr>rl_Permissions := rl_Permissions r\<rparr>"
      using r(1) by (rule rs.GetByName_Some)
    have rx: "bm_ID r = bm_ID x" "rl_Name r = n" using x(3) by (subst x(4), simp)+
    obtain new where new: "rs = res @ [r] @ new" "rl_Name ` set new = set ns - set (n # seen)"
      "\<forall>r \<in> set new. \<exists>x \<in> set (rows (rd_roles db)). base_live x \<and> bm_ID x = bm_ID r \<and> rl_Name x = rl_Name r"
      using Cons.IH [OF r(2)] by auto
    have "\<exists>x \<in> set (rows (rd_roles db)). base_live x \<and> bm_ID x = bm_ID r \<and> rl_Name x = rl_Name r" using x rx by auto
    moreover have "rl_Name ` set ([r] @ new) = set (n # ns) - set seen" using new(2) rx(2) False by auto
    ultimately show ?thesis using new(1,3) by (intro exI [of _ "[r] @ new"]) simp
  qed
qed simp

lemma AssignRoles_steps:
  assumes "user_AssignRoles G rvk now ctx uid names db = (Inr resp, db')"
  obtains u rs j where "user_repo_GetByID G uid db = Inr (Some u)" "resolve_roles (ug_role G) db [] [] names = Inr rs"
    "ga_Replace (ug_assoc G) uid (map bm_ID rs) (ud_user_roles db) = (Inr (), j)"
    "resp = user_ToResponse (u\<lparr>u_Roles := rs\<rparr>)"
    "revoke_ignored rvk now uid ''roles-changed''
       (ignoreE (user_repo_IncrementTokenVersion G ctx uid) (returnE resp)) (db\<lparr>ud_user_roles := j\<rparr>) = (Inr resp, db')"
proof -
  obtain u rs j where u: "user_repo_GetByID G uid db = Inr (Some u)"
    and rs: "resolve_roles (ug_role G) db [] [] names = Inr rs"
    and j: "ga_Replace (ug_assoc G) (bm_ID u) (map bm_ID rs) (ud_user_roles db) = (Inr (), j)"
    and k: "revoke_ignored rvk now uid ''roles-changed'' (ignoreE (user_repo_IncrementTokenVersion G ctx uid)
              (returnE (user_ToResponse (u\<lparr>u_Roles := rs\<rparr>)))) (db\<lparr>ud_user_roles := j\<rparr>) = (Inr resp, db')"
    using assms unfolding user_AssignRoles_def user_repo_ReplaceRoles_def
    by (auto simp: with_user_Inr bindE_Inr zoomE_eq)
  have "bm_ID u = uid" using u by (rule GetByID_Some)
  moreover have "resp = user_ToResponse (u\<lparr>u_Roles := rs\<rparr>)"
    using k by (auto simp: revoke_ignored_def ignoreE_def split: option.splits)
  ultimately show thesis using that [OF u rs _ _] j k by simp
qed

lemma roles_of_Replace:
  assumes "table_ok bm_ID (unique_on rl_Name) (rd_roles db)" "resolve_roles (ug_role G) db [] [] names = Inr rs"
    and "ga_Replace (ug_assoc G) uid (map bm_ID rs) (ud_user_roles db) = (Inr (), ud_user_roles db')"
    and "rd_roles db' = rd_roles db"
  shows "rl_Name ` roles_of db' uid = set names" "uid' \<noteq> uid \<Longrightarrow> roles_of db' uid' = roles_of db uid'"
proof -
  obtain new where new: "rl_Name ` set rs = set names"
    "\<forall>r \<in> set rs. \<exists>x \<in> set (rows (rd_roles db)). base_live x \<and> bm_ID x = bm_ID r \<and> rl_Name x = rl_Name r"
    using resolve_roles_Inr [OF assms(2)] by auto
  have j: "set (ud_user_roles db') = {p \<in> set (ud_user_roles db). fst p \<noteq> uid} \<union> linked uid (map bm_ID rs)"
    by (rule users.Replace_ok [OF assms(3)])
  have ro: "roles_of db' uid = {r \<in> set (rows (rd_roles db)). base_live r \<and> bm_ID r \<in> bm_ID ` set rs}"
    by (auto simp: roles_of_def j linked_def assms(4))
  have key: "\<And>x y. x \<in> set (rows (rd_roles db)) \<Longrightarrow> y \<in> set (rows (rd_roles db)) \<Longrightarrow> bm_ID x = bm_ID y \<Longrightarrow> x = y"
    using assms(1) by (auto simp: table_ok_def distinct_map dest: inj_onD)
  show "rl_Name ` roles_of db' uid = set names"
  proof (intro subset_antisym subsetI)
    fix n assume "n \<in> rl_Name ` roles_of db' uid"
    then obtain r q where r: "r \<in> set (rows (rd_roles db))" "rl_Name r = n" "q \<in> set rs" "bm_ID r = bm_ID q"
      unfolding ro by auto
    obtain x where "x \<in> set (rows (rd_roles db))" "bm_ID x = bm_ID q" "rl_Name x = rl_Name q" using new(2) r(3) by blast
    then have "rl_Name q = n" using key [of x r] r by simp
    then show "n \<in> set names" using new(1) r(3) by blast
  next
    fix n assume "n \<in> set names"
    then obtain q where q: "q \<in> set rs" "rl_Name q = n" using new(1) by (metis imageE)
    then obtain x where "x \<in> set (rows (rd_roles db))" "base_live x" "bm_ID x = bm_ID q" "rl_Name x = n" using new(2) by metis
    then show "n \<in> rl_Name ` roles_of db' uid" unfolding ro using q(1) by force
  qed
  show "uid' \<noteq> uid \<Longrightarrow> roles_of db' uid' = roles_of db uid'"
    by (auto simp: roles_of_def j linked_def assms(4))
qed

lemma AssignRoles_failed:
  assumes "user_AssignRoles G rvk now ctx uid names db = (Inl e, db')"
  shows "db' = db"
  using assms unfolding user_AssignRoles_def user_repo_ReplaceRoles_def
  by (auto dest!: with_user_Inl simp: bindE_Inl zoomE_eq dbE_Inl revoke_ignored_total dest!: users.Replace_failed)

end

section \<open>Administrative actions end sessions\<close>

locale user_admin = user_store G + session_revoker revoke session_active
  for G :: user_gorm and revoke
begin

lemma tail_sessions:
  assumes "revoke_ignored (Some revoke) now uid reason (ignoreE (user_repo_IncrementTokenVersion G ctx uid) (returnE resp)) db = (res, db')"
  shows "\<not> session_active now' sid uid (ud_sessions db')"
    and "uid' \<noteq> uid \<Longrightarrow> session_active now' sid uid' (ud_sessions db') \<longleftrightarrow> session_active now' sid uid' (ud_sessions db)"
    and "map user_core (rows (ud_users db')) = map user_core (rows (ud_users db))"
    and "ud_user_roles db' = ud_user_roles db" "rd_roles db' = rd_roles db"
    and "rd_role_permissions db' = rd_role_permissions db" "rd_permissions db' = rd_permissions db"
proof -
  obtain t where t: "revoke_ignored (Some revoke) now uid reason (ignoreE (user_repo_IncrementTokenVersion G ctx uid) (returnE resp)) db
        = ignoreE (user_repo_IncrementTokenVersion G ctx uid) (returnE resp) (db\<lparr>ud_sessions := t\<rparr>)"
    "\<And>now' sid. \<not> session_active now' sid uid t"
    "\<And>now' sid uid'. uid' \<noteq> uid \<Longrightarrow> session_active now' sid uid' t \<longleftrightarrow> session_active now' sid uid' (ud_sessions db)"
    using revoke_ignored_run [of now uid reason "ignoreE (user_repo_IncrementTokenVersion G ctx uid) (returnE resp)" db] by blast
  obtain ir idb where i: "user_repo_IncrementTokenVersion G ctx uid (db\<lparr>ud_sessions := t\<rparr>) = (ir, idb)" by fastforce
  have "db' = idb" using assms t(1) by (simp add: ignoreE_def i)
  then have d: "db' = db\<lparr>ud_sessions := t, ud_users := ud_users db'\<rparr>"
      and c: "map user_core (rows (ud_users db')) = map user_core (rows (ud_users db))"
    using Increment_core [OF i] by simp_all
  have s: "ud_sessions db' = t" by (subst d) simp
  show "\<not> session_active now' sid uid (ud_sessions db')"
    "uid' \<noteq> uid \<Longrightarrow> session_active now' sid uid' (ud_sessions db') \<longleftrightarrow> session_active now' sid uid' (ud_sessions db)"
    unfolding s using t(2,3) by blast+
  show "map user_core (rows (ud_users db')) = map user_core (rows (ud_users db))" by (rule c)
  show "ud_user_roles db' = ud_user_roles db" "rd_roles db' = rd_roles db"
    "rd_role_permissions db' = rd_role_permissions db" "rd_permissions db' = rd_permissions db"
    by (subst d, simp)+
qed

lemma Deactivate_ok:
  assumes "user_Deactivate G (Some revoke) now ctx uid caller db = (Inr resp, db')"
  shows "uid \<noteq> caller" "\<not> session_active now' sid uid (ud_sessions db')"
    "uid' \<noteq> uid \<Longrightarrow> session_active now' sid uid' (ud_sessions db') \<longleftrightarrow> session_active now' sid uid' (ud_sessions db)"
    "list_all (\<lambda>r. base_live r \<and> bm_ID r = uid \<longrightarrow> \<not> u_Enabled r) (rows (ud_users db'))"
proof -
  show ne: "uid \<noteq> caller" using assms by (auto simp: user_Deactivate_def)
  obtain u u' db1 where u: "user_repo_GetByID G uid db = Inr (Some u)"
    and up: "user_repo_Update G ctx (u\<lparr>u_Enabled := False\<rparr>) db = (Inr u', db1)"
    and tl: "revoke_ignored (Some revoke) now uid ''account-deactivated''
        (ignoreE (user_repo_IncrementTokenVersion G ctx uid) (returnE (user_ToResponse u'))) db1 = (Inr resp, db')"
    using assms ne by (auto simp: user_Deactivate_def with_user_Inr bindE_Inr)
  obtain x where uid: "bm_ID u = uid" "base_live u" using u by (rule GetByID_Some)
  have c: "bm_ID (u\<lparr>u_Enabled := False\<rparr>) = uid" "base_live (u\<lparr>u_Enabled := False\<rparr>)" "u_Roles (u\<lparr>u_Enabled := False\<rparr>) = u_Roles u"
    using uid by (simp_all add: base_live_def)
  obtain r t j where r: "db1 = db\<lparr>ud_users := t, ud_user_roles := j\<rparr>"
    "rows t = map (\<lambda>y. if base_live y \<and> bm_ID y = uid then r else y) (rows (ud_users db))"
    "base_touched (user_columns (setUpdatedBy ctx (u\<lparr>u_Enabled := False\<rparr>))) r"
    using u c up by (rule repo_Update_ok)
  have en: "\<not> u_Enabled r" using r(3) by (auto simp: base_touched_def user_columns_def setUpdatedBy_def Let_def)
  have s: "ud_sessions db1 = ud_sessions db" "ud_users db1 = t" by (simp_all add: r(1))
  note t = tail_sessions [OF tl]
  show "\<not> session_active now' sid uid (ud_sessions db')" by (rule t(1))
  show "uid' \<noteq> uid \<Longrightarrow> session_active now' sid uid' (ud_sessions db') \<longleftrightarrow> session_active now' sid uid' (ud_sessions db)"
    using t(2) by (simp add: s(1))
  show "list_all (\<lambda>r. base_live r \<and> bm_ID r = uid \<longrightarrow> \<not> u_Enabled r) (rows (ud_users db'))"
    unfolding list_all_iff
  proof (intro ballI impI)
    fix y assume y: "y \<in> set (rows (ud_users db'))" "base_live y \<and> bm_ID y = uid"
    obtain z where z: "z \<in> set (rows (ud_users db1))" "user_core z = user_core y" using core_rows [OF t(3) y(1)] by blast
    then have "base_live z" "bm_ID z = uid" "u_Enabled z = u_Enabled y"
      using y(2) by (auto simp: user_core_def base_live_def)
    then show "\<not> u_Enabled y" using z(1) en unfolding s(2) r(2) by (auto split: if_splits)
  qed
qed

lemma AssignRoles_ok:
  assumes "table_ok bm_ID (unique_on rl_Name) (rd_roles db)"
    and "user_AssignRoles G (Some revoke) now ctx uid names db = (Inr resp, db')"
  shows "rl_Name ` roles_of db' uid = set names" "uid' \<noteq> uid \<Longrightarrow> granted db' uid' = granted db uid'"
    "\<not> session_active now' sid uid (ud_sessions db')"
proof -
  obtain rs j where rs: "resolve_roles (ug_role G) db [] [] names = Inr rs"
    and j: "ga_Replace (ug_assoc G) uid (map bm_ID rs) (ud_user_roles db) = (Inr (), j)"
    and tl: "revoke_ignored (Some revoke) now uid ''roles-changed''
       (ignoreE (user_repo_IncrementTokenVersion G ctx uid) (returnE resp)) (db\<lparr>ud_user_roles := j\<rparr>) = (Inr resp, db')"
    using assms(2) by (rule AssignRoles_steps)
  note t = tail_sessions [OF tl]
  have jd: "j = ud_user_roles db'" using t(4) by simp
  note ro = roles_of_Replace [OF assms(1) rs j [unfolded jd]]
  show "rl_Name ` roles_of db' uid = set names" using ro(1) t(5) by simp
  show "uid' \<noteq> uid \<Longrightarrow> granted db' uid' = granted db uid'"
    using ro(2) t(5-7) by (simp add: granted_def role_perms_def)
  show "\<not> session_active now' sid uid (ud_sessions db')" by (rule t(1))
qed

lemma ForceLogout_ok:
  assumes "user_ForceLogout G (Some revoke) now ctx uid db = (Inr (), db')"
  shows "\<not> session_active now' sid uid (ud_sessions db')"
proof -
  obtain u where k: "revoke_ignored (Some revoke) now uid ''admin-force-logout''
      (user_repo_IncrementTokenVersion G ctx uid) db = (Inr (), db')"
    using assms by (auto simp: user_ForceLogout_def with_user_Inr)
  obtain t where t: "user_repo_IncrementTokenVersion G ctx uid (db\<lparr>ud_sessions := t\<rparr>) = (Inr (), db')"
      "\<not> session_active now' sid uid t"
    using revoke_ignored_run [of now uid "''admin-force-logout''" "user_repo_IncrementTokenVersion G ctx uid" db] k by auto
  have "ud_sessions db' = t" by (subst conjunct1 [OF Increment_core [OF t(1)]]) simp
  then show ?thesis using t(2) by simp
qed

lemma Delete_ok:
  assumes "user_Delete G (Some revoke) now uid db = (Inr (), db')"
  shows "\<not> session_active now' sid uid (ud_sessions db')" "user_repo_GetByID G uid db' \<noteq> Inr (Some u)"
proof -
  obtain n t where d: "db_Delete (ug_users G) (\<lambda>r. bm_ID r = uid) (ud_users db) = (Inr n, t)"
    and k: "revoke_ignored (Some revoke) now uid ''account-deleted'' (returnE ()) (db\<lparr>ud_users := t\<rparr>) = (Inr (), db')"
    using assms by (auto simp: user_Delete_def with_user_Inr user_repo_Delete_def bindE_Inr zoomE_eq)
  obtain st where st: "db' = db\<lparr>ud_users := t, ud_sessions := st\<rparr>" "\<not> session_active now' sid uid st"
    using revoke_ignored_run [of now uid "''account-deleted''" "returnE ()" "db\<lparr>ud_users := t\<rparr>"] k by auto
  show "\<not> session_active now' sid uid (ud_sessions db')" using st by simp
  have gone: "\<not> (x \<in> set (rows t) \<and> base_live x \<and> bm_ID x = uid)" for x
    using users.Delete_gone [OF d, of x] by blast
  show "user_repo_GetByID G uid db' \<noteq> Inr (Some u)"
  proof
    assume "user_repo_GetByID G uid db' = Inr (Some u)"
    then show False by (rule GetByID_Some) (use gone in \<open>auto simp: st(1)\<close>)
  qed
qed

end

section \<open>An instance\<close>

definition mem_users :: "User gorm" where
  "mem_users = mem_base unique_users"

definition mem_user_gorm :: user_gorm where
  "mem_user_gorm = \<lparr>ug_users = mem_users, ug_assoc = mem_assoc mem_users, ug_role = mem_role_gorm\<rparr>"

lemma unique_users_mark: "unique_users rs \<Longrightarrow> unique_users (map (\<lambda>r. if P r then mark r else r) rs)"
  unfolding unique_users_def by (intro conjI unique_on_mark) (auto simp: mark_def)

lemma mem_users_soft:
  "gorm_soft mem_users bm_ID base_live base_filled base_touched unique_users base_dropped"
  unfolding mem_users_def by (rule mem_base_soft) (rule unique_users_mark)

lemma mem_user_gorm_store: "user_store mem_user_gorm"
  unfolding user_store_def mem_user_gorm_def
  using mem_assoc_m2m [OF mem_users_soft] mem_role_gorm.role_store_axioms by simp

interpretation mem_user_gorm: user_admin mem_user_gorm "session_RevokeAllForUser mem_sessions"
  using mem_user_gorm_store mem_sessions.rvk.session_revoker_axioms by (simp add: user_admin_def)

definition demo_user :: "uint64 \<Rightarrow> string \<Rightarrow> User" where
  "demo_user uid name =
     zero_base \<lparr>u_Username = name, u_Email = name @ ''@x.io'', u_PasswordHash = ''$secret-pw'', u_FullName = name,
       u_Enabled = True, u_TokenVersion = 0, u_Roles = []\<rparr>\<lparr>bm_ID := uid\<rparr>"

definition demo_user_db :: user_db where
  "demo_user_db =
     \<lparr>rd_permissions = rd_permissions demo_role_db, rd_roles = rd_roles demo_role_db,
      rd_role_permissions = rd_role_permissions demo_role_db,
      ud_users = \<lparr>rows = [demo_user 7 ''ada'', demo_user 8 ''bob''], next_id = 9\<rparr>,
      ud_user_roles = [(7, 1), (8, 2)], ud_sessions = demo_sessions\<rparr>"

lemmas mem_user_defs = mem_user_gorm_def mem_users_def mem_role_gorm_def mem_roles_def mem_permissions_def
  mem_base_def mem_gorm_def mem_assoc_def base_live_def sort_by_def

lemmas demo_user_defs = demo_user_db_def demo_user_def demo_role_defs

lemmas user_run_defs = with_user_def user_repo_GetByID_def first_opt_def preload_opt_def preload_roles_def
  preload_permissions_def user_repo_Update_def user_repo_IncrementTokenVersion_def revoke_ignored_def put_users_def
  user_columns_def setUpdatedBy_def bindE_def ignoreE_def dbE_def zoomE_def

lemma demo_GetByID:
  "\<exists>u. user_repo_GetByID mem_user_gorm 7 demo_user_db = Inr (Some u)"
  by (simp add: user_run_defs mem_user_defs demo_user_defs)

lemma demo_Deactivate: "\<exists>resp. fst (user_Deactivate mem_user_gorm (Some (session_RevokeAllForUser mem_sessions)) 10 None 7 8 demo_user_db) = Inr resp"
  by (simp add: user_Deactivate_def user_run_defs mem_user_defs demo_user_defs unique_users_def unique_on_def
      mem_sessions_RevokeAll Let_def)

section \<open>Properties\<close>

text \<open>
  C10: the authorities baked into a token are, without repetition and in the order of the roles,
  the name of each role with the prefix \<open>ROLE_\<close> followed by its permissions; for a user loaded
  from the database they are exactly what the tables grant: the live roles linked to the user
  and the live permissions linked to these.
\<close>

theorem AuthoritiesOf_granted:
  assumes "user_store G" "user_repo_GetByID G uid db = Inr (Some u)"
  shows "AuthoritiesOf u = nub (concat (map (\<lambda>r. (''ROLE_'' @ rl_Name r) # map pm_Name (rl_Permissions r)) (u_Roles u)))
         \<and> distinct (AuthoritiesOf u) \<and> set (AuthoritiesOf u) = granted db uid"
proof -
  have "set (AuthoritiesOf u) = granted db uid"
    using assms by (rule user_store.GetByID_Some)
  then show ?thesis by (simp add: AuthoritiesOf_nub role_keys_def [abs_def])
qed

theorem AuthoritiesOf_granted_witness:
  "\<exists>u. user_repo_GetByID mem_user_gorm 7 demo_user_db = Inr (Some u) \<and> set (AuthoritiesOf u) = {''ROLE_USER'', ''A_READ''}"
proof -
  obtain u where u: "user_repo_GetByID mem_user_gorm 7 demo_user_db = Inr (Some u)" using demo_GetByID by blast
  have "roles_of demo_user_db 7 = {demo_role 1 ''USER''}"
    by (auto simp: roles_of_def demo_user_defs base_live_def)
  moreover have "role_perms demo_user_db 1 = {''A_READ''}"
    by (simp add: role_perms_list demo_user_defs base_live_def)
  ultimately have "granted demo_user_db 7 = {''ROLE_USER'', ''A_READ''}"
    by (simp add: granted_def demo_role_def new_role_def zero_base_def)
  moreover have "set (AuthoritiesOf u) = granted demo_user_db 7"
    using AuthoritiesOf_granted [OF mem_user_gorm_store u] by (elim conjE)
  ultimately have "set (AuthoritiesOf u) = {''ROLE_USER'', ''A_READ''}" by (simp only:)
  with u show ?thesis by (rule_tac exI [of _ u]) (rule conjI)
qed



text \<open>
  Replacing the roles of a user is all or nothing.  A failed call changes nothing; after a
  successful one the user's live roles are exactly the requested names, what any other user is
  granted is unchanged, and no session with the old authorities is active.
\<close>

theorem user_AssignRoles_exact:
  assumes "user_store G" "session_revoker revoke session_active"
    and "table_ok bm_ID (unique_on rl_Name) (rd_roles db)"
    and "user_AssignRoles G (Some revoke) now ctx uid names db = (res, db')"
  shows "case res of
           Inl e \<Rightarrow> db' = db
         | Inr resp \<Rightarrow> rl_Name ` roles_of db' uid = set names
             \<and> (uid' \<noteq> uid \<longrightarrow> granted db' uid' = granted db uid')
             \<and> \<not> session_active now' sid uid (ud_sessions db')"
proof (cases res)
  case (Inl e)
  then show ?thesis using user_store.AssignRoles_failed [OF assms(1)] assms(4) by auto
next
  case (Inr resp)
  have a: "user_admin G revoke" using assms(1,2) by (simp add: user_admin_def)
  have r: "user_AssignRoles G (Some revoke) now ctx uid names db = (Inr resp, db')" using assms(4) Inr by simp
  then show ?thesis using Inr user_admin.AssignRoles_ok [OF a assms(3) r] by simp
qed

theorem user_AssignRoles_exact_witness:
  "\<exists>resp db'. user_AssignRoles mem_user_gorm (Some (session_RevokeAllForUser mem_sessions)) 10 None 7 [''ADMIN''] demo_user_db = (Inr resp, db')
     \<and> rl_Name ` roles_of db' 7 = {''ADMIN''} \<and> \<not> session_active 20 1 7 (ud_sessions db')"
proof -
  let ?r = "user_AssignRoles mem_user_gorm (Some (session_RevokeAllForUser mem_sessions)) 10 None 7 [''ADMIN''] demo_user_db"
  have "\<exists>resp. fst ?r = Inr resp"
    by (simp add: user_AssignRoles_def user_repo_ReplaceRoles_def role_repo_GetByName_def user_run_defs mem_user_defs
        demo_user_defs unique_users_def unique_on_def mem_sessions_RevokeAll Let_def)
  then obtain resp db' where r: "?r = (Inr resp, db')" by (metis eq_fst_iff)
  have ok: "table_ok bm_ID (unique_on rl_Name) (rd_roles demo_user_db)"
    by (simp add: table_ok_def unique_on_def demo_user_defs)
  show ?thesis
    using user_AssignRoles_exact [OF mem_user_gorm_store mem_sessions.rvk.session_revoker_axioms ok r, of 8 20 1] r
    by (intro exI [of _ resp] exI [of _ db']) simp
qed

text \<open>
  A forced logout and the deletion of an account end every session of the user, and a deleted
  user is no longer found.
\<close>

theorem user_ForceLogout_Delete_effect:
  assumes "user_store G" "session_revoker revoke session_active"
  shows "(user_ForceLogout G (Some revoke) now ctx uid db = (Inr (), db') \<longrightarrow> \<not> session_active now' sid uid (ud_sessions db'))
       \<and> (user_Delete G (Some revoke) now uid db = (Inr (), db') \<longrightarrow>
            \<not> session_active now' sid uid (ud_sessions db') \<and> user_repo_GetByID G uid db' \<noteq> Inr (Some u))"
proof -
  have a: "user_admin G revoke" using assms by (simp add: user_admin_def)
  show ?thesis using user_admin.ForceLogout_ok [OF a] user_admin.Delete_ok [OF a] by blast
qed

theorem user_ForceLogout_Delete_effect_witness:
  "\<exists>db'. user_Delete mem_user_gorm (Some (session_RevokeAllForUser mem_sessions)) 10 7 demo_user_db = (Inr (), db')
     \<and> \<not> session_active 20 1 7 (ud_sessions db')"
proof -
  let ?r = "user_Delete mem_user_gorm (Some (session_RevokeAllForUser mem_sessions)) 10 7 demo_user_db"
  have "fst ?r = Inr ()"
    by (simp add: user_Delete_def user_repo_Delete_def user_run_defs mem_user_defs demo_user_defs
        mem_sessions_RevokeAll Let_def)
  then obtain db' where r: "?r = (Inr (), db')" by (metis eq_fst_iff)
  then show ?thesis
    using user_ForceLogout_Delete_effect [OF mem_user_gorm_store mem_sessions.rvk.session_revoker_axioms, of 10 None 7 demo_user_db db' 20 1]
    by (intro exI [of _ db']) simp
qed

end
