(* ===== verification/GoPath.thy ===== *)
theory GoPath
  imports GoStd
begin

text \<open>
  More of Go's standard library: splitting and joining strings at a one-byte separator, signed
  decimal numbers, and the lexical path functions of packages \<open>path\<close> and \<open>path/filepath\<close> on Unix.
\<close>

section \<open>Splitting and joining\<close>

fun Split :: "char \<Rightarrow> string \<Rightarrow> string list" where
  "Split sep [] = [[]]"
| "Split sep (c # s) =
     (if c = sep then [] # Split sep s
      else case Split sep s of [] \<Rightarrow> [[c]] | p # ps \<Rightarrow> (c # p) # ps)"

fun JoinStr :: "char \<Rightarrow> string list \<Rightarrow> string" where
  "JoinStr sep [] = []"
| "JoinStr sep [p] = p"
| "JoinStr sep (p # q # ps) = p @ sep # JoinStr sep (q # ps)"

definition ReplaceAll :: "char \<Rightarrow> char \<Rightarrow> string \<Rightarrow> string" where
  "ReplaceAll old new s = map (\<lambda>c. if c = old then new else c) s"

definition TrimRight :: "char \<Rightarrow> string \<Rightarrow> string" where
  "TrimRight ch s = rev (dropWhile (\<lambda>c. c = ch) (rev s))"

definition TrimPrefix :: "string \<Rightarrow> string \<Rightarrow> string" where
  "TrimPrefix s p = (if HasPrefix s p then drop (length p) s else s)"

definition HasSuffix :: "string \<Rightarrow> string \<Rightarrow> bool" where
  "HasSuffix s p = HasPrefix (rev s) (rev p)"

definition TrimSuffix :: "string \<Rightarrow> string \<Rightarrow> string" where
  "TrimSuffix s p = (if HasSuffix s p then take (length s - length p) s else s)"

definition ContainsAny :: "string \<Rightarrow> string \<Rightarrow> bool" where
  "ContainsAny s chars = list_ex (\<lambda>c. c \<in> set chars) s"

fun IndexByte :: "string \<Rightarrow> char \<Rightarrow> int" where
  "IndexByte [] c = -1"
| "IndexByte (d # s) c = (if d = c then 0 else let i = IndexByte s c in if i < 0 then -1 else i + 1)"

lemma Split_nonempty [simp]: "Split sep s \<noteq> []"
  by (cases s) (auto split: list.splits)

lemma Split_parts: "p \<in> set (Split sep s) \<Longrightarrow> sep \<notin> set p"
proof (induction s arbitrary: p)
  case (Cons c s)
  then show ?case by (cases "Split sep s") (auto split: if_splits)
qed simp

lemma Split_single: "sep \<notin> set s \<Longrightarrow> Split sep s = [s]"
  by (induction s) auto

lemma Split_append: "Split sep (s @ sep # t) = Split sep s @ Split sep t"
proof (induction s)
  case (Cons c s)
  then show ?case by (cases "Split sep s") auto
qed simp

lemma Split_JoinStr: "ps \<noteq> [] \<Longrightarrow> \<forall>p \<in> set ps. sep \<notin> set p \<Longrightarrow> Split sep (JoinStr sep ps) = ps"
  by (induction sep ps rule: JoinStr.induct) (auto simp: Split_single Split_append)

lemma JoinStr_Split: "JoinStr sep (Split sep s) = s"
proof (induction s)
  case (Cons c s)
  then show ?case by (cases "Split sep s" rule: list.exhaust; cases "tl (Split sep s)") auto
qed simp

lemma JoinStr_append:
  "ps \<noteq> [] \<Longrightarrow> qs \<noteq> [] \<Longrightarrow> JoinStr sep (ps @ qs) = JoinStr sep ps @ sep # JoinStr sep qs"
proof (induction sep ps rule: JoinStr.induct)
  case (2 sep p)
  then show ?case by (cases qs) auto
qed auto

lemma JoinStr_Cons: "ps \<noteq> [] \<Longrightarrow> JoinStr sep (p # ps) = p @ sep # JoinStr sep ps"
  by (cases ps) auto

section \<open>Lexical paths\<close>

text \<open>
  \<open>Clean\<close> works through the elements of a path with a stack of the elements kept so far: empty
  elements and dots are skipped, a double dot removes the last name, stays where no name can be
  removed, and is dropped at the root.
\<close>

fun clean_push :: "bool \<Rightarrow> string list \<Rightarrow> string \<Rightarrow> string list" where
  "clean_push rooted st p =
     (if p = '''' \<or> p = ''.'' then st
      else if p = ''..''
           then (case st of
                   x # st' \<Rightarrow> if x = ''..'' then p # st else st'
                 | [] \<Rightarrow> if rooted then [] else [p])
           else p # st)"

declare clean_push.simps [simp del]

definition clean_stack :: "bool \<Rightarrow> string list \<Rightarrow> string list \<Rightarrow> string list" where
  "clean_stack rooted = foldl (clean_push rooted)"

definition is_rooted :: "string \<Rightarrow> bool" where
  "is_rooted p = (take 1 p = ''/'')"

definition clean_elems :: "string \<Rightarrow> string list" where
  "clean_elems p = rev (clean_stack (is_rooted p) [] (Split (CHR ''/'') p))"

definition path_string :: "bool \<Rightarrow> string list \<Rightarrow> string" where
  "path_string rooted es =
     (if rooted then CHR ''/'' # JoinStr (CHR ''/'') es else if es = [] then ''.'' else JoinStr (CHR ''/'') es)"

definition Clean :: "string \<Rightarrow> string" where
  "Clean p = (if p = '''' then ''.'' else path_string (is_rooted p) (clean_elems p))"

text \<open>\<open>filepath.Join\<close> skips leading empty elements; all empty gives the empty path.\<close>

definition JoinPath :: "string list \<Rightarrow> string" where
  "JoinPath es = (case dropWhile (\<lambda>e. e = '''') es of [] \<Rightarrow> '''' | es' \<Rightarrow> Clean (JoinStr (CHR ''/'') es'))"

text \<open>\<open>filepath.Abs\<close>; \<open>wd\<close> is what \<open>os.Getwd\<close> returns.\<close>

definition Abs :: "('e + string) \<Rightarrow> string \<Rightarrow> 'e + string" where
  "Abs wd p = (if is_rooted p then Inr (Clean p)
               else case wd of Inl err \<Rightarrow> Inl err | Inr d \<Rightarrow> Inr (JoinPath [d, p]))"

fun after_last :: "char \<Rightarrow> string \<Rightarrow> string \<Rightarrow> string" where
  "after_last sep acc [] = acc"
| "after_last sep acc (c # s) = (if c = sep then after_last sep s s else after_last sep acc s)"

text \<open>\<open>path.Split\<close>: the directory keeps its trailing slash.\<close>

definition SplitPath :: "string \<Rightarrow> string \<times> string" where
  "SplitPath p = (let name = after_last (CHR ''/'') p p in (take (length p - length name) p, name))"

text \<open>\<open>filepath.Ext\<close>: from the last dot of the last element, or empty.\<close>

definition Ext :: "string \<Rightarrow> string" where
  "Ext p = (let name = after_last (CHR ''/'') p p
            in if CHR ''.'' \<in> set name then CHR ''.'' # after_last (CHR ''.'') name name else '''')"

section \<open>Facts about paths\<close>

text \<open>An element that a path keeps wherever it stands: a proper name.\<close>

definition safe_elem :: "string \<Rightarrow> bool" where
  "safe_elem p = (p \<noteq> '''' \<and> p \<noteq> ''.'' \<and> p \<noteq> ''..'' \<and> CHR ''/'' \<notin> set p)"

lemma clean_push_safe: "safe_elem p \<Longrightarrow> clean_push r st p = p # st"
  by (simp add: clean_push.simps safe_elem_def)

lemma clean_stack_append: "clean_stack r st (ps @ qs) = clean_stack r (clean_stack r st ps) qs"
  by (simp add: clean_stack_def)

lemma clean_stack_safe: "list_all safe_elem ps \<Longrightarrow> clean_stack r st ps = rev ps @ st"
  by (induction ps arbitrary: st) (simp_all add: clean_stack_def clean_push_safe)

text \<open>The stack holds names and, below them, double dots; at the root only names.\<close>

definition stack_ok :: "bool \<Rightarrow> string list \<Rightarrow> bool" where
  "stack_ok r st = list_all (\<lambda>x. x = ''..'' \<and> \<not> r \<or> safe_elem x) st"

lemma clean_stack_ok:
  "stack_ok r st \<Longrightarrow> list_all (\<lambda>p. CHR ''/'' \<notin> set p) ps \<Longrightarrow> stack_ok r (clean_stack r st ps)"
proof (induction ps arbitrary: st)
  case (Cons p ps)
  have "stack_ok r (clean_push r st p)"
    using Cons.prems by (auto simp: clean_push.simps stack_ok_def safe_elem_def split: list.splits)
  then show ?case using Cons by (simp add: clean_stack_def)
qed (simp add: clean_stack_def)

lemma Split_no_sep: "list_all (\<lambda>p. sep \<notin> set p) (Split sep s)"
  using Split_parts by (auto simp: list_all_iff)

text \<open>Cleaning a relative path first does not change where it leads.\<close>

lemma clean_stack_relative:
  "list_all (\<lambda>p. CHR ''/'' \<notin> set p) ps \<Longrightarrow>
     clean_stack True st (rev (clean_stack False [] ps)) = clean_stack True st ps"
proof (induction ps rule: rev_induct)
  case (snoc p ps)
  let ?cl = "clean_stack False [] ps"
  have ok: "stack_ok False ?cl" using snoc.prems by (intro clean_stack_ok) (simp_all add: stack_ok_def)
  have IH: "clean_stack True st (rev ?cl) = clean_stack True st ps" using snoc by simp
  have step: "clean_stack r a (xs @ [x]) = clean_push r (clean_stack r a xs) x" for r a xs x
    by (simp add: clean_stack_def)
  show ?case
  proof (cases ?cl)
    case Nil
    then have "clean_stack True st ps = st" using IH by (simp add: clean_stack_def)
    moreover have "clean_stack True st [x] = clean_push True st x" "clean_stack True st [] = st" for x
      by (simp_all add: clean_stack_def)
    ultimately show ?thesis using Nil by (auto simp: step clean_push.simps)
  next
    case (Cons x st')
    then have x: "x = ''..'' \<or> safe_elem x" using ok by (auto simp: stack_ok_def)
    have R: "clean_stack True st ps = clean_push True (clean_stack True st (rev st')) x"
      using IH unfolding Cons by (simp add: step)
    show ?thesis
    proof (cases "x = ''..'' \<or> p \<noteq> ''..''")
      case True
      then have "p = '''' \<or> p = ''.'' \<or> clean_push False ?cl p = p # ?cl"
        using Cons by (auto simp: clean_push.simps)
      then consider "p = '''' \<or> p = ''.''" | "clean_push False ?cl p = p # ?cl" by blast
      then show ?thesis
      proof cases
        case 1 then show ?thesis using IH by (auto simp: step clean_push.simps)
      next
        case 2 then show ?thesis using IH by (simp add: step)
      qed
    next
      case False
      then have "safe_elem x" "p = ''..''" using x by auto
      then show ?thesis unfolding step R using Cons by (simp add: clean_push_safe) (auto simp: clean_push.simps safe_elem_def)
    qed
  qed
qed (simp add: clean_stack_def)

text \<open>The elements of the absolute form of a path, read from the working directory \<open>d\<close>.\<close>

definition abs_elems :: "string \<Rightarrow> string \<Rightarrow> string list" where
  "abs_elems d p =
     rev (clean_stack True (if is_rooted p then [] else clean_stack True [] (Split (CHR ''/'') d)) (Split (CHR ''/'') p))"

lemma is_rooted_append: "d \<noteq> '''' \<Longrightarrow> is_rooted (d @ s) = is_rooted d"
  by (cases d) (simp_all add: is_rooted_def)

lemma is_rooted_Nil [simp]: "\<not> is_rooted ''''"
  by (simp add: is_rooted_def)

lemma Abs_abs_elems:
  assumes "is_rooted d"
  shows "Abs (Inr d) p = Inr (path_string True (abs_elems d p))"
proof (cases "is_rooted p")
  case True
  then have "p \<noteq> ''''" by auto
  then show ?thesis using True by (simp add: Abs_def Clean_def clean_elems_def abs_elems_def)
next
  case False
  have "d \<noteq> ''''" using assms by auto
  then show ?thesis
    using False assms is_rooted_append [of d "CHR ''/'' # p"]
    by (simp add: Abs_def JoinPath_def Clean_def clean_elems_def abs_elems_def Split_append clean_stack_append)
qed

lemma Split_path_string:
  assumes "list_all (\<lambda>p. CHR ''/'' \<notin> set p) es"
  shows "Split (CHR ''/'') (path_string r es) =
           (if es = [] then (if r then ['''', ''''] else [''.'']) else (if r then [''''] else []) @ es)"
  using assms Split_JoinStr [of es "CHR ''/''"] by (auto simp: path_string_def list_all_iff)

lemma clean_stack_dot: "clean_stack r st ['''', ''''] = st" "clean_stack r st [''.''] = st"
  "clean_stack r st ('''' # es) = clean_stack r st es"
  by (simp_all add: clean_stack_def clean_push.simps)

lemma stack_ok_no_sep: "stack_ok r st \<Longrightarrow> list_all (\<lambda>p. CHR ''/'' \<notin> set p) st"
proof -
  assume "stack_ok r st"
  then have "\<forall>x \<in> set st. x = ''..'' \<or> safe_elem x" by (auto simp: stack_ok_def list_all_iff)
  moreover have "CHR ''/'' \<notin> set x" if "x = ''..'' \<or> safe_elem x" for x
    using that unfolding safe_elem_def by (elim disjE) simp_all
  ultimately show ?thesis by (simp only: list_all_iff) blast
qed

lemma stack_ok_Split: "stack_ok r (clean_stack r [] (Split (CHR ''/'') p))"
  by (intro clean_stack_ok) (simp_all add: stack_ok_def Split_no_sep)

lemma path_string_relative:
  assumes "stack_ok False (rev es)"
  shows "\<not> is_rooted (path_string False es)"
proof (cases es)
  case (Cons x xs)
  then have x: "x \<noteq> ''''" "CHR ''/'' \<notin> set x" using assms by (auto simp: stack_ok_def safe_elem_def)
  then obtain a y where "x = a # y" "a \<noteq> CHR ''/''" by (cases x) auto
  then show ?thesis using Cons by (cases xs) (simp_all add: path_string_def is_rooted_def)
qed (simp add: path_string_def is_rooted_def)

lemma abs_elems_safe: "list_all safe_elem (abs_elems d p)"
proof -
  have "stack_ok True (clean_stack True (if is_rooted p then [] else clean_stack True [] (Split (CHR ''/'') d)) (Split (CHR ''/'') p))"
    using stack_ok_Split [of True d] by (intro clean_stack_ok) (simp_all add: Split_no_sep stack_ok_def)
  then show ?thesis by (simp add: abs_elems_def stack_ok_def list_all_iff)
qed

text \<open>Cleaning a path does not change the absolute path it stands for.\<close>

lemma abs_elems_Clean:
  assumes "p \<noteq> ''''"
  shows "abs_elems d (Clean p) = abs_elems d p"
proof (cases "is_rooted p")
  case True
  let ?st = "clean_stack True [] (Split (CHR ''/'') p)"
  have r: "is_rooted (path_string True es)" for es by (simp add: path_string_def is_rooted_def)
  have ok: "stack_ok True ?st" by (rule stack_ok_Split)
  then have ns: "list_all (\<lambda>p. CHR ''/'' \<notin> set p) (rev ?st)" "list_all safe_elem (rev ?st)"
    using stack_ok_no_sep [OF ok] by (simp_all add: stack_ok_def)
  have "clean_stack True [] (Split (CHR ''/'') (path_string True (rev ?st))) = ?st"
    using ns by (simp add: Split_path_string clean_stack_dot clean_stack_safe)
  then show ?thesis using True assms r by (simp add: Clean_def clean_elems_def abs_elems_def)
next
  case False
  let ?st = "clean_stack False [] (Split (CHR ''/'') p)" and ?d = "clean_stack True [] (Split (CHR ''/'') d)"
  have ok: "stack_ok False ?st" by (rule stack_ok_Split)
  then have ns: "list_all (\<lambda>p. CHR ''/'' \<notin> set p) (rev ?st)" using stack_ok_no_sep [OF ok] by simp
  have "clean_stack True ?d (Split (CHR ''/'') (path_string False (rev ?st))) = clean_stack True ?d (rev ?st)"
    using ns by (simp add: Split_path_string clean_stack_dot) (auto simp: clean_stack_def)
  also have "\<dots> = clean_stack True ?d (Split (CHR ''/'') p)" by (rule clean_stack_relative) (rule Split_no_sep)
  finally show ?thesis using False assms path_string_relative [of "rev ?st"] ok
    by (simp add: Clean_def clean_elems_def abs_elems_def)
qed

text \<open>Appending names to a path appends them to its absolute form.\<close>

lemma abs_elems_append:
  assumes "list_all safe_elem ps" "p \<noteq> ''''"
  shows "abs_elems d (p @ CHR ''/'' # JoinStr (CHR ''/'') ps) = abs_elems d p @ ps"
proof -
  have s: "clean_stack True st (Split (CHR ''/'') (JoinStr (CHR ''/'') ps)) = rev ps @ st" for st
  proof (cases "ps = []")
    case False
    then have "Split (CHR ''/'') (JoinStr (CHR ''/'') ps) = ps"
      using assms(1) by (intro Split_JoinStr) (auto simp: list_all_iff safe_elem_def)
    then show ?thesis using assms(1) by (simp add: clean_stack_safe)
  qed (simp add: clean_stack_def clean_push.simps)
  show ?thesis using assms(2) by (simp add: abs_elems_def Split_append clean_stack_append s is_rooted_append)
qed

lemma abs_elems_Nil: "is_rooted d \<Longrightarrow> abs_elems d '''' = abs_elems d d"
  by (simp add: abs_elems_def clean_stack_dot) (simp add: clean_stack_def clean_push.simps)

lemma abs_elems_relative:
  assumes "list_all safe_elem ps" "ps \<noteq> []"
  shows "abs_elems d (JoinStr (CHR ''/'') ps) = abs_elems d '''' @ ps"
proof -
  obtain a x ps' where ps: "ps = (a # x) # ps'" "a \<noteq> CHR ''/''"
    using assms by (cases ps; cases "hd ps") (auto simp: safe_elem_def)
  then have "\<not> is_rooted (JoinStr (CHR ''/'') ps)" by (cases ps') (simp_all add: is_rooted_def)
  moreover have "Split (CHR ''/'') (JoinStr (CHR ''/'') ps) = ps"
    using assms by (intro Split_JoinStr) (auto simp: list_all_iff safe_elem_def)
  ultimately show ?thesis using assms(1) by (simp add: abs_elems_def clean_stack_safe clean_stack_dot)
qed

lemma JoinStr_eq_Nil: "list_all safe_elem ps \<Longrightarrow> JoinStr sep ps = '''' \<longleftrightarrow> ps = []"
  by (cases ps; cases "tl ps") (auto simp: safe_elem_def)

text \<open>Joining safe elements to a directory, in one step or in two.\<close>

lemma abs_elems_JoinPath2:
  assumes "list_all safe_elem ps"
  shows "abs_elems d (JoinPath [p, JoinStr (CHR ''/'') ps]) = abs_elems d p @ ps"
proof (cases "p = ''''")
  case True
  then show ?thesis using assms abs_elems_relative [OF assms] JoinStr_eq_Nil [OF assms]
    by (auto simp: JoinPath_def abs_elems_Clean)
next
  case False
  then show ?thesis using abs_elems_append [OF assms False] by (simp add: JoinPath_def abs_elems_Clean)
qed

lemma abs_elems_JoinPath3:
  assumes "list_all safe_elem ps" "safe_elem name"
  shows "abs_elems d (JoinPath [p, JoinStr (CHR ''/'') ps, name]) = abs_elems d p @ ps @ [name]"
proof (cases "p = ''''")
  case True
  have n: "name \<noteq> ''''" using assms(2) by (simp add: safe_elem_def)
  show ?thesis
  proof (cases "ps = []")
    case True
    then show ?thesis using \<open>p = ''''\<close> n abs_elems_relative [of "[name]" d] assms(2)
      by (simp add: JoinPath_def abs_elems_Clean)
  next
    case False
    then have "JoinStr (CHR ''/'') ps @ CHR ''/'' # name = JoinStr (CHR ''/'') (ps @ [name])"
      by (simp add: JoinStr_append)
    then show ?thesis using \<open>p = ''''\<close> False assms n abs_elems_relative [of "ps @ [name]" d]
      by (simp add: JoinPath_def abs_elems_Clean JoinStr_eq_Nil)
  qed
next
  case False
  let ?q = "p @ CHR ''/'' # JoinStr (CHR ''/'') ps"
  have "abs_elems d (?q @ CHR ''/'' # JoinStr (CHR ''/'') [name]) = abs_elems d p @ ps @ [name]"
    using abs_elems_append [of "[name]" ?q d] abs_elems_append [OF assms(1) False] assms(2) False by simp
  then show ?thesis using False by (simp add: JoinPath_def abs_elems_Clean)
qed

lemma path_string_prefix:
  "HasPrefix (path_string True (es @ fs)) (path_string True es)"
  by (cases "es = []"; cases "fs = []") (auto simp: path_string_def HasPrefix_iff JoinStr_append)

lemma path_string_inject:
  assumes "list_all safe_elem es" "list_all safe_elem fs"
  shows "path_string True es = path_string True fs \<longleftrightarrow> es = fs"
proof
  assume "path_string True es = path_string True fs"
  then have e: "JoinStr (CHR ''/'') es = JoinStr (CHR ''/'') fs" by (simp add: path_string_def)
  have s: "xs \<noteq> [] \<Longrightarrow> list_all safe_elem xs \<Longrightarrow> Split (CHR ''/'') (JoinStr (CHR ''/'') xs) = xs" for xs
    by (rule Split_JoinStr) (auto simp: list_all_iff safe_elem_def)
  show "es = fs"
  proof (cases "es = [] \<or> fs = []")
    case True
    then show ?thesis using e assms JoinStr_eq_Nil [OF assms(1), of "CHR ''/''"] JoinStr_eq_Nil [OF assms(2), of "CHR ''/''"] by auto
  next
    case False
    then have "Split (CHR ''/'') (JoinStr (CHR ''/'') es) = es" "Split (CHR ''/'') (JoinStr (CHR ''/'') fs) = fs"
      using s assms by blast+
    then show ?thesis unfolding e by (rule trans [OF sym])
  qed
qed simp

lemma after_last_free: "sep \<notin> set s \<Longrightarrow> after_last sep acc s = acc"
  by (induction s) auto

lemma after_last_append: "after_last sep acc (s @ sep # t) = after_last sep t t"
  by (induction s arbitrary: acc) auto

lemma after_last_no_sep: "sep \<notin> set acc \<or> sep \<in> set s \<Longrightarrow> sep \<notin> set (after_last sep acc s)"
proof (induction s arbitrary: acc)
  case (Cons c s)
  then show ?case by (cases "sep \<in> set s") auto
qed auto

lemma Ext_no_slash: "CHR ''/'' \<notin> set (Ext p)"
proof -
  let ?n = "after_last (CHR ''/'') p p"
  have n: "CHR ''/'' \<notin> set ?n" by (rule after_last_no_sep) blast
  have "set (after_last sep acc s) \<subseteq> set acc \<union> set s" for sep acc s
    by (induction sep acc s rule: after_last.induct) auto
  then have "set (after_last (CHR ''.'') ?n ?n) \<subseteq> set ?n" by fastforce
  then have "CHR ''/'' \<notin> set (after_last (CHR ''.'') ?n ?n)" using n by (meson subsetD)
  then show ?thesis by (simp add: Ext_def Let_def)
qed

end
