(* ===== verification/Mail.thy ===== *)
theory Mail
  imports GoPath Errs
begin

text \<open>
  Package \<open>internal/common/mail\<close>: the text of a message and the dialogue with the SMTP server.

  The client of \<open>net/smtp\<close> sends one command at a time and reads the reply.  The commands sent are
  a trace; \<open>reply\<close> gives the server's answer to a command after a trace, \<open>offers\<close> the extensions it
  announces.  \<open>render\<close> stands for the loaded templates (\<open>html/template\<close>).
\<close>

section \<open>Messages\<close>

record Message =
  mm_To :: "string list"
  mm_Subject :: string
  mm_HTML :: string
  mm_Text :: string

record MailService =
  ml_Enabled :: bool
  ml_Render :: "string \<Rightarrow> (string \<times> string) list \<Rightarrow> go_error + string"
  ml_Send :: "Message \<Rightarrow> go_error + unit"

record MailConfig =
  mc_Enabled :: bool
  mc_Host :: string
  mc_Port :: goint
  mc_Username :: string
  mc_Password :: string
  mc_TLS :: bool
  mc_From :: string
  mc_FromName :: string
  mc_AppURL :: string
  mc_PasswordResetTTL :: duration
  mc_PasswordResetCleanupInterval :: duration

definition crlf :: string where
  "crlf = [CHR 0x0D, CHR 0x0A]"

definition writeHeader :: "string \<Rightarrow> string \<Rightarrow> string \<Rightarrow> string" where
  "writeHeader name val b = b @ name @ '': '' @ val @ crlf"

fun join_comma :: "string list \<Rightarrow> string" where
  "join_comma [] = ''''"
| "join_comma [x] = x"
| "join_comma (x # y # xs) = x @ '', '' @ join_comma (y # xs)"

text \<open>The bytes \<open>Send\<close> transmits; \<open>date\<close> is the formatted current time.\<close>

definition mail_headers :: "MailConfig \<Rightarrow> string \<Rightarrow> Message \<Rightarrow> (string \<times> string) list" where
  "mail_headers cfg date msg =
     [(''From'', mc_FromName cfg @ '' <'' @ mc_From cfg @ ''>''),
      (''To'', join_comma (mm_To msg)),
      (''Subject'', mm_Subject msg),
      (''MIME-Version'', ''1.0''),
      (''Content-Type'', ''text/html; charset=UTF-8''),
      (''Date'', date)]"

definition mail_body :: "MailConfig \<Rightarrow> string \<Rightarrow> Message \<Rightarrow> string" where
  "mail_body cfg date msg =
     (let body = fold (\<lambda>(name, val) b. writeHeader name val b) (mail_headers cfg date msg) '''';
          body = body @ crlf
      in if mm_HTML msg \<noteq> '''' then body @ mm_HTML msg else body @ mm_Text msg)"

section \<open>The dialogue\<close>

text \<open>\<open>PlainAuth\<close> of user, password and host.\<close>

datatype smtp_auth = PlainAuth string string string

datatype smtp_cmd =
    CmdDial string
  | CmdHello string
  | CmdStartTLS string
  | CmdAuth smtp_auth
  | CmdMail string
  | CmdRcpt string
  | CmdData
  | CmdWrite string
  | CmdEndData
  | CmdQuit
  | CmdSendMail string "smtp_auth option" string "string list" string

record smtp_server =
  sv_reply :: "smtp_cmd list \<Rightarrow> smtp_cmd \<Rightarrow> go_error + unit"
  sv_offers :: "smtp_cmd list \<Rightarrow> string \<Rightarrow> bool"

definition issue_cmd :: "smtp_server \<Rightarrow> smtp_cmd \<Rightarrow> (smtp_cmd list, go_error, unit) op" where
  "issue_cmd S cmd tr = (sv_reply S tr cmd, tr @ [cmd])"

text \<open>A step taken only under a condition on the trace.\<close>

definition cmd_when :: "(smtp_cmd list \<Rightarrow> bool) \<Rightarrow> (smtp_cmd list, go_error, unit) op \<Rightarrow> (smtp_cmd list, go_error, unit) op" where
  "cmd_when c m tr = (if c tr then m tr else (Inr (), tr))"

fun rcpt_all :: "smtp_server \<Rightarrow> string list \<Rightarrow> (smtp_cmd list, go_error, unit) op" where
  "rcpt_all S [] = returnE ()"
| "rcpt_all S (r # rs) = bindE (issue_cmd S (CmdRcpt r)) (\<lambda>_. rcpt_all S rs)"

definition sendSTARTTLS ::
  "smtp_server \<Rightarrow> string \<Rightarrow> string \<Rightarrow> smtp_auth option \<Rightarrow> string \<Rightarrow> string list \<Rightarrow> string
     \<Rightarrow> (smtp_cmd list, go_error, unit) op" where
  "sendSTARTTLS S addr host auth from_addr to_list msg =
     bindE (issue_cmd S (CmdDial addr)) (\<lambda>_.
     bindE (issue_cmd S (CmdHello ''localhost'')) (\<lambda>_.
     bindE (cmd_when (\<lambda>tr. sv_offers S tr ''STARTTLS'') (issue_cmd S (CmdStartTLS host))) (\<lambda>_.
     bindE (case auth of
              None \<Rightarrow> returnE ()
            | Some a \<Rightarrow> cmd_when (\<lambda>tr. sv_offers S tr ''AUTH'') (issue_cmd S (CmdAuth a))) (\<lambda>_.
     bindE (issue_cmd S (CmdMail from_addr)) (\<lambda>_.
     bindE (rcpt_all S to_list) (\<lambda>_.
     bindE (issue_cmd S CmdData) (\<lambda>_.
     bindE (issue_cmd S (CmdWrite msg)) (\<lambda>_.
     bindE (issue_cmd S CmdEndData) (\<lambda>_.
     issue_cmd S CmdQuit)))))))))"

definition mail_Enabled :: "MailConfig \<Rightarrow> bool" where
  "mail_Enabled cfg = mc_Enabled cfg"

definition mail_Send :: "smtp_server \<Rightarrow> MailConfig \<Rightarrow> string \<Rightarrow> Message \<Rightarrow> (smtp_cmd list, go_error, unit) op" where
  "mail_Send S cfg date msg =
     (if \<not> mc_Enabled cfg then returnE ()
      else let addr = mc_Host cfg @ '':'' @ FormatInt (sint (mc_Port cfg));
               body = mail_body cfg date msg;
               auth = (if mc_Username cfg \<noteq> '''' then Some (PlainAuth (mc_Username cfg) (mc_Password cfg) (mc_Host cfg)) else None)
           in if mc_TLS cfg
              then sendSTARTTLS S addr (mc_Host cfg) auth (mc_From cfg) (mm_To msg) body
              else issue_cmd S (CmdSendMail addr auth (mc_From cfg) (mm_To msg) body))"

text \<open>\<open>Render\<close>: without loaded templates it fails.\<close>

definition mail_Render ::
  "(string \<Rightarrow> (string \<times> string) list \<Rightarrow> go_error + string) option \<Rightarrow> string \<Rightarrow> (string \<times> string) list \<Rightarrow> go_error + string" where
  "mail_Render templates name vars =
     (case templates of
        None \<Rightarrow> Inl (PlainError ''no templates loaded'')
      | Some execute \<Rightarrow> execute name vars)"

text \<open>\<open>New\<close>: the templates are loaded once; a failed load leaves the service without them.\<close>

definition mail_New ::
  "(string \<Rightarrow> go_error + (string \<Rightarrow> (string \<times> string) list \<Rightarrow> go_error + string)) \<Rightarrow> string
     \<Rightarrow> (string \<Rightarrow> (string \<times> string) list \<Rightarrow> go_error + string) option" where
  "mail_New parse dir =
     (if dir = '''' then None
      else case parse (JoinPath [dir, ''*.html'']) of Inl _ \<Rightarrow> None | Inr t \<Rightarrow> Some t)"

section \<open>Facts\<close>

text \<open>Splitting a text at CR LF.\<close>

fun split_lines :: "string \<Rightarrow> string list" where
  "split_lines [] = [[]]"
| "split_lines [c] = [[c]]"
| "split_lines (c # d # s) =
     (if c = CHR 0x0D \<and> d = CHR 0x0A then [] # split_lines s
      else case split_lines (d # s) of [] \<Rightarrow> [[c]] | l # ls \<Rightarrow> (c # l) # ls)"

definition no_cr :: "string \<Rightarrow> bool" where
  "no_cr s = (CHR 0x0D \<notin> set s)"

lemma split_lines_nonempty [simp]: "split_lines s \<noteq> []"
  by (induction s rule: split_lines.induct) (auto split: list.splits)

lemma split_lines_line: "no_cr l \<Longrightarrow> split_lines (l @ crlf @ s) = l # split_lines s"
proof (induction l)
  case Nil
  then show ?case by (simp add: crlf_def)
next
  case (Cons c l)
  then have IH: "split_lines (l @ crlf @ s) = l # split_lines s" "c \<noteq> CHR 0x0D" by (auto simp: no_cr_def)
  obtain d t where "l @ crlf @ s = d # t" by (cases l) (auto simp: crlf_def)
  then show ?case using IH by simp
qed

lemma writeHeader_fold:
  "fold (\<lambda>(name, val) b. writeHeader name val b) hs b = b @ concat (map (\<lambda>(name, val). name @ '': '' @ val @ crlf) hs)"
  by (induction hs arbitrary: b) (auto simp: writeHeader_def)

lemma split_lines_headers:
  "list_all (\<lambda>(name, val). no_cr name \<and> no_cr val) hs \<Longrightarrow>
     split_lines (concat (map (\<lambda>(name, val). name @ '': '' @ val @ crlf) hs) @ s)
     = map (\<lambda>(name, val). name @ '': '' @ val) hs @ split_lines s"
proof (induction hs)
  case (Cons h hs)
  obtain name val where h: "h = (name, val)" by (cases h)
  have "no_cr (name @ '': '' @ val)" using Cons.prems h by (simp add: no_cr_def)
  from split_lines_line [OF this] show ?case using Cons h by simp
qed simp

lemma join_comma_no_cr: "list_all no_cr xs \<Longrightarrow> no_cr (join_comma xs)"
  by (induction xs rule: join_comma.induct) (auto simp: no_cr_def)

section \<open>Properties\<close>

text \<open>
  As long as the sender, the recipients, the subject and the date contain no carriage return,
  the message consists of exactly the six intended header lines, an empty line and the body: no
  value can introduce a header or end the header block.
\<close>

theorem mail_body_layout:
  assumes "no_cr (mc_FromName cfg)" "no_cr (mc_From cfg)" "list_all no_cr (mm_To msg)" "no_cr (mm_Subject msg)" "no_cr date"
  shows "split_lines (mail_body cfg date msg)
         = map (\<lambda>(name, val). name @ '': '' @ val) (mail_headers cfg date msg)
           @ '''' # split_lines (if mm_HTML msg \<noteq> '''' then mm_HTML msg else mm_Text msg)"
proof -
  have "list_all (\<lambda>(name, val). no_cr name \<and> no_cr val) (mail_headers cfg date msg)"
    using assms join_comma_no_cr [OF assms(3)] by (simp add: mail_headers_def no_cr_def)
  then have "split_lines (concat (map (\<lambda>(name, val). name @ '': '' @ val @ crlf) (mail_headers cfg date msg)) @ [] @ crlf @ b)
      = map (\<lambda>(name, val). name @ '': '' @ val) (mail_headers cfg date msg) @ '''' # split_lines b" for b
    using split_lines_headers split_lines_line [of "[]" b] by (simp add: no_cr_def)
  then show ?thesis by (simp add: mail_body_def writeHeader_fold Let_def)
qed

definition demo_mail_cfg :: MailConfig where
  "demo_mail_cfg =
     \<lparr>mc_Enabled = True, mc_Host = ''mx'', mc_Port = 587, mc_Username = ''u'', mc_Password = ''p'', mc_TLS = True,
      mc_From = ''a@b.c'', mc_FromName = ''App'', mc_AppURL = ''http://localhost'', mc_PasswordResetTTL = 1800 * second,
      mc_PasswordResetCleanupInterval = 3600 * second\<rparr>"

definition demo_message :: Message where
  "demo_message = \<lparr>mm_To = [''x@y.z''], mm_Subject = ''Hi'', mm_HTML = ''<p>hi</p>'', mm_Text = ''''\<rparr>"

theorem mail_body_layout_witness:
  "split_lines (mail_body demo_mail_cfg ''now'' demo_message)
   = [''From: App <a@b.c>'', ''To: x@y.z'', ''Subject: Hi'', ''MIME-Version: 1.0'', ''Content-Type: text/html; charset=UTF-8'',
      ''Date: now'', '''', ''<p>hi</p>'']"
proof -
  have "split_lines ''<p>hi</p>'' = [''<p>hi</p>'']" by simp
  moreover have "no_cr (mc_FromName demo_mail_cfg)" "no_cr (mc_From demo_mail_cfg)" "list_all no_cr (mm_To demo_message)"
    "no_cr (mm_Subject demo_message)" "no_cr ''now''"
    by (simp_all add: demo_mail_cfg_def demo_message_def no_cr_def)
  ultimately show ?thesis
    using mail_body_layout [of demo_mail_cfg demo_message "''now''"]
    by (simp add: mail_headers_def demo_mail_cfg_def demo_message_def)
qed

text \<open>Operations only add to the trace.\<close>

definition adds :: "(smtp_cmd list, go_error, unit) op \<Rightarrow> bool" where
  "adds m = (\<forall>tr. \<exists>more. snd (m tr) = tr @ more)"

lemma adds_issue: "adds (issue_cmd S c)"
  by (simp add: adds_def issue_cmd_def)

lemma adds_return: "adds (returnE ())"
  by (simp add: adds_def)

lemma adds_Pair: "adds (Pair (Inr ()))"
  by (simp add: adds_def)

lemma cmd_when_True: "cmd_when (\<lambda>_. True) m = m"
  by (simp add: cmd_when_def fun_eq_iff)

lemma adds_when: "adds m \<Longrightarrow> adds (cmd_when c m)"
  by (simp add: adds_def cmd_when_def)

lemma adds_bind:
  assumes "adds m" "\<And>x. adds (k x)"
  shows "adds (bindE m k)"
  unfolding adds_def
proof
  fix tr
  obtain r tr1 where m: "m tr = (r, tr1)" by (cases "m tr") auto
  then obtain more where "tr1 = tr @ more" using assms(1) unfolding adds_def by (metis snd_conv)
  moreover have "\<exists>more. snd (k x tr1) = tr1 @ more" for x using assms(2) unfolding adds_def by blast
  ultimately show "\<exists>more. snd (bindE m k tr) = tr @ more"
    using m by (cases r) (fastforce simp: bindE_def)+
qed

lemma adds_rcpt: "adds (rcpt_all S rs)"
  by (induction rs) (auto intro: adds_bind adds_issue adds_return adds_Pair)

fun private_cmd :: "smtp_cmd \<Rightarrow> bool" where
  "private_cmd (CmdAuth _) = True"
| "private_cmd (CmdMail _) = True"
| "private_cmd (CmdRcpt _) = True"
| "private_cmd (CmdWrite _) = True"
| "private_cmd (CmdSendMail _ _ _ _ _) = True"
| "private_cmd _ = False"


definition demo_smtp :: smtp_server where
  "demo_smtp = \<lparr>sv_reply = (\<lambda>_ _. Inr ()), sv_offers = (\<lambda>_ _. True)\<rparr>"


end
