(* ===== verification/Auth.thy ===== *)
theory Auth
  imports User Mail
begin

text \<open>
  Module \<open>internal/modules/auth\<close>: registration, login, refresh, logout, sessions,
  impersonation and password reset, with their endpoints.

  The interfaces the service is built on are arguments, collected in \<open>auth_env\<close>: the database
  interface of each table, the token and password libraries, the mail service (an interface
  in the source) and the package-level \<open>queue.Enqueue\<close>.  Mails, queued tasks and started
  goroutines are appended to the log \<open>ad_outbox\<close> of the state.
\<close>

section \<open>Device names\<close>

definition deviceNameFromUserAgent :: "string \<Rightarrow> string" where
  "deviceNameFromUserAgent userAgent =
     (if userAgent = '''' then ''''
      else let ua = ToLower userAgent
      in if HasPrefix ua ''curl/'' then ''curl''
      else if Contains ua ''postmanruntime'' then ''Postman''
      else if Contains ua ''insomnia'' then ''Insomnia''
      else if Contains ua ''httpie'' then ''HTTPie''
      else if HasPrefix ua ''wget/'' then ''wget''
      else if HasPrefix ua ''go-http-client/'' then ''Go client''
      else let browser =
             (if Contains ua ''edg/'' then ''Edge''
              else if Contains ua ''opr/'' \<or> Contains ua ''opera'' then ''Opera''
              else if Contains ua ''firefox/'' then ''Firefox''
              else if Contains ua ''chrome/'' then ''Chrome''
              else if Contains ua ''safari/'' then ''Safari'' else '''');
           os =
             (if Contains ua ''windows'' then ''Windows''
              else if Contains ua ''iphone'' then ''iPhone''
              else if Contains ua ''ipad'' then ''iPad''
              else if Contains ua ''android'' then ''Android''
              else if Contains ua ''macintosh'' \<or> Contains ua ''mac os'' then ''macOS''
              else if Contains ua ''linux'' then ''Linux'' else '''')
      in if browser \<noteq> '''' \<and> os \<noteq> '''' then browser @ '' on '' @ os
         else if browser \<noteq> '''' then browser
         else if os \<noteq> '''' then os
         else if length userAgent > 64 then take 64 userAgent
         else userAgent)"

section \<open>Data\<close>

record RegisterRequest =
  rr_Username :: string
  rr_Email :: string
  rr_Password :: string
  rr_FullName :: string

record LoginRequest =
  lr_UsernameOrEmail :: string
  lr_Password :: string

record ResetPasswordRequest =
  rp_Token :: string
  rp_NewPassword :: string

record AuthResponse =
  at_AccessToken :: string
  at_RefreshToken :: string
  at_TokenType :: string
  at_ExpiresAt :: time
  at_UserID :: uint64
  at_Username :: string
  at_SessionID :: uint64
  at_Authorities :: "string list"

record PasswordResetToken =
  rt_ID :: uint64
  rt_UserID :: uint64
  rt_TokenHash :: string
  rt_ExpiresAt :: time
  rt_ConsumedAt :: "time option"
  rt_CreatedAt :: time

definition TaskPasswordResetEmail :: string where
  "TaskPasswordResetEmail = ''auth:password-reset-email''"

record PasswordResetEmailPayload =
  pe_Email :: string
  pe_Username :: string
  pe_ResetURL :: string
  pe_TTL :: string

datatype auth_event =
    EvGoWelcome User
  | EvEnqueue string PasswordResetEmailPayload
  | EvMail Message

record auth_db = user_db +
  ad_reset_tokens :: "PasswordResetToken table"
  ad_outbox :: "auth_event list"

record auth_env =
  av_users :: user_gorm
  av_sessions :: "UserSession gorm"
  av_tokens :: "PasswordResetToken gorm"
  av_lib :: jwt_lib
  av_jwt :: JwtService
  av_bcrypt :: bcrypt_lib
  av_mail :: MailService
  av_mailCfg :: MailConfig
  av_Enqueue :: "string \<Rightarrow> PasswordResetEmailPayload \<Rightarrow> go_error + unit"

type_synonym ('x, 'a) auth_op = "('x auth_db_scheme, go_error, 'a) op"

definition on_sessions :: "(sessions, go_error, 'a) op \<Rightarrow> ('x user_db_scheme, go_error, 'a) op" where
  "on_sessions m = zoomE ud_sessions (\<lambda>t db. db\<lparr>ud_sessions := t\<rparr>) m"

definition on_tokens :: "(PasswordResetToken table, go_error, 'a) op \<Rightarrow> ('x, 'a) auth_op" where
  "on_tokens m = zoomE ad_reset_tokens (\<lambda>t db. db\<lparr>ad_reset_tokens := t\<rparr>) m"

definition post :: "auth_event \<Rightarrow> 'x auth_db_scheme \<Rightarrow> 'x auth_db_scheme" where
  "post ev db = db\<lparr>ad_outbox := ad_outbox db @ [ev]\<rparr>"

section \<open>Issuing tokens\<close>

definition issueTokens ::
  "auth_env \<Rightarrow> clock \<Rightarrow> User \<Rightarrow> uint64 \<Rightarrow> string \<Rightarrow> string \<Rightarrow> string \<Rightarrow> ('x user_db_scheme, go_error, AuthResponse) op" where
  "issueTokens E clk u impersonatorID deviceName ua ip =
     (let authorities = AuthoritiesOf u;
          refreshExpiry = clk 0 + jwt_RefreshTTL (av_jwt E)
      in bindE (on_sessions (session_Create (av_sessions E) (clk 1) (bm_ID u) impersonatorID refreshExpiry deviceName ua ip)) (\<lambda>sess.
         bindE (readE (\<lambda>_. IssueAccess (av_lib E) (av_jwt E) (clk 2) (bm_ID u) (u_Username u) (us_ID sess) impersonatorID authorities)) (\<lambda>(access, accessExp).
         bindE (readE (\<lambda>_. IssueRefresh (av_lib E) (av_jwt E) (clk 3) (bm_ID u) (u_Username u) (us_ID sess) impersonatorID authorities)) (\<lambda>(refresh, _).
         returnE \<lparr>at_AccessToken = access, at_RefreshToken = refresh, at_TokenType = ''Bearer'', at_ExpiresAt = accessExp,
                  at_UserID = bm_ID u, at_Username = u_Username u, at_SessionID = us_ID sess, at_Authorities = authorities\<rparr>))))"

section \<open>Registration, login, refresh\<close>

definition new_user :: "string \<Rightarrow> string \<Rightarrow> string \<Rightarrow> string \<Rightarrow> User" where
  "new_user username email hash fullName =
     zero_base \<lparr>u_Username = username, u_Email = email, u_PasswordHash = hash, u_FullName = fullName,
       u_Enabled = True, u_TokenVersion = 0, u_Roles = []\<rparr>"

definition auth_Register ::
  "auth_env \<Rightarrow> nat \<Rightarrow> clock \<Rightarrow> request_context option \<Rightarrow> RegisterRequest \<Rightarrow> string \<Rightarrow> string \<Rightarrow> ('x, AuthResponse) auth_op" where
  "auth_Register E salt clk ctx req ua ip =
     bindE (readE (user_repo_ExistsByUsername (av_users E) (rr_Username req))) (\<lambda>taken.
     if taken then throwE (Duplicate ''Username already taken'')
     else bindE (readE (user_repo_ExistsByEmail (av_users E) (rr_Email req))) (\<lambda>taken.
     if taken then throwE (Duplicate ''Email already in use'')
     else bindE (readE (\<lambda>_. HashPassword (av_bcrypt E) salt (rr_Password req))) (\<lambda>hash.
     let u = new_user (rr_Username req) (rr_Email req) hash (rr_FullName req)
     in bindE (readE (role_repo_GetByName (ug_role (av_users E)) NameUser)) (\<lambda>defaultRole.
     let u = (case defaultRole of None \<Rightarrow> u | Some r \<Rightarrow> u\<lparr>u_Roles := [r]\<rparr>)
     in bindE (user_repo_Create (av_users E) ctx u) (\<lambda>u.
     bindE (readE (user_repo_GetByID (av_users E) (bm_ID u))) (\<lambda>full.
     case full of
       None \<Rightarrow> throwE (Internal ''User not found after creation'')
     | Some full \<Rightarrow>
         (\<lambda>db. issueTokens E clk full 0 (deviceNameFromUserAgent ua) ua ip (post (EvGoWelcome full) db))))))))"

definition auth_Login ::
  "auth_env \<Rightarrow> clock \<Rightarrow> LoginRequest \<Rightarrow> string \<Rightarrow> string \<Rightarrow> ('x user_db_scheme, go_error, AuthResponse) op" where
  "auth_Login E clk req ua ip =
     bindE (readE (user_repo_GetByUsernameOrEmail (av_users E) (lr_UsernameOrEmail req))) (\<lambda>u.
     case u of
       None \<Rightarrow> throwE (Unauthorized ''Invalid credentials'')
     | Some u \<Rightarrow>
         if \<not> CheckPassword (av_bcrypt E) (u_PasswordHash u) (lr_Password req)
         then throwE (Unauthorized ''Invalid credentials'')
         else if \<not> u_Enabled u then throwE (Unauthorized ''Account is deactivated'')
         else issueTokens E clk u 0 (deviceNameFromUserAgent ua) ua ip)"

definition auth_Refresh ::
  "auth_env \<Rightarrow> clock \<Rightarrow> string \<Rightarrow> ('x user_db_scheme, go_error, AuthResponse) op" where
  "auth_Refresh E clk refreshToken =
     (\<lambda>db. case jwt_Parse (av_lib E) (av_jwt E) (clk 0) refreshToken of
        Inl _ \<Rightarrow> (Inl (Unauthorized ''Invalid refresh token''), db)
      | Inr claims \<Rightarrow>
          if cl_Type claims \<noteq> TokenTypeRefresh then (Inl (Unauthorized ''Refresh token required''), db)
          else if cl_SessionID claims \<noteq> 0
               \<and> session_Validate (av_sessions E) (clk 1) (cl_SessionID claims) (cl_UserID claims) (ud_sessions db) \<noteq> Inr ()
          then (Inl (Unauthorized ''Session no longer active''), db)
          else bindE (readE (user_repo_GetByID (av_users E) (cl_UserID claims))) (\<lambda>u.
               case u of
                 None \<Rightarrow> throwE (Unauthorized ''User no longer exists'')
               | Some u \<Rightarrow>
                   if \<not> u_Enabled u then throwE (Unauthorized ''Account is deactivated'')
                   else let authorities = AuthoritiesOf u
                   in bindE (readE (\<lambda>_. IssueAccess (av_lib E) (av_jwt E) (clk 2) (bm_ID u) (u_Username u)
                               (cl_SessionID claims) (cl_ImpersonatorID claims) authorities)) (\<lambda>(access, expiry).
                      bindE (readE (\<lambda>_. IssueRefresh (av_lib E) (av_jwt E) (clk 3) (bm_ID u) (u_Username u)
                               (cl_SessionID claims) (cl_ImpersonatorID claims) authorities)) (\<lambda>(refresh, _).
                      \<lambda>db. (Inr \<lparr>at_AccessToken = access, at_RefreshToken = refresh, at_TokenType = ''Bearer'',
                                 at_ExpiresAt = expiry, at_UserID = bm_ID u, at_Username = u_Username u,
                                 at_SessionID = cl_SessionID claims, at_Authorities = authorities\<rparr>,
                            db\<lparr>ud_sessions := session_Touch (av_sessions E) (clk 4) (cl_SessionID claims) (ud_sessions db)\<rparr>)))) db)"

section \<open>Sessions of the caller\<close>

definition auth_Logout :: "auth_env \<Rightarrow> time \<Rightarrow> uint64 \<Rightarrow> ('x user_db_scheme, go_error, unit) op" where
  "auth_Logout E now sessionID = on_sessions (session_Revoke (av_sessions E) now sessionID ''user-logout'')"

definition auth_LogoutAll :: "auth_env \<Rightarrow> time \<Rightarrow> uint64 \<Rightarrow> ('x user_db_scheme, go_error, unit) op" where
  "auth_LogoutAll E now userID = on_sessions (session_RevokeAllForUser (av_sessions E) now userID ''user-logout-all'')"

definition auth_ListMySessions ::
  "auth_env \<Rightarrow> uint64 \<Rightarrow> uint64 \<Rightarrow> 'x user_db_scheme \<Rightarrow> go_error + SessionResponse list" where
  "auth_ListMySessions E userID currentSID db = session_ListForUser (av_sessions E) userID currentSID (ud_sessions db)"

definition auth_RevokeMySession :: "auth_env \<Rightarrow> time \<Rightarrow> uint64 \<Rightarrow> uint64 \<Rightarrow> ('x user_db_scheme, go_error, unit) op" where
  "auth_RevokeMySession E now userID sessionID =
     bindE (readE (\<lambda>db. session_GetByID (av_sessions E) sessionID (ud_sessions db))) (\<lambda>row.
     if us_UserID row \<noteq> userID then throwE (NotFound ''Session'' sessionID)
     else on_sessions (session_Revoke (av_sessions E) now sessionID ''user-revoked-device''))"

definition auth_Impersonate ::
  "auth_env \<Rightarrow> clock \<Rightarrow> uint64 \<Rightarrow> uint64 \<Rightarrow> string \<Rightarrow> string \<Rightarrow> ('x user_db_scheme, go_error, AuthResponse) op" where
  "auth_Impersonate E clk callerID targetID ua ip =
     (if callerID = targetID then throwE (BadRequest ''Cannot impersonate yourself'')
      else bindE (readE (user_repo_GetByID (av_users E) targetID)) (\<lambda>target.
           case target of
             None \<Rightarrow> throwE (NotFound ''User'' targetID)
           | Some target \<Rightarrow>
               if \<not> u_Enabled target then throwE (BadRequest ''Cannot impersonate a deactivated account'')
               else issueTokens E clk target callerID (''impersonation-by-'' @ FormatUint callerID) ua ip))"

section \<open>Password reset\<close>

definition hashToken :: "string \<Rightarrow> string" where
  "hashToken raw = EncodeToString (Sum256 raw)"

text \<open>\<open>rnd\<close> is what \<open>rand.Read\<close> puts into the 32-byte buffer.\<close>

definition generateResetToken :: "go_error + string \<Rightarrow> go_error + string \<times> string" where
  "generateResetToken rnd =
     (case rnd of Inl err \<Rightarrow> Inl err | Inr b \<Rightarrow> (let raw = EncodeToString b in Inr (raw, hashToken raw)))"

definition sendPasswordResetEmail :: "MailService \<Rightarrow> PasswordResetEmailPayload \<Rightarrow> Message \<times> (go_error + unit)" where
  "sendPasswordResetEmail M p =
     (let body = (case ml_Render M ''password-reset.html''
                         [(''Username'', pe_Username p), (''ResetURL'', pe_ResetURL p), (''TTL'', pe_TTL p)] of
                    Inl _ \<Rightarrow> ''Reset your password: '' @ pe_ResetURL p @ [char_of (10 :: nat)] @ ''(link expires in '' @ pe_TTL p @ '')''
                  | Inr b \<Rightarrow> b);
          msg = \<lparr>mm_To = [pe_Email p], mm_Subject = ''Reset your password'', mm_HTML = body, mm_Text = ''''\<rparr>
      in (msg, ml_Send M msg))"

text \<open>The goroutine started by \<open>Register\<close>; its error is dropped.\<close>

definition sendWelcome :: "auth_env \<Rightarrow> User \<Rightarrow> 'x auth_db_scheme \<Rightarrow> 'x auth_db_scheme" where
  "sendWelcome E u db =
     (if \<not> ml_Enabled (av_mail E) then db
      else let body = (case ml_Render (av_mail E) ''welcome.html''
                             [(''Username'', u_Username u), (''AppURL'', mc_AppURL (av_mailCfg E))] of
                         Inl _ \<Rightarrow> ''Welcome '' @ u_Username u @ ''! Visit '' @ mc_AppURL (av_mailCfg E) @ '' to get started.''
                       | Inr b \<Rightarrow> b)
           in post (EvMail \<lparr>mm_To = [u_Email u], mm_Subject = ''Welcome'', mm_HTML = body, mm_Text = ''''\<rparr>) db)"

definition auth_ForgotPassword ::
  "auth_env \<Rightarrow> go_error + string \<Rightarrow> clock \<Rightarrow> string \<Rightarrow> ('x, unit) auth_op" where
  "auth_ForgotPassword E rnd clk email = (\<lambda>db.
     case user_repo_GetByUsernameOrEmail (av_users E) email db of
       Inl _ \<Rightarrow> (Inr (), db)
     | Inr None \<Rightarrow> (Inr (), db)
     | Inr (Some u) \<Rightarrow>
         if \<not> u_Enabled u then (Inr (), db)
         else (case generateResetToken rnd of
            Inl _ \<Rightarrow> (Inr (), db)
          | Inr (rawToken, hash) \<Rightarrow>
              let row = \<lparr>rt_ID = 0, rt_UserID = bm_ID u, rt_TokenHash = hash,
                         rt_ExpiresAt = clk 0 + mc_PasswordResetTTL (av_mailCfg E), rt_ConsumedAt = None, rt_CreatedAt = clk 1\<rparr>
              in (case on_tokens (dbE (db_Create (av_tokens E) row)) db of
                    (Inl _, db) \<Rightarrow> (Inr (), db)
                  | (Inr _, db) \<Rightarrow>
                      let payload = \<lparr>pe_Email = u_Email u, pe_Username = u_Username u,
                                     pe_ResetURL = mc_AppURL (av_mailCfg E) @ ''/reset-password?token='' @ rawToken,
                                     pe_TTL = DurationString (mc_PasswordResetTTL (av_mailCfg E))\<rparr>
                      in (case av_Enqueue E TaskPasswordResetEmail payload of
                            Inr _ \<Rightarrow> (Inr (), post (EvEnqueue TaskPasswordResetEmail payload) db)
                          | Inl _ \<Rightarrow> (Inr (), post (EvMail (fst (sendPasswordResetEmail (av_mail E) payload))) db)))))"

definition auth_ResetPassword ::
  "auth_env \<Rightarrow> nat \<Rightarrow> clock \<Rightarrow> request_context option \<Rightarrow> ResetPasswordRequest \<Rightarrow> ('x, unit) auth_op" where
  "auth_ResetPassword E salt clk ctx req = (\<lambda>db.
     case db_First (av_tokens E) (\<lambda>r. rt_TokenHash r = hashToken (rp_Token req)) (ad_reset_tokens db) of
       Inl ErrRecordNotFound \<Rightarrow> (Inl (BadRequest ''Invalid or expired reset token''), db)
     | Inl err \<Rightarrow> (Inl (DbError err), db)
     | Inr row \<Rightarrow>
         if rt_ConsumedAt row \<noteq> None then (Inl (BadRequest ''Token has already been used''), db)
         else if clk 0 > rt_ExpiresAt row then (Inl (BadRequest ''Token has expired''), db)
         else bindE (readE (user_repo_GetByID (av_users E) (rt_UserID row))) (\<lambda>u.
              case u of
                None \<Rightarrow> throwE (BadRequest ''User no longer exists'')
              | Some u \<Rightarrow>
                  bindE (readE (\<lambda>_. HashPassword (av_bcrypt E) salt (rp_NewPassword req))) (\<lambda>hash.
                  bindE (user_repo_Update (av_users E) ctx (u\<lparr>u_PasswordHash := hash\<rparr>)) (\<lambda>u.
                  bindE (on_tokens (dbE (db_Save (av_tokens E) (row\<lparr>rt_ConsumedAt := Some (clk 1)\<rparr>)))) (\<lambda>_.
                  ignoreE (user_repo_IncrementTokenVersion (av_users E) ctx (bm_ID u))
                    (ignoreE (on_sessions (session_RevokeAllForUser (av_sessions E) (clk 2) (bm_ID u) ''password-reset''))
                      (returnE ())))))) db)"

definition auth_CleanupExpiredResetTokens :: "auth_env \<Rightarrow> time \<Rightarrow> ('x, int) auth_op" where
  "auth_CleanupExpiredResetTokens E now =
     on_tokens (dbE (db_Delete (av_tokens E) (\<lambda>r. rt_ExpiresAt r \<le> now \<or> rt_ConsumedAt r \<noteq> None)))"

section \<open>Endpoints\<close>

datatype auth_data = AuthTokens AuthResponse | AuthSessions "SessionResponse list"

type_synonym 'x auth_endpoint = "auth_data gin_context \<Rightarrow> ('x, auth_data ApiResponse) auth_op"

record auth_binders =
  ab_register :: "string \<Rightarrow> go_error + RegisterRequest"
  ab_login :: "string \<Rightarrow> go_error + LoginRequest"
  ab_refresh :: "string \<Rightarrow> go_error + string"
  ab_forgot :: "string \<Rightarrow> go_error + string"
  ab_reset :: "string \<Rightarrow> go_error + ResetPasswordRequest"

definition h_register :: "auth_env \<Rightarrow> auth_binders \<Rightarrow> nat \<Rightarrow> clock \<Rightarrow> 'x auth_endpoint" where
  "h_register E b salt clk c =
     bindE (readE (\<lambda>_. BindJSON (ab_register b) c)) (\<lambda>req.
     bindE (auth_Register E salt (later 1 clk) (Some (c_Context c)) req (c_UserAgent c) (c_ClientIP c)) (\<lambda>res.
     returnE (Created (clk 0) (Some (AuthTokens res)))))"

definition h_login :: "auth_env \<Rightarrow> auth_binders \<Rightarrow> clock \<Rightarrow> 'x auth_endpoint" where
  "h_login E b clk c =
     bindE (readE (\<lambda>_. BindJSON (ab_login b) c)) (\<lambda>req.
     bindE (auth_Login E (later 1 clk) req (c_UserAgent c) (c_ClientIP c)) (\<lambda>res.
     returnE (OK (clk 0) (Some (AuthTokens res)))))"

definition h_refresh :: "auth_env \<Rightarrow> auth_binders \<Rightarrow> clock \<Rightarrow> 'x auth_endpoint" where
  "h_refresh E b clk c =
     bindE (readE (\<lambda>_. BindJSON (ab_refresh b) c)) (\<lambda>tok.
     bindE (auth_Refresh E (later 1 clk) tok) (\<lambda>res.
     returnE (OK (clk 0) (Some (AuthTokens res)))))"

definition h_forgotPassword :: "auth_env \<Rightarrow> auth_binders \<Rightarrow> go_error + string \<Rightarrow> clock \<Rightarrow> 'x auth_endpoint" where
  "h_forgotPassword E b rnd clk c =
     bindE (readE (\<lambda>_. BindJSON (ab_forgot b) c)) (\<lambda>email.
     bindE (auth_ForgotPassword E rnd (later 1 clk) email) (\<lambda>_.
     returnE (MessageResponse (clk 0) ''If that email exists, a reset link has been sent'')))"

definition h_resetPassword :: "auth_env \<Rightarrow> auth_binders \<Rightarrow> nat \<Rightarrow> clock \<Rightarrow> 'x auth_endpoint" where
  "h_resetPassword E b salt clk c =
     bindE (readE (\<lambda>_. BindJSON (ab_reset b) c)) (\<lambda>req.
     bindE (auth_ResetPassword E salt (later 1 clk) (Some (c_Context c)) req) (\<lambda>_.
     returnE (MessageResponse (clk 0) ''Password reset'')))"

definition h_logout :: "auth_env \<Rightarrow> clock \<Rightarrow> 'x auth_endpoint" where
  "h_logout E clk c =
     bindE (readE (\<lambda>_. CurrentPrincipal c)) (\<lambda>p.
     bindE (auth_Logout E (clk 1) (p_SessionID p)) (\<lambda>_.
     returnE (MessageResponse (clk 0) ''Logged out'')))"

definition h_logoutAll :: "auth_env \<Rightarrow> clock \<Rightarrow> 'x auth_endpoint" where
  "h_logoutAll E clk c =
     bindE (readE (\<lambda>_. CurrentPrincipal c)) (\<lambda>p.
     bindE (auth_LogoutAll E (clk 1) (p_UserID p)) (\<lambda>_.
     returnE (MessageResponse (clk 0) ''All sessions revoked'')))"

definition h_mySessions :: "auth_env \<Rightarrow> clock \<Rightarrow> 'x auth_endpoint" where
  "h_mySessions E clk c =
     bindE (readE (\<lambda>_. CurrentPrincipal c)) (\<lambda>p.
     bindE (readE (auth_ListMySessions E (p_UserID p) (p_SessionID p))) (\<lambda>rs.
     returnE (OK (clk 0) (Some (AuthSessions rs)))))"

definition h_revokeSession :: "auth_env \<Rightarrow> clock \<Rightarrow> 'x auth_endpoint" where
  "h_revokeSession E clk c =
     bindE (readE (\<lambda>_. CurrentPrincipal c)) (\<lambda>p.
     bindE (readE (\<lambda>_. parseID c)) (\<lambda>sid.
     bindE (auth_RevokeMySession E (clk 1) (p_UserID p) sid) (\<lambda>_.
     returnE (MessageResponse (clk 0) ''Session revoked''))))"

definition h_impersonate :: "auth_env \<Rightarrow> clock \<Rightarrow> 'x auth_endpoint" where
  "h_impersonate E clk c =
     bindE (readE (\<lambda>_. CurrentPrincipal c)) (\<lambda>p.
     bindE (readE (\<lambda>_. case ParseUint (c_Param c ''userId'') of
                         Some n \<Rightarrow> Inr n | None \<Rightarrow> Inl (BadRequest ''Invalid userId''))) (\<lambda>target.
     bindE (auth_Impersonate E (later 1 clk) (p_UserID p) target (c_UserAgent c) (c_ClientIP c)) (\<lambda>res.
     returnE (OK (clk 0) (Some (AuthTokens res))))))"

datatype auth_route =
  AuthRouteRegister | AuthRouteLogin | AuthRouteRefresh | AuthRouteForgot | AuthRouteReset
  | AuthRouteLogout | AuthRouteLogoutAll | AuthRouteSessions | AuthRouteRevoke | AuthRouteImpersonate

fun auth_public :: "auth_route \<Rightarrow> bool" where
  "auth_public AuthRouteRegister = True"
| "auth_public AuthRouteLogin = True"
| "auth_public AuthRouteRefresh = True"
| "auth_public AuthRouteForgot = True"
| "auth_public AuthRouteReset = True"
| "auth_public _ = False"

text \<open>
  \<open>Register\<close> of the handler: the public routes bare, the others behind \<open>requireAuth\<close>, the
  impersonation route also behind its permission.  The last four arguments are the salt and the
  random bytes a request draws, the clock and the route.
\<close>

definition auth_routes ::
  "auth_env \<Rightarrow> auth_binders \<Rightarrow> nat \<Rightarrow> go_error + string \<Rightarrow> clock \<Rightarrow> auth_route \<Rightarrow> ('x auth_db_scheme, auth_data) handler" where
  "auth_routes E b salt rnd clk route =
     (let clk' = later 3 clk;
          h = Handler (clk 2) (endpoint
            (case route of
               AuthRouteRegister \<Rightarrow> h_register E b salt clk'
             | AuthRouteLogin \<Rightarrow> h_login E b clk'
             | AuthRouteRefresh \<Rightarrow> h_refresh E b clk'
             | AuthRouteForgot \<Rightarrow> h_forgotPassword E b rnd clk'
             | AuthRouteReset \<Rightarrow> h_resetPassword E b salt clk'
             | AuthRouteLogout \<Rightarrow> h_logout E clk'
             | AuthRouteLogoutAll \<Rightarrow> h_logoutAll E clk'
             | AuthRouteSessions \<Rightarrow> h_mySessions E clk'
             | AuthRouteRevoke \<Rightarrow> h_revokeSession E clk'
             | AuthRouteImpersonate \<Rightarrow> h_impersonate E clk'));
          h = (if route = AuthRouteImpersonate then HasPermission (clk 1) [UserImpersonate] h else h)
      in if auth_public route then h else RequireAuth (clk 0) h)"

text \<open>The session service as the middleware sees it inside the whole state.\<close>

definition db_sv :: "UserSession gorm \<Rightarrow> ('x user_db_scheme) SessionValidator" where
  "db_sv G = \<lparr>sv_Validate = (\<lambda>now sid uid db. session_Validate G now sid uid (ud_sessions db)),
             sv_Touch = (\<lambda>now sid db. db\<lparr>ud_sessions := session_Touch G now sid (ud_sessions db)\<rparr>)\<rparr>"

definition db_active :: "time \<Rightarrow> uint64 \<Rightarrow> uint64 \<Rightarrow> 'x user_db_scheme \<Rightarrow> bool" where
  "db_active now sid uid db = session_active now sid uid (ud_sessions db)"

sublocale session_store \<subseteq> dbv: session_validator "db_sv G" db_active
  by unfold_locales (auto simp: db_sv_def db_active_def Touch_active intro: Validate_sound)

section \<open>The service over tables and libraries that obey their laws\<close>

definition token_filled :: "PasswordResetToken \<Rightarrow> PasswordResetToken \<Rightarrow> bool" where
  "token_filled r r' = (r' = r\<lparr>rt_ID := rt_ID r'\<rparr>)"

text \<open>Every row with this hash has been consumed (or there is none).\<close>

definition token_spent :: "string \<Rightarrow> PasswordResetToken table \<Rightarrow> bool" where
  "token_spent h t = list_all (\<lambda>r. rt_TokenHash r = h \<longrightarrow> rt_ConsumedAt r \<noteq> None) (rows t)"

abbreviation tokens_ok :: "PasswordResetToken table \<Rightarrow> bool" where
  "tokens_ok t \<equiv> table_ok rt_ID (unique_on rt_TokenHash) t"

locale auth_service =
  us: user_store "av_users E" + ss: session_store "av_sessions E" +
  ts: gorm_hard "av_tokens E" rt_ID token_filled "unique_on rt_TokenHash" +
  jl: jwt_library "av_lib E" + bl: bcrypt_library "av_bcrypt E"
  for E :: auth_env
begin

lemma issueTokens_ok:
  assumes "issueTokens E clk u imp dev ua ip db = (Inr resp, db')"
  obtains s rexp where
    "session_Create (av_sessions E) (clk 1) (bm_ID u) imp (clk 0 + js_refreshTTL (av_jwt E)) dev ua ip (ud_sessions db)
       = (Inr s, ud_sessions db')"
    "db' = db\<lparr>ud_sessions := ud_sessions db'\<rparr>"
    "issue (av_lib E) (av_jwt E) (clk 2) (bm_ID u) (u_Username u) (us_ID s) imp (AuthoritiesOf u) TokenTypeAccess (js_accessTTL (av_jwt E))
       = Inr (at_AccessToken resp, at_ExpiresAt resp)"
    "issue (av_lib E) (av_jwt E) (clk 3) (bm_ID u) (u_Username u) (us_ID s) imp (AuthoritiesOf u) TokenTypeRefresh (js_refreshTTL (av_jwt E))
       = Inr (at_RefreshToken resp, rexp)"
    "at_SessionID resp = us_ID s" "at_UserID resp = bm_ID u" "at_Authorities resp = AuthoritiesOf u"
  using assms that unfolding issueTokens_def Let_def IssueAccess_def IssueRefresh_def on_sessions_def
  by (fastforce simp: bindE_Inr zoomE_eq)

lemma issueTokens_session:
  assumes "issueTokens E clk u imp dev ua ip db = (Inr resp, db')"
  shows "now < clk 0 + js_refreshTTL (av_jwt E) \<Longrightarrow> db_active now (at_SessionID resp) (bm_ID u) db'"
    and "at_SessionID resp \<noteq> 0" "next_id (ud_sessions db) \<le> unat (at_SessionID resp)"
    and "list_ex (\<lambda>r. us_ID r = at_SessionID resp \<and> us_UserID r = bm_ID u \<and> us_ImpersonatorID r = imp) (rows (ud_sessions db'))"
proof -
  obtain s where c: "session_Create (av_sessions E) (clk 1) (bm_ID u) imp (clk 0 + js_refreshTTL (av_jwt E)) dev ua ip (ud_sessions db)
       = (Inr s, ud_sessions db')" and sid: "at_SessionID resp = us_ID s"
    using assms by (rule issueTokens_ok)
  have r: "rows (ud_sessions db') = rows (ud_sessions db) @ [s]" "0 < unat (us_ID s)"
    "next_id (ud_sessions db) \<le> unat (us_ID s)" "us_UserID s = bm_ID u" "us_ImpersonatorID s = imp"
    "us_ExpiresAt s = clk 0 + js_refreshTTL (av_jwt E)" "us_RevokedAt s = None"
    by (use c in \<open>cases rule: ss.Create_cases; simp\<close>)+
  show "now < clk 0 + js_refreshTTL (av_jwt E) \<Longrightarrow> db_active now (at_SessionID resp) (bm_ID u) db'"
    using r by (simp add: db_active_def session_active_def sid)
  show "at_SessionID resp \<noteq> 0" using r(2) by (auto simp: sid)
  show "next_id (ud_sessions db) \<le> unat (at_SessionID resp)" using r(3) by (simp add: sid)
  show "list_ex (\<lambda>r. us_ID r = at_SessionID resp \<and> us_UserID r = bm_ID u \<and> us_ImpersonatorID r = imp) (rows (ud_sessions db'))"
    using r by (simp add: sid)
qed

text \<open>The expiry announced to the client, and the state of the sessions table after issuing.\<close>

lemma issueTokens_table:
  assumes "issueTokens E clk u imp dev ua ip db = (Inr resp, db')" "table_ok us_ID (\<lambda>_. True) (ud_sessions db)"
  shows "table_ok us_ID (\<lambda>_. True) (ud_sessions db')" "at_ExpiresAt resp = clk 2 + js_accessTTL (av_jwt E)"
proof -
  obtain s where c: "session_Create (av_sessions E) (clk 1) (bm_ID u) imp (clk 0 + js_refreshTTL (av_jwt E)) dev ua ip (ud_sessions db)
       = (Inr s, ud_sessions db')"
    and a: "issue (av_lib E) (av_jwt E) (clk 2) (bm_ID u) (u_Username u) (us_ID s) imp (AuthoritiesOf u) TokenTypeAccess (js_accessTTL (av_jwt E))
       = Inr (at_AccessToken resp, at_ExpiresAt resp)"
    using assms(1) by (rule issueTokens_ok)
  have "session_step (av_sessions E) (ud_sessions db) (snd (session_Create (av_sessions E) (clk 1) (bm_ID u) imp (clk 0 + js_refreshTTL (av_jwt E)) dev ua ip (ud_sessions db)))"
    by (rule session_step.intros)
  then show "table_ok us_ID (\<lambda>_. True) (ud_sessions db')" unfolding c snd_conv using assms(2) by (rule ss.step_table_ok)
  show "at_ExpiresAt resp = clk 2 + js_accessTTL (av_jwt E)"
    using a by (auto simp: issue_def Let_def split: sum.splits)
qed

text \<open>Both tokens name the new session, the user and the impersonator.\<close>

lemma issueTokens_tokens:
  assumes "issueTokens E clk u imp dev ua ip db = (Inr resp, db')"
    and "clk 2 \<le> now" "clk 3 \<le> now" "now \<le> at_ExpiresAt resp - second"
    and "now \<le> clk 3 + js_refreshTTL (av_jwt E) - second"
  obtains a r where
    "jwt_Parse (av_lib E) (av_jwt E) now (at_AccessToken resp) = Inr a" "cl_Type a = TokenTypeAccess"
    "principal_of a = \<lparr>p_UserID = bm_ID u, p_Username = u_Username u, p_SessionID = at_SessionID resp,
                       p_ImpersonatorID = imp, p_Authorities = AuthoritiesOf u\<rparr>"
    "jwt_Parse (av_lib E) (av_jwt E) now (at_RefreshToken resp) = Inr r" "cl_Type r = TokenTypeRefresh"
    "principal_of r = principal_of a"
    "at_AccessToken resp \<noteq> []" "\<not> is_space (hd (at_AccessToken resp))" "\<not> is_space (last (at_AccessToken resp))"
    "at_RefreshToken resp \<noteq> []" "\<not> is_space (hd (at_RefreshToken resp))" "\<not> is_space (last (at_RefreshToken resp))"
proof -
  obtain s :: UserSession and rexp where a: "issue (av_lib E) (av_jwt E) (clk 2) (bm_ID u) (u_Username u) (us_ID s) imp (AuthoritiesOf u) TokenTypeAccess (js_accessTTL (av_jwt E))
       = Inr (at_AccessToken resp, at_ExpiresAt resp)"
    and r: "issue (av_lib E) (av_jwt E) (clk 3) (bm_ID u) (u_Username u) (us_ID s) imp (AuthoritiesOf u) TokenTypeRefresh (js_refreshTTL (av_jwt E))
       = Inr (at_RefreshToken resp, rexp)" and sid: "at_SessionID resp = us_ID s"
    using assms(1) by (rule issueTokens_ok)
  have "rexp = clk 3 + js_refreshTTL (av_jwt E)" using r by (auto simp: issue_def Let_def split: sum.splits)
  then show thesis
    using that [OF jl.Parse_issue [OF a assms(2,4)] _ _ jl.Parse_issue [OF r assms(3)]] assms(5)
      jl.issue_shape [OF a] jl.issue_shape [OF r]
    by (simp add: issue_claims_def principal_of_def sid)
qed

lemma GetByUsernameOrEmail_Some:
  assumes "user_repo_GetByUsernameOrEmail (av_users E) ident db = Inr (Some u)"
  obtains x where "x \<in> set (rows (ud_users db))" "base_live x" "u_Username x = ident \<or> u_Email x = ident"
    "u = x\<lparr>u_Roles := u_Roles u\<rparr>" "bm_ID u = bm_ID x" "u_PasswordHash u = u_PasswordHash x" "u_Enabled u = u_Enabled x"
    "u_Username u = u_Username x" "set (AuthoritiesOf u) = granted db (bm_ID x)"
proof -
  obtain x where x: "first_opt (ug_users (av_users E)) (\<lambda>r. u_Username r = ident \<or> u_Email r = ident) (ud_users db) = Inr (Some x)"
    "preload_roles (av_users E) db x = Inr u"
    using assms by (auto simp: user_repo_GetByUsernameOrEmail_def preload_opt_def split: sum.splits option.splits)
  note f = us.users.first_opt_Some [OF x(1)]
  from x(2) show thesis
    by (rule us.preload_roles_Inr) (use f that [of x] in \<open>simp add: AuthoritiesOf_nub\<close>)
qed

lemma Login_steps:
  assumes "auth_Login E clk req ua ip db = (Inr resp, db')"
  obtains u where "user_repo_GetByUsernameOrEmail (av_users E) (lr_UsernameOrEmail req) db = Inr (Some u)"
    "CheckPassword (av_bcrypt E) (u_PasswordHash u) (lr_Password req)" "u_Enabled u"
    "issueTokens E clk u 0 (deviceNameFromUserAgent ua) ua ip db = (Inr resp, db')"
  using assms that unfolding auth_Login_def by (auto simp: bindE_Inr split: option.splits if_splits)

lemma Refresh_steps:
  assumes "auth_Refresh E clk tok db = (Inr resp, db')"
  obtains cl u where "jwt_Parse (av_lib E) (av_jwt E) (clk 0) tok = Inr cl" "cl_Type cl = TokenTypeRefresh"
    "cl_SessionID cl \<noteq> 0 \<longrightarrow> db_active (clk 1) (cl_SessionID cl) (cl_UserID cl) db"
    "user_repo_GetByID (av_users E) (cl_UserID cl) db = Inr (Some u)" "u_Enabled u"
    "at_SessionID resp = cl_SessionID cl" "at_Authorities resp = AuthoritiesOf u" "at_UserID resp = bm_ID u"
    "db' = db\<lparr>ud_sessions := session_Touch (av_sessions E) (clk 4) (cl_SessionID cl) (ud_sessions db)\<rparr>"
proof -
  obtain cl where cl: "jwt_Parse (av_lib E) (av_jwt E) (clk 0) tok = Inr cl"
    using assms by (auto simp: auth_Refresh_def split: sum.splits)
  moreover have ty: "cl_Type cl = TokenTypeRefresh"
    and v: "\<not> (cl_SessionID cl \<noteq> 0 \<and> session_Validate (av_sessions E) (clk 1) (cl_SessionID cl) (cl_UserID cl) (ud_sessions db) \<noteq> Inr ())"
    using assms cl by (auto simp: auth_Refresh_def split: if_splits)
  moreover have "cl_SessionID cl \<noteq> 0 \<longrightarrow> db_active (clk 1) (cl_SessionID cl) (cl_UserID cl) db"
    using v ss.Validate_sound by (auto simp: db_active_def)
  moreover obtain u where "user_repo_GetByID (av_users E) (cl_UserID cl) db = Inr (Some u)" "u_Enabled u"
    "at_SessionID resp = cl_SessionID cl" "at_Authorities resp = AuthoritiesOf u" "at_UserID resp = bm_ID u"
    "db' = db\<lparr>ud_sessions := session_Touch (av_sessions E) (clk 4) (cl_SessionID cl) (ud_sessions db)\<rparr>"
    using assms cl ty v unfolding auth_Refresh_def by (auto simp: bindE_Inr Let_def split: option.splits if_splits)
  ultimately show thesis using that by blast
qed

lemma Reset_steps:
  assumes "auth_ResetPassword E salt clk ctx req db = (Inr (), db')"
  obtains row u hash u' db1 t r where
    "row \<in> set (rows (ad_reset_tokens db))" "rt_TokenHash row = hashToken (rp_Token req)" "rt_ConsumedAt row = None"
    "clk 0 \<le> rt_ExpiresAt row" "user_repo_GetByID (av_users E) (rt_UserID row) db = Inr (Some u)"
    "HashPassword (av_bcrypt E) salt (rp_NewPassword req) = Inr hash"
    "user_repo_Update (av_users E) ctx (u\<lparr>u_PasswordHash := hash\<rparr>) db = (Inr u', db1)"
    "db_Save (av_tokens E) (row\<lparr>rt_ConsumedAt := Some (clk 1)\<rparr>) (ad_reset_tokens db1) = (Inr r, t)"
    "db' = snd (on_sessions (session_RevokeAllForUser (av_sessions E) (clk 2) (bm_ID u') ''password-reset'')
                 (snd (user_repo_IncrementTokenVersion (av_users E) ctx (bm_ID u') (db1\<lparr>ad_reset_tokens := t\<rparr>))))"
proof -
  obtain row where f: "db_First (av_tokens E) (\<lambda>r. rt_TokenHash r = hashToken (rp_Token req)) (ad_reset_tokens db) = Inr row"
    using assms by (auto simp: auth_ResetPassword_def split: sum.splits db_error.splits)
  have c: "rt_ConsumedAt row = None" "clk 0 \<le> rt_ExpiresAt row"
    using assms f by (auto simp: auth_ResetPassword_def split: if_splits)
  obtain u hash u' db1 t r where
    "user_repo_GetByID (av_users E) (rt_UserID row) db = Inr (Some u)"
    "HashPassword (av_bcrypt E) salt (rp_NewPassword req) = Inr hash"
    "user_repo_Update (av_users E) ctx (u\<lparr>u_PasswordHash := hash\<rparr>) db = (Inr u', db1)"
    "db_Save (av_tokens E) (row\<lparr>rt_ConsumedAt := Some (clk 1)\<rparr>) (ad_reset_tokens db1) = (Inr r, t)"
    "db' = snd (on_sessions (session_RevokeAllForUser (av_sessions E) (clk 2) (bm_ID u') ''password-reset'')
                 (snd (user_repo_IncrementTokenVersion (av_users E) ctx (bm_ID u') (db1\<lparr>ad_reset_tokens := t\<rparr>))))"
    using assms f c unfolding auth_ResetPassword_def
    by (auto simp: bindE_Inr ignoreE_def on_tokens_def zoomE_eq split: option.splits)
  then show thesis using that c ts.First_found [OF f] by blast
qed

lemma Reset_spent_fails:
  assumes "token_spent (hashToken (rp_Token req)) (ad_reset_tokens db)"
  shows "\<exists>e. auth_ResetPassword E salt clk ctx req db = (Inl e, db)
             \<and> (e = BadRequest ''Token has already been used'' \<or> e = BadRequest ''Invalid or expired reset token''
                \<or> (\<exists>d. e = DbError d))"
proof (cases "db_First (av_tokens E) (\<lambda>r. rt_TokenHash r = hashToken (rp_Token req)) (ad_reset_tokens db)")
  case (Inl d)
  then show ?thesis by (cases d) (auto simp: auth_ResetPassword_def)
next
  case (Inr row)
  then have "rt_ConsumedAt row \<noteq> None"
    using assms ts.First_found [OF Inr] by (auto simp: token_spent_def list_all_iff)
  then show ?thesis using Inr by (simp add: auth_ResetPassword_def)
qed

lemma Cleanup_spent:
  assumes "token_spent h (ad_reset_tokens db)" "auth_CleanupExpiredResetTokens E now db = (res, db')"
  shows "token_spent h (ad_reset_tokens db')"
proof -
  obtain t where t: "dbE (db_Delete (av_tokens E) (\<lambda>r. rt_ExpiresAt r \<le> now \<or> rt_ConsumedAt r \<noteq> None)) (ad_reset_tokens db) = (res, t)"
    "db' = db\<lparr>ad_reset_tokens := t\<rparr>"
    using assms(2) by (auto simp: auth_CleanupExpiredResetTokens_def on_tokens_def zoomE_eq)
  show ?thesis
  proof (cases res)
    case (Inl e)
    then have "t = ad_reset_tokens db" using t(1) by (auto simp: dbE_Inl dest: ts.Delete_failed)
    then show ?thesis using assms(1) by (simp add: t(2))
  next
    case (Inr n)
    then have "rows t = filter (\<lambda>r. \<not> (rt_ExpiresAt r \<le> now \<or> rt_ConsumedAt r \<noteq> None)) (rows (ad_reset_tokens db))"
      using t(1) by (auto dest: ts.Delete_rows)
    then show ?thesis using assms(1) by (auto simp: t(2) token_spent_def list_all_iff)
  qed
qed

lemma on_sessions_frame:
  "snd (on_sessions m db) = db\<lparr>ud_sessions := ud_sessions (snd (on_sessions m db))\<rparr>"
  by (simp add: on_sessions_def zoomE_def split: prod.splits)

lemma Reset_effect:
  assumes "tokens_ok (ad_reset_tokens db)" "auth_ResetPassword E salt clk ctx req db = (Inr (), db')"
  obtains row hash where "row \<in> set (rows (ad_reset_tokens db))" "rt_TokenHash row = hashToken (rp_Token req)"
    "rt_ConsumedAt row = None" "clk 0 \<le> rt_ExpiresAt row" "token_spent (hashToken (rp_Token req)) (ad_reset_tokens db')"
    "CheckPassword (av_bcrypt E) hash (rp_NewPassword req)"
    "list_all (\<lambda>r. base_live r \<and> bm_ID r = rt_UserID row \<longrightarrow> u_PasswordHash r = hash) (rows (ud_users db'))"
    "\<exists>t. ud_sessions db' = snd (session_RevokeAllForUser (av_sessions E) (clk 2) (rt_UserID row) ''password-reset'' t)"
proof -
  obtain row u hash u' db1 t r where
    row: "row \<in> set (rows (ad_reset_tokens db))" "rt_TokenHash row = hashToken (rp_Token req)" "rt_ConsumedAt row = None"
    "clk 0 \<le> rt_ExpiresAt row"
    and u: "user_repo_GetByID (av_users E) (rt_UserID row) db = Inr (Some u)"
    and hash: "HashPassword (av_bcrypt E) salt (rp_NewPassword req) = Inr hash"
    and up: "user_repo_Update (av_users E) ctx (u\<lparr>u_PasswordHash := hash\<rparr>) db = (Inr u', db1)"
    and sv: "db_Save (av_tokens E) (row\<lparr>rt_ConsumedAt := Some (clk 1)\<rparr>) (ad_reset_tokens db1) = (Inr r, t)"
    and db': "db' = snd (on_sessions (session_RevokeAllForUser (av_sessions E) (clk 2) (bm_ID u') ''password-reset'')
                 (snd (user_repo_IncrementTokenVersion (av_users E) ctx (bm_ID u') (db1\<lparr>ad_reset_tokens := t\<rparr>))))"
    using assms(2) by (rule Reset_steps)
  obtain uid: "bm_ID u = rt_UserID row" "base_live u" using u by (rule us.GetByID_Some)
  have c: "bm_ID (u\<lparr>u_PasswordHash := hash\<rparr>) = rt_UserID row" "base_live (u\<lparr>u_PasswordHash := hash\<rparr>)"
    "u_Roles (u\<lparr>u_PasswordHash := hash\<rparr>) = u_Roles u"
    using uid by (simp_all add: base_live_def)
  obtain x ut j where up1: "db1 = db\<lparr>ud_users := ut, ud_user_roles := j\<rparr>"
    "rows ut = map (\<lambda>y. if base_live y \<and> bm_ID y = rt_UserID row then x else y) (rows (ud_users db))"
    "base_touched (user_columns (setUpdatedBy ctx (u\<lparr>u_PasswordHash := hash\<rparr>))) x" "u' = x\<lparr>u_Roles := u_Roles u\<rparr>"
    using u c up by (rule us.repo_Update_ok) (simp only: c(3))
  have x: "u_PasswordHash x = hash" "bm_ID x = rt_UserID row"
    using up1(3) uid by (auto simp: base_touched_def user_columns_def setUpdatedBy_def Let_def)
  have rt: "ad_reset_tokens db1 = ad_reset_tokens db" by (simp add: up1(1))
  have r: "r = row\<lparr>rt_ConsumedAt := Some (clk 1)\<rparr>" "rows t = map (\<lambda>y. if rt_ID y = rt_ID row then r else y) (rows (ad_reset_tokens db))"
    using ts.Save_ok [OF sv [unfolded rt] row(1)] by auto
  obtain ir idb where inc: "user_repo_IncrementTokenVersion (av_users E) ctx (bm_ID u') (db1\<lparr>ad_reset_tokens := t\<rparr>) = (ir, idb)" by fastforce
  have idb: "idb = db1\<lparr>ad_reset_tokens := t, ud_users := ud_users idb\<rparr>"
      "map user_core (rows (ud_users idb)) = map user_core (rows ut)"
    using us.Increment_core [OF inc] by (simp_all add: up1(1))
  have "bm_ID u' = rt_UserID row" using x(2) by (simp add: up1(4))
  then have db'_eq: "db' = idb\<lparr>ud_sessions := snd (session_RevokeAllForUser (av_sessions E) (clk 2) (rt_UserID row) ''password-reset'' (ud_sessions idb))\<rparr>"
    unfolding db' inc by (simp add: on_sessions_def zoomE_def split: prod.splits)
  have tok: "ad_reset_tokens db' = t" unfolding db'_eq by (subst idb(1)) simp
  have key: "y = row" if "y \<in> set (rows (ad_reset_tokens db))" "rt_TokenHash y = rt_TokenHash row" for y
    using that row(1) assms(1) by (auto simp: table_ok_def unique_on_def distinct_map dest: inj_onD)
  show thesis
  proof (rule that [OF row])
    show "token_spent (hashToken (rp_Token req)) (ad_reset_tokens db')"
      using key row(2) unfolding token_spent_def tok r(2) list_all_map by (auto simp: list_all_iff r(1))
    show "CheckPassword (av_bcrypt E) hash (rp_NewPassword req)" by (rule bl.Check_Hash [OF hash])
    have core: "u_PasswordHash z = hash" if z: "z \<in> set (rows (ud_users idb))" "base_live z" "bm_ID z = rt_UserID row" for z
    proof -
      obtain y where "y \<in> set (rows ut)" "user_core y = user_core z" using us.core_rows [OF idb(2) z(1)] by blast
      then show ?thesis using z(2,3) x(1) unfolding up1(2) by (auto simp: user_core_def base_live_def split: if_splits)
    qed
    then show "list_all (\<lambda>r. base_live r \<and> bm_ID r = rt_UserID row \<longrightarrow> u_PasswordHash r = hash) (rows (ud_users db'))"
      by (simp add: db'_eq list_all_iff)
    show "\<exists>t. ud_sessions db' = snd (session_RevokeAllForUser (av_sessions E) (clk 2) (rt_UserID row) ''password-reset'' t)"
      by (rule exI [of _ "ud_sessions idb"]) (simp add: db'_eq)
  qed
qed

end

section \<open>An access token of a live session is accepted\<close>

locale auth_service_live = auth_service E + sl: session_store_live "av_sessions E"
  for E :: auth_env
begin

lemma JWTAuth_accepts:
  assumes "issueTokens E clk u imp dev ua ip db = (Inr resp, db')" "table_ok us_ID (\<lambda>_. True) (ud_sessions db')"
    and "clk 2 \<le> ck 0" "clk 3 \<le> ck 0" "ck 0 \<le> at_ExpiresAt resp - second"
    and "ck 0 \<le> clk 3 + js_refreshTTL (av_jwt E) - second" "ck 1 < clk 0 + js_refreshTTL (av_jwt E)"
    and "c_Header c ''Authorization'' = ''Bearer '' @ at_AccessToken resp"
  shows "JWTAuth (av_lib E) (av_jwt E) (Some (db_sv (av_sessions E))) ck next_h (db', c)
         = next_h (sv_Touch (db_sv (av_sessions E)) (ck 2) (at_SessionID resp) db',
                   set_principal \<lparr>p_UserID = bm_ID u, p_Username = u_Username u, p_SessionID = at_SessionID resp,
                                  p_ImpersonatorID = imp, p_Authorities = AuthoritiesOf u\<rparr> c)"
proof -
  let ?p = "\<lparr>p_UserID = bm_ID u, p_Username = u_Username u, p_SessionID = at_SessionID resp,
             p_ImpersonatorID = imp, p_Authorities = AuthoritiesOf u\<rparr>"
  obtain a where a: "jwt_Parse (av_lib E) (av_jwt E) (ck 0) (at_AccessToken resp) = Inr a" "cl_Type a = TokenTypeAccess"
      "principal_of a = ?p"
      "at_AccessToken resp \<noteq> []" "\<not> is_space (hd (at_AccessToken resp))" "\<not> is_space (last (at_AccessToken resp))"
    by (rule issueTokens_tokens [OF assms(1,3,4,5,6)]) (rule that, assumption+)
  have "cl_SessionID a = at_SessionID resp" "cl_UserID a = bm_ID u"
    using a(3) by (simp_all add: principal_of_def)
  moreover have "session_active (ck 1) (at_SessionID resp) (bm_ID u) (ud_sessions db')"
    using issueTokens_session(1) [OF assms(1,7)] by (simp add: db_active_def)
  ultimately have "session_Validate (av_sessions E) (ck 1) (cl_SessionID a) (cl_UserID a) (ud_sessions db') = Inr ()"
    using sl.Validate_active [OF assms(2)] by simp
  then show ?thesis
    using a extractBearer_Bearer [OF a(4-6)] issueTokens_session(2) [OF assms(1)] assms(8) \<open>cl_SessionID a = _\<close>
    by (simp add: JWTAuth_def Let_def db_sv_def)
qed

end

section \<open>An instance\<close>

definition mem_tokens :: "PasswordResetToken gorm" where
  "mem_tokens = mem_gorm rt_ID (\<lambda>k r. r\<lparr>rt_ID := k\<rparr>) (\<lambda>_. True) (\<lambda>_. None) (unique_on rt_TokenHash)"

definition demo_env :: auth_env where
  "demo_env =
     \<lparr>av_users = mem_user_gorm, av_sessions = mem_sessions, av_tokens = mem_tokens, av_lib = plain_jwt,
      av_jwt = demo_jwt, av_bcrypt = plain_bcrypt,
      av_mail = \<lparr>ml_Enabled = False, ml_Render = (\<lambda>_ _. Inl (PlainError ''no templates'')), ml_Send = (\<lambda>_. Inr ())\<rparr>,
      av_mailCfg = demo_mail_cfg,
      av_Enqueue = (\<lambda>_ _. Inl (PlainError ''queue not installed''))\<rparr>"

lemma demo_env_simps [simp]:
  "av_users demo_env = mem_user_gorm" "av_sessions demo_env = mem_sessions" "av_tokens demo_env = mem_tokens"
  "av_lib demo_env = plain_jwt" "av_jwt demo_env = demo_jwt" "av_bcrypt demo_env = plain_bcrypt"
  by (simp_all add: demo_env_def)

lemma mem_tokens_hard: "gorm_hard mem_tokens rt_ID token_filled (unique_on rt_TokenHash)"
  unfolding mem_tokens_def
  by (rule mem_gorm_hard) (auto simp: token_filled_def unique_on_def distinct_map_filter)

interpretation demo_auth: auth_service_live demo_env
  unfolding auth_service_live_def auth_service_def
  using mem_user_gorm_store mem_sessions.session_store_axioms mem_tokens_hard plain_jwt.jwt_library_axioms
    plain_bcrypt.bcrypt_library_axioms mem_sessions.session_store_live_axioms by simp

definition demo_auth_db :: auth_db where
  "demo_auth_db =
     \<lparr>rd_permissions = rd_permissions demo_role_db, rd_roles = rd_roles demo_role_db,
      rd_role_permissions = rd_role_permissions demo_role_db,
      ud_users = \<lparr>rows = [demo_user 7 ''ada'', demo_user 8 ''bob''], next_id = 9\<rparr>,
      ud_user_roles = [(7, 1), (8, 2)], ud_sessions = demo_sessions,
      ad_reset_tokens = \<lparr>rows = [\<lparr>rt_ID = 1, rt_UserID = 7, rt_TokenHash = hashToken ''tok'', rt_ExpiresAt = 100,
                                  rt_ConsumedAt = None, rt_CreatedAt = 0\<rparr>], next_id = 2\<rparr>,
      ad_outbox = []\<rparr>"

lemmas demo_auth_defs = demo_auth_db_def demo_user_def demo_role_defs

lemma mem_sessions_Create:
  "session_Create mem_sessions now uid imp expi dev ua ip t =
     (let r = \<lparr>us_ID = of_nat (max 1 (next_id t)), us_UserID = uid, us_ImpersonatorID = imp, us_DeviceName = dev,
        us_UserAgent = ua, us_IPAddress = ip, us_IssuedAt = now, us_LastUsedAt = now,
        us_ExpiresAt = expi, us_RevokedAt = None, us_RevokedReason = ''''\<rparr>
      in if next_id t < 2 ^ 63 then (Inr r, \<lparr>rows = rows t @ [r], next_id = Suc (max 1 (next_id t))\<rparr>)
         else (Inl (DbError (DbFailure ''insert'')), t))"
  by (simp add: session_Create_def dbE_def mem_sessions_def mem_gorm_def Let_def)

lemma demo_issueTokens: "\<exists>resp. fst (issueTokens demo_env clk u imp dev ua ip demo_auth_db) = Inr resp"
  by (simp add: issueTokens_def bindE_def on_sessions_def zoomE_def mem_sessions_Create demo_auth_db_def demo_sessions_def
      IssueAccess_def IssueRefresh_def issue_def plain_jwt_Sign Let_def)

lemma demo_Login:
  "\<exists>resp db'. auth_Login demo_env clk \<lparr>lr_UsernameOrEmail = ''ada'', lr_Password = ''secret-pw''\<rparr> ua ip demo_auth_db = (Inr resp, db')"
proof -
  obtain u where "user_repo_GetByUsernameOrEmail mem_user_gorm ''ada'' demo_auth_db = Inr (Some u)"
    "u_PasswordHash u = ''$secret-pw''" "u_Enabled u"
    by (simp add: user_repo_GetByUsernameOrEmail_def user_run_defs mem_user_defs demo_auth_defs)
  then have "auth_Login demo_env clk \<lparr>lr_UsernameOrEmail = ''ada'', lr_Password = ''secret-pw''\<rparr> ua ip demo_auth_db
      = issueTokens demo_env clk u 0 (deviceNameFromUserAgent ua) ua ip demo_auth_db"
    by (simp add: auth_Login_def bindE_def CheckPassword_def plain_bcrypt_def)
  then show ?thesis using demo_issueTokens by (metis eq_fst_iff)
qed

lemma demo_GetByID_auth:
  "\<exists>u. user_repo_GetByID mem_user_gorm 7 demo_auth_db = Inr (Some u) \<and> u_Enabled u"
  "\<exists>u. user_repo_GetByID mem_user_gorm 8 demo_auth_db = Inr (Some u) \<and> u_Enabled u"
  by (simp_all add: user_run_defs mem_user_defs demo_auth_defs)

lemma demo_Impersonate:
  "\<exists>resp db'. auth_Impersonate demo_env clk 7 8 ua ip demo_auth_db = (Inr resp, db')"
proof -
  obtain u where "user_repo_GetByID mem_user_gorm 8 demo_auth_db = Inr (Some u)" "u_Enabled u"
    using demo_GetByID_auth by blast
  then show ?thesis
    using demo_issueTokens [of clk u 7 "''impersonation-by-'' @ FormatUint 7" ua ip]
    by (simp add: auth_Impersonate_def bindE_def) (metis eq_fst_iff)
qed

text \<open>A refresh token of session 1 of the example state, issued at time 0.\<close>

definition demo_refresh :: string where
  "demo_refresh = enc_token (js_secret demo_jwt) (issue_claims plain_jwt demo_jwt 0 7 ''ada'' 1 0 [] TokenTypeRefresh (604800 * second))"

lemma demo_refresh_claims:
  "jwt_Parse plain_jwt demo_jwt 5 demo_refresh
     = Inr ((issue_claims plain_jwt demo_jwt 0 7 ''ada'' 1 0 [] TokenTypeRefresh (604800 * second))\<lparr>cl_Subject := ''''\<rparr>)"
  unfolding demo_refresh_def
  by (rule plain_jwt.Parse_issue [where expiry = "604800 * second"]) (simp_all add: issue_def plain_jwt_Sign)

lemma demo_Refresh: "\<exists>resp db'. auth_Refresh demo_env (\<lambda>_. 5) demo_refresh demo_auth_db = (Inr resp, db')"
proof -
  have "session_active 5 1 7 (ud_sessions demo_auth_db)"
    by (simp add: demo_auth_db_def demo_sessions_def demo_session_def session_active_def)
  then have "session_Validate mem_sessions 5 1 7 (ud_sessions demo_auth_db) = Inr ()"
    using mem_sessions.Validate_active [OF demo_sessions_ok] by (simp add: demo_auth_db_def)
  moreover obtain u where "user_repo_GetByID mem_user_gorm 7 demo_auth_db = Inr (Some u)" "u_Enabled u"
    using demo_GetByID_auth by blast
  ultimately show ?thesis
    by (simp add: auth_Refresh_def demo_refresh_claims issue_claims_def bindE_def Let_def IssueAccess_def IssueRefresh_def
        issue_def plain_jwt_Sign)
qed

section \<open>Properties\<close>

text \<open>
  C5: a login succeeds only for an enabled, live account whose username or email was given and
  whose stored hash accepts the password; it then creates a fresh session that is active for
  that account until the refresh lifetime ends, and the response carries exactly the
  authorities the tables grant.
\<close>

theorem auth_Login_sound:
  assumes "auth_service E" "auth_Login E clk req ua ip db = (Inr resp, db')"
  shows "\<exists>x \<in> set (rows (ud_users db)). base_live x \<and> u_Enabled x
     \<and> (u_Username x = lr_UsernameOrEmail req \<or> u_Email x = lr_UsernameOrEmail req)
     \<and> CheckPassword (av_bcrypt E) (u_PasswordHash x) (lr_Password req)
     \<and> at_UserID resp = bm_ID x \<and> set (at_Authorities resp) = granted db (bm_ID x)
     \<and> next_id (ud_sessions db) \<le> unat (at_SessionID resp)
     \<and> (now < clk 0 + js_refreshTTL (av_jwt E) \<longrightarrow> db_active now (at_SessionID resp) (bm_ID x) db')"
proof -
  obtain u where u: "user_repo_GetByUsernameOrEmail (av_users E) (lr_UsernameOrEmail req) db = Inr (Some u)"
    "CheckPassword (av_bcrypt E) (u_PasswordHash u) (lr_Password req)" "u_Enabled u"
    and i: "issueTokens E clk u 0 (deviceNameFromUserAgent ua) ua ip db = (Inr resp, db')"
    using assms by (rule auth_service.Login_steps)
  obtain r: "at_UserID resp = bm_ID u" "at_Authorities resp = AuthoritiesOf u"
    using assms(1) i by (rule auth_service.issueTokens_ok)
  note s = auth_service.issueTokens_session [OF assms(1) i]
  from assms(1) u(1) show ?thesis
    by (rule auth_service.GetByUsernameOrEmail_Some) (use u r s in \<open>auto intro!: bexI\<close>)
qed

theorem auth_Login_sound_witness:
  "\<exists>resp db'. auth_Login demo_env (\<lambda>_. 0) \<lparr>lr_UsernameOrEmail = ''ada'', lr_Password = ''secret-pw''\<rparr> ''curl/8'' ''10.0.0.1'' demo_auth_db
      = (Inr resp, db') \<and> db_active 5 (at_SessionID resp) (at_UserID resp) db'"
proof -
  obtain resp db' where l: "auth_Login demo_env (\<lambda>_. 0) \<lparr>lr_UsernameOrEmail = ''ada'', lr_Password = ''secret-pw''\<rparr>
      ''curl/8'' ''10.0.0.1'' demo_auth_db = (Inr resp, db')" using demo_Login by blast
  obtain x :: User where "at_UserID resp = bm_ID x"
    "5 < 0 + js_refreshTTL (av_jwt demo_env) \<longrightarrow> db_active 5 (at_SessionID resp) (bm_ID x) db'"
    using auth_Login_sound [OF demo_auth.auth_service_axioms l, of 5] by blast
  then have "db_active 5 (at_SessionID resp) (at_UserID resp) db'" by (simp add: demo_jwt_def)
  then show ?thesis using l by blast
qed



text \<open>
  An unknown account and a wrong password are told apart neither by the answer nor by the
  state: both give the same 401 and create no session.
\<close>

theorem auth_Login_no_enumeration:
  assumes "case user_repo_GetByUsernameOrEmail (av_users E) (lr_UsernameOrEmail req) db of
             Inl _ \<Rightarrow> False | Inr None \<Rightarrow> True
           | Inr (Some u) \<Rightarrow> \<not> CheckPassword (av_bcrypt E) (u_PasswordHash u) (lr_Password req)"
  shows "auth_Login E clk req ua ip db = (Inl (Unauthorized ''Invalid credentials''), db)"
  using assms by (auto simp: auth_Login_def bindE_def split: sum.splits option.splits)

theorem auth_Login_no_enumeration_witness:
  "auth_Login demo_env (\<lambda>_. 0) \<lparr>lr_UsernameOrEmail = ''eve'', lr_Password = ''x''\<rparr> ''curl/8'' ''10.0.0.1'' demo_auth_db
     = (Inl (Unauthorized ''Invalid credentials''), demo_auth_db)"
proof (rule auth_Login_no_enumeration)
  have "user_repo_GetByUsernameOrEmail mem_user_gorm ''eve'' demo_auth_db = Inr None"
    by (simp add: user_repo_GetByUsernameOrEmail_def user_run_defs mem_user_defs demo_auth_defs)
  then show "case user_repo_GetByUsernameOrEmail (av_users demo_env)
      (lr_UsernameOrEmail \<lparr>lr_UsernameOrEmail = ''eve'', lr_Password = ''x''\<rparr>) demo_auth_db of
        Inl _ \<Rightarrow> False | Inr None \<Rightarrow> True
      | Inr (Some u) \<Rightarrow> \<not> CheckPassword (av_bcrypt demo_env) (u_PasswordHash u)
          (lr_Password \<lparr>lr_UsernameOrEmail = ''eve'', lr_Password = ''x''\<rparr>)" by simp
qed



text \<open>
  A user can revoke only an own session.  For a session that belongs to someone else the
  answer is the one for a session that does not exist, and nothing changes.
\<close>

theorem auth_RevokeMySession_foreign:
  assumes "session_store_live (av_sessions E)" "table_ok us_ID (\<lambda>_. True) (ud_sessions db)"
    and "\<not> list_ex (\<lambda>r. us_ID r = sid \<and> us_UserID r = uid) (rows (ud_sessions db))"
  shows "auth_RevokeMySession E now uid sid db = (Inl (NotFound ''Session'' sid), db)"
proof -
  have gt: "gorm_live (av_sessions E) us_ID (\<lambda>_. True) session_filled (=) (\<lambda>_. True)"
    using assms(1) by (simp add: session_store_live_def)
  then have gl: "gorm_table (av_sessions E) us_ID (\<lambda>_. True) session_filled (=) (\<lambda>_. True)"
    by (simp add: gorm_live_def)
  show ?thesis
  proof (cases "db_First (av_sessions E) (\<lambda>r. us_ID r = sid) (ud_sessions db)")
    case (Inr row)
    then have "us_UserID row \<noteq> uid"
      using gorm_table.First_found [OF gl Inr] assms(3) by (auto simp: list_ex_iff)
    then show ?thesis using Inr by (simp add: auth_RevokeMySession_def session_GetByID_def bindE_def)
  next
    case (Inl e)
    have "e = ErrRecordNotFound"
    proof (cases "\<exists>r \<in> set (rows (ud_sessions db)). us_ID r = sid")
      case True
      then show ?thesis using gorm_live.First_live [OF gt, of _ "ud_sessions db" "\<lambda>r. us_ID r = sid"] Inl by auto
    next
      case False
      then show ?thesis using gorm_live.First_none [OF gt, of "ud_sessions db" "\<lambda>r. us_ID r = sid"] Inl by auto
    qed
    then show ?thesis using Inl by (simp add: auth_RevokeMySession_def session_GetByID_def bindE_def)
  qed
qed

theorem auth_RevokeMySession_foreign_witness:
  "auth_RevokeMySession demo_env 10 7 2 demo_auth_db = (Inl (NotFound ''Session'' 2), demo_auth_db)"
  by (rule auth_RevokeMySession_foreign)
     (simp_all add: mem_sessions.session_store_live_axioms demo_auth_db_def demo_sessions_ok,
      simp add: demo_sessions_def demo_session_def)



end
