(* ===== verification/Queue.thy ===== *)
theory Queue
  imports Auth
begin

text \<open>
  Package \<open>internal/common/queue\<close>, the wrapper of the Redis task queue, and the task handler that
  \<open>internal/modules/auth\<close> registers with it.

  The queue itself (\<open>asynq\<close>) is third party: \<open>push\<close> stands for the client's \<open>EnqueueContext\<close>,
  \<open>mux_add\<close> for the registration of a handler; \<open>marshal\<close> is \<open>json.Marshal\<close>.
\<close>

section \<open>Options\<close>

datatype asynq_option =
    AsynqQueue string
  | AsynqMaxRetry goint
  | AsynqTaskID string
  | AsynqTimeout duration
  | AsynqProcessIn duration
  | AsynqProcessAt time
  | AsynqUnique duration

text \<open>The zero value of \<open>time.Time\<close>: the first of January of the year 1, in nanoseconds of the epoch.\<close>

definition zero_time :: time where
  "zero_time = - 62135596800 * second"

record optionSet =
  qo_queue :: string
  qo_maxRetry :: goint
  qo_taskID :: string
  qo_timeout :: duration
  qo_processIn :: duration
  qo_processAt :: time
  qo_uniqueFor :: duration

type_synonym queue_option = "optionSet \<Rightarrow> optionSet"

definition opt_Queue :: "string \<Rightarrow> queue_option" where "opt_Queue name o' = o'\<lparr>qo_queue := name\<rparr>"
definition opt_MaxRetry :: "goint \<Rightarrow> queue_option" where "opt_MaxRetry n o' = o'\<lparr>qo_maxRetry := n\<rparr>"
definition opt_TaskID :: "string \<Rightarrow> queue_option" where "opt_TaskID tid o' = o'\<lparr>qo_taskID := tid\<rparr>"
definition opt_Timeout :: "duration \<Rightarrow> queue_option" where "opt_Timeout d o' = o'\<lparr>qo_timeout := d\<rparr>"
definition opt_ProcessIn :: "duration \<Rightarrow> queue_option" where "opt_ProcessIn d o' = o'\<lparr>qo_processIn := d\<rparr>"
definition opt_ProcessAt :: "time \<Rightarrow> queue_option" where "opt_ProcessAt t o' = o'\<lparr>qo_processAt := t\<rparr>"
definition opt_Unique :: "duration \<Rightarrow> queue_option" where "opt_Unique d o' = o'\<lparr>qo_uniqueFor := d\<rparr>"

lemmas queue_option_defs = opt_Queue_def opt_MaxRetry_def opt_TaskID_def opt_Timeout_def opt_ProcessIn_def
  opt_ProcessAt_def opt_Unique_def

definition zero_options :: optionSet where
  "zero_options = \<lparr>qo_queue = '''', qo_maxRetry = 0, qo_taskID = '''', qo_timeout = 0, qo_processIn = 0,
                   qo_processAt = zero_time, qo_uniqueFor = 0\<rparr>"

definition emit :: "optionSet \<Rightarrow> asynq_option list" where
  "emit o' =
     (if qo_queue o' \<noteq> '''' then [AsynqQueue (qo_queue o')] else [])
     @ (if sint (qo_maxRetry o') > 0 then [AsynqMaxRetry (qo_maxRetry o')] else [])
     @ (if qo_taskID o' \<noteq> '''' then [AsynqTaskID (qo_taskID o')] else [])
     @ (if qo_timeout o' > 0 then [AsynqTimeout (qo_timeout o')] else [])
     @ (if qo_processIn o' > 0 then [AsynqProcessIn (qo_processIn o')] else [])
     @ (if qo_processAt o' \<noteq> zero_time then [AsynqProcessAt (qo_processAt o')] else [])
     @ (if qo_uniqueFor o' > 0 then [AsynqUnique (qo_uniqueFor o')] else [])"

definition applyOptions :: "queue_option list \<Rightarrow> asynq_option list" where
  "applyOptions opts = emit (fold (\<lambda>fn o'. fn o') opts zero_options)"

section \<open>The manager\<close>

record QueueConfig =
  qc_Enabled :: bool
  qc_Concurrency :: goint
  qc_Queues :: "string \<rightharpoonup> goint"

record RedisConfig =
  rc_Addr :: string
  rc_Password :: string
  rc_DB :: goint

text \<open>What \<open>New\<close> configures the server with, and the handler registry \<open>'m\<close>.\<close>

record 'm Manager =
  qm_redis :: RedisConfig
  qm_concurrency :: goint
  qm_queues :: "string \<rightharpoonup> goint"
  qm_mux :: 'm

definition queue_New :: "QueueConfig \<Rightarrow> RedisConfig \<Rightarrow> 'm \<Rightarrow> 'm Manager option" where
  "queue_New cfg redis new_mux =
     (if \<not> qc_Enabled cfg then None
      else let queues = (if qc_Queues cfg = Map.empty then [''default'' \<mapsto> 1] else qc_Queues cfg)
           in Some \<lparr>qm_redis = redis, qm_concurrency = qc_Concurrency cfg, qm_queues = queues, qm_mux = new_mux\<rparr>)"

abbreviation minute :: duration where "minute \<equiv> 60 * second"
abbreviation hour :: duration where "hour \<equiv> 60 * minute"

text \<open>\<open>RetryDelayFunc\<close>: an index before the first element panics (\<open>None\<close>).\<close>

definition retry_base :: "duration list" where
  "retry_base = [minute, 5 * minute, 30 * minute, hour, 6 * hour, 24 * hour]"

definition RetryDelayFunc :: "int \<Rightarrow> duration option" where
  "RetryDelayFunc n =
     (if n \<ge> int (length retry_base) then Some (retry_base ! (length retry_base - 1))
      else if n < 0 then None else Some (retry_base ! nat n))"

text \<open>A nil manager is \<open>None\<close>.\<close>

definition queue_Handle :: "(string \<Rightarrow> 'h \<Rightarrow> 'm \<Rightarrow> 'm) \<Rightarrow> string \<Rightarrow> 'h \<Rightarrow> 'm Manager option \<Rightarrow> 'm Manager option" where
  "queue_Handle mux_add taskType h m =
     (case m of None \<Rightarrow> None | Some mgr \<Rightarrow> Some (mgr\<lparr>qm_mux := mux_add taskType h (qm_mux mgr)\<rparr>))"

definition queue_Start :: "('m \<Rightarrow> go_error + unit) \<Rightarrow> 'm Manager option \<Rightarrow> go_error + unit" where
  "queue_Start server_start m = (case m of None \<Rightarrow> Inr () | Some mgr \<Rightarrow> server_start (qm_mux mgr))"

text \<open>Whether the server runs after \<open>Stop\<close>, which also closes the client.\<close>

definition queue_Stop :: "'m Manager option \<Rightarrow> bool \<Rightarrow> bool" where
  "queue_Stop m running = (case m of None \<Rightarrow> running | Some _ \<Rightarrow> False)"

text \<open>The payload of a task: nil, raw bytes, or a value to be marshalled.\<close>

datatype 'p payload = PayloadNil | PayloadBytes string | PayloadValue 'p

definition encode :: "('p \<Rightarrow> go_error + string) \<Rightarrow> 'p payload \<Rightarrow> go_error + string" where
  "encode marshal p =
     (case p of
        PayloadNil \<Rightarrow> Inr ''{}''
      | PayloadBytes b \<Rightarrow> Inr b
      | PayloadValue v \<Rightarrow> marshal v)"

definition queue_ErrNotInstalled :: go_error where
  "queue_ErrNotInstalled = PlainError ''queue: no manager installed (QUEUE_ENABLED=false?)''"

definition queue_Enqueue ::
  "('p \<Rightarrow> go_error + string) \<Rightarrow> (string \<Rightarrow> string \<Rightarrow> asynq_option list \<Rightarrow> ('q, go_error, unit) op)
     \<Rightarrow> 'm Manager option \<Rightarrow> string \<Rightarrow> 'p payload \<Rightarrow> queue_option list \<Rightarrow> ('q, go_error, unit) op" where
  "queue_Enqueue marshal push m taskType p opts =
     (case m of
        None \<Rightarrow> throwE queue_ErrNotInstalled
      | Some _ \<Rightarrow>
          (case encode marshal p of
             Inl err \<Rightarrow> throwE (WrapError (''queue: marshal payload for '' @ [CHR 0x22] @ taskType @ [CHR 0x22]) err)
           | Inr body \<Rightarrow> push taskType body (applyOptions opts)))"

definition queue_EnqueueIn ::
  "('p \<Rightarrow> go_error + string) \<Rightarrow> (string \<Rightarrow> string \<Rightarrow> asynq_option list \<Rightarrow> ('q, go_error, unit) op)
     \<Rightarrow> 'm Manager option \<Rightarrow> string \<Rightarrow> 'p payload \<Rightarrow> duration \<Rightarrow> queue_option list \<Rightarrow> ('q, go_error, unit) op" where
  "queue_EnqueueIn marshal push m taskType p delay opts =
     queue_Enqueue marshal push m taskType p (opts @ [opt_ProcessIn delay])"

definition queue_EnqueueAt ::
  "('p \<Rightarrow> go_error + string) \<Rightarrow> (string \<Rightarrow> string \<Rightarrow> asynq_option list \<Rightarrow> ('q, go_error, unit) op)
     \<Rightarrow> 'm Manager option \<Rightarrow> string \<Rightarrow> 'p payload \<Rightarrow> time \<Rightarrow> queue_option list \<Rightarrow> ('q, go_error, unit) op" where
  "queue_EnqueueAt marshal push m taskType p at_time opts =
     queue_Enqueue marshal push m taskType p (opts @ [opt_ProcessAt at_time])"

section \<open>The application-wide manager\<close>

text \<open>
  The package variable \<open>current\<close> holds the installed manager; it is nil (\<open>None\<close>) until \<open>Set\<close>,
  and after it when the queue is disabled.  A handler registered through the package reaches the
  installed manager itself.
\<close>

type_synonym 'm current_manager = "'m Manager option"

definition pkg_Set :: "'m Manager option \<Rightarrow> 'm current_manager \<Rightarrow> 'm current_manager" where
  "pkg_Set m cur = m"

definition pkg_Get :: "'m current_manager \<Rightarrow> 'm Manager option" where
  "pkg_Get cur = cur"

definition pkg_Handle :: "(string \<Rightarrow> 'h \<Rightarrow> 'm \<Rightarrow> 'm) \<Rightarrow> string \<Rightarrow> 'h \<Rightarrow> 'm current_manager \<Rightarrow> 'm current_manager" where
  "pkg_Handle mux_add taskType h cur = queue_Handle mux_add taskType h cur"

definition pkg_Enqueue ::
  "('p \<Rightarrow> go_error + string) \<Rightarrow> (string \<Rightarrow> string \<Rightarrow> asynq_option list \<Rightarrow> ('q, go_error, unit) op)
     \<Rightarrow> 'm current_manager \<Rightarrow> string \<Rightarrow> 'p payload \<Rightarrow> queue_option list \<Rightarrow> ('q, go_error, unit) op" where
  "pkg_Enqueue marshal push cur taskType p opts = queue_Enqueue marshal push cur taskType p opts"

definition pkg_EnqueueIn ::
  "('p \<Rightarrow> go_error + string) \<Rightarrow> (string \<Rightarrow> string \<Rightarrow> asynq_option list \<Rightarrow> ('q, go_error, unit) op)
     \<Rightarrow> 'm current_manager \<Rightarrow> string \<Rightarrow> 'p payload \<Rightarrow> duration \<Rightarrow> queue_option list \<Rightarrow> ('q, go_error, unit) op" where
  "pkg_EnqueueIn marshal push cur taskType p delay opts = queue_EnqueueIn marshal push cur taskType p delay opts"

definition pkg_EnqueueAt ::
  "('p \<Rightarrow> go_error + string) \<Rightarrow> (string \<Rightarrow> string \<Rightarrow> asynq_option list \<Rightarrow> ('q, go_error, unit) op)
     \<Rightarrow> 'm current_manager \<Rightarrow> string \<Rightarrow> 'p payload \<Rightarrow> time \<Rightarrow> queue_option list \<Rightarrow> ('q, go_error, unit) op" where
  "pkg_EnqueueAt marshal push cur taskType p at_time opts = queue_EnqueueAt marshal push cur taskType p at_time opts"

text \<open>
  With the queue disabled every submission through the package is refused and the queue is left
  alone; with an enabled one a delayed submission reaches the queue with the delay in force,
  whatever delay the caller's own options ask for.
\<close>

lemma pkg_disabled:
  assumes "\<not> qc_Enabled cfg"
  shows "pkg_Enqueue marshal push (pkg_Set (queue_New cfg redis mux) cur) ty p opts q = (Inl queue_ErrNotInstalled, q)"
    "pkg_EnqueueIn marshal push (pkg_Set (queue_New cfg redis mux) cur) ty p delay opts q = (Inl queue_ErrNotInstalled, q)"
    "pkg_EnqueueAt marshal push (pkg_Set (queue_New cfg redis mux) cur) ty p at_time opts q = (Inl queue_ErrNotInstalled, q)"
  using assms by (simp_all add: pkg_Enqueue_def pkg_EnqueueIn_def pkg_EnqueueAt_def pkg_Set_def queue_New_def
      queue_EnqueueIn_def queue_EnqueueAt_def queue_Enqueue_def)

lemma pkg_EnqueueIn_delay:
  assumes "qc_Enabled cfg" "delay > 0" "encode marshal p = Inr body"
  shows "\<exists>os. AsynqProcessIn delay \<in> set os \<and> (\<forall>d. AsynqProcessIn d \<in> set os \<longrightarrow> d = delay)
     \<and> pkg_EnqueueIn marshal push (pkg_Set (queue_New cfg redis mux) cur) ty p delay opts q = push ty body os q"
proof (intro exI conjI allI impI)
  let ?os = "applyOptions (opts @ [opt_ProcessIn delay])"
  show "AsynqProcessIn delay \<in> set ?os" using assms(2) by (simp add: applyOptions_def emit_def opt_ProcessIn_def)
  show "d = delay" if "AsynqProcessIn d \<in> set ?os" for d
    using that by (auto simp: applyOptions_def emit_def opt_ProcessIn_def split: if_split_asm)
  show "pkg_EnqueueIn marshal push (pkg_Set (queue_New cfg redis mux) cur) ty p delay opts q = push ty body ?os q"
    using assms(1,3) by (simp add: pkg_EnqueueIn_def pkg_Set_def queue_New_def queue_EnqueueIn_def queue_Enqueue_def Let_def)
qed

section \<open>The password reset task\<close>

text \<open>
  \<open>RegisterQueueHandlers\<close>: the handler decodes the payload and sends the mail; it returns the
  message it sent, if any, and its error.
\<close>

definition reset_email_handler ::
  "(string \<Rightarrow> go_error + PasswordResetEmailPayload) \<Rightarrow> MailService \<Rightarrow> string \<Rightarrow> Message option \<times> (go_error + unit)" where
  "reset_email_handler unmarshal M body =
     (case unmarshal body of
        Inl err \<Rightarrow> (None, Inl (WrapError ''decode password-reset payload'' err))
      | Inr p \<Rightarrow> let (msg, r) = sendPasswordResetEmail M p in (Some msg, r))"

definition RegisterQueueHandlers ::
  "(string \<Rightarrow> (string \<Rightarrow> Message option \<times> (go_error + unit)) \<Rightarrow> 'm \<Rightarrow> 'm)
     \<Rightarrow> (string \<Rightarrow> go_error + PasswordResetEmailPayload) \<Rightarrow> MailService \<Rightarrow> 'm Manager option \<Rightarrow> 'm Manager option" where
  "RegisterQueueHandlers mux_add unmarshal M q =
     (case q of None \<Rightarrow> None
      | Some _ \<Rightarrow> queue_Handle mux_add TaskPasswordResetEmail (reset_email_handler unmarshal M) q)"

section \<open>Properties\<close>

text \<open>
  The delay before a retry never decreases with the number of attempts and lies between one
  minute and a day; the function is defined for every attempt count.
\<close>

theorem RetryDelayFunc_bounds:
  "\<exists>d e. RetryDelayFunc (int n) = Some d \<and> RetryDelayFunc (int (n + k)) = Some e
         \<and> minute \<le> d \<and> d \<le> e \<and> e \<le> 24 * hour"
proof -
  have s: "sorted retry_base" by (simp add: retry_base_def)
  define ix where "ix m = min m (5 :: nat)" for m
  have v: "RetryDelayFunc (int m) = Some (retry_base ! ix m)" for m
    by (auto simp: RetryDelayFunc_def ix_def retry_base_def min_def)
  have l: "ix m < length retry_base" for m by (simp add: ix_def retry_base_def)
  have le: "ix n \<le> ix (n + k)" by (simp add: ix_def)
  have b: "minute \<le> retry_base ! i \<and> retry_base ! i \<le> 24 * hour" if "i < length retry_base" for i
    using that by (auto simp: retry_base_def less_Suc_eq numeral_eq_Suc nth_Cons')
  have "retry_base ! ix n \<le> retry_base ! ix (n + k)" by (rule sorted_nth_mono [OF s le l])
  then show ?thesis using v [of n] v [of "n + k"] b [OF l [of n]] b [OF l [of "n + k"]] by blast
qed

text \<open>
  Options act in order and the last one of a kind wins, so a delay given to \<open>EnqueueIn\<close> or a
  time given to \<open>EnqueueAt\<close> overrides one among the options; values that are not positive, an empty
  name and the zero time are not passed on, so \<open>MaxRetry(0)\<close> leaves the queue's own default.
\<close>

theorem applyOptions_last_wins:
  "applyOptions (opts @ [opt_ProcessIn delay]) = emit ((fold (\<lambda>fn. fn) opts zero_options)\<lparr>qo_processIn := delay\<rparr>)
   \<and> applyOptions (opts @ [opt_ProcessAt at_time]) = emit ((fold (\<lambda>fn. fn) opts zero_options)\<lparr>qo_processAt := at_time\<rparr>)
   \<and> applyOptions [opt_MaxRetry 0] = []
   \<and> (AsynqMaxRetry n \<in> set (applyOptions opts)) = (0 < sint n \<and> qo_maxRetry (fold (\<lambda>fn. fn) opts zero_options) = n)"
  by (auto simp: applyOptions_def queue_option_defs emit_def zero_options_def)

text \<open>
  A reset payload that was enqueued and comes back from the queue unchanged is mailed to the
  address it was written for, with its link, whether or not the template can be rendered.
\<close>

theorem reset_email_task_round_trip:
  assumes "\<And>p body. marshal p = Inr body \<Longrightarrow> unmarshal body = Inr p" "marshal p = Inr body"
    and "queue_Enqueue marshal (\<lambda>ty b opts q. (Inr (), q @ [(ty, b)])) (Some mgr) TaskPasswordResetEmail (PayloadValue p) [] q
         = (Inr (), q')"
  shows "\<exists>b msg. q' = q @ [(TaskPasswordResetEmail, b)] \<and> fst (reset_email_handler unmarshal M b) = Some msg
           \<and> mm_To msg = [pe_Email p]
           \<and> (\<forall>err. ml_Render M ''password-reset.html''
                [(''Username'', pe_Username p), (''ResetURL'', pe_ResetURL p), (''TTL'', pe_TTL p)] = Inl err
                \<longrightarrow> Contains (mm_HTML msg) (pe_ResetURL p))"
proof -
  have q: "q' = q @ [(TaskPasswordResetEmail, body)]" using assms(2,3) by (simp add: queue_Enqueue_def encode_def)
  have h: "fst (reset_email_handler unmarshal M body) = Some (fst (sendPasswordResetEmail M p))"
    using assms(1) [OF assms(2)] by (simp add: reset_email_handler_def split: prod.splits)
  have c: "Contains (''Reset your password: '' @ u @ v) u" for u v
    unfolding Contains_iff by blast
  have to: "mm_To (fst (sendPasswordResetEmail M p)) = [pe_Email p]" by (simp add: sendPasswordResetEmail_def Let_def)
  have html: "Contains (mm_HTML (fst (sendPasswordResetEmail M p))) (pe_ResetURL p)"
    if "ml_Render M ''password-reset.html'' [(''Username'', pe_Username p), (''ResetURL'', pe_ResetURL p), (''TTL'', pe_TTL p)] = Inl err" for err
    using c [of "pe_ResetURL p"] that by (simp add: sendPasswordResetEmail_def Let_def del: Contains.simps append.simps append_Cons)
  show ?thesis using q h to html by (intro exI [of _ body] exI [of _ "fst (sendPasswordResetEmail M p)"]) blast
qed

definition demo_payload :: PasswordResetEmailPayload where
  "demo_payload = \<lparr>pe_Email = ''a@b.c'', pe_Username = ''ada'', pe_ResetURL = ''http://h/reset?token=t'', pe_TTL = ''30m0s''\<rparr>"

theorem reset_email_task_round_trip_witness:
  "\<exists>msg. fst (reset_email_handler (\<lambda>_. Inr demo_payload)
            \<lparr>ml_Enabled = True, ml_Render = (\<lambda>_ _. Inl (PlainError ''none'')), ml_Send = (\<lambda>_. Inr ())\<rparr> ''{..}'') = Some msg
         \<and> mm_To msg = [''a@b.c'']"
proof -
  let ?M = "\<lparr>ml_Enabled = True, ml_Render = (\<lambda>_ _. Inl (PlainError ''none'')), ml_Send = (\<lambda>_. Inr ())\<rparr>"
  let ?m = "\<lambda>p. if p = demo_payload then Inr ''{..}'' else Inl (PlainError ''other'')"
  let ?mgr = "\<lparr>qm_redis = \<lparr>rc_Addr = '''', rc_Password = '''', rc_DB = 0\<rparr>, qm_concurrency = 1, qm_queues = Map.empty, qm_mux = ()\<rparr>"
  have "queue_Enqueue ?m (\<lambda>ty b opts q. (Inr (), q @ [(ty, b)])) (Some ?mgr) TaskPasswordResetEmail (PayloadValue demo_payload) [] []
      = (Inr (), [(TaskPasswordResetEmail, ''{..}'')])"
    by (simp add: queue_Enqueue_def encode_def)
  moreover have "?m p = Inr body \<Longrightarrow> Inr demo_payload = Inr p" for p body by (simp split: if_split_asm)
  ultimately obtain b msg where "[(TaskPasswordResetEmail, ''{..}'')] = [] @ [(TaskPasswordResetEmail, b)]"
    "fst (reset_email_handler (\<lambda>_. Inr demo_payload) ?M b) = Some msg" "mm_To msg = [pe_Email demo_payload]"
    using reset_email_task_round_trip [where marshal = ?m and unmarshal = "\<lambda>_. Inr demo_payload" and M = ?M and mgr = ?mgr
        and p = demo_payload and body = "''{..}''" and q = "[]"] by fastforce
  then show ?thesis by (simp add: demo_payload_def)
qed

end
