(* ===== verification/FileStore.thy ===== *)
theory FileStore
  imports GoPath Security
begin

text \<open>
  Module \<open>internal/modules/file\<close>: uploads to and downloads from a directory tree.

  The calls of package \<open>os\<close> are the operations of the record \<open>filesys\<close>; what is used of them is
  collected in the locale \<open>file_system\<close>, which an in-memory tree satisfies.  \<open>wd\<close> is the result of
  \<open>os.Getwd\<close>; paths are lexical, so links inside the tree are not represented.
\<close>

section \<open>Values\<close>

record StorageConfig =
  sc_BasePath :: string
  sc_MaxUploadSize :: goint

text \<open>\<open>multipart.FileHeader\<close>: \<open>Open\<close> gives the bytes of the part; no MIME header is \<open>None\<close>.\<close>

record FileHeader =
  fh_Filename :: string
  fh_Size :: goint
  fh_Open :: "go_error + string"
  fh_ContentType :: "string option"

record FileResponse =
  fr_URL :: string
  fr_StoredName :: string
  fr_OriginalName :: string
  fr_Subfolder :: string
  fr_Size :: goint
  fr_ContentType :: string

record file_service =
  fs_basePath :: string
  fs_publicBaseURL :: string
  fs_maxSize :: goint

text \<open>\<open>os_Copy\<close> is \<open>io.Copy\<close> of the given bytes into the file created at a path.\<close>

record 'f filesys =
  os_MkdirAll :: "string \<Rightarrow> ('f, go_error, unit) op"
  os_Create :: "string \<Rightarrow> ('f, go_error, unit) op"
  os_Copy :: "string \<Rightarrow> string \<Rightarrow> ('f, go_error, unit) op"
  os_Remove :: "string \<Rightarrow> ('f, go_error, unit) op"
  os_Stat :: "string \<Rightarrow> 'f \<Rightarrow> go_error + unit"

section \<open>Service\<close>

definition file_New :: "'f filesys \<Rightarrow> StorageConfig \<Rightarrow> string \<Rightarrow> 'f \<Rightarrow> file_service \<times> 'f" where
  "file_New OS cfg publicBaseURL fsys =
     (let fsys = snd (os_MkdirAll OS (sc_BasePath cfg) fsys)
      in (\<lparr>fs_basePath = sc_BasePath cfg,
           fs_publicBaseURL = TrimRight (CHR ''/'') publicBaseURL @ ''/api/v1/files'',
           fs_maxSize = sc_MaxUploadSize cfg\<rparr>, fsys))"

definition sanitize :: "string \<Rightarrow> string" where
  "sanitize subfolder =
     (let subfolder = TrimSpace subfolder
      in if subfolder = '''' then ''''
         else let subfolder = ReplaceAll (char_of (92 :: nat)) (CHR ''/'') subfolder;
                  parts = Split (CHR ''/'') subfolder;
                  clean = filter (\<lambda>p. \<not> (p = '''' \<or> p = ''.'' \<or> p = ''..'')) parts
              in JoinStr (CHR ''/'') clean)"

text \<open>The result of an upload, and copying the bytes with the removal of a broken copy.\<close>

definition file_response :: "file_service \<Rightarrow> FileHeader \<Rightarrow> string \<Rightarrow> string \<Rightarrow> FileResponse" where
  "file_response s fh sub stored =
     (let url = (if sub = '''' then fs_publicBaseURL s @ ''/'' @ stored
                 else fs_publicBaseURL s @ ''/'' @ sub @ ''/'' @ stored);
          contentType = (case fh_ContentType fh of None \<Rightarrow> '''' | Some t \<Rightarrow> t)
      in \<lparr>fr_URL = url, fr_StoredName = stored, fr_OriginalName = fh_Filename fh,
          fr_Subfolder = sub, fr_Size = fh_Size fh, fr_ContentType = contentType\<rparr>)"

definition copy_out :: "'f filesys \<Rightarrow> string \<Rightarrow> string \<Rightarrow> ('f, go_error, unit) op" where
  "copy_out OS dst src fsys =
     (case os_Copy OS dst src fsys of
        (Inl err, fsys) \<Rightarrow> (Inl err, snd (os_Remove OS dst fsys))
      | (Inr _, fsys) \<Rightarrow> (Inr (), fsys))"

text \<open>\<open>uuid\<close> is the identifier \<open>uuid.NewString\<close> returns.\<close>

definition file_Save ::
  "'f filesys \<Rightarrow> string \<Rightarrow> file_service \<Rightarrow> FileHeader option \<Rightarrow> string \<Rightarrow> ('f, go_error, FileResponse) op" where
  "file_Save OS uuid s fh subfolder =
     (case fh of
        None \<Rightarrow> throwE (BadRequest ''No file uploaded'')
      | Some fh \<Rightarrow>
          if sint (fs_maxSize s) > 0 \<and> sint (fh_Size fh) > sint (fs_maxSize s)
          then throwE (BadRequest (''File exceeds '' @ FormatInt (sint (fs_maxSize s)) @ '' bytes''))
          else let sub = sanitize subfolder;
                   dir = JoinPath [fs_basePath s, sub]
               in bindE (os_MkdirAll OS dir) (\<lambda>_.
                  let ext = ToLower (Ext (fh_Filename fh));
                      stored = uuid @ ext;
                      dst = JoinPath [dir, stored]
                  in bindE (readE (\<lambda>_. fh_Open fh)) (\<lambda>src.
                     bindE (os_Create OS dst) (\<lambda>_.
                     bindE (copy_out OS dst src) (\<lambda>_.
                     returnE (file_response s fh sub stored))))))"

definition file_ResolvePath ::
  "'f filesys \<Rightarrow> (go_error + string) \<Rightarrow> file_service \<Rightarrow> string \<Rightarrow> string \<Rightarrow> 'f \<Rightarrow> go_error + string" where
  "file_ResolvePath OS wd s subfolder name fsys =
     (let sub = sanitize subfolder
      in if ContainsAny name [CHR ''/'', char_of (92 :: nat)] \<or> name = '''' \<or> name = ''.'' \<or> name = ''..''
         then Inl (PlainError ''invalid file name'')
         else let path = JoinPath [fs_basePath s, sub, name]
         in case Abs wd path of
              Inl err \<Rightarrow> Inl err
            | Inr abs_path \<Rightarrow>
                (case Abs wd (fs_basePath s) of
                   Inl err \<Rightarrow> Inl err
                 | Inr base \<Rightarrow>
                     if \<not> HasPrefix abs_path base then Inl (PlainError ''path traversal blocked'')
                     else (case os_Stat OS abs_path fsys of Inl err \<Rightarrow> Inl err | Inr _ \<Rightarrow> Inr abs_path)))"

section \<open>Endpoints\<close>

text \<open>
  gin parses the multipart form: \<open>form_file\<close> and \<open>form_value\<close> stand for \<open>FormFile("file")\<close> and
  \<open>PostForm("subfolder")\<close>.
\<close>

definition file_upload ::
  "'f filesys \<Rightarrow> string \<Rightarrow> file_service \<Rightarrow> (string \<Rightarrow> go_error + FileHeader) \<Rightarrow> (string \<Rightarrow> string) \<Rightarrow> time
     \<Rightarrow> FileResponse gin_context \<Rightarrow> ('f, go_error, FileResponse ApiResponse) op" where
  "file_upload OS uuid s form_file form_value now c =
     (case form_file (c_Body c) of
        Inl _ \<Rightarrow> throwE (BadRequest ''Field 'file' is required'')
      | Inr fh \<Rightarrow>
          let sub = form_value (c_Body c)
          in bindE (file_Save OS uuid s (Some fh) sub) (\<lambda>res. returnE (Created now (Some res))))"

definition file_serve ::
  "'f filesys \<Rightarrow> (go_error + string) \<Rightarrow> file_service \<Rightarrow> time \<Rightarrow> ('f, FileResponse) handler" where
  "file_serve OS wd s now st =
     (let (fsys, c) = st;
          raw = TrimPrefix (c_Param c ''path'') ''/''
      in if raw = '''' then (fsys, WriteResponse (Some (ErrorResponse now 404 ''File not found'' None)) c)
         else let (dir, name) = SplitPath raw;
                  sub = TrimSuffix dir ''/''
              in case file_ResolvePath OS wd s sub name fsys of
                   Inl _ \<Rightarrow> (fsys, WriteResponse (Some (ErrorResponse now 404 ''File not found'' None)) c)
                 | Inr resolved \<Rightarrow> (fsys, send (EFile resolved) c))"

datatype file_route = FileRouteUpload | FileRouteServe

text \<open>\<open>Register\<close>: uploads run behind the middleware passed in, downloads are public.\<close>

definition file_Register ::
  "(('f, FileResponse) handler \<Rightarrow> ('f, FileResponse) handler) \<Rightarrow> 'f filesys \<Rightarrow> (go_error + string) \<Rightarrow> string \<Rightarrow> file_service
     \<Rightarrow> (string \<Rightarrow> go_error + FileHeader) \<Rightarrow> (string \<Rightarrow> string) \<Rightarrow> clock \<Rightarrow> file_route \<Rightarrow> ('f, FileResponse) handler" where
  "file_Register uploadAuth OS wd uuid s form_file form_value clk route =
     (case route of
        FileRouteUpload \<Rightarrow> uploadAuth (Handler (clk 1) (endpoint (file_upload OS uuid s form_file form_value (clk 0))))
      | FileRouteServe \<Rightarrow> file_serve OS wd s (clk 0))"

lemma file_response_fields [simp]:
  "fr_StoredName (file_response s fh sub stored) = stored" "fr_Subfolder (file_response s fh sub stored) = sub"
  by (simp_all add: file_response_def Let_def)

lemma copy_out_Inr: "copy_out OS dst bs f = (Inr u, g) \<longleftrightarrow> os_Copy OS dst bs f = (Inr (), g)"
  by (auto simp: copy_out_def split: prod.splits sum.splits)

section \<open>Sanitised names\<close>

definition sub_elems :: "string \<Rightarrow> string list" where
  "sub_elems subfolder =
     filter (\<lambda>p. \<not> (p = '''' \<or> p = ''.'' \<or> p = ''..''))
       (Split (CHR ''/'') (ReplaceAll (char_of (92 :: nat)) (CHR ''/'') (TrimSpace subfolder)))"

lemma sanitize_elems: "sanitize subfolder = JoinStr (CHR ''/'') (sub_elems subfolder)"
  by (simp add: sanitize_def sub_elems_def ReplaceAll_def Let_def)

lemma sub_elems_safe: "list_all safe_elem (sub_elems subfolder)"
  using Split_parts [of _ "CHR ''/''"] by (auto simp: sub_elems_def list_all_iff safe_elem_def)

lemma SplitPath_sep: "CHR ''/'' \<notin> set t \<Longrightarrow> SplitPath (s @ CHR ''/'' # t) = (s @ ''/'', t)"
  by (simp add: SplitPath_def after_last_append after_last_free)

lemma SplitPath_plain: "CHR ''/'' \<notin> set t \<Longrightarrow> SplitPath t = ('''', t)"
  by (simp add: SplitPath_def after_last_free)

lemma TrimSuffix_simps [simp]: "TrimSuffix (s @ p) p = s"
  by (simp add: TrimSuffix_def HasSuffix_def)

text \<open>The place of a file under the storage root.\<close>

definition stored_path :: "string \<Rightarrow> file_service \<Rightarrow> string list \<Rightarrow> string" where
  "stored_path d s es = path_string True (abs_elems d (fs_basePath s) @ es)"

lemma ResolvePath_cases:
  assumes "is_rooted d" "file_ResolvePath OS (Inr d) s subfolder name fsys = Inr p"
  shows "safe_elem name \<and> CHR ''/'' \<notin> set name \<and> char_of (92 :: nat) \<notin> set name
         \<and> p = stored_path d s (sub_elems subfolder @ [name])"
proof -
  have n: "\<not> ContainsAny name [CHR ''/'', char_of (92 :: nat)]" "name \<noteq> ''''" "name \<noteq> ''.''" "name \<noteq> ''..''"
    using assms(2) by (simp_all add: file_ResolvePath_def Let_def split: if_splits)
  then have e: "CHR ''/'' \<notin> set name" "char_of (92 :: nat) \<notin> set name"
    by (auto simp only: ContainsAny_def list_ex_iff list.set)
  then have s: "safe_elem name" using n by (simp add: safe_elem_def)
  have "p = path_string True (abs_elems d (JoinPath [fs_basePath s, sanitize subfolder, name]))"
    using assms(2) n by (simp add: file_ResolvePath_def Let_def Abs_abs_elems [OF assms(1)] split: if_splits sum.splits)
  then show ?thesis
    using s e unfolding sanitize_elems stored_path_def
    by (simp add: abs_elems_JoinPath3 [OF sub_elems_safe s])
qed

text \<open>The prefix test after the two normalisations never refuses a name that passed the first test.\<close>

lemma ResolvePath_eq:
  assumes "is_rooted d" "safe_elem name" "char_of (92 :: nat) \<notin> set name"
  shows "file_ResolvePath OS (Inr d) s subfolder name fsys =
     (case os_Stat OS (stored_path d s (sub_elems subfolder @ [name])) fsys of
        Inl err \<Rightarrow> Inl err | Inr _ \<Rightarrow> Inr (stored_path d s (sub_elems subfolder @ [name])))"
proof -
  have n: "\<not> ContainsAny name [CHR ''/'', char_of (92 :: nat)]"
    using assms(2,3) by (auto simp only: ContainsAny_def list_ex_iff list.set safe_elem_def)
  have p: "abs_elems d (JoinPath [fs_basePath s, sanitize subfolder, name]) = abs_elems d (fs_basePath s) @ sub_elems subfolder @ [name]"
    unfolding sanitize_elems by (rule abs_elems_JoinPath3 [OF sub_elems_safe assms(2)])
  show ?thesis
    using assms(2) n unfolding file_ResolvePath_def Let_def Abs_abs_elems [OF assms(1)] p stored_path_def
    by (simp add: path_string_prefix safe_elem_def)
qed

section \<open>The file system\<close>

definition canon :: "string \<Rightarrow> string \<Rightarrow> string" where
  "canon d p = path_string True (abs_elems d p)"

text \<open>\<open>content\<close> gives the bytes of the regular file at an absolute path.\<close>

locale file_system =
  fixes OS :: "'f filesys" and d :: string and content :: "'f \<Rightarrow> string \<rightharpoonup> string"
  assumes wd_rooted: "is_rooted d"
    and MkdirAll_content: "os_MkdirAll OS p f = (res, f') \<Longrightarrow> content f' = content f"
    and Create_ok: "os_Create OS p f = (Inr (), f') \<Longrightarrow> content f' = (content f)(canon d p \<mapsto> '''')"
    and Create_failed: "os_Create OS p f = (Inl e, f') \<Longrightarrow> content f' = content f"
    and Copy_ok: "os_Copy OS p bs f = (Inr (), f') \<Longrightarrow> content f (canon d p) = Some '''' \<Longrightarrow>
        content f' = (content f)(canon d p \<mapsto> bs)"
    and Copy_failed: "os_Copy OS p bs f = (Inl e, f') \<Longrightarrow> q \<noteq> canon d p \<Longrightarrow> content f' q = content f q"
    and Remove_others: "os_Remove OS p f = (r, f') \<Longrightarrow> q \<noteq> canon d p \<Longrightarrow> content f' q = content f q"
    and Stat_file: "content f q = Some bs \<Longrightarrow> os_Stat OS q f = Inr ()"
begin

lemma canon_dst:
  assumes "safe_elem stored"
  shows "canon d (JoinPath [JoinPath [fs_basePath s, sanitize sub], stored]) = stored_path d s (sub_elems sub @ [stored])"
  using abs_elems_JoinPath2 [of "[stored]" d "JoinPath [fs_basePath s, sanitize sub]"] assms
    abs_elems_JoinPath2 [OF sub_elems_safe, of d "fs_basePath s" sub]
  by (simp add: canon_def stored_path_def sanitize_elems)

text \<open>Every step of \<open>Save\<close> leaves the files at other paths alone.\<close>

definition others_kept :: "string \<Rightarrow> 'f \<Rightarrow> 'f \<Rightarrow> bool" where
  "others_kept p f f' = (\<forall>q. q \<noteq> p \<longrightarrow> content f' q = content f q)"

lemma others_kept_refl [simp]: "others_kept p f f"
  by (simp add: others_kept_def)

lemma others_kept_trans: "others_kept p f g \<Longrightarrow> others_kept p g h \<Longrightarrow> others_kept p f h"
  by (simp add: others_kept_def)

lemma others_kept_bind:
  "others_kept p f (snd (m f)) \<Longrightarrow> (\<And>x g. others_kept p g (snd (k x g))) \<Longrightarrow> others_kept p f (snd (bindE m k f))"
  by (cases "m f") (auto simp: bindE_def split: sum.splits intro: others_kept_trans)

lemma MkdirAll_keeps: "others_kept p f (snd (os_MkdirAll OS dir f))"
  using MkdirAll_content [of dir f "fst (os_MkdirAll OS dir f)"] by (simp add: others_kept_def)

lemma Create_keeps: "canon d dst = p \<Longrightarrow> others_kept p f (snd (os_Create OS dst f))"
  using Create_ok [of dst f] Create_failed [of dst f]
  by (cases "os_Create OS dst f"; cases "fst (os_Create OS dst f)") (auto simp: others_kept_def)

lemma Copy_keeps:
  "canon d dst = p \<Longrightarrow> content f p = Some '''' \<Longrightarrow> others_kept p f (snd (os_Copy OS dst bs f))"
  using Copy_ok [of dst bs f] Copy_failed [of dst bs f]
  by (cases "os_Copy OS dst bs f"; cases "fst (os_Copy OS dst bs f)") (auto simp: others_kept_def)

lemma Remove_keeps: "canon d dst = p \<Longrightarrow> others_kept p f (snd (os_Remove OS dst f))"
  using Remove_others [of dst f "fst (os_Remove OS dst f)"] by (simp add: others_kept_def)

lemma copy_out_keeps:
  assumes "canon d dst = p" "content f p = Some ''''"
  shows "others_kept p f (snd (copy_out OS dst bs f))"
proof -
  obtain r g where g: "os_Copy OS dst bs f = (r, g)" by (cases "os_Copy OS dst bs f") auto
  then have "others_kept p f g" using Copy_keeps [OF assms, of bs] by simp
  then show ?thesis using g Remove_keeps [OF assms(1), of g] others_kept_trans
    by (auto simp: copy_out_def split: sum.splits)
qed

lemma create_copy_keeps:
  assumes "canon d dst = p"
  shows "others_kept p f (snd (bindE (os_Create OS dst) (\<lambda>_. bindE (copy_out OS dst bs) (\<lambda>_. returnE R)) f))"
proof -
  obtain r g where g: "os_Create OS dst f = (r, g)" by (cases "os_Create OS dst f") auto
  have fg: "others_kept p f g" using Create_keeps [OF assms, of f] g by simp
  show ?thesis
  proof (cases r)
    case (Inr u)
    then have "content g p = Some ''''" using Create_ok [of dst f g] g assms by simp
    then have "others_kept p g (snd (bindE (copy_out OS dst bs) (\<lambda>_. returnE R) g))"
      using copy_out_keeps [OF assms] by (intro others_kept_bind) simp_all
    then show ?thesis using fg g Inr others_kept_trans by (simp add: bindE_step)
  qed (use fg g in \<open>simp add: bindE_fail\<close>)
qed

definition save_place :: "string \<Rightarrow> file_service \<Rightarrow> FileHeader \<Rightarrow> string \<Rightarrow> string" where
  "save_place uuid s fh sub = stored_path d s (sub_elems sub @ [uuid @ ToLower (Ext (fh_Filename fh))])"

lemma Save_others:
  assumes "safe_elem (uuid @ ToLower (Ext (fh_Filename fh)))"
  shows "others_kept (save_place uuid s fh sub) f (snd (file_Save OS uuid s (Some fh) sub f))"
proof -
  let ?stored = "uuid @ ToLower (Ext (fh_Filename fh))" and ?p = "save_place uuid s fh sub"
  let ?dst = "JoinPath [JoinPath [fs_basePath s, sanitize sub], ?stored]"
  have c: "canon d ?dst = ?p" unfolding save_place_def by (rule canon_dst [OF assms])
  have b: "others_kept ?p f (snd (bindE (os_Create OS ?dst) (\<lambda>_. bindE (copy_out OS ?dst src) (\<lambda>_. returnE R)) f))" for f src and R :: FileResponse
    by (rule create_copy_keeps [OF c])
  show ?thesis
  proof (cases "sint (fs_maxSize s) > 0 \<and> sint (fh_Size fh) > sint (fs_maxSize s)")
    case False
    then show ?thesis unfolding file_Save_def Let_def option.case if_not_P [OF False]
      by (intro others_kept_bind MkdirAll_keeps b) simp
  qed (simp add: file_Save_def)
qed

lemma Save_ok:
  assumes "file_Save OS uuid s (Some fh) sub f = (Inr r, f')" "safe_elem (uuid @ ToLower (Ext (fh_Filename fh)))"
  shows "fr_StoredName r = uuid @ ToLower (Ext (fh_Filename fh))" "fr_Subfolder r = sanitize sub"
    "sint (fs_maxSize s) > 0 \<longrightarrow> sint (fh_Size fh) \<le> sint (fs_maxSize s)"
    "\<exists>bs. fh_Open fh = Inr bs \<and> content f' (save_place uuid s fh sub) = Some bs"
proof -
  let ?stored = "uuid @ ToLower (Ext (fh_Filename fh))"
  let ?dst = "JoinPath [JoinPath [fs_basePath s, sanitize sub], ?stored]"
  have small: "sint (fs_maxSize s) > 0 \<longrightarrow> sint (fh_Size fh) \<le> sint (fs_maxSize s)"
    using assms(1) by (auto simp: file_Save_def not_le split: if_split_asm)
  then obtain f1 bs f2 where o: "fh_Open fh = Inr bs" "os_Create OS ?dst f1 = (Inr (), f2)" "os_Copy OS ?dst bs f2 = (Inr (), f')"
    "r = file_response s fh (sanitize sub) ?stored"
    using assms(1) by (auto simp: file_Save_def Let_def bindE_Inr copy_out_Inr not_le split: if_split_asm)
  show "fr_StoredName r = ?stored" "fr_Subfolder r = sanitize sub"
    "sint (fs_maxSize s) > 0 \<longrightarrow> sint (fh_Size fh) \<le> sint (fs_maxSize s)" using small by (simp_all add: o(4))
  show "\<exists>bs. fh_Open fh = Inr bs \<and> content f' (save_place uuid s fh sub) = Some bs"
    using Copy_ok [OF o(3)] Create_ok [OF o(2)] o(1) canon_dst [OF assms(2), of s sub] by (simp add: save_place_def)
qed

end

section \<open>An instance\<close>

text \<open>A tree in memory: the files by absolute path.\<close>

definition mem_fs :: "string \<Rightarrow> (string \<rightharpoonup> string) filesys" where
  "mem_fs d =
     \<lparr>os_MkdirAll = (\<lambda>p f. (Inr (), f)),
      os_Create = (\<lambda>p f. (Inr (), f(canon d p \<mapsto> ''''))),
      os_Copy = (\<lambda>p bs f. (Inr (), f(canon d p \<mapsto> bs))),
      os_Remove = (\<lambda>p f. (Inr (), f(canon d p := None))),
      os_Stat = (\<lambda>p f. if f p = None then Inl (PlainError ''no such file or directory'') else Inr ())\<rparr>"

interpretation mem_fs: file_system "mem_fs ''/srv''" "''/srv''" "\<lambda>f. f"
  by unfold_locales (auto simp: mem_fs_def is_rooted_def)

section \<open>Properties\<close>

text \<open>
  C23: whatever path a client asks for, the download route answers with one response: not found,
  or the contents of a file strictly below the storage root, whose further path elements contain
  no slash and are neither empty nor a dot or double dot.
\<close>

theorem file_serve_confined:
  assumes "is_rooted d"
  shows "\<exists>e. c_Out (snd (file_serve OS (Inr d) s now (fsys, c))) = c_Out c @ [e]
           \<and> (e = EJSON 404 (ErrorResponse now 404 ''File not found'' None)
              \<or> (\<exists>es. es \<noteq> [] \<and> list_all safe_elem es
                    \<and> e = EFile (path_string True (abs_elems d (fs_basePath s) @ es))))"
proof -
  let ?raw = "TrimPrefix (c_Param c ''path'') ''/''"
  let ?name = "snd (SplitPath ?raw)" and ?sub = "TrimSuffix (fst (SplitPath ?raw)) ''/''"
  show ?thesis
  proof (cases "?raw = '''' \<or> (\<exists>e. file_ResolvePath OS (Inr d) s ?sub ?name fsys = Inl e)")
    case True
    then show ?thesis by (auto simp: file_serve_def Let_def split: prod.splits)
  next
    case False
    then obtain p where p: "file_ResolvePath OS (Inr d) s ?sub ?name fsys = Inr p"
      by (cases "file_ResolvePath OS (Inr d) s ?sub ?name fsys") auto
    then have "safe_elem ?name" "p = path_string True (abs_elems d (fs_basePath s) @ sub_elems ?sub @ [?name])"
      using ResolvePath_cases [OF assms p] by (simp_all add: stored_path_def)
    then show ?thesis using False p sub_elems_safe [of ?sub]
      by (intro exI [of _ "EFile p"] conjI disjI2 exI [of _ "sub_elems ?sub @ [?name]"])
         (auto simp: file_serve_def Let_def split: prod.splits)
  qed
qed

definition demo_files :: file_service where
  "demo_files = \<lparr>fs_basePath = ''uploads'', fs_publicBaseURL = ''http://h/api/v1/files'', fs_maxSize = 1000\<rparr>"

theorem file_serve_confined_witness:
  "\<exists>e. c_Out (snd (file_serve (mem_fs ''/srv'') (Inr ''/srv'') demo_files 0
                     (Map.empty, (demo_context '''')\<lparr>c_Param := \<lambda>_. ''/../../etc/passwd''\<rparr>))) = [e]"
proof -
  have "is_rooted ''/srv''" by (simp add: is_rooted_def)
  moreover have "c_Out ((demo_context '''' :: FileResponse gin_context)\<lparr>c_Param := \<lambda>_. ''/../../etc/passwd''\<rparr>) = []"
    by (simp add: demo_context_def)
  ultimately show ?thesis
    using file_serve_confined [of "''/srv''" "mem_fs ''/srv''" demo_files 0 Map.empty
        "(demo_context '''')\<lparr>c_Param := \<lambda>_. ''/../../etc/passwd''\<rparr>"] by auto
qed

text \<open>
  An upload touches no file but the one named by the fresh identifier below the storage root;
  when it succeeds that file holds the bytes of the part, which were within the size limit.
\<close>

theorem file_Save_exact:
  assumes "file_system OS d content" "safe_elem (uuid @ ToLower (Ext (fh_Filename fh)))"
    and "file_Save OS uuid s (Some fh) sub f = (res, f')"
  defines "p \<equiv> path_string True (abs_elems d (fs_basePath s) @ sub_elems sub @ [uuid @ ToLower (Ext (fh_Filename fh))])"
  shows "(\<forall>q. q \<noteq> p \<longrightarrow> content f' q = content f q)
         \<and> (\<forall>r. res = Inr r \<longrightarrow> (\<exists>bs. fh_Open fh = Inr bs \<and> content f' p = Some bs)
              \<and> (sint (fs_maxSize s) > 0 \<longrightarrow> sint (fh_Size fh) \<le> sint (fs_maxSize s)))"
proof -
  have p: "file_system.save_place d uuid s fh sub = p"
    using file_system.save_place_def [OF assms(1)] by (simp add: p_def stored_path_def)
  have "file_system.others_kept content p f f'"
    using file_system.Save_others [OF assms(1,2), of s sub f] assms(3) p by simp
  then have k: "\<forall>q. q \<noteq> p \<longrightarrow> content f' q = content f q"
    using file_system.others_kept_def [OF assms(1)] by blast
  have "(\<exists>bs. fh_Open fh = Inr bs \<and> content f' p = Some bs)
        \<and> (sint (fs_maxSize s) > 0 \<longrightarrow> sint (fh_Size fh) \<le> sint (fs_maxSize s))" if "res = Inr r" for r
    using file_system.Save_ok(3,4) [OF assms(1) _ assms(2), of s sub f r f'] assms(3) that p by simp
  then show ?thesis using k by blast
qed

definition demo_upload :: FileHeader where
  "demo_upload = \<lparr>fh_Filename = ''a.PNG'', fh_Size = 3, fh_Open = Inr ''abc'', fh_ContentType = None\<rparr>"

lemma demo_upload_name: "''u1'' @ ToLower (Ext (fh_Filename demo_upload)) = ''u1.png''"
  by (simp add: demo_upload_def) code_simp

theorem file_Save_exact_witness:
  "snd (file_Save (mem_fs ''/srv'') ''u1'' demo_files (Some demo_upload) ''img'' Map.empty) ''/etc/passwd'' = None"
proof -
  let ?p = "path_string True (abs_elems ''/srv'' (fs_basePath demo_files) @ sub_elems ''img'' @ [''u1'' @ ToLower (Ext (fh_Filename demo_upload))])"
  have "safe_elem (''u1'' @ ToLower (Ext (fh_Filename demo_upload)))" unfolding demo_upload_name by code_simp
  then have "\<forall>q. q \<noteq> ?p \<longrightarrow> snd (file_Save (mem_fs ''/srv'') ''u1'' demo_files (Some demo_upload) ''img'' Map.empty) q = None"
    using file_Save_exact [OF mem_fs.file_system_axioms, of "''u1''" demo_upload demo_files "''img''" Map.empty] by (metis prod.collapse)
  moreover have "?p = ''/srv/uploads/img/u1.png''" unfolding demo_upload_name demo_files_def file_service.simps by code_simp
  ultimately show ?thesis by simp
qed

text \<open>Sanitising a sanitised name changes it at most at the ends.\<close>

lemma ReplaceAll_gone: "old \<noteq> new \<Longrightarrow> old \<notin> set (ReplaceAll old new s)"
  by (induction s) (auto simp: ReplaceAll_def)

lemma ReplaceAll_id: "old \<notin> set s \<Longrightarrow> ReplaceAll old new s = s"
  by (induction s) (auto simp: ReplaceAll_def)

lemma set_Split: "p \<in> set (Split sep s) \<Longrightarrow> set p \<subseteq> set s"
proof (induction s arbitrary: p)
  case (Cons c s)
  show ?case
  proof (cases "Split sep s")
    case (Cons q qs)
    then have "p = [] \<or> p = c # q \<or> p \<in> set (Split sep s)" using Cons.prems by (auto split: if_splits)
    then show ?thesis using Cons.IH [of q] Cons.IH [of p] Cons by auto
  qed simp
qed simp

lemma set_JoinStr: "set (JoinStr sep ps) \<subseteq> insert sep (\<Union> (set ` set ps))"
  by (induction sep ps rule: JoinStr.induct) auto

lemma sub_elems_sanitize:
  assumes "TrimSpace (sanitize sub) = sanitize sub"
  shows "sub_elems (sanitize sub) = sub_elems sub"
proof -
  let ?bs = "char_of (92 :: nat)"
  have sl: "CHR ''/'' \<noteq> ?bs" by code_simp
  have nb: "?bs \<notin> set p" if "p \<in> set (sub_elems sub)" for p
  proof -
    have "p \<in> set (Split (CHR ''/'') (ReplaceAll ?bs (CHR ''/'') (TrimSpace sub)))" using that by (simp only: sub_elems_def set_filter) blast
    from set_Split [OF this] ReplaceAll_gone [OF sl [symmetric]] show ?thesis by (meson subsetD)
  qed
  have "set (sanitize sub) \<subseteq> insert (CHR ''/'') (\<Union> (set ` set (sub_elems sub)))"
    unfolding sanitize_elems by (rule set_JoinStr)
  then have "?bs \<notin> set (sanitize sub)" using nb sl by (metis (no_types, lifting) UN_iff insertE subsetD)
  then have r: "ReplaceAll ?bs (CHR ''/'') (sanitize sub) = sanitize sub" by (rule ReplaceAll_id)
  have ok: "filter (\<lambda>p. \<not> (p = '''' \<or> p = ''.'' \<or> p = ''..'')) (sub_elems sub) = sub_elems sub"
    unfolding sub_elems_def filter_filter by simp
  have "sub_elems (sanitize sub) = filter (\<lambda>p. \<not> (p = '''' \<or> p = ''.'' \<or> p = ''..'')) (Split (CHR ''/'') (sanitize sub))"
    unfolding sub_elems_def [of "sanitize sub"] assms r by simp
  also have "\<dots> = sub_elems sub"
  proof (cases "sub_elems sub = []")
    case False
    then have "Split (CHR ''/'') (sanitize sub) = sub_elems sub"
      using sub_elems_safe [of sub] unfolding sanitize_elems by (intro Split_JoinStr) (auto simp: list_all_iff safe_elem_def)
    then show ?thesis using ok by simp
  qed (simp add: sanitize_elems)
  finally show ?thesis .
qed


text \<open>
  Sanitising is not idempotent: a blank next to a removed slash survives the upload, so the file
  is stored under a directory the download route cannot name.
\<close>

lemma sanitize_not_idempotent: "sanitize ''/ a'' = '' a'' \<and> sanitize '' a'' = ''a''"
  by code_simp


end
