(* ===== verification/AuditLog.thy ===== *)
theory AuditLog
  imports Security Names
begin

text \<open>
  Module \<open>internal/modules/audit\<close>: the request log.  The middleware builds one row per request,
  masks the captured bodies and hands the row to a service that queues it on a bounded channel
  for a single writer.

  The documents of \<open>encoding/json\<close> are the datatype \<open>json\<close>; the decoder and the encoder are the
  two functions of \<open>json_codec\<close>, of which nothing is assumed.  \<open>wire\<close> stands for the bytes gin
  writes for an effect, \<open>rd\<close> for \<open>io.ReadAll\<close> on the request body.
\<close>

section \<open>Rows and filters\<close>

record Log =
  al_ID :: uint64
  al_RequestID :: string
  al_Timestamp :: time
  al_DurationMs :: int
  al_UserID :: uint64
  al_Username :: string
  al_Method :: string
  al_Path :: string
  al_QueryString :: string
  al_StatusCode :: int
  al_Action :: string
  al_ResourceType :: string
  al_ResourceID :: string
  al_ClientIP :: string
  al_UserAgent :: string
  al_RequestBody :: string
  al_ResponseBody :: string
  al_ErrorMessage :: string

record AuditFilter =
  af_Username :: string
  af_UserID :: "uint64 option"
  af_Method :: string
  af_Path :: string
  af_Action :: string
  af_ResourceType :: string
  af_ResourceID :: string
  af_StatusCode :: "int option"
  af_RequestID :: string
  af_From :: "time option"
  af_To :: "time option"

record AuditConfig =
  ac_Enabled :: bool
  ac_ExposeAPI :: bool
  ac_AuditAll :: bool
  ac_CaptureRequestBody :: bool
  ac_CaptureResponseBody :: bool
  ac_MaxBodyLength :: goint
  ac_IncludePrefixes :: "string list"
  ac_ExcludePatterns :: "string list"
  ac_MaskedFields :: "string list"

section \<open>Masking\<close>

text \<open>
  What \<open>json.Unmarshal\<close> stores in an \<open>any\<close>.  An object is the list of its members; its keys are
  distinct and their order has no meaning.
\<close>

datatype json =
    JNull
  | JBool bool
  | JNumber f64
  | JString string
  | JArray "json list"
  | JObject "(string \<times> json) list"

record json_codec =
  js_Unmarshal :: "string \<Rightarrow> json option"
  js_Marshal :: "json \<Rightarrow> string option"

record bodyMasker =
  mk_fields :: "string set"
  mk_maxLength :: goint

definition newBodyMasker :: "string list \<Rightarrow> goint \<Rightarrow> bodyMasker" where
  "newBodyMasker fs maxLen =
     \<lparr>mk_fields = set (map ToLower fs), mk_maxLength = (if sint maxLen \<le> 0 then 10000 else maxLen)\<rparr>"

fun walk :: "bodyMasker \<Rightarrow> json \<Rightarrow> json"
  and walk_members :: "bodyMasker \<Rightarrow> (string \<times> json) list \<Rightarrow> (string \<times> json) list"
  and walk_elems :: "bodyMasker \<Rightarrow> json list \<Rightarrow> json list" where
  "walk b (JObject t) = JObject (walk_members b t)"
| "walk b (JArray t) = JArray (walk_elems b t)"
| "walk b v = v"
| "walk_members b [] = []"
| "walk_members b ((k, val) # t) =
     (k, if ToLower k \<in> mk_fields b then JString ''***'' else walk b val) # walk_members b t"
| "walk_elems b [] = []"
| "walk_elems b (v # t) = walk b v # walk_elems b t"

definition maskJSON :: "json_codec \<Rightarrow> bodyMasker \<Rightarrow> string \<Rightarrow> string" where
  "maskJSON J b body =
     (case js_Unmarshal J body of
        None \<Rightarrow> body
      | Some v \<Rightarrow> (case js_Marshal J (walk b v) of None \<Rightarrow> body | Some out \<Rightarrow> out))"

definition MaskAndTruncate :: "json_codec \<Rightarrow> bodyMasker \<Rightarrow> string \<Rightarrow> string" where
  "MaskAndTruncate J b body =
     (if length body = 0 then ''''
      else let masked = maskJSON J b body
           in if int (length masked) > sint (mk_maxLength b)
              then take (nat (sint (mk_maxLength b))) masked @ ''...[truncated]''
              else masked)"

section \<open>The service\<close>

datatype audit_warning = BufferFull string string | WriteFailed string db_error

text \<open>
  \<open>dbService\<close>: the channel buffer, whether it has been closed, the table behind it, whether the
  worker has returned, and the warnings logged.
\<close>

record audit_service =
  as_ch :: "Log list"
  as_closed :: bool
  as_table :: "Log table"
  as_done :: bool
  as_warnings :: "audit_warning list"

definition audit_NewService :: "Log table \<Rightarrow> audit_service" where
  "audit_NewService t = \<lparr>as_ch = [], as_closed = False, as_table = t, as_done = False, as_warnings = []\<rparr>"

text \<open>A panic is \<open>Some\<close> message.  A send on a closed channel panics even under \<open>select\<close>.\<close>

definition audit_Record :: "Log \<Rightarrow> audit_service \<Rightarrow> string option \<times> audit_service" where
  "audit_Record entry s =
     (if as_closed s then (Some ''send on closed channel'', s)
      else if length (as_ch s) < 1024 then (None, s\<lparr>as_ch := as_ch s @ [entry]\<rparr>)
      else (None, s\<lparr>as_warnings := as_warnings s @ [BufferFull (al_Path entry) (al_RequestID entry)]\<rparr>))"

text \<open>
  One turn of the worker's loop: it writes the oldest entry, returns on a closed and empty
  channel, and is blocked (\<open>None\<close>) on an open and empty one.
\<close>

definition audit_worker :: "Log gorm \<Rightarrow> audit_service \<Rightarrow> audit_service option" where
  "audit_worker G s =
     (if as_done s then None
      else case as_ch s of
        entry # rest \<Rightarrow>
          (case db_Create G entry (as_table s) of
             (Inr _, t) \<Rightarrow> Some (s\<lparr>as_ch := rest, as_table := t\<rparr>)
           | (Inl err, t) \<Rightarrow> Some (s\<lparr>as_ch := rest, as_table := t,
                                    as_warnings := as_warnings s @ [WriteFailed (al_Path entry) err]\<rparr>))
      | [] \<Rightarrow> if as_closed s then Some (s\<lparr>as_done := True\<rparr>) else None)"

text \<open>\<open>Wait\<close> closes the channel and then returns once the worker has, or its context is done.\<close>

definition audit_close :: "audit_service \<Rightarrow> string option \<times> audit_service" where
  "audit_close s = (if as_closed s then (Some ''close of closed channel'', s) else (None, s\<lparr>as_closed := True\<rparr>))"

definition audit_Wait_returns :: "bool \<Rightarrow> audit_service \<Rightarrow> bool" where
  "audit_Wait_returns ctx_done s = (as_done s \<or> ctx_done)"

definition audit_matches :: "(string \<Rightarrow> string \<Rightarrow> bool) \<Rightarrow> AuditFilter \<Rightarrow> Log \<Rightarrow> bool" where
  "audit_matches like f r =
     ((af_Username f \<noteq> '''' \<longrightarrow> al_Username r = af_Username f)
      \<and> (case af_UserID f of None \<Rightarrow> True | Some u \<Rightarrow> al_UserID r = u)
      \<and> (af_Method f \<noteq> '''' \<longrightarrow> al_Method r = af_Method f)
      \<and> (af_Path f \<noteq> '''' \<longrightarrow> like (al_Path r) (''%'' @ af_Path f @ ''%''))
      \<and> (af_Action f \<noteq> '''' \<longrightarrow> al_Action r = af_Action f)
      \<and> (af_ResourceType f \<noteq> '''' \<longrightarrow> al_ResourceType r = af_ResourceType f)
      \<and> (af_ResourceID f \<noteq> '''' \<longrightarrow> al_ResourceID r = af_ResourceID f)
      \<and> (case af_StatusCode f of None \<Rightarrow> True | Some s \<Rightarrow> al_StatusCode r = s)
      \<and> (af_RequestID f \<noteq> '''' \<longrightarrow> al_RequestID r = af_RequestID f)
      \<and> (case af_From f of None \<Rightarrow> True | Some t \<Rightarrow> t \<le> al_Timestamp r)
      \<and> (case af_To f of None \<Rightarrow> True | Some t \<Rightarrow> al_Timestamp r \<le> t))"

definition audit_Search ::
  "Log gorm \<Rightarrow> (string \<Rightarrow> string \<Rightarrow> bool) \<Rightarrow> AuditFilter \<Rightarrow> PageRequest \<Rightarrow> Log table \<Rightarrow> go_error + Log PageResponse" where
  "audit_Search G like f page t =
     (case db_Count G (audit_matches like f) t of
        Inl err \<Rightarrow> Inl (DbError err)
      | Inr n \<Rightarrow>
          (case db_Find G (audit_matches like f) (\<lambda>a b. al_Timestamp b \<le> al_Timestamp a)
                  (Some (Offset page, Limit page)) t of
             Inl err \<Rightarrow> Inl (DbError err)
           | Inr rs \<Rightarrow> Inr (NewPage (Some rs) page n)))"

section \<open>The middleware\<close>

definition ctxAction :: string where "ctxAction = ''audit.action''"
definition ctxResourceType :: string where "ctxResourceType = ''audit.resource_type''"
definition ctxResourceID :: string where "ctxResourceID = ''audit.resource_id''"
definition ctxSkip :: string where "ctxSkip = ''audit.skip''"

lemmas audit_key_defs = ctxAction_def ctxResourceType_def ctxResourceID_def ctxSkip_def

definition Action :: "string \<Rightarrow> string \<Rightarrow> string \<Rightarrow> 'd gin_context \<Rightarrow> 'd gin_context" where
  "Action action resourceType resourceID c =
     (let c = (if action \<noteq> '''' then SetKey ctxAction (AnyString action) c else c);
          c = (if resourceType \<noteq> '''' then SetKey ctxResourceType (AnyString resourceType) c else c)
      in if resourceID \<noteq> '''' then SetKey ctxResourceID (AnyString resourceID) c else c)"

definition Skip :: "'d gin_context \<Rightarrow> 'd gin_context" where
  "Skip c = SetKey ctxSkip (AnyBool True) c"

fun any_prefix :: "string \<Rightarrow> string list \<Rightarrow> bool" where
  "any_prefix path [] = False"
| "any_prefix path (p # ps) = (if HasPrefix path p then True else any_prefix path ps)"

definition pathIncluded :: "string \<Rightarrow> string list \<Rightarrow> bool" where
  "pathIncluded path prefixes = (if length prefixes = 0 then True else any_prefix path prefixes)"

fun pathExcluded :: "string \<Rightarrow> string list \<Rightarrow> bool" where
  "pathExcluded path [] = False"
| "pathExcluded path (p # ps) = (if Contains path p then True else pathExcluded path ps)"

text \<open>\<open>responseCapturer\<close>: the bytes passed to \<open>Write\<close> and \<open>WriteString\<close>, in order.\<close>

definition capturer_Write :: "string \<Rightarrow> string \<Rightarrow> string" where
  "capturer_Write p buf = buf @ p"

fun capturer_effect :: "('d effect \<Rightarrow> string) \<Rightarrow> 'd effect \<Rightarrow> string \<Rightarrow> string" where
  "capturer_effect wire (EBytes p) buf = capturer_Write p buf"
| "capturer_effect wire (EStatus _) buf = buf"
| "capturer_effect wire (EHeader _ _) buf = buf"
| "capturer_effect wire e buf = capturer_Write (wire e) buf"

definition response_bytes :: "('d effect \<Rightarrow> string) \<Rightarrow> 'd effect list \<Rightarrow> string" where
  "response_bytes wire es = fold (capturer_effect wire) es ''''"

text \<open>\<open>Duration.Milliseconds\<close> truncates towards zero.\<close>

definition Milliseconds :: "duration \<Rightarrow> int" where
  "Milliseconds d = sgn d * (\<bar>d\<bar> div 1000000)"

definition string_key :: "string \<Rightarrow> 'd gin_context \<Rightarrow> string" where
  "string_key k c = (case GetString k c of Some s \<Rightarrow> s | None \<Rightarrow> '''')"

text \<open>
  The row for a finished request.  \<open>c.Errors\<close>, which no code of the program fills, is empty, so
  the error message is.
\<close>

definition audit_entry ::
  "clock \<Rightarrow> string \<Rightarrow> (string \<Rightarrow> string) \<Rightarrow> string option \<Rightarrow> string option \<Rightarrow> 'd gin_context \<Rightarrow> Log" where
  "audit_entry clk path mf reqBody respBuf c =
     \<lparr>al_ID = 0, al_RequestID = GetRequestID c, al_Timestamp = clk 0, al_DurationMs = Milliseconds (clk 1 - clk 0),
      al_UserID = (case GetU64 CtxUserID c of Some u \<Rightarrow> u | None \<Rightarrow> 0), al_Username = string_key CtxUsername c,
      al_Method = c_Method c, al_Path = path, al_QueryString = c_RawQuery c, al_StatusCode = WriterStatus c,
      al_Action = string_key ctxAction c, al_ResourceType = string_key ctxResourceType c,
      al_ResourceID = string_key ctxResourceID c, al_ClientIP = c_ClientIP c, al_UserAgent = c_UserAgent c,
      al_RequestBody = (case reqBody of Some b \<Rightarrow> mf b | None \<Rightarrow> ''''),
      al_ResponseBody = (case respBuf of Some b \<Rightarrow> mf b | None \<Rightarrow> ''''), al_ErrorMessage = ''''\<rparr>"

text \<open>
  The rest of the chain may panic (\<open>Some\<close> message); the middleware has no deferred call, so the
  panic leaves it at once.  \<open>svc\<close> is \<open>Record\<close> of the service, on the server state.
\<close>

type_synonym ('w, 'd) panicking = "'w \<times> 'd gin_context \<Rightarrow> string option \<times> 'w \<times> 'd gin_context"

definition audit_Middleware ::
  "('d effect \<Rightarrow> string) \<Rightarrow> (string \<Rightarrow> go_error + string) \<Rightarrow> json_codec \<Rightarrow> (Log \<Rightarrow> 'w \<Rightarrow> string option \<times> 'w)
     \<Rightarrow> AuditConfig \<Rightarrow> clock \<Rightarrow> ('w, 'd) panicking \<Rightarrow> ('w, 'd) panicking" where
  "audit_Middleware wire rd J svc cfg clk next_h s =
     (let masker = newBodyMasker (ac_MaskedFields cfg) (ac_MaxBodyLength cfg);
          (w, c) = s
      in if \<not> ac_Enabled cfg then next_h (w, c)
         else let path = c_Path c
         in if \<not> pathIncluded path (ac_IncludePrefixes cfg) \<or> pathExcluded path (ac_ExcludePatterns cfg)
            then next_h (w, c)
         else let reqBody = (if ac_CaptureRequestBody cfg
                             then (case rd (c_Body c) of Inr b \<Rightarrow> Some b | Inl _ \<Rightarrow> None) else None);
                  c1 = (case reqBody of Some b \<Rightarrow> c\<lparr>c_Body := b\<rparr> | None \<Rightarrow> c)
         in case next_h (w, c1) of
              (Some r, w', c') \<Rightarrow> (Some r, w', c')
            | (None, w', c') \<Rightarrow>
                if GetBool ctxSkip c' = Some True then (None, w', c')
                else let respBuf = (if ac_CaptureResponseBody cfg
                                    then Some (response_bytes wire (drop (length (c_Out c)) (c_Out c'))) else None);
                         entry = audit_entry clk path (MaskAndTruncate J masker) reqBody respBuf c';
                         (p, w'') = svc entry w'
                     in (p, w'', c'))"

section \<open>The read API\<close>

definition audit_search ::
  "Log gorm \<Rightarrow> (string \<Rightarrow> string \<Rightarrow> bool) \<Rightarrow> (string \<Rightarrow> AuditFilter) \<Rightarrow> (string \<Rightarrow> PageRequest) \<Rightarrow> time
     \<Rightarrow> (Log PageResponse) gin_context \<Rightarrow> (audit_service, go_error, (Log PageResponse) ApiResponse) op" where
  "audit_search G like bindf bindp now c =
     bindE (readE (\<lambda>s. audit_Search G like (bindf (c_RawQuery c)) (BindPage bindp c) (as_table s))) (\<lambda>res.
     returnE (OK now (Some res)))"

text \<open>\<open>Register\<close>: the route exists only when the API is exposed.\<close>

definition audit_Register ::
  "AuditConfig \<Rightarrow> Log gorm \<Rightarrow> (string \<Rightarrow> string \<Rightarrow> bool) \<Rightarrow> (string \<Rightarrow> AuditFilter) \<Rightarrow> (string \<Rightarrow> PageRequest) \<Rightarrow> clock
     \<Rightarrow> (audit_service, Log PageResponse) handler option" where
  "audit_Register cfg G like bindf bindp clk =
     (if \<not> ac_Enabled cfg \<or> \<not> ac_ExposeAPI cfg then None
      else Some (HasPermission (clk 0) [AuditRead] (Handler (clk 2) (endpoint (audit_search G like bindf bindp (clk 1))))))"

section \<open>Masking: paths into a document\<close>

text \<open>A position in a document: member names and array indices from the root.\<close>

datatype json_step = Member string | Elem nat

fun json_get :: "json_step list \<Rightarrow> json \<Rightarrow> json option" where
  "json_get [] v = Some v"
| "json_get (Member k # p) (JObject t) = (case map_of t k of None \<Rightarrow> None | Some v \<Rightarrow> json_get p v)"
| "json_get (Elem i # p) (JArray t) = (if i < length t then json_get p (t ! i) else None)"
| "json_get (_ # _) v = None"

fun masked_step :: "bodyMasker \<Rightarrow> json_step \<Rightarrow> bool" where
  "masked_step b (Member k) = (ToLower k \<in> mk_fields b)"
| "masked_step b (Elem _) = False"

lemma map_of_walk_members:
  "map_of (walk_members b t) k =
     map_option (\<lambda>v. if ToLower k \<in> mk_fields b then JString ''***'' else walk b v) (map_of t k)"
  by (induction t) auto

lemma walk_elems_map: "walk_elems b t = map (walk b) t"
  by (induction t) auto

lemma json_get_masked_member:
  "ToLower k \<in> mk_fields b \<Longrightarrow> json_get (Member k # p) (walk b v) =
     (if p = [] then map_option (\<lambda>_. JString ''***'') (json_get [Member k] v) else None)"
proof (cases v)
  case (JObject t)
  assume k: "ToLower k \<in> mk_fields b"
  have "json_get p (JString ''***'') = None" if ne: "p \<noteq> []"
  proof -
    obtain st p' where "p = st # p'" using ne by (auto simp: neq_Nil_conv)
    then show ?thesis by (cases st) simp_all
  qed
  then show ?thesis using k JObject by (auto simp: map_of_walk_members split: option.splits)
qed auto

lemma json_get_walk:
  "json_get p (walk b v) =
     (if list_all (\<lambda>st. \<not> masked_step b st) p then map_option (walk b) (json_get p v)
      else if list_all (\<lambda>st. \<not> masked_step b st) (butlast p)
           then map_option (\<lambda>_. JString ''***'') (json_get p v)
           else None)"
proof (induction p v rule: json_get.induct)
  case (2 k p t)
  show ?case
  proof (cases "ToLower k \<in> mk_fields b")
    case True
    then show ?thesis using json_get_masked_member [OF True, of p "JObject t"] by (cases "p = []") (auto split: option.splits)
  next
    case False
    then show ?thesis using 2 by (cases "map_of t k") (auto simp: map_of_walk_members)
  qed
next
  case (3 i p t)
  then show ?case by (auto simp: walk_elems_map)
qed auto

text \<open>
  Two documents that differ at most in the values of masked members: the same structure, the
  same scalars, the same member names.
\<close>

fun json_agree :: "bodyMasker \<Rightarrow> json \<Rightarrow> json \<Rightarrow> bool"
  and members_agree :: "bodyMasker \<Rightarrow> (string \<times> json) list \<Rightarrow> (string \<times> json) list \<Rightarrow> bool"
  and elems_agree :: "bodyMasker \<Rightarrow> json list \<Rightarrow> json list \<Rightarrow> bool" where
  "json_agree b (JObject t) (JObject u) = members_agree b t u"
| "json_agree b (JArray t) (JArray u) = elems_agree b t u"
| "json_agree b v w = (v = w)"
| "members_agree b [] [] = True"
| "members_agree b ((k, v) # t) ((l, w) # u) =
     (k = l \<and> (ToLower k \<in> mk_fields b \<or> json_agree b v w) \<and> members_agree b t u)"
| "members_agree b _ _ = False"
| "elems_agree b [] [] = True"
| "elems_agree b (v # t) (w # u) = (json_agree b v w \<and> elems_agree b t u)"
| "elems_agree b _ _ = False"

lemma walk_agree:
  "json_agree b v w \<Longrightarrow> walk b v = walk b w"
  "members_agree b t u \<Longrightarrow> walk_members b t = walk_members b u"
  "elems_agree b xs ys \<Longrightarrow> walk_elems b xs = walk_elems b ys"
  by (induction b v w and b t u and b xs ys rule: json_agree_members_agree_elems_agree.induct) auto

lemma newBodyMasker_max: "1 \<le> sint (mk_maxLength (newBodyMasker fs n))"
  by (auto simp: newBodyMasker_def)

lemma MaskAndTruncate_length:
  "1 \<le> sint (mk_maxLength b) \<Longrightarrow> int (length (MaskAndTruncate J b body)) \<le> sint (mk_maxLength b) + 14"
  by (auto simp: MaskAndTruncate_def Let_def)

section \<open>The service as a state machine\<close>

text \<open>What a step did: a row accepted or refused by \<open>Record\<close>, the writer's turn, the shutdown.\<close>

datatype audit_event = Accepted Log | Refused Log | Wrote Log | Lost Log | Closing | Returned

inductive audit_step :: "Log gorm \<Rightarrow> audit_service \<Rightarrow> audit_event \<Rightarrow> audit_service \<Rightarrow> bool" for G where
  record_accepted: "audit_Record e s = (p, s') \<Longrightarrow> as_ch s' = as_ch s @ [e] \<Longrightarrow> audit_step G s (Accepted e) s'"
| record_refused: "audit_Record e s = (p, s') \<Longrightarrow> as_ch s' = as_ch s \<Longrightarrow> audit_step G s (Refused e) s'"
| worker_wrote: "audit_worker G s = Some s' \<Longrightarrow> as_ch s = e # as_ch s' \<Longrightarrow> as_warnings s' = as_warnings s
    \<Longrightarrow> audit_step G s (Wrote e) s'"
| worker_lost: "audit_worker G s = Some s' \<Longrightarrow> as_ch s = e # as_ch s' \<Longrightarrow> as_warnings s' \<noteq> as_warnings s
    \<Longrightarrow> audit_step G s (Lost e) s'"
| worker_returned: "audit_worker G s = Some s' \<Longrightarrow> as_done s' \<Longrightarrow> audit_step G s Returned s'"
| closing: "audit_close s = (p, s') \<Longrightarrow> audit_step G s Closing s'"

inductive audit_run :: "Log gorm \<Rightarrow> Log table \<Rightarrow> audit_event list \<Rightarrow> audit_service \<Rightarrow> bool" for G t where
  audit_start: "audit_run G t [] (audit_NewService t)"
| audit_more: "audit_run G t evs s \<Longrightarrow> audit_step G s ev s' \<Longrightarrow> audit_run G t (evs @ [ev]) s'"

fun accepted_row :: "audit_event \<Rightarrow> Log option" where
  "accepted_row (Accepted e) = Some e"
| "accepted_row _ = None"

fun handled_row :: "audit_event \<Rightarrow> Log option" where
  "handled_row (Wrote e) = Some e"
| "handled_row (Lost e) = Some e"
| "handled_row _ = None"

fun written_row :: "audit_event \<Rightarrow> Log option" where
  "written_row (Wrote e) = Some e"
| "written_row _ = None"

inductive_cases audit_stepE: "audit_step G s ev s'"

text \<open>The table beside the key that the database gives a row.\<close>

definition log_filled :: "Log \<Rightarrow> Log \<Rightarrow> bool" where
  "log_filled r r' = (r' = r\<lparr>al_ID := al_ID r'\<rparr>)"

definition keyless :: "Log \<Rightarrow> Log" where
  "keyless r = r\<lparr>al_ID := 0\<rparr>"

lemmas audit_op_defs = audit_Record_def audit_worker_def audit_close_def

lemma map_filter_snoc: "List.map_filter f (xs @ [x]) = List.map_filter f xs @ (case f x of None \<Rightarrow> [] | Some y \<Rightarrow> [y])"
  by (simp add: List.map_filter_def split: option.splits)

lemma map_filter_in: "y \<in> set (List.map_filter f xs) \<longleftrightarrow> (\<exists>x \<in> set xs. f x = Some y)"
  by (force simp: List.map_filter_def)

lemma audit_worker_cases [consumes 1, case_names turn returned]:
  assumes "audit_worker G s = Some s'"
  obtains (turn) e r t where "\<not> as_done s" "as_ch s = e # as_ch s'" "db_Create G e (as_table s) = (r, t)"
      "as_table s' = t" "as_closed s' = as_closed s" "\<not> as_done s'"
      "as_warnings s' = as_warnings s @ (case r of Inl err \<Rightarrow> [WriteFailed (al_Path e) err] | Inr _ \<Rightarrow> [])"
  | (returned) "\<not> as_done s" "as_ch s = []" "as_closed s" "s' = s\<lparr>as_done := True\<rparr>"
proof (cases "as_ch s")
  case Nil
  then show thesis using assms returned by (auto simp: audit_worker_def split: if_splits)
next
  case (Cons e es)
  obtain r t where c: "db_Create G e (as_table s) = (r, t)" by (cases "db_Create G e (as_table s)") auto
  show thesis
    by (rule turn [OF _ _ c]) (use assms Cons c in \<open>auto simp: audit_worker_def split: if_splits sum.splits\<close>)
qed

lemma audit_step_queue:
  "audit_step G s ev s' \<Longrightarrow>
     as_ch s @ (case accepted_row ev of None \<Rightarrow> [] | Some e \<Rightarrow> [e])
     = (case handled_row ev of None \<Rightarrow> [] | Some e \<Rightarrow> [e]) @ as_ch s'"
  by (erule audit_stepE) (auto simp: audit_Record_def audit_close_def elim!: audit_worker_cases split: if_splits)

lemma audit_step_bound: "audit_step G s ev s' \<Longrightarrow> length (as_ch s) \<le> 1024 \<Longrightarrow> length (as_ch s') \<le> 1024"
  by (erule audit_stepE) (auto simp: audit_Record_def audit_close_def elim!: audit_worker_cases split: if_splits)

lemma audit_step_done:
  "audit_step G s ev s' \<Longrightarrow> (as_done s \<longrightarrow> as_closed s \<and> as_ch s = []) \<Longrightarrow>
     as_done s' \<longrightarrow> as_closed s' \<and> as_ch s' = []"
  by (erule audit_stepE) (auto simp: audit_Record_def audit_close_def elim!: audit_worker_cases split: if_splits)

lemma audit_step_refused:
  "audit_step G s (Refused e) s' \<Longrightarrow> length (as_ch s) \<le> 1024 \<Longrightarrow>
     as_closed s \<and> s' = s \<or> \<not> as_closed s \<and> length (as_ch s) = 1024
       \<and> s' = s\<lparr>as_warnings := as_warnings s @ [BufferFull (al_Path e) (al_RequestID e)]\<rparr>"
  by (erule audit_stepE) (auto simp: audit_op_defs split: if_splits)

lemma audit_run_queue:
  "audit_run G t evs s \<Longrightarrow>
     List.map_filter accepted_row evs = List.map_filter handled_row evs @ as_ch s
     \<and> length (as_ch s) \<le> 1024 \<and> (as_done s \<longrightarrow> as_closed s \<and> as_ch s = [])"
proof (induction rule: audit_run.induct)
  case audit_start
  then show ?case by (simp add: audit_NewService_def List.map_filter_def)
next
  case (audit_more evs s ev s')
  then show ?case using audit_step_queue [OF audit_more(2)] audit_step_bound [OF audit_more(2)] audit_step_done [OF audit_more(2)]
    by (auto simp: map_filter_snoc)
qed

locale audit_rows = gorm_hard G al_ID log_filled "\<lambda>_. True"
  for G :: "Log gorm"
begin

lemma step_rows:
  assumes "audit_step G s ev s'" "\<And>e. e \<in> set (as_ch s) \<Longrightarrow> al_ID e = 0"
  shows "map keyless (rows (as_table s')) =
           map keyless (rows (as_table s)) @ (case written_row ev of None \<Rightarrow> [] | Some e \<Rightarrow> [e])"
  using assms(1)
proof (cases rule: audit_step.cases)
  case (worker_wrote e)
  then obtain r where c: "db_Create G e (as_table s) = (Inr r, as_table s')"
    by (elim audit_worker_cases) (auto split: sum.splits)
  have "al_ID e = 0" using assms(2) worker_wrote(3) by simp
  then have "rows (as_table s') = rows (as_table s) @ [r]" "keyless r = e"
    using Create_ok [OF c] by (auto simp: log_filled_def keyless_def) (metis Log.surjective Log.update_convs(1))
  then show ?thesis using worker_wrote by simp
next
  case (worker_lost e)
  then obtain err where c: "db_Create G e (as_table s) = (Inl err, as_table s')"
    by (elim audit_worker_cases) (auto split: sum.splits)
  then show ?thesis using Create_failed [OF c] worker_lost by simp
next
  case worker_returned
  then show ?thesis by (elim audit_worker_cases) auto
qed (auto simp: audit_op_defs split: if_splits)

lemma run_rows:
  assumes "audit_run G t evs s" "\<And>e. Accepted e \<in> set evs \<Longrightarrow> al_ID e = 0"
  shows "map keyless (rows (as_table s)) = map keyless (rows t) @ List.map_filter written_row evs"
  using assms
proof (induction rule: audit_run.induct)
  case audit_start
  then show ?case by (simp add: audit_NewService_def List.map_filter_def)
next
  case (audit_more evs s ev s')
  have "al_ID e = 0" if e: "e \<in> set (as_ch s)" for e
  proof -
    have "e \<in> set (List.map_filter accepted_row evs)"
      using conjunct1 [OF audit_run_queue [OF audit_more(1)]] e by simp
    then obtain a where a: "a \<in> set evs" "accepted_row a = Some e" by (auto simp: map_filter_in)
    from a(2) have "a = Accepted e" by (cases a) auto
    then show ?thesis using audit_more.prems a(1) by simp
  qed
  then show ?case using step_rows [OF audit_more(2)] audit_more.IH audit_more.prems by (simp add: map_filter_snoc)
qed

end

section \<open>Shutdown\<close>

text \<open>The worker alone, for at most \<open>n\<close> turns.\<close>

fun audit_drain :: "Log gorm \<Rightarrow> nat \<Rightarrow> audit_service \<Rightarrow> audit_service" where
  "audit_drain G 0 s = s"
| "audit_drain G (Suc n) s = (case audit_worker G s of None \<Rightarrow> s | Some s' \<Rightarrow> audit_drain G n s')"

lemma audit_drain_closed:
  "as_closed s \<Longrightarrow> \<not> as_done s \<Longrightarrow>
     as_done (audit_drain G (Suc (length (as_ch s))) s) \<and> as_ch (audit_drain G (Suc (length (as_ch s))) s) = []"
proof (induction "as_ch s" arbitrary: s)
  case Nil
  then show ?case by (simp add: audit_worker_def flip: Nil(1))
next
  case (Cons e es)
  obtain r t where c: "db_Create G e (as_table s) = (r, t)" by (cases "db_Create G e (as_table s)") auto
  define s' where "s' = s\<lparr>as_ch := es, as_table := t,
      as_warnings := as_warnings s @ (case r of Inl err \<Rightarrow> [WriteFailed (al_Path e) err] | Inr _ \<Rightarrow> [])\<rparr>"
  have w: "audit_worker G s = Some s'"
    using Cons.prems c by (auto simp: audit_worker_def s'_def simp flip: Cons(2) split: sum.splits)
  have "es = as_ch s'" "as_closed s'" "\<not> as_done s'" using Cons.prems by (simp_all add: s'_def)
  then show ?case using Cons.hyps(1) [of s'] w by (simp flip: Cons(2))
qed

section \<open>An instance\<close>

definition mem_logs :: "Log gorm" where
  "mem_logs = mem_gorm al_ID (\<lambda>k r. r\<lparr>al_ID := k\<rparr>) (\<lambda>_. True) (\<lambda>_. None) (\<lambda>_. True)"

interpretation mem_logs: audit_rows mem_logs
  unfolding audit_rows_def mem_logs_def by (rule mem_gorm_hard) (simp_all add: log_filled_def)

section \<open>Properties\<close>

text \<open>
  Masking is exact at every position of a document.  A position reached without crossing a
  masked member holds the masked form of what it held; a position whose last step is the first
  masked member on the way holds the string of three stars, whatever it held; below it there is
  nothing.
\<close>

theorem walk_masks_exactly:
  "json_get p (walk b v) =
     (if list_all (\<lambda>st. \<not> masked_step b st) p then map_option (walk b) (json_get p v)
      else if list_all (\<lambda>st. \<not> masked_step b st) (butlast p)
           then map_option (\<lambda>_. JString ''***'') (json_get p v)
           else None)"
  by (rule json_get_walk)

text \<open>
  C20: what is stored of a JSON body does not depend on the values of its masked members: two
  bodies whose documents differ at most there give the same text, which is at most 14 bytes
  longer than the configured maximum.
\<close>

theorem audit_body_hides_masked_fields:
  assumes "b = newBodyMasker fs maxLen"
    and "body1 \<noteq> ''''" "js_Unmarshal J body1 = Some v1" "body2 \<noteq> ''''" "js_Unmarshal J body2 = Some v2"
    and "json_agree b v1 v2" "js_Marshal J (walk b v1) = Some out"
  shows "MaskAndTruncate J b body1 = MaskAndTruncate J b body2
         \<and> int (length (MaskAndTruncate J b body1)) \<le> sint (mk_maxLength b) + 14"
proof
  have "maskJSON J b body1 = out" "maskJSON J b body2 = out"
    using assms(3,5,7) walk_agree(1) [OF assms(6)] by (simp_all add: maskJSON_def)
  then show "MaskAndTruncate J b body1 = MaskAndTruncate J b body2"
    using assms(2,4) by (simp add: MaskAndTruncate_def)
  show "int (length (MaskAndTruncate J b body1)) \<le> sint (mk_maxLength b) + 14"
    using newBodyMasker_max [of fs maxLen] assms(1) by (intro MaskAndTruncate_length) simp
qed

definition demo_doc :: "string \<Rightarrow> json" where
  "demo_doc secret = JObject [(''username'', JString ''ada''), (''Password'', JString secret)]"

definition demo_codec :: json_codec where
  "demo_codec =
     \<lparr>js_Unmarshal = (\<lambda>s. if HasPrefix s ''p='' then Some (demo_doc (drop 2 s)) else None),
      js_Marshal = (\<lambda>v. Some (if v = demo_doc ''***'' then ''ada:***'' else ''?''))\<rparr>"

theorem audit_body_hides_masked_fields_witness:
  "MaskAndTruncate demo_codec (newBodyMasker [''password''] 0) ''p=hunter2''
   = MaskAndTruncate demo_codec (newBodyMasker [''password''] 0) ''p=letmein''"
proof -
  let ?b = "newBodyMasker [''password''] 0"
  have l: "ToLower ''Password'' = ''password''" "ToLower ''password'' = ''password''" "ToLower ''username'' = ''username''"
    by code_simp+
  have w: "walk ?b (demo_doc s) = demo_doc ''***''" for s
    by (simp add: demo_doc_def newBodyMasker_def l)
  have a: "json_agree ?b (demo_doc s) (demo_doc s')" for s s'
    by (simp add: demo_doc_def newBodyMasker_def l)
  have "js_Unmarshal demo_codec ''p=hunter2'' = Some (demo_doc ''hunter2'')"
    "js_Unmarshal demo_codec ''p=letmein'' = Some (demo_doc ''letmein'')"
    by (simp_all add: demo_codec_def HasPrefix_def)
  moreover have "js_Marshal demo_codec (walk ?b (demo_doc ''hunter2'')) = Some ''ada:***''"
    by (simp add: w demo_codec_def)
  ultimately show ?thesis
    using audit_body_hides_masked_fields [OF refl, of "''p=hunter2''" demo_codec _ "''p=letmein''"] a by simp
qed

text \<open>
  C21: in every run of the service, at most 1024 rows are queued, rows are handled in the order in
  which they were accepted and none is lost in between, the table holds exactly the earlier rows
  followed by the rows whose insert succeeded, and once the worker has returned every accepted
  row has been handled.
\<close>

theorem audit_service_fifo:
  assumes "audit_rows G" "audit_run G t evs s" "\<And>e. Accepted e \<in> set evs \<Longrightarrow> al_ID e = 0"
  shows "List.map_filter accepted_row evs = List.map_filter handled_row evs @ as_ch s
         \<and> length (as_ch s) \<le> 1024
         \<and> map keyless (rows (as_table s)) = map keyless (rows t) @ List.map_filter written_row evs
         \<and> (as_done s \<longrightarrow> List.map_filter handled_row evs = List.map_filter accepted_row evs)"
  using audit_run_queue [OF assms(2)] audit_rows.run_rows [OF assms] by auto

definition demo_entry :: Log where
  "demo_entry = audit_entry (\<lambda>_. 0) ''/api/v1/products'' (\<lambda>b. b) None None (demo_context '''' :: nat gin_context)"

theorem audit_service_fifo_witness:
  "\<exists>s. audit_run mem_logs \<lparr>rows = [], next_id = 1\<rparr> [Accepted demo_entry, Wrote demo_entry] s
       \<and> map keyless (rows (as_table s)) = [demo_entry]"
proof -
  let ?t = "\<lparr>rows = [], next_id = 1\<rparr> :: Log table"
  let ?s0 = "audit_NewService ?t"
  let ?s1 = "snd (audit_Record demo_entry ?s0)"
  let ?s2 = "the (audit_worker mem_logs ?s1)"
  have z: "al_ID demo_entry = 0" by (simp add: demo_entry_def audit_entry_def)
  have "audit_step mem_logs ?s0 (Accepted demo_entry) ?s1"
    by (rule record_accepted [of _ _ None]) (simp_all add: audit_Record_def audit_NewService_def)
  then have r1: "audit_run mem_logs ?t [Accepted demo_entry] ?s1"
    using audit_more [OF audit_start] by force
  have "audit_step mem_logs ?s1 (Wrote demo_entry) ?s2"
    by (rule worker_wrote) (simp_all add: audit_worker_def audit_Record_def audit_NewService_def mem_logs_def mem_gorm_def Let_def)
  then have r2: "audit_run mem_logs ?t [Accepted demo_entry, Wrote demo_entry] ?s2"
    using audit_more [OF r1] by force
  have "map keyless (rows (as_table ?s2)) = [demo_entry]"
    using audit_service_fifo [OF mem_logs.audit_rows_axioms r2] z by (simp add: List.map_filter_def)
  then show ?thesis using r2 by (intro exI [of _ ?s2] conjI)
qed

text \<open>
  In every run, \<open>Record\<close> turns a row away only when the channel holds 1024 rows, and then
  logs a warning and does not block, or after \<open>Wait\<close> has closed the channel, and then the call panics.
\<close>

theorem audit_Record_refuses:
  assumes "audit_run G t evs s" "audit_step G s (Refused e) s'"
  shows "length (as_ch s) = 1024 \<and> audit_Record e s = (None, s')
           \<and> as_warnings s' = as_warnings s @ [BufferFull (al_Path e) (al_RequestID e)]
       \<or> as_closed s \<and> audit_Record e s = (Some ''send on closed channel'', s')"
  using audit_step_refused [OF assms(2)] audit_run_queue [OF assms(1)] by (auto simp: audit_Record_def)

theorem audit_Record_refuses_witness:
  "\<exists>s s'. audit_run mem_logs \<lparr>rows = [], next_id = 1\<rparr> [Closing] s
          \<and> audit_Record demo_entry s = (Some ''send on closed channel'', s')"
proof -
  let ?t = "\<lparr>rows = [], next_id = 1\<rparr> :: Log table"
  let ?s1 = "snd (audit_close (audit_NewService ?t))"
  have "audit_step mem_logs (audit_NewService ?t) Closing ?s1"
    by (rule closing [of _ None]) (simp add: audit_close_def audit_NewService_def)
  then have r: "audit_run mem_logs ?t [Closing] ?s1" using audit_more [OF audit_start] by force
  moreover have "audit_step mem_logs ?s1 (Refused demo_entry) ?s1"
    by (rule record_refused [of _ _ "Some ''send on closed channel''"]) (simp_all add: audit_Record_def audit_close_def audit_NewService_def)
  ultimately have "length (as_ch ?s1) = 1024 \<or> audit_Record demo_entry ?s1 = (Some ''send on closed channel'', ?s1)"
    using audit_Record_refuses [of mem_logs ?t "[Closing]" ?s1 demo_entry ?s1] by blast
  moreover have "length (as_ch ?s1) \<noteq> 1024" by (simp add: audit_close_def audit_NewService_def)
  ultimately show ?thesis using r by (intro exI [of _ ?s1] exI [of _ ?s1]) simp
qed

text \<open>
  C40: after the first call of \<open>Wait\<close> the worker empties the channel and returns within one turn
  per queued row and one more, so \<open>Wait\<close> returns even without a deadline.
\<close>

theorem audit_Wait_drains:
  assumes "audit_close s = (None, s1)" "\<not> as_done s"
  shows "\<exists>s2. audit_drain G (Suc (length (as_ch s))) s1 = s2
              \<and> as_ch s2 = [] \<and> as_done s2 \<and> audit_Wait_returns False s2"
proof -
  have "as_closed s1" "\<not> as_done s1" "as_ch s1 = as_ch s"
    using assms by (auto simp: audit_close_def split: if_splits)
  then show ?thesis using audit_drain_closed [of s1 G] by (simp add: audit_Wait_returns_def)
qed

theorem audit_Wait_drains_witness:
  "\<exists>s2. audit_drain mem_logs 2 (snd (audit_close (snd (audit_Record demo_entry (audit_NewService \<lparr>rows = [], next_id = 1\<rparr>))))) = s2
        \<and> as_done s2"
proof -
  let ?s = "snd (audit_Record demo_entry (audit_NewService \<lparr>rows = [], next_id = 1\<rparr>))"
  have "audit_close ?s = (None, snd (audit_close ?s))" "\<not> as_done ?s" "length (as_ch ?s) = 1"
    by (simp_all add: audit_close_def audit_Record_def audit_NewService_def)
  then show ?thesis using audit_Wait_drains [of ?s _ mem_logs] by (metis Suc_1)
qed

text \<open>
  For a request the configuration selects, whose handlers return normally and do not opt out,
  the middleware leaves the response alone and records exactly one row, which carries the status
  of the response, the user the authentication step put on the context and the action labels the
  handler attached, and whose bodies respect the length limit.
\<close>

theorem audit_Middleware_row:
  assumes "ac_Enabled cfg" "pathIncluded (c_Path c) (ac_IncludePrefixes cfg)"
    and "\<not> pathExcluded (c_Path c) (ac_ExcludePatterns cfg)" "rd (c_Body c) = Inr body"
    and "next_h (w, c\<lparr>c_Body := if ac_CaptureRequestBody cfg then body else c_Body c\<rparr>) = (None, w', c')"
    and "GetBool ctxSkip c' \<noteq> Some True"
  shows "\<exists>row. audit_Middleware wire rd J svc cfg clk next_h (w, c) = (fst (svc row w'), snd (svc row w'), c')
           \<and> al_StatusCode row = WriterStatus c' \<and> al_Path row = c_Path c \<and> al_Method row = c_Method c'
           \<and> al_RequestID row = GetRequestID c'
           \<and> (\<forall>u. c_Keys c' CtxUserID = Some (AnyU64 u) \<longrightarrow> al_UserID row = u)
           \<and> (\<forall>a. c_Keys c' ctxAction = Some (AnyString a) \<longrightarrow> al_Action row = a)
           \<and> (let limit = sint (mk_maxLength (newBodyMasker (ac_MaskedFields cfg) (ac_MaxBodyLength cfg))) + 14
              in int (length (al_RequestBody row)) \<le> limit \<and> int (length (al_ResponseBody row)) \<le> limit)"
proof -
  let ?m = "newBodyMasker (ac_MaskedFields cfg) (ac_MaxBodyLength cfg)"
  let ?req = "if ac_CaptureRequestBody cfg then Some body else None"
  let ?resp = "if ac_CaptureResponseBody cfg then Some (response_bytes wire (drop (length (c_Out c)) (c_Out c'))) else None"
  define row where "row = audit_entry clk (c_Path c) (MaskAndTruncate J ?m) ?req ?resp c'"
  have m: "audit_Middleware wire rd J svc cfg clk next_h (w, c) = (fst (svc row w'), snd (svc row w'), c')"
    using assms by (auto simp: audit_Middleware_def row_def Let_def split: prod.splits if_splits)
  have l: "int (length (MaskAndTruncate J ?m bs)) \<le> sint (mk_maxLength ?m) + 14" for bs
    by (rule MaskAndTruncate_length) (rule newBodyMasker_max)
  have n: "0 \<le> sint (mk_maxLength ?m) + 14" using newBodyMasker_max [of "ac_MaskedFields cfg" "ac_MaxBodyLength cfg"] by simp
  have "int (length (al_RequestBody row)) \<le> sint (mk_maxLength ?m) + 14"
    "int (length (al_ResponseBody row)) \<le> sint (mk_maxLength ?m) + 14"
    using l n by (auto simp: row_def audit_entry_def)
  then show ?thesis using m
    by (intro exI [of _ row]) (auto simp: row_def audit_entry_def string_key_def GetU64_def GetString_def Let_def)
qed

definition demo_audit_cfg :: AuditConfig where
  "demo_audit_cfg =
     \<lparr>ac_Enabled = True, ac_ExposeAPI = True, ac_AuditAll = True, ac_CaptureRequestBody = True, ac_CaptureResponseBody = True,
      ac_MaxBodyLength = 10000, ac_IncludePrefixes = [''/api/''], ac_ExcludePatterns = [''/swagger''], ac_MaskedFields = [''password'']\<rparr>"

theorem audit_Middleware_row_witness:
  "\<exists>row c'. audit_Middleware (\<lambda>_. '''') Inr demo_codec (\<lambda>r rs. (None, rs @ [r])) demo_audit_cfg (\<lambda>_. 0)
             (\<lambda>(w, c). (None, w, send (EStatus 204) (Action ''PRODUCT_CREATE'' ''Product'' '''' c)))
             ([], demo_context '''' :: nat gin_context) = (None, [row], c')
           \<and> al_StatusCode row = 204 \<and> al_Action row = ''PRODUCT_CREATE''"
proof -
  let ?c = "demo_context '''' :: nat gin_context"
  let ?c' = "send (EStatus 204) (Action ''PRODUCT_CREATE'' ''Product'' '''' ?c)"
  let ?svc = "\<lambda>(r :: Log) rs. (None :: string option, rs @ [r])"
  let ?h = "\<lambda>(w, c :: nat gin_context). (None :: string option, w :: Log list, send (EStatus 204) (Action ''PRODUCT_CREATE'' ''Product'' '''' c))"
  have p: "c_Path ?c = ''/api/v1/users/me''" "c_Body ?c = ''''" by (simp_all add: demo_context_def)
  have "pathIncluded ''/api/v1/users/me'' [''/api/'']" "\<not> pathExcluded ''/api/v1/users/me'' [''/swagger'']" by code_simp+
  then have i: "pathIncluded (c_Path ?c) (ac_IncludePrefixes demo_audit_cfg)"
    "\<not> pathExcluded (c_Path ?c) (ac_ExcludePatterns demo_audit_cfg)"
    unfolding p by (simp_all add: demo_audit_cfg_def)
  have h: "?h ([], ?c\<lparr>c_Body := if ac_CaptureRequestBody demo_audit_cfg then '''' else c_Body ?c\<rparr>) = (None, [], ?c')"
    by (simp add: demo_context_def)
  have k: "c_Keys ?c' ctxAction = Some (AnyString ''PRODUCT_CREATE'')" "GetBool ctxSkip ?c' \<noteq> Some True"
    "WriterStatus ?c' = 204"
    by (simp_all add: Action_def demo_context_def GetBool_def audit_key_defs WriterStatus_def header_code_def Let_def)
  obtain row where "audit_Middleware (\<lambda>_. '''') Inr demo_codec ?svc demo_audit_cfg (\<lambda>_. 0) ?h ([], ?c) = (fst (?svc row []), snd (?svc row []), ?c')"
    "al_StatusCode row = WriterStatus ?c'" "\<forall>a. c_Keys ?c' ctxAction = Some (AnyString a) \<longrightarrow> al_Action row = a"
    using audit_Middleware_row [where wire = "\<lambda>_. ''''" and J = demo_codec and svc = ?svc and clk = "\<lambda>_. 0" and next_h = ?h
        and cfg = demo_audit_cfg and rd = Inr and body = "''''" and c = ?c and w = "[]" and w' = "[]" and c' = ?c',
        OF _ i _ h k(2)] p by (auto simp: demo_audit_cfg_def)
  then show ?thesis using k by auto
qed

text \<open>
  A request whose handler panics leaves the middleware without a row: the panic is not caught here.
\<close>

lemma audit_panic_unrecorded:
  assumes "\<And>c. next_h (w, c) = (Some r, w', c')"
  shows "audit_Middleware wire rd J svc cfg clk next_h (w, c) = (Some r, w', c')"
  using assms by (simp add: audit_Middleware_def Let_def)

end
