(* ===== verification/Idempotency.thy ===== *)
theory Idempotency
  imports Security
begin

text \<open>
  Package \<open>internal/common/idempotency\<close>: the record table, its store, and the middleware that
  replays the stored response of a repeated request.

  \<open>wire\<close> stands for the bytes gin and \<open>encoding/json\<close> put on the connection for an effect that
  writes a body; nothing is assumed of it.  Warnings that are only logged are not represented.
\<close>

section \<open>Records and their store\<close>

record Record =
  ir_ID :: uint64
  ir_Key :: string
  ir_Method :: string
  ir_Path :: string
  ir_UserID :: uint64
  ir_RequestHash :: string
  ir_StatusCode :: int
  ir_ResponseBody :: string
  ir_CreatedAt :: time
  ir_ExpiresAt :: time

record 'w Store =
  st_Find :: "time \<Rightarrow> string \<Rightarrow> string \<Rightarrow> string \<Rightarrow> uint64 \<Rightarrow> 'w \<Rightarrow> go_error + Record option"
  st_Save :: "Record \<Rightarrow> ('w, go_error, unit) op"
  st_DeleteExpired :: "time \<Rightarrow> ('w, go_error, int) op"

definition ir_for :: "string \<Rightarrow> string \<Rightarrow> string \<Rightarrow> uint64 \<Rightarrow> Record \<Rightarrow> bool" where
  "ir_for key method path userID r =
     (ir_Key r = key \<and> ir_Method r = method \<and> ir_Path r = path \<and> ir_UserID r = userID)"

definition gormStore_Find ::
  "Record gorm \<Rightarrow> time \<Rightarrow> string \<Rightarrow> string \<Rightarrow> string \<Rightarrow> uint64 \<Rightarrow> Record table \<Rightarrow> go_error + Record option" where
  "gormStore_Find G now key method path userID =
     first_opt G (\<lambda>r. ir_for key method path userID r \<and> ir_ExpiresAt r > now)"

definition gormStore_Save :: "Record gorm \<Rightarrow> Record \<Rightarrow> (Record table, go_error, unit) op" where
  "gormStore_Save G r = bindE (dbE (db_Create G r)) (\<lambda>_. returnE ())"

definition gormStore_DeleteExpired :: "Record gorm \<Rightarrow> time \<Rightarrow> (Record table, go_error, int) op" where
  "gormStore_DeleteExpired G before = dbE (db_Delete G (\<lambda>r. ir_ExpiresAt r \<le> before))"

text \<open>The store as the middleware sees it, in a server state whose first part is the table.\<close>

definition NewStore :: "Record gorm \<Rightarrow> (Record table \<times> 'w) Store" where
  "NewStore G =
     \<lparr>st_Find = (\<lambda>now key method path userID s. gormStore_Find G now key method path userID (fst s)),
      st_Save = (\<lambda>r. zoomE fst (\<lambda>t s. (t, snd s)) (gormStore_Save G r)),
      st_DeleteExpired = (\<lambda>before. zoomE fst (\<lambda>t s. (t, snd s)) (gormStore_DeleteExpired G before))\<rparr>"

section \<open>The buffered writer\<close>

record bufferedWriter =
  bw_buf :: string
  bw_status :: int

definition bw_WriteHeader :: "int \<Rightarrow> bufferedWriter \<Rightarrow> bufferedWriter" where
  "bw_WriteHeader code b = b\<lparr>bw_status := code\<rparr>"

definition bw_Write :: "string \<Rightarrow> bufferedWriter \<Rightarrow> bufferedWriter" where
  "bw_Write p b =
     (let b = (if bw_status b = 0 then b\<lparr>bw_status := 200\<rparr> else b)
      in b\<lparr>bw_buf := bw_buf b @ p\<rparr>)"

text \<open>
  The calls of these two methods that an effect sent through gin makes.  A file, which no
  route behind this middleware sends, is written with code 200.
\<close>

fun bw_effect :: "('d effect \<Rightarrow> string) \<Rightarrow> 'd effect \<Rightarrow> bufferedWriter \<Rightarrow> bufferedWriter" where
  "bw_effect wire (EJSON s r) b = bw_Write (wire (EJSON s r)) (bw_WriteHeader s b)"
| "bw_effect wire (EStatus s) b = bw_WriteHeader s b"
| "bw_effect wire (EBytes p) b = bw_Write p b"
| "bw_effect wire (EHeader _ _) b = b"
| "bw_effect wire (EAbortJSON s m) b = bw_Write (wire (EAbortJSON s m)) (bw_WriteHeader s b)"
| "bw_effect wire (EFile f) b = bw_Write (wire (EFile f)) (bw_WriteHeader 200 b)"

definition captured :: "('d effect \<Rightarrow> string) \<Rightarrow> 'd effect list \<Rightarrow> bufferedWriter" where
  "captured wire es = fold (bw_effect wire) es \<lparr>bw_buf = '''', bw_status = 0\<rparr>"

section \<open>The middleware\<close>

definition HeaderKey :: string where "HeaderKey = ''Idempotency-Key''"

record IdempotencyConfig =
  ic_Enabled :: bool
  ic_TTL :: duration
  ic_CleanupInterval :: duration

text \<open>
  \<open>rd\<close> is \<open>io.ReadAll\<close> on the request body.  The clock is read by the lookup (0) and for the two
  times of the record (1 and 2).  A lookup that fails counts as a miss.
\<close>

definition idem_Middleware ::
  "('d effect \<Rightarrow> string) \<Rightarrow> (string \<Rightarrow> go_error + string) \<Rightarrow> 'w Store \<Rightarrow> IdempotencyConfig \<Rightarrow> clock
     \<Rightarrow> ('w, 'd) handler \<Rightarrow> ('w, 'd) handler" where
  "idem_Middleware wire rd store cfg clk next_h s =
     (let (w, c) = s
      in if \<not> ic_Enabled cfg then next_h (w, c)
         else if c_Method c \<in> {''GET'', ''HEAD'', ''OPTIONS''} then next_h (w, c)
         else let key = c_Header c HeaderKey
         in if key = '''' then next_h (w, c)
         else let userID = (case GetU64 CtxUserID c of Some u \<Rightarrow> u | None \<Rightarrow> 0)
         in case rd (c_Body c) of
              Inl _ \<Rightarrow> next_h (w, c)
            | Inr body \<Rightarrow>
                let c = c\<lparr>c_Body := body\<rparr>;
                    bodyHash = EncodeToString (Sum256 body);
                    existing = (case st_Find store (clk 0) key (c_Method c) (c_Path c) userID w of
                                  Inl _ \<Rightarrow> None | Inr r \<Rightarrow> r)
                in (case existing of
                      Some r \<Rightarrow>
                        if ir_RequestHash r \<noteq> bodyHash
                        then (w, Abort (send (EAbortJSON 409 ''Idempotency-Key reused with different payload'') c))
                        else (w, Abort (send (EBytes (ir_ResponseBody r))
                                   (send (EHeader ''Content-Type'' ''application/json'')
                                     (send (EStatus (ir_StatusCode r)) c))))
                    | None \<Rightarrow>
                        let (w, c') = next_h (w, c)
                        in if c_Aborted c' then (w, c')
                           else let bw = captured wire (drop (length (c_Out c)) (c_Out c'));
                                    rec = \<lparr>ir_ID = 0, ir_Key = key, ir_Method = c_Method c', ir_Path = c_Path c',
                                           ir_UserID = userID, ir_RequestHash = bodyHash,
                                           ir_StatusCode = bw_status bw, ir_ResponseBody = bw_buf bw,
                                           ir_CreatedAt = clk 1, ir_ExpiresAt = clk 2 + ic_TTL cfg\<rparr>
                                in (snd (st_Save store rec w), c')))"

section \<open>Facts about one request\<close>

text \<open>
  What identifies a request to the middleware: key, method, path, user and body hash; \<open>None\<close>
  when the request passes through untouched.
\<close>

definition idem_id ::
  "(string \<Rightarrow> go_error + string) \<Rightarrow> IdempotencyConfig \<Rightarrow> 'd gin_context \<Rightarrow> (string \<times> string \<times> string \<times> uint64 \<times> string) option" where
  "idem_id rd cfg c =
     (if \<not> ic_Enabled cfg \<or> c_Method c \<in> {''GET'', ''HEAD'', ''OPTIONS''} \<or> c_Header c HeaderKey = '''' then None
      else case rd (c_Body c) of
             Inl _ \<Rightarrow> None
           | Inr body \<Rightarrow> Some (c_Header c HeaderKey, c_Method c, c_Path c,
                              case GetU64 CtxUserID c of Some u \<Rightarrow> u | None \<Rightarrow> 0, EncodeToString (Sum256 body)))"

text \<open>The request with its body put back, and the two answers given without the handler.\<close>

definition reread :: "(string \<Rightarrow> go_error + string) \<Rightarrow> 'd gin_context \<Rightarrow> 'd gin_context" where
  "reread rd c = (case rd (c_Body c) of Inl _ \<Rightarrow> c | Inr body \<Rightarrow> c\<lparr>c_Body := body\<rparr>)"

definition replayed :: "int \<Rightarrow> string \<Rightarrow> 'd gin_context \<Rightarrow> 'd gin_context" where
  "replayed code body c =
     Abort (send (EBytes body) (send (EHeader ''Content-Type'' ''application/json'') (send (EStatus code) c)))"

definition conflict :: "'d gin_context \<Rightarrow> 'd gin_context" where
  "conflict c = Abort (send (EAbortJSON 409 ''Idempotency-Key reused with different payload'') c)"

lemma Middleware_bypass:
  "idem_id rd cfg c = None \<Longrightarrow> idem_Middleware wire rd S cfg clk next_h (w, c) = next_h (w, c)"
  by (auto simp: idem_id_def idem_Middleware_def Let_def split: sum.splits if_splits)

lemma Middleware_hit:
  assumes "idem_id rd cfg c = Some (k, m, p, u, h)" "st_Find S (clk 0) k m p u w = Inr (Some r)"
  shows "idem_Middleware wire rd S cfg clk next_h (w, c) =
     (w, if ir_RequestHash r = h then replayed (ir_StatusCode r) (ir_ResponseBody r) (reread rd c) else conflict (reread rd c))"
  using assms by (auto simp: idem_id_def idem_Middleware_def reread_def replayed_def conflict_def Let_def split: sum.splits if_splits)

lemma Middleware_miss:
  assumes "idem_id rd cfg c = Some (k, m, p, u, h)" "\<nexists>r. st_Find S (clk 0) k m p u w = Inr (Some r)"
    and "next_h (w, reread rd c) = (w1, c1)" "c_Method c1 = c_Method c" "c_Path c1 = c_Path c"
  shows "idem_Middleware wire rd S cfg clk next_h (w, c) =
     (if c_Aborted c1 then (w1, c1)
      else let bw = captured wire (drop (length (c_Out c)) (c_Out c1))
           in (snd (st_Save S \<lparr>ir_ID = 0, ir_Key = k, ir_Method = m, ir_Path = p, ir_UserID = u, ir_RequestHash = h,
                  ir_StatusCode = bw_status bw, ir_ResponseBody = bw_buf bw,
                  ir_CreatedAt = clk 1, ir_ExpiresAt = clk 2 + ic_TTL cfg\<rparr> w1), c1))"
proof -
  obtain body where b: "rd (c_Body c) = Inr body" using assms(1) by (auto simp: idem_id_def split: if_splits sum.splits)
  have "(case st_Find S (clk 0) k m p u w of Inl _ \<Rightarrow> None | Inr r \<Rightarrow> r) = None"
    using assms(2) by (auto split: sum.splits)
  then show ?thesis using assms(1,3-5) b
    by (auto simp: idem_id_def idem_Middleware_def reread_def Let_def split: if_splits)
qed

section \<open>The contract of the store\<close>

text \<open>
  \<open>stored\<close> says that a record is kept, \<open>inv\<close> that the request columns are unique.  A lookup
  sees exactly the records that have not expired.
\<close>

locale idem_store =
  fixes S :: "'w Store" and stored :: "Record \<Rightarrow> 'w \<Rightarrow> bool" and inv :: "'w \<Rightarrow> bool"
  assumes Find_sound: "st_Find S now k m p u w = Inr (Some r) \<Longrightarrow> stored r w \<and> ir_for k m p u r \<and> now < ir_ExpiresAt r"
    and Find_complete: "st_Find S now k m p u w = Inr None \<Longrightarrow> stored r w \<Longrightarrow> ir_for k m p u r \<Longrightarrow> ir_ExpiresAt r \<le> now"
    and stored_unique: "inv w \<Longrightarrow> stored r w \<Longrightarrow> stored r' w \<Longrightarrow> ir_for k m p u r \<Longrightarrow> ir_for k m p u r' \<Longrightarrow> r' = r"
    and Save_ok: "st_Save S r w = (Inr (), w') \<Longrightarrow> ir_ID r = 0 \<Longrightarrow>
        \<exists>i. \<forall>x. stored x w' \<longleftrightarrow> stored x w \<or> x = r\<lparr>ir_ID := i\<rparr>"
    and Save_failed: "st_Save S r w = (Inl e, w') \<Longrightarrow> stored x w' \<longleftrightarrow> stored x w"
    and Save_dup: "stored r' w \<Longrightarrow> ir_for (ir_Key r) (ir_Method r) (ir_Path r) (ir_UserID r) r' \<Longrightarrow> ir_ID r = 0 \<Longrightarrow>
        \<exists>e. fst (st_Save S r w) = Inl e"
    and Save_inv: "inv w \<Longrightarrow> ir_ID r = 0 \<Longrightarrow> inv (snd (st_Save S r w))"
    and Clean: "stored x (snd (st_DeleteExpired S before w)) \<Longrightarrow> stored x w"
    and Clean_keeps: "stored x w \<Longrightarrow> before < ir_ExpiresAt x \<Longrightarrow> stored x (snd (st_DeleteExpired S before w))"
    and Clean_inv: "inv w \<Longrightarrow> inv (snd (st_DeleteExpired S before w))"
begin

lemma Find_stored:
  assumes "inv w" "stored r w" "ir_for k m p u r" "now < ir_ExpiresAt r" "st_Find S now k m p u w = Inr x"
  shows "x = Some r"
proof (cases x)
  case None
  then show ?thesis using Find_complete [of now k m p u w r] assms by simp
next
  case (Some r')
  then have "stored r' w" "ir_for k m p u r'" using Find_sound assms(5) by blast+
  then show ?thesis using stored_unique [OF assms(1,2) _ assms(3)] Some by simp
qed

text \<open>While its record is kept and has not expired, a request is answered without the handler.\<close>

lemma answered_from_store:
  assumes "inv w" "stored r w" "ir_for k m p u r" "clk 0 < ir_ExpiresAt r"
    and "idem_id rd cfg c = Some (k, m, p, u, h)" "st_Find S (clk 0) k m p u w = Inr x"
  shows "idem_Middleware wire rd S cfg clk next_h (w, c) =
     (w, if ir_RequestHash r = h then replayed (ir_StatusCode r) (ir_ResponseBody r) (reread rd c) else conflict (reread rd c))"
  using assms Find_stored [OF assms(1-4,6)] by (intro Middleware_hit) auto

text \<open>A kept record whose time is over hides the key: the handler runs and nothing is recorded.\<close>

lemma expired_miss:
  assumes "inv w" "stored r w" "ir_for k m p u r" "ir_ExpiresAt r \<le> clk 0"
  shows "\<nexists>x. st_Find S (clk 0) k m p u w = Inr (Some x)"
  using Find_sound [of "clk 0" k m p u w] stored_unique [OF assms(1,2) _ assms(3)] assms(4) by fastforce

lemma expired_blocks:
  assumes "inv w" "stored r w" "ir_for k m p u r" "ir_ExpiresAt r \<le> clk 0"
    and "idem_id rd cfg c = Some (k, m, p, u, h)"
    and "next_h (w, reread rd c) = (w1, c1)" "c_Method c1 = c_Method c" "c_Path c1 = c_Path c" "\<And>x. stored x w1 = stored x w"
  shows "\<exists>w2. idem_Middleware wire rd S cfg clk next_h (w, c) = (w2, c1) \<and> (\<forall>x. stored x w2 \<longleftrightarrow> stored x w)"
proof -
  note miss = expired_miss [where clk = clk, OF assms(1-4)]
  let ?rec = "\<lambda>bw. \<lparr>ir_ID = 0, ir_Key = k, ir_Method = m, ir_Path = p, ir_UserID = u, ir_RequestHash = h,
      ir_StatusCode = bw_status bw, ir_ResponseBody = bw_buf bw, ir_CreatedAt = clk 1, ir_ExpiresAt = clk 2 + ic_TTL cfg\<rparr>"
  have dup: "\<exists>e. fst (st_Save S (?rec bw) w1) = Inl e" for bw
    using Save_dup [of r w1 "?rec bw"] assms(2,3,9) by simp
  have "stored x (snd (st_Save S (?rec bw) w1)) \<longleftrightarrow> stored x w" for bw x
    using dup [of bw] Save_failed [of "?rec bw" w1 _ "snd (st_Save S (?rec bw) w1)" x] assms(9) by (metis prod.collapse)
  then show ?thesis
    using Middleware_miss [where clk = clk and next_h = next_h and wire = wire, OF assms(5) miss assms(6-8)] assms(9) by (cases "c_Aborted c1") (auto simp: Let_def)
qed

end

section \<open>The store over a table that obeys the laws\<close>

definition record_filled :: "Record \<Rightarrow> Record \<Rightarrow> bool" where
  "record_filled r r' = (r' = r\<lparr>ir_ID := ir_ID r'\<rparr>)"

definition request_columns :: "Record \<Rightarrow> string \<times> string \<times> string \<times> uint64" where
  "request_columns r = (ir_Key r, ir_Method r, ir_Path r, ir_UserID r)"

abbreviation records_ok :: "Record table \<Rightarrow> bool" where
  "records_ok t \<equiv> table_ok ir_ID (unique_on request_columns) t"

lemma ir_for_columns: "ir_for k m p u r \<longleftrightarrow> request_columns r = (k, m, p, u)"
  by (simp add: ir_for_def request_columns_def)

locale record_store = gorm_hard G ir_ID record_filled "unique_on request_columns"
  for G :: "Record gorm"
begin

lemma Save_cases [consumes 1]:
  assumes "gormStore_Save G r t = (res, t')" "ir_ID r = 0"
  obtains (failed) e where "res = Inl e" "rows t' = rows t"
  | (saved) i where "res = Inr ()" "rows t' = rows t @ [r\<lparr>ir_ID := i\<rparr>]" "unique_on request_columns (rows t')"
proof (cases res)
  case (Inl e)
  then show thesis using assms Create_failed failed by (auto simp: gormStore_Save_def bindE_Inl dbE_Inl)
next
  case (Inr x)
  then obtain r' where c: "db_Create G r t = (Inr r', t')" using assms(1) by (auto simp: gormStore_Save_def bindE_Inr)
  then have "rows t' = rows t @ [r']" "record_filled r r'" "unique_on request_columns (rows t')"
    using Create_ok [OF c assms(2)] by auto
  then show thesis using saved [of "ir_ID r'"] Inr by (simp add: record_filled_def)
qed

lemma Clean_cases [consumes 1]:
  assumes "gormStore_DeleteExpired G before t = (res, t')"
  obtains (failed) e where "res = Inl e" "t' = t"
  | (deleted) n where "res = Inr n" "rows t' = filter (\<lambda>r. before < ir_ExpiresAt r) (rows t)" "next_id t' = next_id t"
      "n = count_rows (\<lambda>r. ir_ExpiresAt r \<le> before) (rows t)"
proof (cases res)
  case (Inl e)
  then show thesis using assms Delete_failed failed by (auto simp: gormStore_DeleteExpired_def dbE_Inl)
next
  case (Inr n)
  then show thesis using assms Delete_rows deleted by (auto simp: gormStore_DeleteExpired_def not_le)
qed

lemma Clean_done:
  assumes "gormStore_DeleteExpired G before t = (Inr n, t')"
  shows "rows t' = filter (\<lambda>r. before < ir_ExpiresAt r) (rows t)" "n = count_rows (\<lambda>r. ir_ExpiresAt r \<le> before) (rows t)"
  using assms by (cases rule: Clean_cases; simp)+

end

sublocale record_store \<subseteq> ns: idem_store "NewStore G" "\<lambda>r w. r \<in> set (rows (fst w))" "\<lambda>w. records_ok (fst w)"
proof (unfold_locales, goal_cases)
  case (1 now k m p u w r)
  then show ?case using first_opt_Some by (fastforce simp: NewStore_def gormStore_Find_def)
next
  case (2 now k m p u w r)
  then show ?case using first_opt_None by (fastforce simp: NewStore_def gormStore_Find_def not_less)
next
  case (3 w r r' k m p u)
  then have "inj_on request_columns (set (rows (fst w)))" by (simp add: table_ok_def unique_on_def distinct_map)
  then show ?case by (rule inj_onD) (use 3 in \<open>auto simp: ir_for_columns\<close>)
next
  case (4 r w w')
  then obtain t where "gormStore_Save G r (fst w) = (Inr (), t)" "w' = (t, snd w)" by (auto simp: NewStore_def zoomE_eq)
  from this(1) show ?case using 4(2) by (cases rule: Save_cases) (use \<open>w' = _\<close> in auto)
next
  case (5 r w e w' x)
  then obtain t where "gormStore_Save G r (fst w) = (Inl e, t)" "w' = (t, snd w)" by (auto simp: NewStore_def zoomE_eq)
  then show ?case using Create_failed [of r "fst w"] by (auto simp: gormStore_Save_def bindE_Inl dbE_Inl)
next
  case (6 r' w r)
  obtain res t where s: "gormStore_Save G r (fst w) = (res, t)" by fastforce
  from s 6(3) show ?case
    by (cases rule: Save_cases)
       (use 6 s in \<open>auto simp: NewStore_def zoomE_def ir_for_columns unique_on_def request_columns_def image_iff\<close>)
next
  case (7 w r)
  obtain res t where s: "gormStore_Save G r (fst w) = (res, t)" by fastforce
  have "snd (dbE (db_Create G r) (fst w)) = t" using s by (auto simp: gormStore_Save_def bindE_def split: prod.splits sum.splits)
  then have "snd (db_Create G r (fst w)) = t" by (simp add: dbE_def split: prod.splits)
  then have "records_ok t" using Create_table_ok [of "fst w" r _ t] 7 by (metis prod.collapse)
  then show ?case using s by (simp add: NewStore_def zoomE_def)
next
  case (8 x before w)
  obtain res t where s: "gormStore_DeleteExpired G before (fst w) = (res, t)" by fastforce
  from s show ?case by (cases rule: Clean_cases) (use 8 s in \<open>auto simp: NewStore_def zoomE_def\<close>)
next
  case (9 x w before)
  obtain res t where s: "gormStore_DeleteExpired G before (fst w) = (res, t)" by fastforce
  from s show ?case by (cases rule: Clean_cases) (use 9 s in \<open>auto simp: NewStore_def zoomE_def\<close>)
next
  case (10 w before)
  obtain res t where s: "gormStore_DeleteExpired G before (fst w) = (res, t)" by fastforce
  then have "snd (db_Delete G (\<lambda>r. ir_ExpiresAt r \<le> before) (fst w)) = t"
    by (auto simp: gormStore_DeleteExpired_def dbE_def split: prod.splits)
  then have "records_ok t" using Delete_table_ok [of "fst w" _ _ t] 10 by (metis prod.collapse)
  then show ?case using s by (simp add: NewStore_def zoomE_def)
qed

text \<open>On a connection without failures a lookup always answers, and a fresh key can be saved.\<close>

locale record_store_live = record_store G + gorm_live G ir_ID "\<lambda>_. True" record_filled "(=)" "unique_on request_columns"
  for G :: "Record gorm"
begin

lemma Find_answers: "\<exists>x. st_Find (NewStore G) now k m p u w = Inr x"
proof -
  let ?P = "\<lambda>r. ir_for k m p u r \<and> ir_ExpiresAt r > now"
  show ?thesis
  proof (cases "\<exists>r \<in> set (rows (fst w)). ?P r")
    case True
    then obtain r' where "db_First G ?P (fst w) = Inr r'" using First_live [of _ "fst w" ?P] by auto
    then show ?thesis by (simp add: NewStore_def gormStore_Find_def first_opt_def)
  next
    case False
    then have "db_First G ?P (fst w) = Inl ErrRecordNotFound" by (intro First_none) auto
    then show ?thesis by (simp add: NewStore_def gormStore_Find_def first_opt_def)
  qed
qed

lemma Save_fresh:
  assumes "records_ok t" "next_id t < 2 ^ 63" "ir_ID r = 0" "request_columns r \<notin> request_columns ` set (rows t)"
  shows "\<exists>t' i. gormStore_Save G r t = (Inr (), t') \<and> rows t' = rows t @ [r\<lparr>ir_ID := i\<rparr>]"
proof -
  have "unique_on request_columns (rows t @ [r'])" if "record_filled r r'" for r'
  proof -
    have "r' = r\<lparr>ir_ID := ir_ID r'\<rparr>" using that by (simp add: record_filled_def)
    then have "request_columns r' = request_columns r" by (metis (no_types) request_columns_def Record.select_convs(2-5) Record.surjective Record.update_convs(1))
    then show ?thesis using assms(1,4) by (auto simp: unique_on_def table_ok_def)
  qed
  then obtain r' t' where "db_Create G r t = (Inr r', t')" using Create_live [of r t] assms(2,3) by blast
  then have s: "gormStore_Save G r t = (Inr (), t')" by (simp add: gormStore_Save_def bindE_def dbE_def)
  from s assms(3) show ?thesis by (cases rule: Save_cases) (use s in auto)
qed

end

section \<open>What happens to the table between two requests\<close>

text \<open>Records of other requests are saved, and the clean-up job runs with times up to \<open>T\<close>.\<close>

inductive idem_step :: "Record gorm \<Rightarrow> time \<Rightarrow> Record table \<Rightarrow> Record table \<Rightarrow> bool" for G T where
  step_Save: "ir_ID r = 0 \<Longrightarrow> idem_step G T t (snd (gormStore_Save G r t))"
| step_Clean: "before \<le> T \<Longrightarrow> idem_step G T t (snd (gormStore_DeleteExpired G before t))"

definition idem_steps :: "Record gorm \<Rightarrow> time \<Rightarrow> Record table \<Rightarrow> Record table \<Rightarrow> bool" where
  "idem_steps G T = (idem_step G T)\<^sup>*\<^sup>*"

context record_store begin

lemma step_keeps:
  assumes "idem_step G T t t'" "records_ok t" "r \<in> set (rows t)" "T < ir_ExpiresAt r"
  shows "records_ok t' \<and> r \<in> set (rows t')"
  using assms
proof (induction rule: idem_step.induct)
  case (step_Save r' t)
  have "records_ok (snd (gormStore_Save G r' t))"
    using ns.Save_inv [of "(t, ())" r'] step_Save by (simp add: NewStore_def zoomE_def split: prod.splits)
  moreover obtain res t' where s: "gormStore_Save G r' t = (res, t')" by fastforce
  from s step_Save(1) have "r \<in> set (rows t')" by (cases rule: Save_cases) (use step_Save in auto)
  ultimately show ?case by (simp add: s)
next
  case (step_Clean before t)
  have "records_ok (snd (gormStore_DeleteExpired G before t))"
    using ns.Clean_inv [of "(t, ())" before] step_Clean by (simp add: NewStore_def zoomE_def split: prod.splits)
  moreover obtain res t' where s: "gormStore_DeleteExpired G before t = (res, t')" by fastforce
  from s have "r \<in> set (rows t')" by (cases rule: Clean_cases) (use step_Clean in auto)
  ultimately show ?case by (simp add: s)
qed

lemma steps_keep:
  assumes "idem_steps G T t t'" "records_ok t" "r \<in> set (rows t)" "T < ir_ExpiresAt r"
  shows "records_ok t' \<and> r \<in> set (rows t')"
  using assms unfolding idem_steps_def by (induction rule: rtranclp_induct) (auto dest: step_keeps)

end

lemma Save_snd: "snd (snd (st_Save (NewStore G) r w)) = snd w"
  by (simp add: NewStore_def zoomE_def split: prod.splits)

lemma Middleware_keeps_rest:
  assumes "\<nexists>y. st_Find (NewStore G) (clk 0) k m p u (t, x) = Inr (Some y)" "idem_id rd cfg c = Some (k, m, p, u, h)"
    and "next_h ((t, x), reread rd c) = ((t', x1), c1)" "c_Method c1 = c_Method c" "c_Path c1 = c_Path c"
  shows "snd (fst (idem_Middleware wire rd (NewStore G) cfg clk next_h ((t, x), c))) = x1"
  using Middleware_miss [where clk = clk and next_h = next_h and wire = wire, OF assms(2,1,3-5)]
  by (simp add: Let_def Save_snd)

context record_store begin

lemma store_laws: "idem_store (NewStore G) (\<lambda>r w. r \<in> set (rows (fst w))) (\<lambda>w. records_ok (fst w))"
  by (rule ns.idem_store_axioms)

end

context record_store_live begin

text \<open>The first request under a key runs the handler and leaves a record of the response.\<close>

lemma first_request:
  assumes "records_ok t" "next_id t < 2 ^ 63" "idem_id rd cfg c = Some (k, m, p, u, h)"
    and "\<not> list_ex (ir_for k m p u) (rows t)"
    and "next_h ((t, x), reread rd c) = ((t, x1), c1)" "c_Method c1 = c_Method c" "c_Path c1 = c_Path c"
    and "\<not> c_Aborted c1" "c_Out c1 = c_Out c @ es"
  obtains r t1 where "idem_Middleware wire rd (NewStore G) cfg clk next_h ((t, x), c) = ((t1, x1), c1)"
    "records_ok t1" "r \<in> set (rows t1)" "ir_for k m p u r" "ir_RequestHash r = h"
    "ir_StatusCode r = bw_status (captured wire es)" "ir_ResponseBody r = bw_buf (captured wire es)"
    "ir_ExpiresAt r = clk 2 + ic_TTL cfg"
proof -
  let ?bw = "captured wire es"
  let ?rec = "\<lparr>ir_ID = 0, ir_Key = k, ir_Method = m, ir_Path = p, ir_UserID = u, ir_RequestHash = h,
    ir_StatusCode = bw_status ?bw, ir_ResponseBody = bw_buf ?bw, ir_CreatedAt = clk 1, ir_ExpiresAt = clk 2 + ic_TTL cfg\<rparr>"
  have miss: "\<nexists>r. st_Find (NewStore G) (clk 0) k m p u (t, x) = Inr (Some r)"
    using ns.Find_sound [of "clk 0" k m p u "(t, x)"] assms(4) by (fastforce simp: list_ex_iff)
  have "request_columns ?rec \<notin> request_columns ` set (rows t)"
    using assms(4) by (auto simp: list_ex_iff ir_for_columns request_columns_def)
  then obtain t1 i where s: "gormStore_Save G ?rec t = (Inr (), t1)" "rows t1 = rows t @ [?rec\<lparr>ir_ID := i\<rparr>]"
    using Save_fresh [OF assms(1,2), of ?rec] by auto
  have "records_ok t1" using ns.Save_inv [of "(t, ())" ?rec] assms(1) s(1) by (simp add: NewStore_def zoomE_def)
  moreover have "idem_Middleware wire rd (NewStore G) cfg clk next_h ((t, x), c) = ((t1, x1), c1)"
    using Middleware_miss [where clk = clk and next_h = next_h and wire = wire, OF assms(3) miss assms(5-7)] assms(8,9) s(1)
    by (simp add: Let_def NewStore_def zoomE_def)
  ultimately show thesis using that [of t1 "?rec\<lparr>ir_ID := i\<rparr>"] s(2) by (simp add: ir_for_def)
qed

end

section \<open>An instance\<close>

definition mem_records :: "Record gorm" where
  "mem_records = mem_gorm ir_ID (\<lambda>k r. r\<lparr>ir_ID := k\<rparr>) (\<lambda>_. True) (\<lambda>_. None) (unique_on request_columns)"

interpretation mem_records: record_store_live mem_records
proof -
  have h: "gorm_hard mem_records ir_ID record_filled (unique_on request_columns)"
    unfolding mem_records_def
    by (rule mem_gorm_hard) (auto simp: record_filled_def unique_on_def distinct_map_filter)
  then have t: "gorm_table mem_records ir_ID (\<lambda>_. True) record_filled (=) (unique_on request_columns)"
    unfolding gorm_hard_def by blast
  have "gorm_live mem_records ir_ID (\<lambda>_. True) record_filled (=) (unique_on request_columns)"
    unfolding mem_records_def
    by (rule mem_gorm_live) (use t in \<open>auto simp: record_filled_def mem_records_def\<close>)
  with h show "record_store_live mem_records"
    by (simp add: record_store_live_def record_store_def)
qed

text \<open>An example request and a handler that creates something.\<close>

definition demo_post :: "string \<Rightarrow> 'd gin_context" where
  "demo_post body = (demo_context '''')\<lparr>c_Method := ''POST'', c_Path := ''/api/v1/products'',
     c_Header := (\<lambda>h. if h = HeaderKey then ''k1'' else ''''), c_Body := body\<rparr>"

definition demo_create :: "(Record table \<times> nat, nat) handler" where
  "demo_create s = ((fst (fst s), Suc (snd (fst s))), send (EJSON 201 (Created 0 (Some 7))) (snd s))"

definition demo_idem :: IdempotencyConfig where
  "demo_idem = \<lparr>ic_Enabled = True, ic_TTL = 100, ic_CleanupInterval = 3600\<rparr>"

definition demo_record :: Record where
  "demo_record = \<lparr>ir_ID = 1, ir_Key = ''k1'', ir_Method = ''POST'', ir_Path = ''/api/v1/products'', ir_UserID = 0,
     ir_RequestHash = EncodeToString (Sum256 ''a''), ir_StatusCode = 201, ir_ResponseBody = ''b'', ir_CreatedAt = 0, ir_ExpiresAt = 100\<rparr>"

definition demo_records :: "Record table" where
  "demo_records = \<lparr>rows = [demo_record], next_id = 2\<rparr>"

lemma demo_records_ok: "records_ok demo_records"
  by (simp add: table_ok_def unique_on_def demo_records_def demo_record_def)

lemma demo_idem_id:
  "idem_id Inr demo_idem (demo_post body :: nat gin_context) = Some (''k1'', ''POST'', ''/api/v1/products'', 0, EncodeToString (Sum256 body))"
  by (simp add: idem_id_def demo_idem_def demo_post_def demo_context_def HeaderKey_def GetU64_def)

section \<open>Properties\<close>



text \<open>
  A record whose lifetime is over but which the clean-up job has not removed yet blocks its
  key: the lookup no longer sees it and the unique index refuses a new record, so every retry
  under the key runs the handler again and no response is recorded.
\<close>

theorem idempotency_expired_record:
  assumes "record_store G" "records_ok t" "r \<in> set (rows t)" "ir_for k m p u r" "ir_ExpiresAt r \<le> clk 0"
    and "idem_id rd cfg c = Some (k, m, p, u, h)"
    and "next_h ((t, x), reread rd c) = ((t, x1), c1)" "c_Method c1 = c_Method c" "c_Path c1 = c_Path c"
  shows "\<exists>t1. idem_Middleware wire rd (NewStore G) cfg clk next_h ((t, x), c) = ((t1, x1), c1)
             \<and> set (rows t1) = set (rows t)"
proof -
  note laws = record_store.store_laws [OF assms(1)]
  from idem_store.expired_blocks [OF laws, of "(t, x)" r k m p u clk rd cfg c h next_h "(t, x1)" c1 wire]
  obtain w2 where w2: "idem_Middleware wire rd (NewStore G) cfg clk next_h ((t, x), c) = (w2, c1)"
    "\<forall>y. y \<in> set (rows (fst w2)) \<longleftrightarrow> y \<in> set (rows t)" using assms(2-) by auto
  moreover have "\<nexists>y. st_Find (NewStore G) (clk 0) k m p u (t, x) = Inr (Some y)"
    using assms(2-5) by (rule idem_store.expired_miss [OF laws, of "(t, x)", unfolded fst_conv])
  then have "snd w2 = x1"
    using Middleware_keeps_rest [where G = G and next_h = next_h and clk = clk and wire = wire, OF _ assms(6-9)] unfolding w2(1) by simp
  ultimately show ?thesis by (metis prod.collapse subset_antisym subsetI)
qed

theorem idempotency_expired_record_witness:
  "\<exists>t1. idem_Middleware (\<lambda>_. ''b'') Inr (NewStore mem_records) demo_idem (\<lambda>_. 200) demo_create ((demo_records, 1), demo_post ''a'')
         = ((t1, 2), send (EJSON 201 (Created 0 (Some 7))) (demo_post ''a''))
       \<and> set (rows t1) = set (rows demo_records)"
proof -
  let ?c = "demo_post ''a'' :: nat gin_context"
  have "demo_create ((demo_records, 1), reread Inr ?c) = ((demo_records, 2), send (EJSON 201 (Created 0 (Some 7))) ?c)"
    by (simp add: demo_create_def reread_def)
  from idempotency_expired_record [where next_h = demo_create and r = demo_record and clk = "\<lambda>_. 200" and wire = "\<lambda>_. ''b''",
      OF mem_records.record_store_axioms demo_records_ok _ _ _ demo_idem_id this]
  show ?thesis by (simp add: demo_records_def demo_record_def ir_for_def send_def)
qed

text \<open>
  The clean-up job is invisible to requests: it deletes exactly the expired records, and
  every later lookup answers as it would have answered without the clean-up.
\<close>

theorem idempotency_cleanup_invisible:
  assumes "record_store_live G" "records_ok t" "gormStore_DeleteExpired G before t = (Inr n, t')" "before \<le> now"
  shows "rows t' = filter (\<lambda>r. before < ir_ExpiresAt r) (rows t)
     \<and> n = int (length (rows t)) - int (length (rows t'))
     \<and> gormStore_Find G now k m p u t' = gormStore_Find G now k m p u t"
proof -
  have rs: "record_store G" using assms(1) by (simp add: record_store_live_def)
  note laws = record_store.store_laws [OF rs]
  have d: "rows t' = filter (\<lambda>r. before < ir_ExpiresAt r) (rows t)" "n = count_rows (\<lambda>r. ir_ExpiresAt r \<le> before) (rows t)"
    using record_store.Clean_done [OF rs assms(3)] by simp_all
  have ok: "records_ok t'" using idem_store.Clean_inv [OF laws, of "(t, ())" before] assms(2,3)
    by (simp add: NewStore_def zoomE_def)
  obtain y where y: "gormStore_Find G now k m p u t' = Inr y"
    using record_store_live.Find_answers [OF assms(1), of now k m p u "(t', ())"] by (auto simp: NewStore_def)
  obtain z where z: "gormStore_Find G now k m p u t = Inr z"
    using record_store_live.Find_answers [OF assms(1), of now k m p u "(t, ())"] by (auto simp: NewStore_def)
  have f': "st_Find (NewStore G) now k m p u (t', ()) = Inr y" and f: "st_Find (NewStore G) now k m p u (t, ()) = Inr z"
    using y z by (simp_all add: NewStore_def)
  have "y = z"
  proof (rule option_eqI)
    fix r
    show "y = Some r \<longleftrightarrow> z = Some r"
    proof
      assume "y = Some r"
      then have "r \<in> set (rows t')" "ir_for k m p u r" "now < ir_ExpiresAt r"
        using idem_store.Find_sound [OF laws, of now k m p u "(t', ())" r] f' by simp_all
      then show "z = Some r" using idem_store.Find_stored [OF laws, of "(t, ())" r k m p u now z] assms(2) f d(1) by simp
    next
      assume "z = Some r"
      then have "r \<in> set (rows t)" "ir_for k m p u r" "now < ir_ExpiresAt r"
        using idem_store.Find_sound [OF laws, of now k m p u "(t, ())" r] f by simp_all
      then show "y = Some r"
        using idem_store.Find_stored [OF laws, of "(t', ())" r k m p u now y] ok f' d(1) assms(4) by simp
    qed
  qed
  moreover have "n = int (length (rows t)) - int (length (rows t'))"
    using sum_length_filter_compl [of "\<lambda>r. before < ir_ExpiresAt r" "rows t"]
    by (simp add: d count_rows_def not_less)
  ultimately show ?thesis using d(1) y z by simp
qed

theorem idempotency_cleanup_invisible_witness:
  "\<exists>n t'. gormStore_DeleteExpired mem_records 100 demo_records = (Inr n, t') \<and> n = 1 \<and> rows t' = []"
proof -
  have f: "fst (gormStore_DeleteExpired mem_records 100 demo_records) = Inr 1"
    by (simp add: gormStore_DeleteExpired_def dbE_def mem_records_def mem_gorm_def count_rows_def demo_records_def demo_record_def)
  then obtain t' where r: "gormStore_DeleteExpired mem_records 100 demo_records = (Inr 1, t')" by (metis eq_fst_iff)
  from idempotency_cleanup_invisible [OF mem_records.record_store_live_axioms demo_records_ok r, of 100] show ?thesis
    using r by (simp add: demo_records_def demo_record_def)
qed

end
