(* ===== verification/RateLimit.thy ===== *)
theory RateLimit
  imports Security
begin

text \<open>
  Package \<open>internal/common/ratelimit\<close>: the token bucket in \<open>float64\<close> arithmetic, the two pools
  of buckets and the middleware.  A bucket's mutex makes \<open>Take\<close> one step; between the two map
  accesses of \<open>bucketFor\<close> other requests may run, which the argument \<open>env\<close> stands for.
\<close>

section \<open>The bucket\<close>

text \<open>\<open>Duration.Seconds\<close>: whole seconds and the rest, converted and added.\<close>

definition Seconds :: "duration \<Rightarrow> f64" where
  "Seconds d =
     (let sec = sgn d * (\<bar>d\<bar> div second); nsec = sgn d * (\<bar>d\<bar> mod second)
      in f64_add (f64_of_int sec) (f64_div (f64_of_int nsec) (f64_of_int second)))"

record Bucket =
  bk_capacity :: goint
  bk_tokens :: f64
  bk_refillTokens :: goint
  bk_refillPeriod :: duration
  bk_lastRefill :: time

definition NewBucket :: "time \<Rightarrow> goint \<Rightarrow> goint \<Rightarrow> duration \<Rightarrow> Bucket" where
  "NewBucket now capacity refillTokens refillPeriod =
     \<lparr>bk_capacity = capacity, bk_tokens = f64_of_int (sint capacity), bk_refillTokens = refillTokens,
      bk_refillPeriod = refillPeriod, bk_lastRefill = now\<rparr>"

definition tokensPerSec :: "Bucket \<Rightarrow> f64" where
  "tokensPerSec b = f64_div (f64_of_int (sint (bk_refillTokens b))) (Seconds (bk_refillPeriod b))"

text \<open>\<open>now.Sub\<close> saturates at the ends of the 64-bit range.\<close>

definition refill :: "time \<Rightarrow> Bucket \<Rightarrow> Bucket" where
  "refill now b =
     (let elapsed = max (- (2 ^ 63)) (min (2 ^ 63 - 1) (now - bk_lastRefill b))
      in if elapsed \<le> 0 then b
         else b\<lparr>bk_tokens := math_Min (f64_of_int (sint (bk_capacity b)))
                               (f64_add (bk_tokens b) (f64_mul (Seconds elapsed) (tokensPerSec b))),
                bk_lastRefill := now\<rparr>)"

text \<open>\<open>Take\<close> returns (allowed, remaining, retryAfter); the product of durations wraps at 64 bits.\<close>

definition Take :: "time \<Rightarrow> Bucket \<Rightarrow> (bool \<times> goint \<times> duration) \<times> Bucket" where
  "Take now b =
     (let b = refill now b
      in if f64_le (Fin 1) (bk_tokens b)
         then let b = b\<lparr>bk_tokens := f64_sub (bk_tokens b) (Fin 1)\<rparr>
              in ((True, int_of_f64 (bk_tokens b), 0), b)
         else let missing = f64_sub (Fin 1) (bk_tokens b); tps = tokensPerSec b
              in if f64_le tps (Fin 0) then ((False, 0, bk_refillPeriod b), b)
                 else let waitSec = f64_div missing tps
                      in ((False, 0, sint (int_of_f64 (math_Ceil waitSec) * word_of_int second :: goint)), b))"

definition Capacity :: "Bucket \<Rightarrow> goint" where
  "Capacity b = bk_capacity b"

section \<open>The service\<close>

record RateLimitConfig =
  rl_Enabled :: bool
  rl_Capacity :: goint
  rl_RefillTokens :: goint
  rl_RefillPeriod :: duration
  rl_AuthCapacity :: goint
  rl_AuthRefillTokens :: goint
  rl_AuthRefillPeriod :: duration
  rl_AuthPathPrefixes :: "string list"
  rl_IncludePrefixes :: "string list"

type_synonym buckets = "string \<rightharpoonup> Bucket"

record RateService =
  sv_cfg :: RateLimitConfig
  sv_defaul :: buckets
  sv_auth :: buckets

definition NewService :: "RateLimitConfig \<Rightarrow> RateService" where
  "NewService cfg = \<lparr>sv_cfg = cfg, sv_defaul = Map.empty, sv_auth = Map.empty\<rparr>"

definition rate_Enabled :: "RateService \<Rightarrow> bool" where
  "rate_Enabled svc = rl_Enabled (sv_cfg svc)"

declare rate_Enabled_def [simp]

definition hasPrefix :: "string \<Rightarrow> string \<Rightarrow> bool" where
  "hasPrefix s prefix = (if length s < length prefix then False else take (length prefix) s = prefix)"

fun any_prefix :: "string \<Rightarrow> string list \<Rightarrow> bool" where
  "any_prefix path [] = False"
| "any_prefix path (p # ps) = (if hasPrefix path p then True else any_prefix path ps)"

definition IsAuthPath :: "RateLimitConfig \<Rightarrow> string \<Rightarrow> bool" where
  "IsAuthPath cfg path = any_prefix path (rl_AuthPathPrefixes cfg)"

definition IsIncluded :: "RateLimitConfig \<Rightarrow> string \<Rightarrow> bool" where
  "IsIncluded cfg path = (if length (rl_IncludePrefixes cfg) = 0 then True else any_prefix path (rl_IncludePrefixes cfg))"

text \<open>\<open>sync.Map\<close>: \<open>LoadOrStore\<close> keeps the entry it finds.\<close>

definition LoadOrStore :: "string \<Rightarrow> Bucket \<Rightarrow> buckets \<Rightarrow> Bucket \<times> buckets" where
  "LoadOrStore k v m = (case m k of Some b \<Rightarrow> (b, m) | None \<Rightarrow> (v, m(k \<mapsto> v)))"

definition bucketFor ::
  "(buckets \<Rightarrow> buckets) \<Rightarrow> time \<Rightarrow> string \<Rightarrow> goint \<Rightarrow> goint \<Rightarrow> duration \<Rightarrow> buckets \<Rightarrow> Bucket \<times> buckets" where
  "bucketFor env now identity cap rf period store =
     (case store identity of
        Some b \<Rightarrow> (b, store)
      | None \<Rightarrow> (let nb = NewBucket now cap rf period in LoadOrStore identity nb (env store)))"

text \<open>A token from the bucket of an identity; the bucket is shared, so its new state is in the map.\<close>

definition take_from ::
  "(buckets \<Rightarrow> buckets) \<Rightarrow> clock \<Rightarrow> string \<Rightarrow> goint \<Rightarrow> goint \<Rightarrow> duration \<Rightarrow> buckets
     \<Rightarrow> (bool \<times> goint \<times> goint \<times> duration) \<times> buckets" where
  "take_from env clk identity cap rf period store =
     (let (b, store) = bucketFor env (clk 0) identity cap rf period store;
          ((allowed, remaining, retry), b) = Take (clk 1) b
      in ((allowed, remaining, Capacity b, retry), store(identity \<mapsto> b)))"

definition TakeDefault ::
  "(buckets \<Rightarrow> buckets) \<Rightarrow> clock \<Rightarrow> string \<Rightarrow> RateService \<Rightarrow> (bool \<times> goint \<times> goint \<times> duration) \<times> RateService" where
  "TakeDefault env clk identity s =
     (let cfg = sv_cfg s;
          (r, m) = take_from env clk identity (rl_Capacity cfg) (rl_RefillTokens cfg) (rl_RefillPeriod cfg) (sv_defaul s)
      in (r, s\<lparr>sv_defaul := m\<rparr>))"

definition TakeAuth ::
  "(buckets \<Rightarrow> buckets) \<Rightarrow> clock \<Rightarrow> string \<Rightarrow> RateService \<Rightarrow> (bool \<times> goint \<times> goint \<times> duration) \<times> RateService" where
  "TakeAuth env clk identity s =
     (let cfg = sv_cfg s;
          (r, m) = take_from env clk identity (rl_AuthCapacity cfg) (rl_AuthRefillTokens cfg) (rl_AuthRefillPeriod cfg) (sv_auth s)
      in (r, s\<lparr>sv_auth := m\<rparr>))"

section \<open>The middleware\<close>

definition rate_identity :: "'d gin_context \<Rightarrow> string" where
  "rate_identity c =
     (case GetString CtxUsername c of
        Some s \<Rightarrow> if s \<noteq> '''' then s else c_ClientIP c
      | None \<Rightarrow> c_ClientIP c)"

definition rate_Middleware ::
  "(buckets \<Rightarrow> buckets) \<Rightarrow> clock \<Rightarrow> (RateService \<times> 'w, 'd) handler \<Rightarrow> (RateService \<times> 'w, 'd) handler" where
  "rate_Middleware env clk next_h st =
     (let ((svc, w), c) = st
      in if \<not> rate_Enabled svc then next_h ((svc, w), c)
         else if \<not> IsIncluded (sv_cfg svc) (c_Path c) then next_h ((svc, w), c)
         else let identity = rate_identity c;
                  ((allowed, remaining, cap, retry), svc) =
                    (if IsAuthPath (sv_cfg svc) (c_Path c) then TakeAuth env clk identity svc
                     else TakeDefault env clk identity svc);
                  c = send (EHeader ''X-RateLimit-Limit'' (FormatInt (sint cap))) c;
                  c = send (EHeader ''X-RateLimit-Remaining'' (FormatInt (sint remaining))) c
              in if \<not> allowed
                 then let secs = FormatInt (sint (int_of_f64 (Seconds retry)));
                          c = send (EHeader ''Retry-After'' secs) c;
                          c = WriteResponse (Some (ErrorResponse (clk 2) 429
                                (''Rate limit exceeded. Retry in '' @ secs @ ''s.'') None)) c
                      in ((svc, w), Abort c)
                 else next_h ((svc, w), c))"

section \<open>Durations as seconds\<close>

declare of_int_sint [simp del]

text \<open>A positive duration is a positive number of seconds.\<close>

lemma Seconds_pos:
  assumes "0 < d" "d < 2 ^ 63"
  obtains s where "Seconds d = Fin s" "2 powr of_int (-30) \<le> s" "s \<le> 2 powr of_int 34"
proof -
  let ?s = "d div second" and ?n = "d mod second"
  have s: "0 \<le> ?s" "?s \<le> 2 ^ 33 + 2 ^ 30" "0 \<le> ?n" "?n < second" using assms by auto
  have "f64_of_int ?n = Fin (of_int ?n)" "f64_of_int second = Fin (of_int second)" "f64_of_int ?s = Fin (of_int ?s)"
    using s by (auto intro!: f64_of_int_exact)
  then have Sec: "Seconds d = f64_add (Fin (of_int ?s)) (f64_round (of_int ?n / of_int second))"
    using assms(1) by (simp add: Seconds_def Let_def)
  have q: "0 \<le> real_of_int ?n / of_int second" "real_of_int ?n / of_int second \<le> 2 powr of_int 0" using s by simp_all
  note r = f64_round_nonneg [OF q]
  let ?q = "fl (real_of_int ?n / of_int second)"
  have add: "Seconds d = f64_round (of_int ?s + ?q)" using Sec r by simp
  have lower: "2 powr of_int (-30) \<le> of_int ?s + ?q"
  proof (cases "?s = 0")
    case True
    then have "1 \<le> ?n" using assms(1) by (metis div_mult_mod_eq mult_zero_left add_0 int_one_le_iff_zero_less)
    then have "2 powr of_int (-30) \<le> real_of_int ?n / of_int second" by (simp add: powr_minus field_simps)
    from fl_mono [OF this] show ?thesis using True fl_powr [of "-30"] by simp
  next
    case False
    then have "1 \<le> ?s" using s(1) by linarith
    then have "1 \<le> real_of_int ?s" by simp
    moreover have "2 powr of_int (-30) \<le> (1::real)" by (simp add: powr_minus field_simps)
    ultimately show ?thesis using r(2) by linarith
  qed
  have upper: "of_int ?s + ?q \<le> 2 powr of_int 34"
  proof -
    have "real_of_int ?s \<le> of_int (2 ^ 33 + 2 ^ 30)" using s(2) by (simp only: of_int_le_iff)
    then show ?thesis using r(3) by simp
  qed
  note f = fl_between_powr [OF lower upper]
  show thesis using that [of "fl (of_int ?s + ?q)"] f add by simp
qed

section \<open>The bucket invariant\<close>

text \<open>
  Capacity and refill amount are small enough for \<open>float64\<close>, the period is positive, and the
  token count is a representable number between zero and the capacity.
\<close>

definition bucket_cfg_ok :: "goint \<Rightarrow> goint \<Rightarrow> duration \<Rightarrow> bool" where
  "bucket_cfg_ok cap rf period =
     (0 \<le> sint cap \<and> sint cap \<le> 2 ^ 53 \<and> 0 \<le> sint rf \<and> sint rf \<le> 2 ^ 53 \<and> 0 < period \<and> period < 2 ^ 60)"

definition bucket_ok :: "Bucket \<Rightarrow> bool" where
  "bucket_ok b =
     (bucket_cfg_ok (bk_capacity b) (bk_refillTokens b) (bk_refillPeriod b) \<and>
      (case bk_tokens b of Fin x \<Rightarrow> fl x = x \<and> 0 \<le> x \<and> x \<le> of_int (sint (bk_capacity b)) | _ \<Rightarrow> False))"

lemma bucket_okE:
  assumes "bucket_ok b"
  obtains x where "bk_tokens b = Fin x" "fl x = x" "0 \<le> x" "x \<le> of_int (sint (bk_capacity b))"
    "bucket_cfg_ok (bk_capacity b) (bk_refillTokens b) (bk_refillPeriod b)"
  using assms by (auto simp: bucket_ok_def split: f64.splits)

lemma NewBucket_ok: "bucket_cfg_ok cap rf period \<Longrightarrow> bucket_ok (NewBucket now cap rf period)"
  by (simp add: bucket_ok_def bucket_cfg_ok_def NewBucket_def)

lemma of_int_le_powr53: "n \<le> 2 ^ 53 \<Longrightarrow> real_of_int n \<le> 2 powr of_int 53"
proof -
  assume "n \<le> 2 ^ 53"
  then have "real_of_int n \<le> of_int (2 ^ 53)" by (simp only: of_int_le_iff)
  then show ?thesis by simp
qed

text \<open>The refill rate is a finite number, zero only when no tokens are refilled.\<close>

lemma tokensPerSec_fin:
  assumes "bucket_cfg_ok (bk_capacity b) (bk_refillTokens b) (bk_refillPeriod b)"
  obtains r where "tokensPerSec b = Fin r" "0 \<le> r" "r \<le> 2 powr of_int 83"
    "r = 0 \<or> 2 powr of_int (-34) \<le> r" "r = 0 \<longleftrightarrow> sint (bk_refillTokens b) = 0"
proof -
  let ?n = "sint (bk_refillTokens b)"
  have n: "0 \<le> ?n" "?n \<le> 2 ^ 53" and p: "0 < bk_refillPeriod b" "bk_refillPeriod b < 2 ^ 63"
    using assms by (auto simp: bucket_cfg_ok_def)
  obtain s where s: "Seconds (bk_refillPeriod b) = Fin s" "2 powr of_int (-30) \<le> s" "s \<le> 2 powr of_int 34"
    using Seconds_pos [OF p] .
  have s0: "0 < s" using s(2) by (rule less_le_trans [rotated]) simp
  have t: "tokensPerSec b = f64_round (of_int ?n / s)" using n s(1) s0 by (simp add: tokensPerSec_def)
  show thesis
  proof (cases "?n = 0")
    case True
    then show thesis using that [of 0] t by (simp add: f64_round_def)
  next
    case False
    then have "1 \<le> ?n" using n(1) by linarith
    then have n1: "1 \<le> real_of_int ?n" by simp
    have u: "of_int ?n / s \<le> 2 powr of_int 83"
    proof -
      have "of_int ?n / s \<le> 2 powr of_int 53 / 2 powr of_int (-30)"
        using of_int_le_powr53 [OF n(2)] s(2) n1 by (intro frac_le) auto
      also have "\<dots> = 2 powr of_int 83" by (subst powr_diff [symmetric]) simp
      finally show ?thesis .
    qed
    have l: "2 powr of_int (-34) \<le> of_int ?n / s"
    proof -
      have "2 powr of_int (-34) = 1 / (2 powr of_int 34 :: real)" by (simp add: powr_minus field_simps)
      also have "\<dots> \<le> of_int ?n / s" using s(3) n1 s0 by (intro frac_le) auto
      finally show ?thesis .
    qed
    note f = fl_between_powr [OF l u]
    have "0 < fl (of_int ?n / s)" using f(2) by (rule less_le_trans [rotated, OF _ ]) simp_all
    then show thesis using that [of "fl (of_int ?n / s)"] f t False by simp
  qed
qed

lemma refill_frame [simp]:
  "bk_capacity (refill now b) = bk_capacity b" "bk_refillTokens (refill now b) = bk_refillTokens b"
  "bk_refillPeriod (refill now b) = bk_refillPeriod b"
  by (simp_all add: refill_def Let_def)

lemma tokensPerSec_frame [simp]: "tokensPerSec (refill now b) = tokensPerSec b"
  by (simp add: tokensPerSec_def)

text \<open>Refilling keeps the invariant and never takes tokens away.\<close>

lemma refill_tokens:
  assumes "bucket_ok b" "bk_tokens b = Fin x"
  obtains y where "bk_tokens (refill now b) = Fin y" "fl y = y" "x \<le> y" "y \<le> of_int (sint (bk_capacity b))"
proof (cases "now \<le> bk_lastRefill b")
  case True
  then have "refill now b = b" by (simp add: refill_def Let_def max_def min_def)
  then show thesis using that [of x] assms by (auto elim!: bucket_okE)
next
  case False
  define e where "e = max (- (2 ^ 63)) (min (2 ^ 63 - 1) (now - bk_lastRefill b))"
  have e: "0 < e" "e < 2 ^ 63" using False by (auto simp: e_def)
  obtain s where s: "Seconds e = Fin s" "2 powr of_int (-30) \<le> s" "s \<le> 2 powr of_int 34"
    using Seconds_pos [OF e] .
  have x: "fl x = x" "0 \<le> x" "x \<le> of_int (sint (bk_capacity b))"
    and cfg: "bucket_cfg_ok (bk_capacity b) (bk_refillTokens b) (bk_refillPeriod b)"
    using assms by (auto elim!: bucket_okE)
  obtain r where r: "tokensPerSec b = Fin r" "0 \<le> r" "r \<le> 2 powr of_int 83" using tokensPerSec_fin [OF cfg] by blast
  have cap: "0 \<le> sint (bk_capacity b)" "sint (bk_capacity b) \<le> 2 ^ 53" using cfg by (simp_all add: bucket_cfg_ok_def)
  have s0: "0 \<le> s" using s(2) powr_ge_zero [of 2 "of_int (-30)"] by linarith
  have "s * r \<le> 2 powr of_int 34 * 2 powr of_int 83" using s(3) r(2,3) s0 by (intro mult_mono) auto
  also have "\<dots> = 2 powr of_int 117" by (subst powr_add [symmetric]) simp
  finally have sr: "s * r \<le> 2 powr of_int 117" .
  note m = f64_round_nonneg [OF mult_nonneg_nonneg [OF s0 r(2)] sr]
  have c53: "x \<le> 2 powr of_int 53" using x(3) of_int_le_powr53 [OF cap(2)] by linarith
  have sum: "0 \<le> x + fl (s * r)" "x + fl (s * r) \<le> 2 powr of_int 118"
  proof -
    show "0 \<le> x + fl (s * r)" using x(2) m(2) by simp
    have "2 powr of_int 53 + 2 powr of_int 117 \<le> (2 :: real) powr of_int 118" by simp
    then show "x + fl (s * r) \<le> 2 powr of_int 118" using c53 m(3) by simp
  qed
  note a = f64_round_nonneg [OF sum]
  have "x \<le> x + fl (s * r)" using m(2) by simp
  from fl_mono [OF this] have mono: "x \<le> fl (x + fl (s * r))" using x(1) by simp
  have tok: "bk_tokens (refill now b) = math_Min (Fin (of_int (sint (bk_capacity b)))) (Fin (fl (x + fl (s * r))))"
    unfolding refill_def Let_def e_def [symmetric] using e(1) s(1) r(1) m(1) a(1) cap assms(2) by simp
  show thesis
  proof (cases "of_int (sint (bk_capacity b)) \<le> fl (x + fl (s * r))")
    case True
    then show thesis using that [of "of_int (sint (bk_capacity b))"] tok x(3) cap by simp
  next
    case False
    then show thesis using that [of "fl (x + fl (s * r))"] tok mono by simp
  qed
qed

lemma refill_ok: "bucket_ok b \<Longrightarrow> bucket_ok (refill now b)"
proof -
  assume b: "bucket_ok b"
  then obtain x where x: "bk_tokens b = Fin x" "0 \<le> x" "bucket_cfg_ok (bk_capacity b) (bk_refillTokens b) (bk_refillPeriod b)"
    by (rule bucket_okE)
  obtain y where y: "bk_tokens (refill now b) = Fin y" "fl y = y" "x \<le> y" "y \<le> of_int (sint (bk_capacity b))"
    using b x(1) by (rule refill_tokens)
  show ?thesis using x(2,3) y by (simp add: bucket_ok_def)
qed

text \<open>The three outcomes of \<open>Take\<close>.\<close>

lemma Take_cases [consumes 1]:
  assumes "bucket_ok b"
  obtains (allowed) y where "bk_tokens (refill now b) = Fin y" "1 \<le> y" "y \<le> of_int (sint (bk_capacity b))"
      "Take now b = ((True, word_of_int \<lfloor>fl (y - 1)\<rfloor>, 0), (refill now b)\<lparr>bk_tokens := Fin (fl (y - 1))\<rparr>)"
      "0 \<le> fl (y - 1)" "fl (y - 1) \<le> of_int (sint (bk_capacity b)) - 1"
  | (denied) y retry where "bk_tokens (refill now b) = Fin y" "0 \<le> y" "y < 1"
      "Take now b = ((False, 0, retry), refill now b)"
proof -
  obtain y where y: "bk_tokens (refill now b) = Fin y" "0 \<le> y" "y \<le> of_int (sint (bk_capacity b))"
    using refill_ok [OF assms, of now] by (auto elim!: bucket_okE)
  have cap: "0 \<le> sint (bk_capacity b)" "sint (bk_capacity b) \<le> 2 ^ 53" using assms by (auto simp: bucket_ok_def bucket_cfg_ok_def)
  show thesis
  proof (cases "1 \<le> y")
    case True
    have "of_int 0 \<le> y - 1" "y - 1 \<le> of_int (sint (bk_capacity b) - 1)" using True y(3) by simp_all
    then have f: "f64_round (y - 1) = Fin (fl (y - 1)) \<and> of_int 0 \<le> fl (y - 1) \<and> fl (y - 1) \<le> of_int (sint (bk_capacity b) - 1)"
      by (rule f64_round_between) (use cap in auto)
    then have lf: "0 \<le> \<lfloor>fl (y - 1)\<rfloor>" "\<lfloor>fl (y - 1)\<rfloor> \<le> sint (bk_capacity b) - 1" by (auto simp: le_floor_iff) linarith
    then have "int_of_f64 (Fin (fl (y - 1))) = word_of_int \<lfloor>fl (y - 1)\<rfloor>" using f cap by (simp add: Let_def)
    then show thesis using allowed [of y] y True f by (simp add: Take_def f64_sub_def Let_def)
  next
    case False
    then have "\<exists>retry. Take now b = ((False, 0, retry), refill now b)" using y by (simp add: Take_def Let_def)
    then show thesis using denied [OF y(1,2)] False by auto
  qed
qed

lemma Take_ok:
  assumes "bucket_ok b"
  shows "bucket_ok (snd (Take now b))"
  using assms
proof (cases rule: Take_cases [where now = now])
  case (allowed y)
  then show ?thesis using refill_ok [OF assms, of now] by (simp add: bucket_ok_def)
next
  case (denied y retry)
  then show ?thesis using refill_ok [OF assms] by simp
qed

text \<open>At the instant of the last refill a whole number of tokens is counted down exactly.\<close>

lemma Take_exact:
  assumes "bk_tokens b = Fin (of_int k)" "bk_lastRefill b = now" "0 \<le> k" "k \<le> 2 ^ 53"
  shows "fst (fst (Take now b)) \<longleftrightarrow> 1 \<le> k"
    and "snd (Take now b) = b\<lparr>bk_tokens := Fin (of_int (if 1 \<le> k then k - 1 else k))\<rparr>"
proof -
  have r: "refill now b = b" using assms(2) by (simp add: refill_def)
  have "f64_sub (Fin (of_int k)) (Fin 1) = Fin (of_int (k - 1))" if "1 \<le> k"
    using that assms(4) f64_round_of_int [of "k - 1"] by (simp add: f64_sub_def)
  then show "fst (fst (Take now b)) \<longleftrightarrow> 1 \<le> k"
    "snd (Take now b) = b\<lparr>bk_tokens := Fin (of_int (if 1 \<le> k then k - 1 else k))\<rparr>"
    using assms(1) by (auto simp: Take_def r Let_def)
qed

section \<open>The service over a sequence of requests\<close>

text \<open>Which of a sequence of authentication requests at one instant are let through.\<close>

fun serve_auth :: "time \<Rightarrow> string list \<Rightarrow> RateService \<Rightarrow> (string \<times> bool) list \<times> RateService" where
  "serve_auth now [] s = ([], s)"
| "serve_auth now (i # is) s =
     (let ((ok, _, _, _), s) = TakeAuth (\<lambda>m. m) (\<lambda>_. now) i s; (rs, s) = serve_auth now is s in ((i, ok) # rs, s))"

definition bucket_at :: "time \<Rightarrow> RateLimitConfig \<Rightarrow> int \<Rightarrow> Bucket" where
  "bucket_at now cfg k = \<lparr>bk_capacity = rl_AuthCapacity cfg, bk_tokens = Fin (of_int k), bk_refillTokens = rl_AuthRefillTokens cfg,
     bk_refillPeriod = rl_AuthRefillPeriod cfg, bk_lastRefill = now\<rparr>"

lemma NewBucket_at:
  "0 \<le> sint (rl_AuthCapacity cfg) \<Longrightarrow> sint (rl_AuthCapacity cfg) \<le> 2 ^ 53 \<Longrightarrow>
     NewBucket now (rl_AuthCapacity cfg) (rl_AuthRefillTokens cfg) (rl_AuthRefillPeriod cfg)
       = bucket_at now cfg (sint (rl_AuthCapacity cfg))"
  by (simp add: NewBucket_def bucket_at_def)

text \<open>\<open>k\<close> tokens are left for an identity; an identity without a bucket has the full capacity.\<close>

definition tokens_left :: "time \<Rightarrow> string \<Rightarrow> int \<Rightarrow> RateService \<Rightarrow> bool" where
  "tokens_left now i k s =
     (case sv_auth s i of None \<Rightarrow> k = sint (rl_AuthCapacity (sv_cfg s)) | Some b \<Rightarrow> b = bucket_at now (sv_cfg s) k)"

lemma TakeAuth_other:
  "j \<noteq> i \<Longrightarrow> tokens_left now i k (snd (TakeAuth (\<lambda>m. m) clk j s)) = tokens_left now i k s"
  by (simp add: tokens_left_def TakeAuth_def take_from_def bucketFor_def LoadOrStore_def Let_def
      split: prod.splits option.splits)

lemma TakeAuth_same:
  assumes "tokens_left now i k s" "0 \<le> k" "k \<le> 2 ^ 53"
  shows "fst (fst (TakeAuth (\<lambda>m. m) (\<lambda>_. now) i s)) \<longleftrightarrow> 1 \<le> k"
    and "tokens_left now i (if 1 \<le> k then k - 1 else k) (snd (TakeAuth (\<lambda>m. m) (\<lambda>_. now) i s))"
proof -
  have b: "fst (bucketFor (\<lambda>m. m) now i (rl_AuthCapacity (sv_cfg s)) (rl_AuthRefillTokens (sv_cfg s))
      (rl_AuthRefillPeriod (sv_cfg s)) (sv_auth s)) = bucket_at now (sv_cfg s) k"
    using assms by (auto simp: bucketFor_def LoadOrStore_def tokens_left_def NewBucket_at Let_def split: option.splits)
  note t = Take_exact [of "bucket_at now (sv_cfg s) k" k now, OF _ _ assms(2,3)]
  show "fst (fst (TakeAuth (\<lambda>m. m) (\<lambda>_. now) i s)) \<longleftrightarrow> 1 \<le> k"
    using t(1) b by (auto simp: TakeAuth_def take_from_def Let_def bucket_at_def split: prod.splits)
  show "tokens_left now i (if 1 \<le> k then k - 1 else k) (snd (TakeAuth (\<lambda>m. m) (\<lambda>_. now) i s))"
    using t(2) b by (auto simp: TakeAuth_def take_from_def Let_def bucket_at_def tokens_left_def split: prod.splits)
qed

lemma TakeAuth_cfg [simp]: "sv_cfg (snd (TakeAuth env clk i s)) = sv_cfg s"
  by (simp add: TakeAuth_def Let_def split: prod.splits)

lemma serve_auth_left:
  assumes "tokens_left now i k s" "0 \<le> k" "k \<le> 2 ^ 53"
  shows "map snd (filter (\<lambda>r. fst r = i) (fst (serve_auth now is s)))
         = replicate (min (count_list is i) (nat k)) True @ replicate (count_list is i - nat k) False"
  using assms
proof (induction "is" arbitrary: s k)
  case (Cons j js)
  obtain ok a b c s' where t: "TakeAuth (\<lambda>m. m) (\<lambda>_. now) j s = ((ok, a, b, c), s')" by (metis prod.collapse)
  obtain rs s'' where r: "serve_auth now js s' = (rs, s'')" by fastforce
  show ?case
  proof (cases "j = i")
    case False
    then have "tokens_left now i k s'" using TakeAuth_other [of j i now k "\<lambda>_. now" s] Cons.prems t by simp
    from Cons.IH [OF this] Cons.prems False t r show ?thesis by (simp add: Let_def)
  next
    case True
    note st = TakeAuth_same [OF Cons.prems, folded True, unfolded t fst_conv snd_conv]
    show ?thesis
    proof (cases "1 \<le> k")
      case k: True
      then have "nat k = Suc (nat (k - 1))" by simp
      then show ?thesis using Cons.IH [of "k - 1" s'] st Cons.prems k True t r by (simp add: Let_def)
    next
      case k: False
      then have "k = 0" using Cons.prems by simp
      then show ?thesis using Cons.IH [of k s'] st Cons.prems True t r by (simp add: Let_def)
    qed
  qed
qed simp

section \<open>The pools\<close>

definition pool_ok :: "goint \<Rightarrow> buckets \<Rightarrow> bool" where
  "pool_ok cap m = (\<forall>i b. m i = Some b \<longrightarrow> bucket_ok b \<and> bk_capacity b = cap)"

definition rate_ok :: "RateService \<Rightarrow> bool" where
  "rate_ok s =
     (let cfg = sv_cfg s
      in bucket_cfg_ok (rl_Capacity cfg) (rl_RefillTokens cfg) (rl_RefillPeriod cfg) \<and>
         bucket_cfg_ok (rl_AuthCapacity cfg) (rl_AuthRefillTokens cfg) (rl_AuthRefillPeriod cfg) \<and>
         pool_ok (rl_Capacity cfg) (sv_defaul s) \<and> pool_ok (rl_AuthCapacity cfg) (sv_auth s))"

lemma sint_word_small: "0 \<le> n \<Longrightarrow> n < m \<Longrightarrow> m \<le> 2 ^ 53 \<Longrightarrow> sint (word_of_int n :: goint) = n"
  by (rule sint_word_of_int64) simp_all

lemma Take_bounds:
  assumes "bucket_ok b" "Take now b = ((ok, remaining, retry), b')"
  shows "bucket_ok b'" "bk_capacity b' = bk_capacity b" "0 \<le> sint remaining"
    "if ok then sint remaining < sint (bk_capacity b) \<and> retry = 0 else remaining = 0"
proof -
  have cap: "sint (bk_capacity b) \<le> 2 ^ 53" using assms(1) by (simp add: bucket_ok_def bucket_cfg_ok_def)
  show "bucket_ok b'" using Take_ok [OF assms(1), of now] assms(2) by simp
  have "bk_capacity b' = bk_capacity b \<and> 0 \<le> sint remaining
     \<and> (if ok then sint remaining < sint (bk_capacity b) \<and> retry = 0 else remaining = 0)"
    using assms(1)
  proof (cases rule: Take_cases [where now = now])
    case (allowed y)
    then have f: "0 \<le> \<lfloor>fl (y - 1)\<rfloor>" "\<lfloor>fl (y - 1)\<rfloor> < sint (bk_capacity b)" by (simp_all, linarith)
    then have "sint (word_of_int \<lfloor>fl (y - 1)\<rfloor> :: goint) = \<lfloor>fl (y - 1)\<rfloor>" using cap by (rule sint_word_small)
    then show ?thesis using allowed(4) f assms(2) by auto
  next
    case (denied y r)
    then show ?thesis using assms(2) by auto
  qed
  then show "bk_capacity b' = bk_capacity b" "0 \<le> sint remaining"
    "if ok then sint remaining < sint (bk_capacity b) \<and> retry = 0 else remaining = 0" by simp_all
qed

lemma take_from_ok:
  assumes "bucket_cfg_ok cap rf period" "pool_ok cap m"
    and "take_from (\<lambda>m. m) clk i cap rf period m = ((ok, remaining, cp, retry), m')"
  shows "cp = cap" "0 \<le> sint remaining" "sint remaining \<le> sint cap" "\<not> ok \<longrightarrow> remaining = 0" "pool_ok cap m'" "\<forall>j. j \<noteq> i \<longrightarrow> m' j = m j"
proof -
  obtain b m1 where b: "bucketFor (\<lambda>m. m) (clk 0) i cap rf period m = (b, m1)" by fastforce
  have bo: "bucket_ok b" "bk_capacity b = cap" and m1: "pool_ok cap m1" "\<forall>j. j \<noteq> i \<longrightarrow> m1 j = m j"
    using b assms(1,2) NewBucket_ok [OF assms(1), of "clk 0"]
    by (auto simp: bucketFor_def LoadOrStore_def pool_ok_def NewBucket_def Let_def split: option.splits if_splits)
  obtain b' where t: "Take (clk 1) b = ((ok, remaining, retry), b')" "cp = bk_capacity b'" "m' = m1(i \<mapsto> b')"
    using assms(3) b by (auto simp: take_from_def Capacity_def Let_def split: prod.splits)
  note tb = Take_bounds [OF bo(1) t(1)]
  have "0 \<le> sint cap" using assms(1) by (simp add: bucket_cfg_ok_def)
  then show "sint remaining \<le> sint cap" "\<not> ok \<longrightarrow> remaining = 0" using tb(4) bo(2) by (auto split: if_splits)
  show "cp = cap" "0 \<le> sint remaining" using tb t(2) bo(2) by simp_all
  show "pool_ok cap m'" "\<forall>j. j \<noteq> i \<longrightarrow> m' j = m j" using m1 tb(1,2) bo(2) t(3) by (auto simp: pool_ok_def)
qed

lemma rate_take_ok:
  assumes "rate_ok s"
    and "(if auth then TakeAuth (\<lambda>m. m) clk i s else TakeDefault (\<lambda>m. m) clk i s) = ((ok, remaining, cp, retry), s')"
  shows "rate_ok s'" "0 \<le> sint remaining" "sint remaining \<le> sint cp" "\<not> ok \<longrightarrow> remaining = 0"
    "\<forall>j. j \<noteq> i \<longrightarrow> sv_defaul s' j = sv_defaul s j \<and> sv_auth s' j = sv_auth s j"
    "if auth then sv_defaul s' = sv_defaul s else sv_auth s' = sv_auth s"
proof -
  have "rate_ok s' \<and> 0 \<le> sint remaining \<and> sint remaining \<le> sint cp \<and> (\<not> ok \<longrightarrow> remaining = 0)
     \<and> (\<forall>j. j \<noteq> i \<longrightarrow> sv_defaul s' j = sv_defaul s j \<and> sv_auth s' j = sv_auth s j)
     \<and> (if auth then sv_defaul s' = sv_defaul s else sv_auth s' = sv_auth s)"
  proof (cases auth)
    case True
    then obtain m where t: "take_from (\<lambda>m. m) clk i (rl_AuthCapacity (sv_cfg s)) (rl_AuthRefillTokens (sv_cfg s))
        (rl_AuthRefillPeriod (sv_cfg s)) (sv_auth s) = ((ok, remaining, cp, retry), m)" and s': "s' = s\<lparr>sv_auth := m\<rparr>"
      using assms(2) by (auto simp: TakeAuth_def Let_def split: prod.splits)
    show ?thesis using take_from_ok [OF _ _ t] assms(1) True by (simp add: rate_ok_def Let_def s')
  next
    case False
    then obtain m where t: "take_from (\<lambda>m. m) clk i (rl_Capacity (sv_cfg s)) (rl_RefillTokens (sv_cfg s))
        (rl_RefillPeriod (sv_cfg s)) (sv_defaul s) = ((ok, remaining, cp, retry), m)" and s': "s' = s\<lparr>sv_defaul := m\<rparr>"
      using assms(2) by (auto simp: TakeDefault_def Let_def split: prod.splits)
    show ?thesis using take_from_ok [OF _ _ t] assms(1) False by (simp add: rate_ok_def Let_def s')
  qed
  then show "rate_ok s'" "0 \<le> sint remaining" "sint remaining \<le> sint cp" "\<not> ok \<longrightarrow> remaining = 0"
    "\<forall>j. j \<noteq> i \<longrightarrow> sv_defaul s' j = sv_defaul s j \<and> sv_auth s' j = sv_auth s j"
    "if auth then sv_defaul s' = sv_defaul s else sv_auth s' = sv_auth s" by simp_all
qed

lemma NewService_ok:
  "bucket_cfg_ok (rl_Capacity cfg) (rl_RefillTokens cfg) (rl_RefillPeriod cfg) \<Longrightarrow>
   bucket_cfg_ok (rl_AuthCapacity cfg) (rl_AuthRefillTokens cfg) (rl_AuthRefillPeriod cfg) \<Longrightarrow> rate_ok (NewService cfg)"
  by (simp add: rate_ok_def NewService_def pool_ok_def)

definition demo_rate :: RateLimitConfig where
  "demo_rate = \<lparr>rl_Enabled = True, rl_Capacity = 60, rl_RefillTokens = 60, rl_RefillPeriod = 60 * second,
     rl_AuthCapacity = 2, rl_AuthRefillTokens = 10, rl_AuthRefillPeriod = 60 * second,
     rl_AuthPathPrefixes = [''/api/v1/auth/''], rl_IncludePrefixes = [''/api/'']\<rparr>"

lemma demo_rate_ok: "rate_ok (NewService demo_rate)"
  by (rule NewService_ok) (simp_all add: bucket_cfg_ok_def demo_rate_def)

section \<open>Properties\<close>

text \<open>
  C18: the token count of a bucket stays a number between zero and the capacity, through every
  refill in \<open>float64\<close> arithmetic; a granted request announces a remaining count below the
  capacity and no waiting time, a refused one announces zero.
\<close>

theorem bucket_Take_bounds:
  assumes "bucket_ok b" "Take now b = ((ok, remaining, retry), b')"
  shows "bucket_ok b' \<and> bk_capacity b' = bk_capacity b \<and> 0 \<le> sint remaining
     \<and> (if ok then sint remaining < sint (bk_capacity b) \<and> retry = 0 else remaining = 0)"
  using Take_bounds [OF assms] by simp

theorem bucket_Take_bounds_witness:
  "bucket_ok (snd (Take (5 * second) (NewBucket 0 3 1 second)))"
proof -
  have b: "bucket_ok (NewBucket 0 3 1 second)" by (rule NewBucket_ok) (simp add: bucket_cfg_ok_def)
  obtain ok remaining retry b' where "Take (5 * second) (NewBucket 0 3 1 second) = ((ok, remaining, retry), b')"
    by (metis prod.collapse)
  then show ?thesis using bucket_Take_bounds [OF b] by simp
qed

text \<open>
  C17: at one instant, a fresh service lets through exactly the first \<open>capacity\<close> authentication
  requests of an identity and refuses the rest, whatever requests of other identities come in
  between.
\<close>

theorem serve_auth_burst:
  assumes "bucket_cfg_ok (rl_AuthCapacity cfg) (rl_AuthRefillTokens cfg) (rl_AuthRefillPeriod cfg)"
  shows "map snd (filter (\<lambda>r. fst r = i) (fst (serve_auth now is (NewService cfg))))
         = replicate (min (count_list is i) (nat (sint (rl_AuthCapacity cfg)))) True
           @ replicate (count_list is i - nat (sint (rl_AuthCapacity cfg))) False"
  by (rule serve_auth_left) (use assms in \<open>simp_all add: tokens_left_def NewService_def bucket_cfg_ok_def\<close>)

theorem serve_auth_burst_witness:
  "map snd (filter (\<lambda>r. fst r = ''a'') (fst (serve_auth 0 [''a'', ''b'', ''a'', ''b'', ''a''] (NewService demo_rate)))) = [True, True, False]"
  using serve_auth_burst [of demo_rate "''a''" 0 "[''a'', ''b'', ''a'', ''b'', ''a'']"] demo_rate_ok
  by (simp add: rate_ok_def demo_rate_def NewService_def numeral_2_eq_2)

text \<open>
  On a rate-limited path one token is taken from the bucket of the request's identity in the
  pool of its path, and no other bucket changes.  The rest of the chain runs only when the token
  was granted; otherwise the answer is 429, the chain is aborted and the server state is as it
  was.  Both rate-limit headers are set, with a remaining count between zero and the limit.
\<close>

theorem rate_Middleware_outcome:
  assumes "rate_ok svc" "rl_Enabled (sv_cfg svc)" "IsIncluded (sv_cfg svc) (c_Path c)"
  shows "\<exists>svc' (cap :: goint) (remaining :: goint) c'. rate_ok svc' \<and> 0 \<le> sint remaining \<and> sint remaining \<le> sint cap
     \<and> c' = send (EHeader ''X-RateLimit-Remaining'' (FormatInt (sint remaining)))
              (send (EHeader ''X-RateLimit-Limit'' (FormatInt (sint cap))) c)
     \<and> (\<forall>j. j \<noteq> rate_identity c \<longrightarrow> sv_defaul svc' j = sv_defaul svc j \<and> sv_auth svc' j = sv_auth svc j)
     \<and> (if IsAuthPath (sv_cfg svc) (c_Path c) then sv_defaul svc' = sv_defaul svc else sv_auth svc' = sv_auth svc)
     \<and> (rate_Middleware (\<lambda>m. m) clk next_h ((svc, w), c) = next_h ((svc', w), c')
        \<or> remaining = 0 \<and> (\<exists>secs. rate_Middleware (\<lambda>m. m) clk next_h ((svc, w), c) =
             ((svc', w), Abort (send (EJSON 429 (ErrorResponse (clk 2) 429 (''Rate limit exceeded. Retry in '' @ secs @ ''s.'') None))
                (send (EHeader ''Retry-After'' secs) c')))))"
proof -
  obtain ok remaining cap retry svc' where t:
    "(if IsAuthPath (sv_cfg svc) (c_Path c) then TakeAuth (\<lambda>m. m) clk (rate_identity c) svc
      else TakeDefault (\<lambda>m. m) clk (rate_identity c) svc) = ((ok, remaining, cap, retry), svc')" by (metis prod.collapse)
  note r = rate_take_ok [OF assms(1) t]
  let ?c = "send (EHeader ''X-RateLimit-Remaining'' (FormatInt (sint remaining)))
              (send (EHeader ''X-RateLimit-Limit'' (FormatInt (sint cap))) c)"
  have m: "rate_Middleware (\<lambda>m. m) clk next_h ((svc, w), c) = next_h ((svc', w), ?c)
      \<or> remaining = 0 \<and> (\<exists>secs. rate_Middleware (\<lambda>m. m) clk next_h ((svc, w), c) =
             ((svc', w), Abort (send (EJSON 429 (ErrorResponse (clk 2) 429 (''Rate limit exceeded. Retry in '' @ secs @ ''s.'') None))
                (send (EHeader ''Retry-After'' secs) ?c))))"
    using assms(2,3) t r(4) by (cases ok) (auto simp: rate_Middleware_def Let_def)
  show ?thesis
    by (rule exI [of _ svc'], rule exI [of _ cap], rule exI [of _ remaining], rule exI [of _ ?c])
       (intro conjI refl r(1-3,5,6) m)
qed

theorem rate_Middleware_outcome_witness:
  "\<exists>svc'. rate_ok svc' \<and> sv_auth svc' = Map.empty
     \<and> fst (fst (rate_Middleware (\<lambda>m. m) (\<lambda>_. 0) (\<lambda>s. s) ((NewService demo_rate, ()), demo_context [] :: nat gin_context))) = svc'"
proof -
  let ?c = "demo_context [] :: nat gin_context" and ?n = "\<lambda>s :: (RateService \<times> unit) \<times> nat gin_context. s"
  have p: "rl_Enabled (sv_cfg (NewService demo_rate))" "IsIncluded (sv_cfg (NewService demo_rate)) (c_Path ?c)"
    "\<not> IsAuthPath (sv_cfg (NewService demo_rate)) (c_Path ?c)" "sv_auth (NewService demo_rate) = Map.empty"
    by (simp_all add: NewService_def demo_rate_def demo_context_def IsIncluded_def IsAuthPath_def hasPrefix_def)
  from rate_Middleware_outcome [OF demo_rate_ok p(1,2), of "\<lambda>_. 0" ?n "()"]
  obtain svc' c' where "rate_ok svc'" "sv_auth svc' = Map.empty"
    "fst (rate_Middleware (\<lambda>m. m) (\<lambda>_. 0) ?n ((NewService demo_rate, ()), ?c)) = (svc', ())"
    using p(3,4) by (elim exE conjE disjE) simp_all
  then show ?thesis by (intro exI [of _ svc']) simp
qed

end
