(* ===== verification/Configuration.thy ===== *)
theory Configuration
  imports Queue FileStore AuditLog Idempotency RateLimit
begin

text \<open>
  Package \<open>internal/config\<close>: typed configuration from the environment.  \<open>env\<close> is the process
  environment after the optional \<open>.env\<close> file has been merged into it (third party), so a variable
  that is not set is outside its domain.  The number, truth value and duration syntaxes are those
  of packages \<open>strconv\<close> and \<open>time\<close>.
\<close>

section \<open>Parsing values\<close>

text \<open>\<open>strconv.Atoi\<close>; \<open>None\<close> is a non-nil error.\<close>

definition Atoi :: "string \<Rightarrow> goint option" where
  "Atoi s =
     (let neg = (take 1 s = ''-'');
          ds = (if take 1 s = ''-'' \<or> take 1 s = ''+'' then drop 1 s else s);
          n = (if neg then - int (decimal_val 0 ds) else int (decimal_val 0 ds))
      in if ds \<noteq> [] \<and> list_all is_digit ds \<and> - (2 ^ 63) \<le> n \<and> n < 2 ^ 63 then Some (word_of_int n) else None)"

definition ParseBool :: "string \<Rightarrow> bool option" where
  "ParseBool s =
     (if s \<in> {''1'', ''t'', ''T'', ''TRUE'', ''true'', ''True''} then Some True
      else if s \<in> {''0'', ''f'', ''F'', ''FALSE'', ''false'', ''False''} then Some False
      else None)"

text \<open>The leading digits of a duration element, and the digits after its point with their scale.\<close>

fun leadingInt :: "nat \<Rightarrow> string \<Rightarrow> (nat \<times> string) option" where
  "leadingInt x [] = Some (x, [])"
| "leadingInt x (c # s) =
     (if \<not> is_digit c then Some (x, c # s)
      else if x > 2 ^ 63 div 10 then None
      else let x = 10 * x + digit_val c in if x > 2 ^ 63 then None else leadingInt x s)"

fun leadingFraction :: "nat \<Rightarrow> f64 \<Rightarrow> bool \<Rightarrow> string \<Rightarrow> nat \<times> f64 \<times> string" where
  "leadingFraction x scale overflow [] = (x, scale, [])"
| "leadingFraction x scale overflow (c # s) =
     (if \<not> is_digit c then (x, scale, c # s)
      else if overflow then leadingFraction x scale overflow s
      else if x > (2 ^ 63 - 1) div 10 then leadingFraction x scale True s
      else let y = 10 * x + digit_val c
           in if y > 2 ^ 63 then leadingFraction x scale True s
              else leadingFraction y (f64_mul scale (Fin 10)) overflow s)"

definition unit_of :: "string \<Rightarrow> nat option" where
  "unit_of u =
     (if u = ''ns'' then Some 1
      else if u = ''us'' \<or> u = [char_of (194 :: nat), char_of (181 :: nat)] @ ''s'' \<or> u = [char_of (206 :: nat), char_of (188 :: nat)] @ ''s''
           then Some 1000
      else if u = ''ms'' then Some 1000000
      else if u = ''s'' then Some 1000000000
      else if u = ''m'' then Some 60000000000
      else if u = ''h'' then Some 3600000000000
      else None)"

text \<open>
  One element of a duration: its value in nanoseconds and the rest of the text.  The element is a
  number, an optional fraction and a unit.
\<close>

definition duration_fraction :: "string \<Rightarrow> nat \<times> f64 \<times> bool \<times> string" where
  "duration_fraction s =
     (case s of
        c # t \<Rightarrow> if c = CHR ''.''
                 then let (f, scale, rest) = leadingFraction 0 (Fin 1) False t in (f, scale, length rest \<noteq> length t, rest)
                 else (0, Fin 1, False, s)
      | [] \<Rightarrow> (0, Fin 1, False, s))"

definition duration_unit :: "nat \<Rightarrow> nat \<Rightarrow> f64 \<Rightarrow> string \<Rightarrow> (nat \<times> string) option" where
  "duration_unit v f scale s =
     (let u = takeWhile (\<lambda>c. c \<noteq> CHR ''.'' \<and> \<not> is_digit c) s;
          rest = drop (length u) s
      in if u = [] then None
         else case unit_of u of
           None \<Rightarrow> None
         | Some un \<Rightarrow>
             if v > 2 ^ 63 div un then None
             else let v = v * un;
                      v = (if f > 0
                           then v + nat (sint (int_of_f64 (f64_mul (f64_of_int (int f)) (f64_div (f64_of_int (int un)) scale))))
                           else v)
                  in if v > 2 ^ 63 then None else Some (v, rest))"

definition duration_item :: "string \<Rightarrow> (nat \<times> string) option" where
  "duration_item s =
     (case leadingInt 0 s of
        None \<Rightarrow> None
      | Some (v, s1) \<Rightarrow>
          let (f, scale, dotted, s2) = duration_fraction s1
          in if length s1 = length s \<and> \<not> dotted then None else duration_unit v f scale s2)"

lemma leadingInt_length: "leadingInt x s = Some (v, s') \<Longrightarrow> length s' \<le> length s"
  by (induction x s rule: leadingInt.induct) (auto simp: Let_def split: if_split_asm intro: le_SucI)

lemma leadingFraction_length: "leadingFraction x scale ov s = (v, scale', s') \<Longrightarrow> length s' \<le> length s"
  by (induction x scale ov s rule: leadingFraction.induct) (auto simp: Let_def split: if_split_asm intro: le_SucI)

lemma duration_fraction_length: "duration_fraction s = (f, scale, dotted, s') \<Longrightarrow> length s' \<le> length s"
  by (cases s) (auto simp: duration_fraction_def split: if_split_asm prod.split_asm dest!: leadingFraction_length)

lemma duration_unit_shorter:
  assumes "duration_unit v f scale s = Some (w, rest)"
  shows "length rest < length s"
proof -
  define u where "u = takeWhile (\<lambda>c. c \<noteq> CHR ''.'' \<and> \<not> is_digit c) s"
  have "u \<noteq> [] \<and> rest = drop (length u) s"
    using assms unfolding duration_unit_def u_def [symmetric]
    by (cases "u = []"; cases "unit_of u") (simp_all add: Let_def split: if_split_asm)
  moreover have "length u \<le> length s" unfolding u_def by (rule length_takeWhile_le)
  ultimately show ?thesis by (cases u) auto
qed

lemma duration_item_shorter: "duration_item s = Some (v, rest) \<Longrightarrow> length rest < length s"
  by (auto simp: duration_item_def split: option.split_asm prod.split_asm if_split_asm
      dest!: duration_unit_shorter duration_fraction_length leadingInt_length)

text \<open>The loop over the elements ends because each of them consumes some of the text.\<close>

function duration_items :: "nat \<Rightarrow> string \<Rightarrow> nat option" where
  "duration_items d s =
     (if s = [] then Some d
      else case duration_item s of
        None \<Rightarrow> None
      | Some (v, rest) \<Rightarrow> let d = d + v in if d > 2 ^ 63 then None else duration_items d rest)"
  by auto
termination by (relation "measure (length \<circ> snd)") (auto dest: duration_item_shorter)

declare duration_items.simps [simp del]

definition ParseDuration :: "string \<Rightarrow> duration option" where
  "ParseDuration s =
     (let neg = (take 1 s = ''-'');
          s = (if take 1 s = ''-'' \<or> take 1 s = ''+'' then drop 1 s else s)
      in if s = ''0'' then Some 0
         else if s = [] then None
         else case duration_items 0 s of
           None \<Rightarrow> None
         | Some d \<Rightarrow> if neg then Some (- int d) else if d > 2 ^ 63 - 1 then None else Some (int d))"

section \<open>Reading the environment\<close>

type_synonym environment = "string \<rightharpoonup> string"

definition getString :: "environment \<Rightarrow> string \<Rightarrow> string \<Rightarrow> string" where
  "getString env key def = (case env key of Some v \<Rightarrow> if v \<noteq> '''' then v else def | None \<Rightarrow> def)"

text \<open>The three typed readers share one shape: unset, empty and malformed values give the default.\<close>

definition getWith :: "(string \<Rightarrow> 'a option) \<Rightarrow> environment \<Rightarrow> string \<Rightarrow> 'a \<Rightarrow> 'a" where
  "getWith parse env key def =
     (case env key of
        None \<Rightarrow> def
      | Some v \<Rightarrow> if v = '''' then def else (case parse v of None \<Rightarrow> def | Some x \<Rightarrow> x))"

definition getInt :: "environment \<Rightarrow> string \<Rightarrow> goint \<Rightarrow> goint" where "getInt = getWith Atoi"
definition getBool :: "environment \<Rightarrow> string \<Rightarrow> bool \<Rightarrow> bool" where "getBool = getWith ParseBool"
definition getDuration :: "environment \<Rightarrow> string \<Rightarrow> duration \<Rightarrow> duration" where "getDuration = getWith ParseDuration"

definition getCSV :: "environment \<Rightarrow> string \<Rightarrow> string list \<Rightarrow> string list" where
  "getCSV env key def =
     (case env key of
        None \<Rightarrow> def
      | Some v \<Rightarrow>
          if v = '''' then def
          else let out = filter (\<lambda>p. p \<noteq> '''') (map TrimSpace (Split (CHR '','') v))
               in if length out = 0 then def else out)"

fun queue_weights :: "string list \<Rightarrow> (string \<rightharpoonup> goint) \<Rightarrow> (string \<rightharpoonup> goint)" where
  "queue_weights [] out = out"
| "queue_weights (part # parts) out =
     (let part = TrimSpace part
      in if part = '''' then queue_weights parts out
         else let eq = IndexByte part (CHR ''='')
         in if eq \<le> 0 then queue_weights parts out
         else let name = TrimSpace (take (nat eq) part)
         in case Atoi (TrimSpace (drop (nat eq + 1) part)) of
              None \<Rightarrow> queue_weights parts out
            | Some weight \<Rightarrow> if sint weight \<le> 0 then queue_weights parts out
                             else queue_weights parts (out(name \<mapsto> weight)))"

definition parseQueueWeights :: "string \<Rightarrow> (string \<rightharpoonup> goint)" where
  "parseQueueWeights s =
     (let out = queue_weights (Split (CHR '','') s) Map.empty
      in if out = Map.empty then out(''default'' \<mapsto> 1) else out)"

section \<open>The configuration\<close>

record AppConfig =
  app_Name :: string
  app_Env :: string

record ServerConfig =
  srv_Port :: string
  srv_ReadTimeout :: duration
  srv_WriteTimeout :: duration
  srv_ShutdownTimeout :: duration

record DBConfig =
  dbc_Driver :: string
  dbc_Host :: string
  dbc_Port :: string
  dbc_User :: string
  dbc_Password :: string
  dbc_Name :: string
  dbc_SSLMode :: string
  dbc_TimeZone :: string
  dbc_MaxOpenConns :: goint
  dbc_MaxIdleConns :: goint
  dbc_ConnMaxLifetime :: duration

record LogConfig =
  lc_Level :: string
  lc_Format :: string
  lc_Dir :: string
  lc_File :: string
  lc_MaxSizeMB :: goint
  lc_MaxBackups :: goint
  lc_MaxAgeDays :: goint
  lc_Compress :: bool

record SessionsConfig =
  ssc_CleanupInterval :: duration
  ssc_CleanupRetention :: duration

record CORSConfig =
  cc_AllowedOrigins :: "string list"
  cc_AllowedMethods :: "string list"
  cc_AllowedHeaders :: "string list"
  cc_ExposedHeaders :: "string list"
  cc_AllowCredentials :: bool
  cc_MaxAge :: duration

record BootstrapConfig =
  bc_AdminUsername :: string
  bc_AdminEmail :: string
  bc_AdminPassword :: string

record MigrationsConfig =
  mgc_Dir :: string
  mgc_AutoRun :: bool

record JobsConfig =
  jbc_Enabled :: bool
  jbc_WorkerPoolSize :: goint
  jbc_QueueSize :: goint
  jbc_Timezone :: string

record Config =
  cfg_App :: AppConfig
  cfg_Server :: ServerConfig
  cfg_DB :: DBConfig
  cfg_Log :: LogConfig
  cfg_JWT :: JWTConfig
  cfg_Sessions :: SessionsConfig
  cfg_CORS :: CORSConfig
  cfg_RateLimit :: RateLimitConfig
  cfg_Idem :: IdempotencyConfig
  cfg_Audit :: AuditConfig
  cfg_Storage :: StorageConfig
  cfg_Mail :: MailConfig
  cfg_Bootstrap :: BootstrapConfig
  cfg_Migrations :: MigrationsConfig
  cfg_Jobs :: JobsConfig
  cfg_Redis :: RedisConfig
  cfg_Queue :: QueueConfig

definition load_app :: "environment \<Rightarrow> AppConfig" where
  "load_app env = \<lparr>app_Name = getString env ''APP_NAME'' ''gin-template'', app_Env = getString env ''APP_ENV'' ''dev''\<rparr>"

definition load_server :: "environment \<Rightarrow> ServerConfig" where
  "load_server env =
     \<lparr>srv_Port = getString env ''SERVER_PORT'' ''8080'',
      srv_ReadTimeout = getDuration env ''SERVER_READ_TIMEOUT'' (15 * second),
      srv_WriteTimeout = getDuration env ''SERVER_WRITE_TIMEOUT'' (15 * second),
      srv_ShutdownTimeout = getDuration env ''SERVER_SHUTDOWN_TIMEOUT'' (30 * second)\<rparr>"

definition load_db :: "environment \<Rightarrow> DBConfig" where
  "load_db env =
     \<lparr>dbc_Driver = getString env ''DB_DRIVER'' ''postgres'', dbc_Host = getString env ''DB_HOST'' ''localhost'',
      dbc_Port = getString env ''DB_PORT'' ''5432'', dbc_User = getString env ''DB_USER'' ''postgres'',
      dbc_Password = getString env ''DB_PASSWORD'' ''postgres'', dbc_Name = getString env ''DB_NAME'' ''gin_template'',
      dbc_SSLMode = getString env ''DB_SSLMODE'' ''disable'', dbc_TimeZone = getString env ''DB_TIMEZONE'' ''UTC'',
      dbc_MaxOpenConns = getInt env ''DB_POOL_MAX_OPEN'' 20, dbc_MaxIdleConns = getInt env ''DB_POOL_MAX_IDLE'' 5,
      dbc_ConnMaxLifetime = getDuration env ''DB_POOL_CONN_MAX_LIFETIME'' hour\<rparr>"

definition load_log :: "environment \<Rightarrow> LogConfig" where
  "load_log env =
     \<lparr>lc_Level = getString env ''LOG_LEVEL'' ''info'', lc_Format = getString env ''LOG_FORMAT'' ''console'',
      lc_Dir = getString env ''LOG_DIR'' ''logs'', lc_File = getString env ''LOG_FILE'' ''app.log'',
      lc_MaxSizeMB = getInt env ''LOG_MAX_SIZE_MB'' 100, lc_MaxBackups = getInt env ''LOG_MAX_BACKUPS'' 7,
      lc_MaxAgeDays = getInt env ''LOG_MAX_AGE_DAYS'' 2, lc_Compress = getBool env ''LOG_COMPRESS'' True\<rparr>"

definition load_jwt :: "environment \<Rightarrow> JWTConfig" where
  "load_jwt env =
     \<lparr>jc_Secret = getString env ''JWT_SECRET'' ''change-me-in-prod'', jc_Issuer = getString env ''JWT_ISSUER'' ''gin-template'',
      jc_AccessTTL = getDuration env ''JWT_ACCESS_TTL'' (60 * minute),
      jc_RefreshTTL = getDuration env ''JWT_REFRESH_TTL'' (14 * 24 * hour)\<rparr>"

definition load_sessions :: "environment \<Rightarrow> SessionsConfig" where
  "load_sessions env =
     \<lparr>ssc_CleanupInterval = getDuration env ''SESSIONS_CLEANUP_INTERVAL'' hour,
      ssc_CleanupRetention = getDuration env ''SESSIONS_CLEANUP_RETENTION'' (7 * 24 * hour)\<rparr>"

text \<open>The product of the configured seconds with \<open>time.Second\<close> is a 64-bit one.\<close>

definition load_cors :: "environment \<Rightarrow> CORSConfig" where
  "load_cors env =
     \<lparr>cc_AllowedOrigins = getCSV env ''CORS_ALLOWED_ORIGINS'' [''http://localhost:*'', ''http://127.0.0.1:*''],
      cc_AllowedMethods = getCSV env ''CORS_ALLOWED_METHODS'' [''GET'', ''POST'', ''PUT'', ''PATCH'', ''DELETE'', ''OPTIONS''],
      cc_AllowedHeaders = getCSV env ''CORS_ALLOWED_HEADERS'' [''*''],
      cc_ExposedHeaders = getCSV env ''CORS_EXPOSED_HEADERS''
        [''Authorization'', ''X-Request-Id'', ''X-RateLimit-Limit'', ''X-RateLimit-Remaining'', ''Retry-After''],
      cc_AllowCredentials = getBool env ''CORS_ALLOW_CREDENTIALS'' True,
      cc_MaxAge = sint (getInt env ''CORS_MAX_AGE'' 3600 * 1000000000)\<rparr>"

definition load_ratelimit :: "environment \<Rightarrow> RateLimitConfig" where
  "load_ratelimit env =
     \<lparr>rl_Enabled = getBool env ''RATE_LIMIT_ENABLED'' True, rl_Capacity = getInt env ''RATE_LIMIT_CAPACITY'' 60,
      rl_RefillTokens = getInt env ''RATE_LIMIT_REFILL_TOKENS'' 60,
      rl_RefillPeriod = getDuration env ''RATE_LIMIT_REFILL_PERIOD'' minute,
      rl_AuthCapacity = getInt env ''RATE_LIMIT_AUTH_CAPACITY'' 10,
      rl_AuthRefillTokens = getInt env ''RATE_LIMIT_AUTH_REFILL_TOKENS'' 10,
      rl_AuthRefillPeriod = getDuration env ''RATE_LIMIT_AUTH_REFILL_PERIOD'' minute,
      rl_AuthPathPrefixes = getCSV env ''RATE_LIMIT_AUTH_PATH_PREFIXES'' [''/api/v1/auth/''],
      rl_IncludePrefixes = getCSV env ''RATE_LIMIT_INCLUDE_PATH_PREFIXES'' [''/api/'']\<rparr>"

definition load_idem :: "environment \<Rightarrow> IdempotencyConfig" where
  "load_idem env =
     \<lparr>ic_Enabled = getBool env ''IDEMPOTENCY_ENABLED'' True, ic_TTL = getDuration env ''IDEMPOTENCY_TTL'' (24 * hour),
      ic_CleanupInterval = getDuration env ''IDEMPOTENCY_CLEANUP_INTERVAL'' hour\<rparr>"

definition load_audit :: "environment \<Rightarrow> AuditConfig" where
  "load_audit env =
     \<lparr>ac_Enabled = getBool env ''AUDIT_ENABLED'' True, ac_ExposeAPI = getBool env ''AUDIT_EXPOSE_API'' True,
      ac_AuditAll = getBool env ''AUDIT_AUDIT_ALL'' True,
      ac_CaptureRequestBody = getBool env ''AUDIT_CAPTURE_REQUEST_BODY'' True,
      ac_CaptureResponseBody = getBool env ''AUDIT_CAPTURE_RESPONSE_BODY'' True,
      ac_MaxBodyLength = getInt env ''AUDIT_MAX_BODY_LENGTH'' 10000,
      ac_IncludePrefixes = getCSV env ''AUDIT_INCLUDE_PATH_PREFIXES'' [''/api/''],
      ac_ExcludePatterns = getCSV env ''AUDIT_EXCLUDE_PATH_PATTERNS'' [''/swagger'', ''/api/v1/files/''],
      ac_MaskedFields = getCSV env ''AUDIT_MASKED_FIELDS''
        [''password'', ''passwordHash'', ''currentPassword'', ''newPassword'', ''token'', ''accessToken'', ''refreshToken'',
         ''secret'', ''apiKey'', ''authorization'']\<rparr>"

definition load_storage :: "environment \<Rightarrow> StorageConfig" where
  "load_storage env =
     \<lparr>sc_BasePath = getString env ''STORAGE_BASE_PATH'' ''uploads'',
      sc_MaxUploadSize = getInt env ''STORAGE_MAX_UPLOAD_SIZE'' (10 * 1024 * 1024)\<rparr>"

definition load_mail :: "environment \<Rightarrow> MailConfig" where
  "load_mail env =
     \<lparr>mc_Enabled = getBool env ''MAIL_ENABLED'' False, mc_Host = getString env ''MAIL_HOST'' ''smtp.example.com'',
      mc_Port = getInt env ''MAIL_PORT'' 587, mc_Username = getString env ''MAIL_USERNAME'' '''',
      mc_Password = getString env ''MAIL_PASSWORD'' '''', mc_TLS = getBool env ''MAIL_TLS'' True,
      mc_From = getString env ''MAIL_FROM'' ''no-reply@example.com'', mc_FromName = getString env ''MAIL_FROM_NAME'' ''Gin Template'',
      mc_AppURL = getString env ''MAIL_APP_URL'' ''http://localhost:8080'',
      mc_PasswordResetTTL = getDuration env ''MAIL_PASSWORD_RESET_TTL'' (30 * minute),
      mc_PasswordResetCleanupInterval = getDuration env ''MAIL_PASSWORD_RESET_CLEANUP_INTERVAL'' hour\<rparr>"

definition load_bootstrap :: "environment \<Rightarrow> BootstrapConfig" where
  "load_bootstrap env =
     \<lparr>bc_AdminUsername = getString env ''BOOTSTRAP_ADMIN_USERNAME'' ''admin'',
      bc_AdminEmail = getString env ''BOOTSTRAP_ADMIN_EMAIL'' ''admin@gmail.com'',
      bc_AdminPassword = getString env ''BOOTSTRAP_ADMIN_PASSWORD'' ''admin123''\<rparr>"

definition load_migrations :: "environment \<Rightarrow> MigrationsConfig" where
  "load_migrations env =
     \<lparr>mgc_Dir = getString env ''MIGRATIONS_DIR'' ''migrations'', mgc_AutoRun = getBool env ''MIGRATIONS_AUTO_RUN'' True\<rparr>"

definition load_jobs :: "environment \<Rightarrow> JobsConfig" where
  "load_jobs env =
     \<lparr>jbc_Enabled = getBool env ''JOBS_ENABLED'' True, jbc_WorkerPoolSize = getInt env ''JOBS_WORKER_POOL_SIZE'' 8,
      jbc_QueueSize = getInt env ''JOBS_QUEUE_SIZE'' 1024, jbc_Timezone = getString env ''JOBS_TIMEZONE'' ''UTC''\<rparr>"

definition load_redis :: "environment \<Rightarrow> RedisConfig" where
  "load_redis env =
     \<lparr>rc_Addr = getString env ''REDIS_ADDR'' ''localhost:6379'', rc_Password = getString env ''REDIS_PASSWORD'' '''',
      rc_DB = getInt env ''REDIS_DB'' 0\<rparr>"

definition load_queue :: "environment \<Rightarrow> QueueConfig" where
  "load_queue env =
     \<lparr>qc_Enabled = getBool env ''QUEUE_ENABLED'' False, qc_Concurrency = getInt env ''QUEUE_CONCURRENCY'' 10,
      qc_Queues = parseQueueWeights (getString env ''QUEUE_PRIORITIES'' ''critical=6,default=3,low=1'')\<rparr>"

definition Load :: "environment \<Rightarrow> go_error + Config" where
  "Load env =
     (let cfg = \<lparr>cfg_App = load_app env, cfg_Server = load_server env, cfg_DB = load_db env, cfg_Log = load_log env,
                 cfg_JWT = load_jwt env, cfg_Sessions = load_sessions env, cfg_CORS = load_cors env,
                 cfg_RateLimit = load_ratelimit env, cfg_Idem = load_idem env, cfg_Audit = load_audit env,
                 cfg_Storage = load_storage env, cfg_Mail = load_mail env, cfg_Bootstrap = load_bootstrap env,
                 cfg_Migrations = load_migrations env, cfg_Jobs = load_jobs env, cfg_Redis = load_redis env,
                 cfg_Queue = load_queue env\<rparr>
      in if jc_Secret (cfg_JWT cfg) = '''' then Inl (PlainError ''JWT_SECRET is required'')
         else if app_Env (cfg_App cfg) = ''prod'' \<and> HasPrefix (jc_Secret (cfg_JWT cfg)) ''change-me''
              then Inl (PlainError ''JWT_SECRET must be overridden in prod'')
         else Inr cfg)"

section \<open>What the readers promise\<close>

lemma getWith_simps [simp]:
  "env key = None \<Longrightarrow> getWith parse env key def = def"
  "env key = Some '''' \<Longrightarrow> getWith parse env key def = def"
  "env key = Some v \<Longrightarrow> v \<noteq> '''' \<Longrightarrow> getWith parse env key def = (case parse v of None \<Rightarrow> def | Some x \<Rightarrow> x)"
  by (simp_all add: getWith_def)

lemma getString_nonempty: "def \<noteq> '''' \<Longrightarrow> getString env key def \<noteq> ''''"
  by (simp add: getString_def split: option.split)

text \<open>A list of trimmed, non-empty entries; \<open>getCSV\<close> returns one whenever its default is one.\<close>

definition csv_ok :: "string list \<Rightarrow> bool" where
  "csv_ok ps = (ps \<noteq> [] \<and> list_all (\<lambda>p. p \<noteq> '''' \<and> TrimSpace p = p) ps)"

lemma getCSV_ok: "csv_ok def \<Longrightarrow> csv_ok (getCSV env key def)"
  by (auto simp: getCSV_def csv_ok_def Let_def list_all_iff split: option.split)

lemma getCSV_default:
  "csv_ok [''http://localhost:*'', ''http://127.0.0.1:*'']"
  "csv_ok [''GET'', ''POST'', ''PUT'', ''PATCH'', ''DELETE'', ''OPTIONS'']"
  "csv_ok [''*'']" "csv_ok [''/api/'']" "csv_ok [''/api/v1/auth/'']" "csv_ok [''/swagger'', ''/api/v1/files/'']"
  "csv_ok [''Authorization'', ''X-Request-Id'', ''X-RateLimit-Limit'', ''X-RateLimit-Remaining'', ''Retry-After'']"
  "csv_ok [''password'', ''passwordHash'', ''currentPassword'', ''newPassword'', ''token'', ''accessToken'', ''refreshToken'',
     ''secret'', ''apiKey'', ''authorization'']"
  by (simp_all add: csv_ok_def TrimSpace_def is_space_def)

lemma IndexByte_split: "c \<notin> set k \<Longrightarrow> IndexByte (k @ c # v) c = int (length k)"
  by (induction k) auto

lemma queue_weights_step:
  "queue_weights (p # ps) m = queue_weights ps m \<or>
   (\<exists>name w. 0 < sint w \<and> queue_weights (p # ps) m = queue_weights ps (m(name \<mapsto> w)))"
proof -
  let ?p = "TrimSpace p"
  let ?i = "IndexByte ?p (CHR ''='')"
  let ?n = "Atoi (TrimSpace (drop (nat ?i + 1) ?p))"
  show ?thesis
    by (cases "?p = ''''"; cases "?i \<le> 0"; cases ?n) (auto simp: Let_def not_le simp del: fun_upd_apply)
qed

lemma queue_weights_positive:
  "\<forall>w \<in> ran m. 0 < sint w \<Longrightarrow> \<forall>w \<in> ran (queue_weights ps m). 0 < sint w"
proof (induction ps arbitrary: m)
  case (Cons p ps)
  from queue_weights_step [of p ps m] show ?case
  proof (elim disjE exE conjE)
    assume "queue_weights (p # ps) m = queue_weights ps m"
    with Cons show ?thesis by (simp del: queue_weights.simps)
  next
    fix name w
    assume w: "0 < sint w" and e: "queue_weights (p # ps) m = queue_weights ps (m(name \<mapsto> w))"
    have "\<forall>w \<in> ran (m(name \<mapsto> w)). 0 < sint w" using Cons.prems w by (auto simp: ran_def)
    then show ?thesis unfolding e by (rule Cons.IH)
  qed
qed simp

lemma parseQueueWeights_ok: "dom (parseQueueWeights s) \<noteq> {} \<and> (\<forall>w \<in> ran (parseQueueWeights s). 0 < sint w)"
  using queue_weights_positive [of Map.empty "Split (CHR '','') s"] by (auto simp: parseQueueWeights_def Let_def ran_def)

section \<open>Round trips\<close>

text \<open>A queue name that the \<open>name=weight\<close> syntax can carry, and the text of a list of weights.\<close>

definition queue_name_ok :: "string \<Rightarrow> bool" where
  "queue_name_ok k = (k \<noteq> '''' \<and> CHR '','' \<notin> set k \<and> CHR ''='' \<notin> set k \<and> \<not> is_space (hd k) \<and> \<not> is_space (last k))"

definition weight_entry :: "string \<times> nat \<Rightarrow> string" where
  "weight_entry kw = fst kw @ ''='' @ decimal (snd kw)"

lemma decimal_no:
  "\<not> is_digit c \<Longrightarrow> c \<notin> set (decimal n)" "\<not> is_space (hd (decimal n))" "\<not> is_space (last (decimal n))"
proof -
  have d: "decimal n \<noteq> []" "\<And>x. x \<in> set (decimal n) \<Longrightarrow> is_digit x"
    using decimal_digits [of n] by (auto simp: list_all_iff)
  show "\<not> is_digit c \<Longrightarrow> c \<notin> set (decimal n)" using d(2) by blast
  have "is_digit x \<Longrightarrow> \<not> is_space x" for x by (auto simp: is_digit_def is_space_def)
  then show "\<not> is_space (hd (decimal n))" "\<not> is_space (last (decimal n))" using d by simp_all
qed

lemma Atoi_decimal: "n < 2 ^ 63 \<Longrightarrow> Atoi (decimal n) = Some (word_of_int (int n))"
proof -
  assume "n < 2 ^ 63"
  moreover have "hd (decimal n) \<noteq> CHR ''-'' \<and> hd (decimal n) \<noteq> CHR ''+''"
  proof -
    have "is_digit (hd (decimal n))" using decimal_digits [of n] by (cases "decimal n") simp_all
    then show ?thesis by (auto simp: is_digit_def)
  qed
  then have "take 1 (decimal n) \<noteq> ''-''" "take 1 (decimal n) \<noteq> ''+''" by (cases "decimal n"; simp)+
  ultimately show ?thesis
    using decimal_digits [of n] by (simp add: Atoi_def decimal_val_decimal)
qed

lemma queue_weights_entry:
  assumes "queue_name_ok k" "0 < n" "n < 2 ^ 63"
  shows "queue_weights (weight_entry (k, n) # ps) m = queue_weights ps (m(k \<mapsto> word_of_int (int n)))"
proof -
  let ?e = "weight_entry (k, n)"
  have t: "TrimSpace ?e = ?e" "TrimSpace k = k" "TrimSpace (decimal n) = decimal n"
    using assms(1) decimal_no(2,3) [of n] decimal_digits [of n]
    by (auto intro!: TrimSpace_id simp: queue_name_ok_def weight_entry_def)
  have i: "IndexByte ?e (CHR ''='') = int (length k)"
    using assms(1) by (simp add: weight_entry_def queue_name_ok_def IndexByte_split)
  have e: "?e \<noteq> ''''" "take (length k) ?e = k" "drop (length k + 1) ?e = decimal n" "0 < length k"
    using assms(1) by (auto simp: weight_entry_def queue_name_ok_def)
  have "sint (word_of_int (int n) :: goint) = int n"
    using assms by (intro sint_word_of_int64) simp_all
  moreover have "nat (int (length k) + 1) = length k + 1" by simp
  ultimately show ?thesis
    using e assms(2) by (simp add: t i Atoi_decimal [OF assms(3)] Let_def nat_add_distrib)
qed

lemma queue_weights_entries:
  "\<forall>kw \<in> set kws. queue_name_ok (fst kw) \<and> 0 < snd kw \<and> snd kw < 2 ^ 63 \<Longrightarrow>
   queue_weights (map weight_entry kws) m = m ++ map_of (rev (map (\<lambda>kw. (fst kw, word_of_int (int (snd kw)))) kws))"
proof (induction kws arbitrary: m)
  case (Cons kw kws)
  obtain k n where kw: "kw = (k, n)" by (cases kw)
  have "queue_weights (weight_entry (k, n) # map weight_entry kws) m
      = queue_weights (map weight_entry kws) (m(k \<mapsto> word_of_int (int n)))"
    using Cons.prems by (intro queue_weights_entry) (auto simp: kw)
  then show ?case using Cons.IH Cons.prems
    by (simp add: kw del: queue_weights.simps) (simp add: fun_eq_iff map_add_def split: option.split)
qed simp

text \<open>A duration written in hours, minutes and seconds, the form \<open>time.Duration.String\<close> prints.\<close>

definition duration_text :: "nat \<Rightarrow> nat \<Rightarrow> nat \<Rightarrow> string" where
  "duration_text h m s = decimal h @ ''h'' @ decimal m @ ''m'' @ decimal s @ ''s''"

lemma decimal_val_ge: "x \<le> decimal_val x s"
proof (induction s arbitrary: x)
  case (Cons c s)
  show ?case using Cons.IH [of "10 * x + digit_val c"] by simp
qed simp

lemma leadingInt_digits:
  "list_all is_digit ds \<Longrightarrow> decimal_val x ds \<le> 2 ^ 63 \<Longrightarrow> \<not> is_digit c \<Longrightarrow>
   leadingInt x (ds @ c # rest) = Some (decimal_val x ds, c # rest)"
proof (induction ds arbitrary: x)
  case (Cons d ds)
  have le: "10 * x + digit_val d \<le> 2 ^ 63" using Cons.prems(2) decimal_val_ge [of "10 * x + digit_val d" ds] by simp
  then have "\<not> x > 2 ^ 63 div 10" by simp
  with le Cons show ?case by (simp add: Let_def)
qed simp

lemma duration_item_decimal:
  assumes "unit_of [c] = Some un" "\<not> is_digit c" "c \<noteq> CHR ''.''" "0 < un"
    and "n * un \<le> 2 ^ 63" "rest = [] \<or> (\<exists>d rest'. rest = d # rest' \<and> is_digit d)"
  shows "duration_item (decimal n @ c # rest) = Some (n * un, rest)"
proof -
  have "n \<le> n * un" using assms(4) by simp
  then have n: "n \<le> 2 ^ 63" using assms(5) by (rule le_trans)
  have l: "leadingInt 0 (decimal n @ c # rest) = Some (n, c # rest)"
    using leadingInt_digits [of "decimal n" 0 c rest] decimal_digits [of n] assms(2) n by (simp add: decimal_val_decimal)
  have q: "\<not> n > 2 ^ 63 div un" using assms(4,5) by (simp add: less_eq_div_iff_mult_less_eq not_less)
  have t: "takeWhile (\<lambda>c. c \<noteq> CHR ''.'' \<and> \<not> is_digit c) (c # rest) = [c]" using assms(2,3,6) by auto
  have "duration_unit n 0 (Fin 1) (c # rest) = Some (n * un, rest)"
    unfolding duration_unit_def t using assms(1,5) q by (simp add: Let_def)
  then show ?thesis
    unfolding duration_item_def l duration_fraction_def using assms(3) decimal_digits [of n] by (simp add: Let_def)
qed

lemma duration_items_item:
  "duration_item s = Some (v, rest) \<Longrightarrow> s \<noteq> [] \<Longrightarrow> d + v \<le> 2 ^ 63 \<Longrightarrow> duration_items d s = duration_items (d + v) rest"
  by (subst duration_items.simps) simp

text \<open>
  A duration of whole hours, minutes and seconds that fits 64 bits of nanoseconds survives
  being written and read back, and a variable that holds its text yields it whatever the default.
\<close>

theorem config_duration_round_trip:
  assumes "(h * 3600 + m * 60 + s) * 1000000000 < 2 ^ 63"
    and "env key = Some (duration_text h m s)"
  shows "ParseDuration (duration_text h m s) = Some (int (h * 3600 + m * 60 + s) * second)
    \<and> getDuration env key def = int (h * 3600 + m * 60 + s) * second"
proof -
  have hd_dec: "\<exists>d rest'. decimal n @ t = d # rest' \<and> is_digit d" for n t
    using decimal_digits [of n] by (cases "decimal n") auto
  let ?s = "decimal s @ ''s''" and ?m = "decimal m @ CHR ''m'' # decimal s @ ''s''"
  have i1: "duration_item (decimal h @ CHR ''h'' # ?m) = Some (h * 3600000000000, ?m)"
    using assms(1) hd_dec by (intro duration_item_decimal) (auto simp: unit_of_def is_digit_def)
  have i2: "duration_item ?m = Some (m * 60000000000, ?s)"
    using assms(1) hd_dec by (intro duration_item_decimal) (auto simp: unit_of_def is_digit_def)
  have i3: "duration_item ?s = Some (s * 1000000000, [])"
    using assms(1) by (intro duration_item_decimal) (auto simp: unit_of_def is_digit_def)
  have t: "duration_text h m s = decimal h @ CHR ''h'' # ?m" by (simp add: duration_text_def)
  have d: "duration_items 0 (duration_text h m s) = Some (h * 3600000000000 + m * 60000000000 + s * 1000000000)"
    unfolding t using assms(1)
    by (simp add: duration_items_item [OF i1] duration_items_item [OF i2] duration_items_item [OF i3])
      (simp add: duration_items.simps [of _ "[]"])
  obtain c r where c: "duration_text h m s = c # r" "is_digit c" "r \<noteq> []"
    unfolding t using decimal_digits [of h] by (cases "decimal h") auto
  have sign: "take 1 (duration_text h m s) \<noteq> ''-''" "take 1 (duration_text h m s) \<noteq> ''+''"
    using c(1,2) by (auto simp: is_digit_def)
  have p: "ParseDuration (duration_text h m s) = Some (int (h * 3600 + m * 60 + s) * second)"
    using d sign c(1,3) assms(1) by (simp add: ParseDuration_def Let_def algebra_simps)
  then show ?thesis using assms(2) c(1) by (simp add: getDuration_def)
qed

theorem config_duration_round_trip_witness:
  "ParseDuration ''1h30m5s'' = Some (5405 * second) \<and> getDuration [''JWT_ACCESS_TTL'' \<mapsto> ''1h30m5s''] ''JWT_ACCESS_TTL'' 0 = 5405 * second"
proof -
  have "duration_text 1 30 5 = ''1h30m5s''" by code_simp
  then show ?thesis
    using config_duration_round_trip [where h = 1 and m = 30 and s = 5 and key = "''JWT_ACCESS_TTL''" and def = 0
      and env = "[''JWT_ACCESS_TTL'' \<mapsto> ''1h30m5s'']"] by simp
qed

text \<open>
  A list of queue weights survives being written as \<open>name=weight\<close> entries and read back; when a
  name occurs twice the last weight wins.
\<close>

theorem config_queue_weights_round_trip:
  assumes "kws \<noteq> []" and "\<forall>kw \<in> set kws. queue_name_ok (fst kw) \<and> 0 < snd kw \<and> snd kw < 2 ^ 63"
  shows "parseQueueWeights (JoinStr (CHR '','') (map weight_entry kws))
    = map_of (rev (map (\<lambda>kw. (fst kw, word_of_int (int (snd kw)))) kws))"
proof -
  have comma: "CHR '','' \<notin> set (weight_entry kw)" if "kw \<in> set kws" for kw
    using assms(2) that decimal_no(1) [of "CHR '',''" "snd kw"] by (auto simp: weight_entry_def queue_name_ok_def is_digit_def)
  have "Split (CHR '','') (JoinStr (CHR '','') (map weight_entry kws)) = map weight_entry kws"
    using assms(1) comma by (intro Split_JoinStr) auto
  moreover have "map_of (rev (map (\<lambda>kw. (fst kw, word_of_int (int (snd kw)) :: goint)) kws)) \<noteq> Map.empty"
    using assms(1) by (simp add: map_of_eq_empty_iff)
  ultimately show ?thesis
    using queue_weights_entries [OF assms(2), of Map.empty] by (simp add: parseQueueWeights_def Let_def)
qed

theorem config_queue_weights_round_trip_witness:
  "parseQueueWeights ''critical=6,low=1'' = [''critical'' \<mapsto> 6, ''low'' \<mapsto> 1]"
proof -
  have "JoinStr (CHR '','') (map weight_entry [(''critical'', 6), (''low'', 1)]) = ''critical=6,low=1''" by code_simp
  then show ?thesis
    using config_queue_weights_round_trip [of "[(''critical'', 6), (''low'', 1)]"]
    by (simp add: queue_name_ok_def is_space_def fun_upd_twist)
qed

section \<open>Loading\<close>

text \<open>What a loaded configuration always satisfies.\<close>

definition config_ok :: "Config \<Rightarrow> bool" where
  "config_ok cfg =
     (jc_Secret (cfg_JWT cfg) \<noteq> '''' \<and>
      (app_Env (cfg_App cfg) = ''prod'' \<longrightarrow> \<not> HasPrefix (jc_Secret (cfg_JWT cfg)) ''change-me'') \<and>
      list_all csv_ok
        [cc_AllowedOrigins (cfg_CORS cfg), cc_AllowedMethods (cfg_CORS cfg), cc_AllowedHeaders (cfg_CORS cfg),
         cc_ExposedHeaders (cfg_CORS cfg), rl_AuthPathPrefixes (cfg_RateLimit cfg), rl_IncludePrefixes (cfg_RateLimit cfg),
         ac_IncludePrefixes (cfg_Audit cfg), ac_ExcludePatterns (cfg_Audit cfg), ac_MaskedFields (cfg_Audit cfg)] \<and>
      dom (qc_Queues (cfg_Queue cfg)) \<noteq> {} \<and> (\<forall>w \<in> ran (qc_Queues (cfg_Queue cfg)). 0 < sint w))"

text \<open>
  C33: a configuration that loads has a signing secret, in production one that is not the shipped
  default, only non-empty lists of trimmed entries, and at least one queue, each with a positive
  weight, whatever the environment holds.
\<close>

theorem config_Load_valid:
  assumes "Load env = Inr cfg"
  shows "config_ok cfg"
proof -
  have "jc_Secret (cfg_JWT cfg) \<noteq> ''''"
    and "app_Env (cfg_App cfg) = ''prod'' \<longrightarrow> \<not> HasPrefix (jc_Secret (cfg_JWT cfg)) ''change-me''"
    and c: "cfg_CORS cfg = load_cors env" "cfg_RateLimit cfg = load_ratelimit env" "cfg_Audit cfg = load_audit env"
      "cfg_Queue cfg = load_queue env"
    using assms unfolding Load_def Let_def by (auto split: if_split_asm)
  moreover have "dom (qc_Queues (cfg_Queue cfg)) \<noteq> {} \<and> (\<forall>w \<in> ran (qc_Queues (cfg_Queue cfg)). 0 < sint w)"
    unfolding c load_queue_def using parseQueueWeights_ok by simp
  ultimately show ?thesis
    unfolding config_ok_def c by (simp add: load_cors_def load_ratelimit_def load_audit_def getCSV_ok getCSV_default)
qed

theorem config_Load_valid_witness: "\<exists>cfg. Load Map.empty = Inr cfg \<and> config_ok cfg"
proof -
  obtain cfg where "Load Map.empty = Inr cfg"
    by (simp add: Load_def Let_def load_jwt_def load_app_def getString_def)
  then show ?thesis using config_Load_valid by blast
qed

text \<open>
  C34: loading fails in exactly one situation, a production environment whose secret is unset, empty
  or still starts with the shipped prefix; an unparseable value is never an error, and the check
  for a missing secret cannot fire.
\<close>

theorem config_Load_fails_exactly:
  "Load env = Inl e \<longleftrightarrow>
     e = PlainError ''JWT_SECRET must be overridden in prod'' \<and> env ''APP_ENV'' = Some ''prod'' \<and>
     (env ''JWT_SECRET'' = None \<or> env ''JWT_SECRET'' = Some '''' \<or>
      (\<exists>t. env ''JWT_SECRET'' = Some (''change-me'' @ t)))"
proof -
  have s: "getString env ''JWT_SECRET'' ''change-me-in-prod'' \<noteq> ''''" by (rule getString_nonempty) simp
  have p: "getString env ''APP_ENV'' ''dev'' = ''prod'' \<longleftrightarrow> env ''APP_ENV'' = Some ''prod''"
    by (auto simp: getString_def split: option.split)
  have x: "HasPrefix (getString env ''JWT_SECRET'' ''change-me-in-prod'') ''change-me'' \<longleftrightarrow>
      env ''JWT_SECRET'' = None \<or> env ''JWT_SECRET'' = Some '''' \<or> (\<exists>t. env ''JWT_SECRET'' = Some (''change-me'' @ t))"
    by (cases "env ''JWT_SECRET''") (auto simp: getString_def HasPrefix_iff)
  show ?thesis unfolding Load_def Let_def load_jwt_def load_app_def using s p x by auto
qed

end
