(* ===== verification/WorkerPool.thy ===== *)
theory WorkerPool
  imports Prelude
begin

text \<open>
  Package \<open>internal/common/worker\<close>: goroutines that take tasks from a buffered queue.  The pool is
  a state machine whose steps are the atomic channel operations of the source; where a \<open>select\<close>
  has several cases ready, each of them is a step.

  A task is a value of type \<open>'t\<close>; what running it does to the pool is its outcome.
\<close>

section \<open>State\<close>

datatype task_outcome = TaskNil | TaskError string | TaskPanic string

datatype pool_log =
    PoolStarted nat nat
  | TaskFailed string
  | TaskPanicked string

datatype 't pool_worker = Idle | Busy 't | Gone

text \<open>
  \<open>wp_checked\<close> holds the tasks whose \<open>Submit\<close> has passed its first \<open>select\<close>: the pool may be
  stopped before they reach the second one.
\<close>

record 't Pool =
  wp_size :: nat
  wp_cap :: nat
  wp_queue :: "'t list"
  wp_cancelled :: bool
  wp_started :: bool
  wp_stopping :: bool
  wp_workers :: "'t pool_worker list"
  wp_checked :: "'t list"
  wp_logs :: "pool_log list"

definition NewPool :: "goint \<Rightarrow> goint \<Rightarrow> 't Pool" where
  "NewPool sz queueSize =
     (let sz = (if sint sz \<le> 0 then 4 else sz);
          queueSize = (if sint queueSize < 0 then 0 else queueSize)
      in \<lparr>wp_size = nat (sint sz), wp_cap = nat (sint queueSize), wp_queue = [], wp_cancelled = False,
          wp_started = False, wp_stopping = False, wp_workers = [], wp_checked = [], wp_logs = []\<rparr>)"

definition pool_Start :: "'t Pool \<Rightarrow> 't Pool" where
  "pool_Start p =
     (if wp_started p then p
      else p\<lparr>wp_started := True, wp_workers := wp_workers p @ replicate (wp_size p) Idle,
             wp_logs := wp_logs p @ [PoolStarted (wp_size p) (wp_cap p)]\<rparr>)"

section \<open>Channel operations\<close>

text \<open>
  A send on the queue: into the buffer, or, when the buffer is full, to worker \<open>i\<close> waiting on the
  empty queue; \<open>None\<close> when neither is possible.
\<close>

definition chan_send :: "nat option \<Rightarrow> 't \<Rightarrow> 't Pool \<Rightarrow> 't Pool option" where
  "chan_send receiver t p =
     (if length (wp_queue p) < wp_cap p then Some (p\<lparr>wp_queue := wp_queue p @ [t]\<rparr>)
      else case receiver of
             Some i \<Rightarrow> if wp_queue p = [] \<and> i < length (wp_workers p) \<and> wp_workers p ! i = Idle
                       then Some (p\<lparr>wp_workers := (wp_workers p)[i := Busy t]\<rparr>) else None
           | None \<Rightarrow> None)"

text \<open>\<open>Submit\<close>: the first \<open>select\<close> refuses on a cancelled pool, the second one sends or refuses.\<close>

definition Submit_check :: "'t \<Rightarrow> 't Pool \<Rightarrow> bool option \<times> 't Pool" where
  "Submit_check t p = (if wp_cancelled p then (Some False, p) else (None, p\<lparr>wp_checked := wp_checked p @ [t]\<rparr>))"

definition Submit_send :: "nat option \<Rightarrow> 't \<Rightarrow> 't Pool \<Rightarrow> bool \<times> 't Pool" where
  "Submit_send receiver t p =
     (let p = p\<lparr>wp_checked := remove1 t (wp_checked p)\<rparr>
      in case chan_send receiver t p of Some p \<Rightarrow> (True, p) | None \<Rightarrow> (False, p))"

text \<open>
  \<open>SubmitBlocking\<close> has three cases, of which any that is ready may be taken; \<open>ctx\<close> is the error of
  the caller's context once it is done.
\<close>

datatype blocking_case = CaseQueue | CaseCtx | CasePool

datatype blocking_result = BlockNil | BlockCtx string | ErrPoolStopped

definition SubmitBlocking ::
  "blocking_case \<Rightarrow> nat option \<Rightarrow> string option \<Rightarrow> 't \<Rightarrow> 't Pool \<Rightarrow> (blocking_result \<times> 't Pool) option" where
  "SubmitBlocking pick receiver ctx t p =
     (case pick of
        CaseQueue \<Rightarrow> map_option (\<lambda>p. (BlockNil, p)) (chan_send receiver t p)
      | CaseCtx \<Rightarrow> map_option (\<lambda>err. (BlockCtx err, p)) ctx
      | CasePool \<Rightarrow> if wp_cancelled p then Some (ErrPoolStopped, p) else None)"

text \<open>\<open>Stop\<close> cancels once; the call waits until every worker is gone or its context is done.\<close>

definition pool_Stop :: "'t Pool \<Rightarrow> 't Pool" where
  "pool_Stop p = (if wp_stopping p then p else p\<lparr>wp_stopping := True, wp_cancelled := True\<rparr>)"

definition Stop_returns :: "bool \<Rightarrow> 't Pool \<Rightarrow> bool" where
  "Stop_returns ctx_done p = (list_all (\<lambda>w. w = Gone) (wp_workers p) \<or> ctx_done)"

text \<open>
  One turn of worker \<open>i\<close>: \<open>worker_exit\<close> and \<open>worker_take\<close> are the two cases of its \<open>select\<close>,
  \<open>pool_run\<close> is the end of the task, after which the loop continues whatever the outcome.
\<close>

definition worker_exit :: "nat \<Rightarrow> 't Pool \<Rightarrow> 't Pool option" where
  "worker_exit i p =
     (if i < length (wp_workers p) \<and> wp_workers p ! i = Idle \<and> wp_cancelled p
      then Some (p\<lparr>wp_workers := (wp_workers p)[i := Gone]\<rparr>) else None)"

definition worker_take :: "nat \<Rightarrow> 't Pool \<Rightarrow> 't Pool option" where
  "worker_take i p =
     (if i < length (wp_workers p) \<and> wp_workers p ! i = Idle
      then case wp_queue p of
             t # ts \<Rightarrow> Some (p\<lparr>wp_queue := ts, wp_workers := (wp_workers p)[i := Busy t]\<rparr>)
           | [] \<Rightarrow> None
      else None)"

definition pool_run :: "nat \<Rightarrow> task_outcome \<Rightarrow> 't Pool \<Rightarrow> 't Pool option" where
  "pool_run i outcome p =
     (if i < length (wp_workers p)
      then case wp_workers p ! i of
             Busy t \<Rightarrow> Some (p\<lparr>wp_workers := (wp_workers p)[i := Idle],
                              wp_logs := wp_logs p @ (case outcome of
                                                       TaskNil \<Rightarrow> [] | TaskError e \<Rightarrow> [TaskFailed e] | TaskPanic v \<Rightarrow> [TaskPanicked v])\<rparr>)
           | _ \<Rightarrow> None
      else None)"

section \<open>The pool as a state machine\<close>

text \<open>What a step did: a task accepted or refused, a task begun by a worker, anything else.\<close>

datatype 't pool_event = TaskAccepted 't | TaskRefused 't | TaskBegun 't | TaskHanded 't | PoolInternal

inductive pool_step :: "'t Pool \<Rightarrow> 't pool_event \<Rightarrow> 't Pool \<Rightarrow> bool" where
  start: "pool_step p PoolInternal (pool_Start p)"
| submit_check: "Submit_check t p = (None, p') \<Longrightarrow> pool_step p PoolInternal p'"
| submit_stopped: "Submit_check t p = (Some r, p') \<Longrightarrow> pool_step p (TaskRefused t) p'"
| submit_queued: "t \<in> set (wp_checked p) \<Longrightarrow> Submit_send rcv t p = (True, p') \<Longrightarrow> wp_queue p' = wp_queue p @ [t]
    \<Longrightarrow> pool_step p (TaskAccepted t) p'"
| submit_handed: "t \<in> set (wp_checked p) \<Longrightarrow> Submit_send rcv t p = (True, p') \<Longrightarrow> wp_queue p' = wp_queue p
    \<Longrightarrow> pool_step p (TaskHanded t) p'"
| submit_full: "t \<in> set (wp_checked p) \<Longrightarrow> Submit_send rcv t p = (False, p') \<Longrightarrow> pool_step p (TaskRefused t) p'"
| blocking_queued: "SubmitBlocking pick rcv ctx t p = Some (BlockNil, p') \<Longrightarrow> wp_queue p' = wp_queue p @ [t]
    \<Longrightarrow> pool_step p (TaskAccepted t) p'"
| blocking_handed: "SubmitBlocking pick rcv ctx t p = Some (BlockNil, p') \<Longrightarrow> wp_queue p' = wp_queue p
    \<Longrightarrow> pool_step p (TaskHanded t) p'"
| blocking_failed: "SubmitBlocking pick rcv ctx t p = Some (r, p') \<Longrightarrow> r \<noteq> BlockNil \<Longrightarrow> pool_step p (TaskRefused t) p'"
| stop: "pool_step p PoolInternal (pool_Stop p)"
| exit: "worker_exit i p = Some p' \<Longrightarrow> pool_step p PoolInternal p'"
| take_task: "worker_take i p = Some p' \<Longrightarrow> wp_queue p = t # wp_queue p' \<Longrightarrow> pool_step p (TaskBegun t) p'"
| finish: "pool_run i outcome p = Some p' \<Longrightarrow> pool_step p PoolInternal p'"

inductive pool_run_from :: "'t Pool \<Rightarrow> 't pool_event list \<Rightarrow> 't Pool \<Rightarrow> bool" for p0 where
  run_start: "pool_run_from p0 [] p0"
| run_more: "pool_run_from p0 evs p \<Longrightarrow> pool_step p ev p' \<Longrightarrow> pool_run_from p0 (evs @ [ev]) p'"

inductive_cases pool_stepE: "pool_step p ev p'"

fun accepted_task :: "'t pool_event \<Rightarrow> 't list" where
  "accepted_task (TaskAccepted t) = [t]"
| "accepted_task (TaskHanded t) = [t]"
| "accepted_task _ = []"

fun begun_task :: "'t pool_event \<Rightarrow> 't list" where
  "begun_task (TaskBegun t) = [t]"
| "begun_task (TaskHanded t) = [t]"
| "begun_task _ = []"

text \<open>The number of workers is zero before \<open>Start\<close> and the configured one after it.\<close>

definition pool_ok :: "'t Pool \<Rightarrow> bool" where
  "pool_ok p = (length (wp_queue p) \<le> wp_cap p
      \<and> length (wp_workers p) = (if wp_started p then wp_size p else 0)
      \<and> (wp_stopping p \<longrightarrow> wp_cancelled p) \<and> (\<not> wp_cancelled p \<longrightarrow> list_all (\<lambda>w. w \<noteq> Gone) (wp_workers p)))"

lemmas pool_op_defs = Submit_check_def Submit_send_def SubmitBlocking_def chan_send_def worker_exit_def worker_take_def
  pool_run_def pool_Start_def pool_Stop_def

lemma list_all_update:
  assumes "list_all P xs" "P x"
  shows "list_all P (xs[i := x])"
proof -
  have "set (xs[i := x]) \<subseteq> insert x (set xs)" by (rule set_update_subset_insert)
  then show ?thesis using assms by (auto simp: list_all_iff)
qed

lemma pool_ok_other [simp]:
  "pool_ok (p\<lparr>wp_checked := c\<rparr>) = pool_ok p" "pool_ok (p\<lparr>wp_logs := l\<rparr>) = pool_ok p"
  by (simp_all add: pool_ok_def)

lemma pool_ok_worker: "pool_ok p \<Longrightarrow> w \<noteq> Gone \<or> wp_cancelled p \<Longrightarrow> pool_ok (p\<lparr>wp_workers := (wp_workers p)[i := w]\<rparr>)"
  by (auto simp: pool_ok_def intro: list_all_update)

lemma pool_ok_queue: "pool_ok p \<Longrightarrow> length q \<le> wp_cap p \<Longrightarrow> pool_ok (p\<lparr>wp_queue := q\<rparr>)"
  by (simp add: pool_ok_def)

lemma chan_send_ok: "chan_send rcv t p = Some p' \<Longrightarrow> pool_ok p \<Longrightarrow> pool_ok p'"
  using pool_ok_queue [of p "wp_queue p @ [t]"] pool_ok_worker [of p "Busy t"]
  by (cases rcv) (simp_all add: chan_send_def split: if_split_asm, blast+)

lemma Submit_send_ok: "Submit_send rcv t p = (r, p') \<Longrightarrow> pool_ok p \<Longrightarrow> pool_ok p'"
  using chan_send_ok [of rcv t "p\<lparr>wp_checked := remove1 t (wp_checked p)\<rparr>"]
  by (cases "chan_send rcv t (p\<lparr>wp_checked := remove1 t (wp_checked p)\<rparr>)") (auto simp: Submit_send_def Let_def)

lemma SubmitBlocking_ok: "SubmitBlocking pick rcv ctx t p = Some (r, p') \<Longrightarrow> pool_ok p \<Longrightarrow> pool_ok p'"
  using chan_send_ok [of rcv t p] by (cases pick) (auto simp: SubmitBlocking_def split: if_split_asm)

lemma worker_ok:
  "worker_exit i p = Some p' \<Longrightarrow> pool_ok p \<Longrightarrow> pool_ok p'"
  "worker_take i p = Some p' \<Longrightarrow> pool_ok p \<Longrightarrow> pool_ok p'"
  "pool_run i outcome p = Some p' \<Longrightarrow> pool_ok p \<Longrightarrow> pool_ok p'"
proof -
  show "worker_exit i p = Some p' \<Longrightarrow> pool_ok p \<Longrightarrow> pool_ok p'"
    using pool_ok_worker [of p Gone i] by (auto simp: worker_exit_def split: if_split_asm)
  have q: "pool_ok p \<Longrightarrow> wp_queue p = t # ts \<Longrightarrow> pool_ok (p\<lparr>wp_queue := ts, wp_workers := (wp_workers p)[i := Busy t]\<rparr>)" for t ts
    using pool_ok_queue [of "p\<lparr>wp_workers := (wp_workers p)[i := Busy t]\<rparr>" ts] pool_ok_worker [of p "Busy t" i]
    by (simp add: pool_ok_def)
  then show "worker_take i p = Some p' \<Longrightarrow> pool_ok p \<Longrightarrow> pool_ok p'"
    by (cases "wp_queue p") (auto simp: worker_take_def split: if_split_asm)
  show "pool_run i outcome p = Some p' \<Longrightarrow> pool_ok p \<Longrightarrow> pool_ok p'"
    using pool_ok_worker [of p Idle i] by (auto simp: pool_run_def split: if_split_asm pool_worker.split_asm)
qed

lemma pool_step_ok: "pool_step p ev p' \<Longrightarrow> pool_ok p \<Longrightarrow> pool_ok p'"
proof (induction rule: pool_step.induct)
  case (start p)
  then show ?case by (auto simp: pool_Start_def pool_ok_def list_all_iff)
next
  case (stop p)
  then show ?case by (auto simp: pool_Stop_def pool_ok_def)
qed (auto simp: Submit_check_def split: if_split_asm intro: Submit_send_ok SubmitBlocking_ok worker_ok)

lemma chan_send_queue:
  "chan_send rcv t p = Some p' \<Longrightarrow> wp_queue p' = wp_queue p @ [t] \<or> wp_queue p = [] \<and> wp_queue p' = []"
  by (auto simp: chan_send_def split: if_splits option.splits)

lemma Submit_send_queue:
  "Submit_send rcv t p = (r, p') \<Longrightarrow>
     if r then wp_queue p' = wp_queue p @ [t] \<or> wp_queue p = [] \<and> wp_queue p' = [] else wp_queue p' = wp_queue p"
  using chan_send_queue [of rcv t "p\<lparr>wp_checked := remove1 t (wp_checked p)\<rparr>"]
  by (auto simp: Submit_send_def Let_def split: option.splits)

lemma SubmitBlocking_queue:
  "SubmitBlocking pick rcv ctx t p = Some (r, p') \<Longrightarrow>
     if r = BlockNil then wp_queue p' = wp_queue p @ [t] \<or> wp_queue p = [] \<and> wp_queue p' = [] else wp_queue p' = wp_queue p"
  using chan_send_queue [of rcv t p] by (cases pick) (auto simp: SubmitBlocking_def split: if_splits)

text \<open>The queue is first in, first out: what was queued or accepted first begins first.\<close>

lemma pool_step_queue: "pool_step p ev p' \<Longrightarrow> wp_queue p @ accepted_task ev = begun_task ev @ wp_queue p'"
proof (induction rule: pool_step.induct)
  case (submit_handed t p rcv p')
  then show ?case using Submit_send_queue [of rcv t p True p'] by auto
next
  case (submit_full t p rcv p')
  then show ?case using Submit_send_queue [of rcv t p False p'] by auto
next
  case (blocking_handed pick rcv ctx t p p')
  then show ?case using SubmitBlocking_queue [of pick rcv ctx t p BlockNil p'] by auto
next
  case (blocking_failed pick rcv ctx t p r p')
  then show ?case using SubmitBlocking_queue [of pick rcv ctx t p r p'] by auto
qed (auto simp: Submit_check_def worker_exit_def worker_take_def pool_run_def pool_Start_def pool_Stop_def
      split: if_splits list.splits pool_worker.splits)

lemma NewPool_ok: "pool_ok (NewPool sz qs)"
  by (simp add: NewPool_def pool_ok_def Let_def)

lemma NewPool_queue: "wp_queue (NewPool sz qs) = []"
  by (simp add: NewPool_def Let_def)

lemma pool_run_ok: "pool_run_from p0 evs p \<Longrightarrow> pool_ok p0 \<Longrightarrow> pool_ok p"
  by (induction rule: pool_run_from.induct) (auto intro: pool_step_ok)

lemma pool_run_queue:
  "pool_run_from p0 evs p \<Longrightarrow> wp_queue p0 @ concat (map accepted_task evs) = concat (map begun_task evs) @ wp_queue p"
proof (induction rule: pool_run_from.induct)
  case (run_more evs p ev p')
  then show ?case using pool_step_queue [OF run_more(2)] by (metis append.assoc append_Nil2 concat.simps concat_append list.map map_append)
qed simp

section \<open>A stopped pool\<close>

text \<open>Once all workers of a started pool are gone, nothing begins any more.\<close>

definition pool_dead :: "'t Pool \<Rightarrow> bool" where
  "pool_dead p = (wp_started p \<and> list_all (\<lambda>w. w = Gone) (wp_workers p))"

lemma dead_worker: "pool_dead p \<Longrightarrow> i < length (wp_workers p) \<Longrightarrow> wp_workers p ! i = Gone"
  by (simp add: pool_dead_def list_all_length)

lemma chan_send_dead:
  "pool_dead p \<Longrightarrow> chan_send rcv t p = Some p' \<Longrightarrow> pool_dead p' \<and> wp_queue p' = wp_queue p @ [t]"
  using dead_worker [of p] by (auto simp: chan_send_def pool_dead_def split: if_split_asm option.split_asm)

lemma Submit_send_dead:
  assumes "pool_dead p" "Submit_send rcv t p = (r, p')"
  shows "pool_dead p' \<and> (r \<longrightarrow> wp_queue p' = wp_queue p @ [t])"
proof -
  define q where "q = p\<lparr>wp_checked := remove1 t (wp_checked p)\<rparr>"
  have q: "pool_dead q" "wp_queue q = wp_queue p" using assms(1) by (simp_all add: q_def pool_dead_def)
  show ?thesis
  proof (cases "chan_send rcv t q")
    case None
    then show ?thesis using assms(2) q by (simp add: Submit_send_def Let_def flip: q_def)
  next
    case (Some p1)
    then show ?thesis using assms(2) chan_send_dead [OF q(1) Some] q(2) by (simp add: Submit_send_def Let_def flip: q_def)
  qed
qed

lemma SubmitBlocking_dead:
  "pool_dead p \<Longrightarrow> SubmitBlocking pick rcv ctx t p = Some (r, p') \<Longrightarrow>
     pool_dead p' \<and> (r = BlockNil \<longrightarrow> wp_queue p' = wp_queue p @ [t])"
  using chan_send_dead [of p rcv t] by (cases pick) (auto simp: SubmitBlocking_def split: if_split_asm)

lemma pool_step_dead: "pool_step p ev p' \<Longrightarrow> pool_dead p \<Longrightarrow> pool_dead p' \<and> begun_task ev = []"
proof (induction rule: pool_step.induct)
  case (submit_handed t p rcv p')
  then show ?case using Submit_send_dead [of p rcv t True p'] by simp
next
  case (blocking_handed pick rcv ctx t p p')
  then show ?case using SubmitBlocking_dead [of p pick rcv ctx t BlockNil p'] by simp
next
  case (exit i p p')
  then show ?case using dead_worker [of p i] by (simp add: worker_exit_def split: if_split_asm)
next
  case (take_task i p p' t)
  then show ?case using dead_worker [of p i] by (simp add: worker_take_def split: if_split_asm)
next
  case (finish i outcome p p')
  then show ?case using dead_worker [of p i] by (simp add: pool_run_def split: if_split_asm)
next
  case (submit_queued t p rcv p')
  then show ?case using Submit_send_dead [of p rcv t True p'] by simp
next
  case (submit_full t p rcv p')
  then show ?case using Submit_send_dead [of p rcv t False p'] by simp
next
  case (blocking_queued pick rcv ctx t p p')
  then show ?case using SubmitBlocking_dead [of p pick rcv ctx t BlockNil p'] by simp
next
  case (blocking_failed pick rcv ctx t p r p')
  then show ?case using SubmitBlocking_dead [of p pick rcv ctx t r p'] by simp
qed (simp_all add: Submit_check_def pool_Start_def pool_Stop_def pool_dead_def split: if_split_asm, auto)

lemma pool_run_dead: "pool_run_from p evs p' \<Longrightarrow> pool_dead p \<Longrightarrow> pool_dead p' \<and> concat (map begun_task evs) = []"
  by (induction rule: pool_run_from.induct) (auto dest: pool_step_dead)

section \<open>Properties\<close>


text \<open>A run of a pool with one worker: a task is accepted and the pool stopped before it begins.\<close>

definition demo_pool :: "nat Pool" where
  "demo_pool = (NewPool 1 1)\<lparr>wp_started := True, wp_workers := [Idle], wp_logs := [PoolStarted 1 1]\<rparr>"

lemma demo_pool_start: "pool_Start (NewPool 1 1) = demo_pool"
  by (simp add: demo_pool_def pool_Start_def NewPool_def Let_def)

lemma demo_pool_accepts:
  "pool_run_from (NewPool 1 1) [PoolInternal, PoolInternal, TaskAccepted 5] (demo_pool\<lparr>wp_queue := [5]\<rparr>)"
proof -
  have 1: "pool_run_from (NewPool 1 1) [PoolInternal] demo_pool"
    using run_more [OF run_start start, of "NewPool 1 1 :: nat Pool"] by (simp add: demo_pool_start)
  have "pool_step demo_pool PoolInternal (demo_pool\<lparr>wp_checked := [5]\<rparr>)"
    by (rule submit_check [of 5]) (simp add: Submit_check_def demo_pool_def NewPool_def Let_def)
  from run_more [OF 1 this] have 2: "pool_run_from (NewPool 1 1) [PoolInternal, PoolInternal] (demo_pool\<lparr>wp_checked := [5]\<rparr>)"
    by simp
  have "pool_step (demo_pool\<lparr>wp_checked := [5]\<rparr>) (TaskAccepted 5) (demo_pool\<lparr>wp_queue := [5]\<rparr>)"
    by (rule submit_queued [of _ _ None])
       (simp_all add: Submit_send_def chan_send_def demo_pool_def NewPool_def Let_def)
  from run_more [OF 2 this] show ?thesis by simp
qed


text \<open>
  Stopping does not drain the queue: there is a run in which a task has been accepted, \<open>Stop\<close>
  returns because every worker has ended, and the task stays in the queue and is never begun.
\<close>

theorem pool_Stop_abandons_tasks:
  "\<exists>p evs. pool_run_from (NewPool 1 1) evs p \<and> TaskAccepted (5 :: nat) \<in> set evs
         \<and> Stop_returns False p \<and> wp_queue p = [5]
         \<and> \<not> (\<exists>evs' p'. pool_run_from p evs' p' \<and> concat (map begun_task evs') \<noteq> [])"
proof -
  let ?p1 = "demo_pool\<lparr>wp_queue := [5]\<rparr>"
  let ?p2 = "?p1\<lparr>wp_stopping := True, wp_cancelled := True\<rparr>"
  let ?p3 = "?p2\<lparr>wp_workers := [Gone]\<rparr>"
  have "pool_Stop ?p1 = ?p2" by (simp add: pool_Stop_def demo_pool_def NewPool_def Let_def)
  then have r2: "pool_run_from (NewPool 1 1) [PoolInternal, PoolInternal, TaskAccepted 5, PoolInternal] ?p2"
    using run_more [OF demo_pool_accepts stop] by simp
  have "pool_step ?p2 PoolInternal ?p3"
    by (rule exit [of 0]) (simp add: worker_exit_def demo_pool_def)
  then have r3: "pool_run_from (NewPool 1 1) [PoolInternal, PoolInternal, TaskAccepted 5, PoolInternal, PoolInternal] ?p3"
    using run_more [OF r2] by simp
  have "pool_dead ?p3" by (simp add: pool_dead_def demo_pool_def)
  then have "\<not> (\<exists>evs' p'. pool_run_from ?p3 evs' p' \<and> concat (map begun_task evs') \<noteq> [])"
    using pool_run_dead by blast
  then show ?thesis using r3
    by (intro exI [of _ ?p3] exI conjI) (assumption | simp add: Stop_returns_def)+
qed

end
