(* ===== verification/Scheduler.thy ===== *)
theory Scheduler
  imports WorkerPool Errs
begin

text \<open>
  Packages \<open>internal/common/scheduler\<close> and \<open>internal/common/jobs\<close>: recurring and delayed jobs, and
  the process-wide entry point to the scheduler and the worker pool.

  Contexts are numbered: each \<open>Start\<close> makes a new one, \<open>Stop\<close> cancels the current one.  A spawned
  goroutine is kept with the context it was given; when it fires is a function of its start time.
  \<open>check_spec\<close> stands for the parser of the cron library.
\<close>

section \<open>State\<close>

record 'j intervalJob =
  ij_name :: string
  ij_interval :: duration
  ij_fn :: 'j

datatype 'j goroutine = GInterval "'j intervalJob" | GOnce string duration 'j

datatype sched_error = IntervalNotPositive string | InvalidSpec string string go_error

record 'j Scheduler =
  sd_intervals :: "'j intervalJob list"
  sd_crons :: "(string \<times> string \<times> 'j) list"
  sd_started :: bool
  sd_ctx :: nat
  sd_cancelled :: "nat set"
  sd_cron_running :: bool
  sd_spawned :: "('j goroutine \<times> nat) list"

definition sched_New :: "'j Scheduler" where
  "sched_New = \<lparr>sd_intervals = [], sd_crons = [], sd_started = False, sd_ctx = 0, sd_cancelled = {},
                sd_cron_running = False, sd_spawned = []\<rparr>"

definition spawnInterval :: "'j intervalJob \<Rightarrow> 'j Scheduler \<Rightarrow> 'j Scheduler" where
  "spawnInterval j s = s\<lparr>sd_spawned := sd_spawned s @ [(GInterval j, sd_ctx s)]\<rparr>"

section \<open>Operations\<close>

definition sched_Every :: "string \<Rightarrow> duration \<Rightarrow> 'j \<Rightarrow> 'j Scheduler \<Rightarrow> sched_error option \<times> 'j Scheduler" where
  "sched_Every name interval fn s =
     (if interval \<le> 0 then (Some (IntervalNotPositive name), s)
      else let job = \<lparr>ij_name = name, ij_interval = interval, ij_fn = fn\<rparr>;
               s = s\<lparr>sd_intervals := sd_intervals s @ [job]\<rparr>
           in (None, if sd_started s then spawnInterval job s else s))"

definition sched_Cron ::
  "(string \<Rightarrow> go_error option) \<Rightarrow> string \<Rightarrow> string \<Rightarrow> 'j \<Rightarrow> 'j Scheduler \<Rightarrow> sched_error option \<times> 'j Scheduler" where
  "sched_Cron check_spec name spec fn s =
     (case check_spec spec of
        Some err \<Rightarrow> (Some (InvalidSpec name spec err), s)
      | None \<Rightarrow> (None, s\<lparr>sd_crons := sd_crons s @ [(name, spec, fn)]\<rparr>))"

definition sched_Once :: "string \<Rightarrow> duration \<Rightarrow> 'j \<Rightarrow> 'j Scheduler \<Rightarrow> 'j Scheduler" where
  "sched_Once name delay fn s =
     (if \<not> sd_started s
      then s\<lparr>sd_intervals := sd_intervals s @ [\<lparr>ij_name = ''__once:'' @ name, ij_interval = delay, ij_fn = fn\<rparr>]\<rparr>
      else s\<lparr>sd_spawned := sd_spawned s @ [(GOnce name delay fn, sd_ctx s)]\<rparr>)"

definition sched_Start :: "'j Scheduler \<Rightarrow> 'j Scheduler" where
  "sched_Start s =
     (if sd_started s then s
      else let s = s\<lparr>sd_ctx := Suc (sd_ctx s), sd_started := True\<rparr>
           in (fold spawnInterval (sd_intervals s) s)\<lparr>sd_cron_running := True\<rparr>)"

definition sched_Stop :: "'j Scheduler \<Rightarrow> 'j Scheduler" where
  "sched_Stop s =
     (if \<not> sd_started s then s
      else s\<lparr>sd_started := False, sd_cancelled := insert (sd_ctx s) (sd_cancelled s), sd_cron_running := False\<rparr>)"

text \<open>\<open>run\<close>: what is logged of a job; a panic is recovered.\<close>

definition sched_run :: "string \<Rightarrow> task_outcome \<Rightarrow> (string \<times> task_outcome) list \<Rightarrow> (string \<times> task_outcome) list" where
  "sched_run name outcome logs =
     (case outcome of
        TaskNil \<Rightarrow> logs
      | TaskError e \<Rightarrow> logs @ [(name, TaskError e)]
      | TaskPanic v \<Rightarrow> logs @ [(name, TaskPanic v)])"

section \<open>Firing\<close>

text \<open>The delay before the first period: a tenth of the interval, at most five seconds.\<close>

definition jitter :: "duration \<Rightarrow> duration" where
  "jitter interval = (let j = sgn interval * (\<bar>interval\<bar> div 10) in if j > 5 * second then 5 * second else j)"

text \<open>
  The time of the \<open>k\<close>-th run of a goroutine spawned at \<open>t0\<close>, for jobs that return before the next
  period.  \<open>time.NewTicker\<close> panics on an interval that is not positive, outside any recovery.
\<close>

definition ticker_panics :: "'j goroutine \<Rightarrow> bool" where
  "ticker_panics g = (case g of GInterval j \<Rightarrow> ij_interval j \<le> 0 | GOnce _ _ _ \<Rightarrow> False)"

definition fire_time :: "'j goroutine \<Rightarrow> time \<Rightarrow> nat \<Rightarrow> time option" where
  "fire_time g t0 k =
     (case g of
        GInterval j \<Rightarrow>
          if ij_interval j \<le> 0 then None
          else Some (t0 + (if jitter (ij_interval j) > 0 then jitter (ij_interval j) else 0) + (int k + 1) * ij_interval j)
      | GOnce _ delay _ \<Rightarrow> if k = 0 then Some (t0 + max 0 delay) else None)"

section \<open>The jobs facade\<close>

record ('j, 't) jobs_manager =
  jm_Scheduler :: "'j Scheduler option"
  jm_Pool :: "'t Pool option"

datatype jobs_error = ErrNotInstalled | SchedError sched_error

definition jobs_Set :: "('j, 't) jobs_manager option \<Rightarrow> ('j, 't) jobs_manager option \<Rightarrow> ('j, 't) jobs_manager option" where
  "jobs_Set m cur = m"

definition jobs_Get :: "('j, 't) jobs_manager option \<Rightarrow> ('j, 't) jobs_manager option" where
  "jobs_Get cur = cur"

definition jobs_Submit :: "nat option \<Rightarrow> 't \<Rightarrow> ('j, 't) jobs_manager option \<Rightarrow> bool \<times> ('j, 't) jobs_manager option" where
  "jobs_Submit receiver t m =
     (case m of
        None \<Rightarrow> (False, m)
      | Some mgr \<Rightarrow>
          (case jm_Pool mgr of
             None \<Rightarrow> (False, m)
           | Some p \<Rightarrow>
               (case Submit_check t p of
                  (Some r, p) \<Rightarrow> (r, Some (mgr\<lparr>jm_Pool := Some p\<rparr>))
                | (None, p) \<Rightarrow> let (r, p) = Submit_send receiver t p in (r, Some (mgr\<lparr>jm_Pool := Some p\<rparr>)))))"

definition jobs_SubmitBlocking ::
  "blocking_case \<Rightarrow> nat option \<Rightarrow> string option \<Rightarrow> 't \<Rightarrow> ('j, 't) jobs_manager option
     \<Rightarrow> ((jobs_error + blocking_result) \<times> ('j, 't) jobs_manager option) option" where
  "jobs_SubmitBlocking pick receiver ctx t m =
     (case m of
        None \<Rightarrow> Some (Inl ErrNotInstalled, m)
      | Some mgr \<Rightarrow>
          (case jm_Pool mgr of
             None \<Rightarrow> Some (Inl ErrNotInstalled, m)
           | Some p \<Rightarrow> map_option (\<lambda>(r, p). (Inr r, Some (mgr\<lparr>jm_Pool := Some p\<rparr>))) (SubmitBlocking pick receiver ctx t p)))"

definition on_scheduler ::
  "('j Scheduler \<Rightarrow> sched_error option \<times> 'j Scheduler) \<Rightarrow> ('j, 't) jobs_manager option
     \<Rightarrow> jobs_error option \<times> ('j, 't) jobs_manager option" where
  "on_scheduler f m =
     (case m of
        None \<Rightarrow> (Some ErrNotInstalled, m)
      | Some mgr \<Rightarrow>
          (case jm_Scheduler mgr of
             None \<Rightarrow> (Some ErrNotInstalled, m)
           | Some s \<Rightarrow> let (e, s) = f s in (map_option SchedError e, Some (mgr\<lparr>jm_Scheduler := Some s\<rparr>))))"

definition jobs_Every :: "string \<Rightarrow> duration \<Rightarrow> 'j \<Rightarrow> ('j, 't) jobs_manager option \<Rightarrow> jobs_error option \<times> ('j, 't) jobs_manager option" where
  "jobs_Every name interval fn = on_scheduler (sched_Every name interval fn)"

definition jobs_Cron ::
  "(string \<Rightarrow> go_error option) \<Rightarrow> string \<Rightarrow> string \<Rightarrow> 'j \<Rightarrow> ('j, 't) jobs_manager option \<Rightarrow> jobs_error option \<times> ('j, 't) jobs_manager option" where
  "jobs_Cron check_spec name spec fn = on_scheduler (sched_Cron check_spec name spec fn)"

definition jobs_Once :: "string \<Rightarrow> duration \<Rightarrow> 'j \<Rightarrow> ('j, 't) jobs_manager option \<Rightarrow> jobs_error option \<times> ('j, 't) jobs_manager option" where
  "jobs_Once name delay fn = on_scheduler (\<lambda>s. (None, sched_Once name delay fn s))"

text \<open>Before a manager is installed, and with a manager that lacks the part, every helper refuses and changes nothing.\<close>

lemma jobs_not_installed:
  "jobs_Submit receiver t (jobs_Set None cur) = (False, None)"
  "jobs_SubmitBlocking pick receiver ctx t (jobs_Set None cur) = Some (Inl ErrNotInstalled, None)"
  "jobs_Every name interval fn (jobs_Set None cur) = (Some ErrNotInstalled, None)"
  "jobs_Cron check_spec name spec fn (jobs_Set None cur) = (Some ErrNotInstalled, None)"
  "jobs_Once name delay fn (jobs_Set None cur) = (Some ErrNotInstalled, None)"
  by (simp_all add: jobs_Set_def jobs_Submit_def jobs_SubmitBlocking_def jobs_Every_def jobs_Cron_def jobs_Once_def on_scheduler_def)

section \<open>Runs of the scheduler\<close>

datatype 'j sched_op = OpEvery string duration 'j | OpCron string string 'j | OpOnce string duration 'j | OpStart | OpStop

fun sched_apply :: "(string \<Rightarrow> go_error option) \<Rightarrow> 'j sched_op \<Rightarrow> 'j Scheduler \<Rightarrow> 'j Scheduler" where
  "sched_apply cs (OpEvery name interval fn) s = snd (sched_Every name interval fn s)"
| "sched_apply cs (OpCron name spec fn) s = snd (sched_Cron cs name spec fn s)"
| "sched_apply cs (OpOnce name delay fn) s = sched_Once name delay fn s"
| "sched_apply cs OpStart s = sched_Start s"
| "sched_apply cs OpStop s = sched_Stop s"

definition sched_ops :: "(string \<Rightarrow> go_error option) \<Rightarrow> 'j sched_op list \<Rightarrow> 'j Scheduler" where
  "sched_ops cs ops = fold (sched_apply cs) ops sched_New"

text \<open>Contexts before the current one are cancelled, and so is the current one of a stopped scheduler.\<close>

definition sched_ok :: "'j Scheduler \<Rightarrow> bool" where
  "sched_ok s = (list_all (\<lambda>(g, x). x \<in> sd_cancelled s \<or> sd_started s \<and> x = sd_ctx s) (sd_spawned s)
                 \<and> (\<forall>x \<in> sd_cancelled s. x \<le> sd_ctx s) \<and> (sd_started s \<longrightarrow> sd_ctx s \<notin> sd_cancelled s)
                 \<and> (sd_cron_running s \<longrightarrow> sd_started s))"

lemma fold_spawn:
  "fold spawnInterval js s = s\<lparr>sd_spawned := sd_spawned s @ map (\<lambda>j. (GInterval j, sd_ctx s)) js\<rparr>"
  by (induction js arbitrary: s) (simp_all add: spawnInterval_def)

lemma sched_Start_eq:
  "\<not> sd_started s \<Longrightarrow> sched_Start s = s\<lparr>sd_ctx := Suc (sd_ctx s), sd_started := True, sd_cron_running := True,
     sd_spawned := sd_spawned s @ map (\<lambda>j. (GInterval j, Suc (sd_ctx s))) (sd_intervals s)\<rparr>"
  by (simp add: sched_Start_def fold_spawn Let_def)

lemma sched_apply_ok: "sched_ok s \<Longrightarrow> sched_ok (sched_apply cs op s)"
proof (cases op)
  case (OpStart)
  assume ok: "sched_ok s"
  show ?thesis
  proof (cases "sd_started s")
    case False
    have "Suc (sd_ctx s) \<notin> sd_cancelled s" "\<forall>x \<in> sd_cancelled s. x \<le> Suc (sd_ctx s)"
      using ok by (auto simp: sched_ok_def)
    then show ?thesis using ok False OpStart by (auto simp: sched_Start_eq sched_ok_def list_all_iff)
  qed (use ok OpStart in \<open>simp add: sched_Start_def\<close>)
qed (auto simp: sched_Every_def sched_Cron_def sched_Once_def sched_Stop_def spawnInterval_def sched_ok_def list_all_iff Let_def
      split: option.splits)

lemma sched_ops_ok: "sched_ok (sched_ops cs ops)"
proof -
  have "sched_ok s \<Longrightarrow> sched_ok (fold (sched_apply cs) ops s)" for s
    by (induction ops arbitrary: s) (simp_all add: sched_apply_ok)
  then show ?thesis by (simp add: sched_ops_def sched_New_def sched_ok_def)
qed

section \<open>Properties\<close>

fun registered :: "'j sched_op \<Rightarrow> 'j intervalJob list" where
  "registered (OpEvery name interval fn) =
     (if interval > 0 then [\<lparr>ij_name = name, ij_interval = interval, ij_fn = fn\<rparr>] else [])"
| "registered _ = []"

fun is_every :: "'j sched_op \<Rightarrow> bool" where
  "is_every (OpEvery _ _ _) = True"
| "is_every _ = False"

lemma fold_every:
  "list_all is_every ops \<Longrightarrow>
     fold (sched_apply cs) ops s =
       s\<lparr>sd_intervals := sd_intervals s @ concat (map registered ops),
         sd_spawned := sd_spawned s @ (if sd_started s then map (\<lambda>j. (GInterval j, sd_ctx s)) (concat (map registered ops)) else [])\<rparr>"
proof (induction ops arbitrary: s)
  case (Cons op ops)
  then obtain name iv fn where "op = OpEvery name iv fn" by (cases op) auto
  then show ?case using Cons by (simp add: sched_Every_def spawnInterval_def Let_def)
qed simp

text \<open>
  It does not matter whether interval jobs are registered before or after \<open>Start\<close>: either way
  exactly the jobs with a positive interval run, each in one goroutine and in the order of
  registration; the others are refused.
\<close>

theorem sched_Every_around_Start:
  assumes "list_all is_every before" "list_all is_every after"
  shows "map fst (sd_spawned (sched_ops cs (before @ [OpStart] @ after)))
         = map GInterval (concat (map registered (before @ after)))
       \<and> sd_spawned (sched_ops cs (before @ [OpStart] @ after)) = sd_spawned (sched_ops cs (before @ after @ [OpStart]))"
  using assms by (simp add: sched_ops_def fold_every sched_Start_eq sched_New_def comp_def)

theorem sched_Every_around_Start_witness:
  "sd_spawned (sched_ops (\<lambda>_. None) [OpEvery ''a'' 5 (0 :: nat), OpStart, OpEvery ''b'' 0 1, OpEvery ''c'' 7 2])
   = sd_spawned (sched_ops (\<lambda>_. None) [OpEvery ''a'' 5 0, OpEvery ''b'' 0 1, OpEvery ''c'' 7 2, OpStart])"
  using sched_Every_around_Start [of "[OpEvery ''a'' 5 (0 :: nat)]" "[OpEvery ''b'' 0 1, OpEvery ''c'' 7 2]" "\<lambda>_. None"] by simp

text \<open>
  After \<open>Stop\<close>, whatever happened before, every goroutine the scheduler ever spawned has a
  cancelled context, and no cron entry is running.
\<close>

theorem sched_Stop_cancels_all:
  "list_all (\<lambda>(g, x). x \<in> sd_cancelled (sched_ops cs (ops @ [OpStop]))) (sd_spawned (sched_ops cs (ops @ [OpStop])))
   \<and> \<not> sd_started (sched_ops cs (ops @ [OpStop])) \<and> \<not> sd_cron_running (sched_ops cs (ops @ [OpStop]))"
proof -
  have "sched_ops cs (ops @ [OpStop]) = sched_Stop (sched_ops cs ops)" by (simp add: sched_ops_def)
  then have "\<not> sd_started (sched_ops cs (ops @ [OpStop]))" by (simp add: sched_Stop_def)
  then show ?thesis using sched_ops_ok [of cs "ops @ [OpStop]"] by (auto simp: sched_ok_def list_all_iff)
qed

text \<open>
  A job given to \<open>Once\<close> before \<open>Start\<close> does not run once: it becomes an interval job that
  fires again after every delay, or, with a delay that is not positive, a ticker that panics.
  Given after \<open>Start\<close> it runs exactly once.
\<close>

theorem sched_Once_before_Start_repeats:
  "(\<exists>g. map fst (sd_spawned (sched_ops cs [OpOnce name delay fn, OpStart])) = [g]
        \<and> (if delay > 0 then \<exists>t1 t2. fire_time g t0 0 = Some t1 \<and> fire_time g t0 (Suc k) = Some t2 \<and> t1 < t2
           else ticker_panics g))
   \<and> (\<exists>g t. map fst (sd_spawned (sched_ops cs [OpStart, OpOnce name delay fn])) = [g]
        \<and> fire_time g t0 0 = Some t \<and> fire_time g t0 (Suc k) = None)"
proof
  let ?g = "GInterval \<lparr>ij_name = ''__once:'' @ name, ij_interval = delay, ij_fn = fn\<rparr>"
  have "map fst (sd_spawned (sched_ops cs [OpOnce name delay fn, OpStart])) = [?g]"
    by (simp add: sched_ops_def sched_Once_def sched_Start_eq sched_New_def)
  then show "\<exists>g. map fst (sd_spawned (sched_ops cs [OpOnce name delay fn, OpStart])) = [g]
        \<and> (if delay > 0 then \<exists>t1 t2. fire_time g t0 0 = Some t1 \<and> fire_time g t0 (Suc k) = Some t2 \<and> t1 < t2
           else ticker_panics g)"
    by (intro exI [of _ ?g]) (simp add: fire_time_def ticker_panics_def)
  show "\<exists>g t. map fst (sd_spawned (sched_ops cs [OpStart, OpOnce name delay fn])) = [g]
        \<and> fire_time g t0 0 = Some t \<and> fire_time g t0 (Suc k) = None"
    by (simp add: sched_ops_def sched_Once_def sched_Start_eq sched_New_def fire_time_def)
qed

end
