(* ===== verification/Bootstrap.thy ===== *)
theory Bootstrap
  imports Configuration Scheduler
begin

text \<open>
  Package \<open>internal/bootstrap\<close>: the composition root.  \<open>NewDependencies\<close> builds the services or
  reports why it cannot, \<open>SeedAdmin\<close> brings the tables to the state every boot relies on,
  \<open>StartBackgroundJobs\<close> and \<open>StopBackgroundJobs\<close> drive the scheduler, the worker pool and the
  task queue.  Log lines are left out, except the count a cleanup job reports.
\<close>

section \<open>Seeding\<close>

text \<open>\<open>context.Background()\<close>.\<close>

definition Background :: request_context where
  "Background = \<lparr>rc_username = None, rc_principal = None, rc_fields = []\<rparr>"

definition wrapE :: "string \<Rightarrow> ('s, go_error, 'a) op \<Rightarrow> ('s, go_error, 'a) op" where
  "wrapE msg m s = (case m s of (r, s') \<Rightarrow> (mapErr (WrapError msg) r, s'))"

fun seed_permissions :: "Permission gorm \<Rightarrow> string list \<Rightarrow> (permissions, go_error, unit) op" where
  "seed_permissions G [] = returnE ()"
| "seed_permissions G (name # names) =
     bindE (readE (permission_repo_GetByName G name)) (\<lambda>existing.
     if existing = None
     then bindE (wrapE (''seed permission '' @ name)
                   (permission_repo_Create G (Some Background) (new_permission name (name @ '' permission''))))
            (\<lambda>_. seed_permissions G names)
     else seed_permissions G names)"

definition ensureRole ::
  "role_gorm \<Rightarrow> string \<Rightarrow> string \<Rightarrow> string list \<Rightarrow> ('x role_db_scheme, go_error, Role) op" where
  "ensureRole G name desc perms =
     bindE (readE (role_repo_GetByName G name)) (\<lambda>found.
     bindE (case found of None \<Rightarrow> role_repo_Create G (Some Background) (new_role name desc) | Some r \<Rightarrow> returnE r) (\<lambda>existing.
     bindE (readE (\<lambda>db. permission_repo_FindAllByNames (rg_permissions G) perms (rd_permissions db))) (\<lambda>resolved.
     bindE (role_repo_ReplacePermissions G existing resolved) (\<lambda>_.
     returnE (existing\<lparr>rl_Permissions := resolved\<rparr>)))))"

definition seed_admin_user ::
  "user_gorm \<Rightarrow> bcrypt_lib \<Rightarrow> nat \<Rightarrow> BootstrapConfig \<Rightarrow> ('x user_db_scheme, go_error, unit) op" where
  "seed_admin_user G B salt bs =
     bindE (readE (user_repo_GetByUsernameOrEmail G (bc_AdminUsername bs))) (\<lambda>existing.
     if existing \<noteq> None then returnE ()
     else bindE (readE (\<lambda>_. HashPassword B salt (bc_AdminPassword bs))) (\<lambda>hash.
     bindE (readE (role_repo_GetByName (ug_role G) NameAdmin)) (\<lambda>adminRow.
     case adminRow of
       None \<Rightarrow> throwE (PlainError ''admin role missing after seed'')
     | Some adminRow \<Rightarrow>
         bindE (user_repo_Create G (Some Background)
                  ((new_user (bc_AdminUsername bs) (bc_AdminEmail bs) hash ''System Administrator'')\<lparr>u_Roles := [adminRow]\<rparr>))
           (\<lambda>_. returnE ()))))"

definition SeedAdmin ::
  "user_gorm \<Rightarrow> bcrypt_lib \<Rightarrow> nat \<Rightarrow> BootstrapConfig \<Rightarrow> ('x user_db_scheme, go_error, unit) op" where
  "SeedAdmin G B salt bs =
     bindE (zoomE rd_permissions (\<lambda>t db. db\<lparr>rd_permissions := t\<rparr>) (seed_permissions (rg_permissions (ug_role G)) AllPermissions)) (\<lambda>_.
     bindE (ensureRole (ug_role G) NameAdmin ''Full administrator'' AllPermissions) (\<lambda>_.
     bindE (ensureRole (ug_role G) NameUser ''Default end user'' [ProductRead]) (\<lambda>_.
     seed_admin_user G B salt bs)))"

section \<open>Background jobs\<close>

text \<open>The three cleanup routines, and what each of them does to its table.\<close>

datatype builtin_job = SessionCleanup | IdempotencyCleanup | PasswordResetCleanup

definition cleanup_run :: "('s, go_error, int) op \<Rightarrow> ('s, go_error, int option) op" where
  "cleanup_run cleanup = bindE cleanup (\<lambda>n. returnE (if n > 0 then Some n else None))"

definition session_cleanup_job :: "UserSession gorm \<Rightarrow> SessionsConfig \<Rightarrow> time \<Rightarrow> (sessions, go_error, int option) op" where
  "session_cleanup_job G cfg now = cleanup_run (session_CleanupExpired G now (ssc_CleanupRetention cfg))"

definition idempotency_cleanup_job :: "'w Store \<Rightarrow> time \<Rightarrow> ('w, go_error, int option) op" where
  "idempotency_cleanup_job S now = cleanup_run (st_DeleteExpired S now)"

definition password_reset_cleanup_job :: "auth_env \<Rightarrow> time \<Rightarrow> ('x auth_db_scheme, go_error, int option) op" where
  "password_reset_cleanup_job E now = cleanup_run (auth_CleanupExpiredResetTokens E now)"

definition registerBuiltInJobs :: "Config \<Rightarrow> builtin_job Scheduler \<Rightarrow> builtin_job Scheduler" where
  "registerBuiltInJobs cfg s =
     (let iv = ssc_CleanupInterval (cfg_Sessions cfg);
          s = (if iv > 0 then snd (sched_Every ''session-cleanup'' iv SessionCleanup s) else s);
          iv = ic_CleanupInterval (cfg_Idem cfg);
          s = (if ic_Enabled (cfg_Idem cfg)
               then if iv > 0 then snd (sched_Every ''idempotency-cleanup'' iv IdempotencyCleanup s) else s
               else s);
          iv = mc_PasswordResetCleanupInterval (cfg_Mail cfg)
      in if iv > 0 then snd (sched_Every ''password-reset-cleanup'' iv PasswordResetCleanup s) else s)"

section \<open>The dependency graph\<close>

text \<open>The parts of \<open>Deps\<close> that have a state or a configuration of their own.\<close>

record ('t, 'm) Deps =
  dp_Cfg :: Config
  dp_JWT :: JwtService
  dp_Scheduler :: "builtin_job Scheduler"
  dp_Pool :: "'t Pool"
  dp_Queue :: "'m Manager option"
  dp_queue_running :: bool

text \<open>
  Parameters: the result of registering the database callbacks, the mail service, the multiplexer
  of the task queue and the decoder of its payloads.  A time zone that cannot be loaded is
  replaced by UTC and does not fail.
\<close>

definition NewDependencies ::
  "go_error option \<Rightarrow> MailService \<Rightarrow> 'm
     \<Rightarrow> (string \<Rightarrow> (string \<Rightarrow> Message option \<times> (go_error + unit)) \<Rightarrow> 'm \<Rightarrow> 'm)
     \<Rightarrow> (string \<Rightarrow> go_error + PasswordResetEmailPayload) \<Rightarrow> Config \<Rightarrow> go_error + ('t, 'm) Deps" where
  "NewDependencies callbacks M new_mux mux_add unmarshal cfg =
     (case callbacks of
        Some err \<Rightarrow> Inl (WrapError ''register audit callbacks'' err)
      | None \<Rightarrow>
          (case NewJwtService (cfg_JWT cfg) of
             Inl err \<Rightarrow> Inl err
           | Inr jwtSvc \<Rightarrow>
               let pool = NewPool (jbc_WorkerPoolSize (cfg_Jobs cfg)) (jbc_QueueSize (cfg_Jobs cfg));
                   qmgr = queue_New (cfg_Queue cfg) (cfg_Redis cfg) new_mux
               in Inr \<lparr>dp_Cfg = cfg, dp_JWT = jwtSvc, dp_Scheduler = sched_New, dp_Pool = pool,
                       dp_Queue = RegisterQueueHandlers mux_add unmarshal M qmgr, dp_queue_running = False\<rparr>))"

definition StartBackgroundJobs :: "('t, 'm) Deps \<Rightarrow> ('t, 'm) Deps" where
  "StartBackgroundJobs d =
     (if \<not> jbc_Enabled (cfg_Jobs (dp_Cfg d)) then d
      else let d = d\<lparr>dp_Pool := pool_Start (dp_Pool d)\<rparr>;
               d = d\<lparr>dp_Scheduler := registerBuiltInJobs (dp_Cfg d) (dp_Scheduler d)\<rparr>;
               d = d\<lparr>dp_Scheduler := sched_Start (dp_Scheduler d)\<rparr>
           in if dp_Queue d \<noteq> None then d\<lparr>dp_queue_running := True\<rparr> else d)"

text \<open>\<open>Stop\<close> of the queue shuts its server down; the scheduler and the pool follow.\<close>

definition StopBackgroundJobs :: "('t, 'm) Deps \<Rightarrow> ('t, 'm) Deps" where
  "StopBackgroundJobs d =
     (if \<not> jbc_Enabled (cfg_Jobs (dp_Cfg d)) then d
      else let d = d\<lparr>dp_queue_running := queue_Stop (dp_Queue d) (dp_queue_running d)\<rparr>;
               d = d\<lparr>dp_Scheduler := sched_Stop (dp_Scheduler d)\<rparr>
           in d\<lparr>dp_Pool := pool_Stop (dp_Pool d)\<rparr>)"

section \<open>Seeding over tables that obey the laws\<close>

text \<open>The catalogue after seeding: a missing built-in permission gets its default description.\<close>

definition with_defaults :: "string list \<Rightarrow> (string \<rightharpoonup> string) \<Rightarrow> (string \<rightharpoonup> string)" where
  "with_defaults names cat = (\<lambda>n. if n \<in> set names \<and> cat n = None then Some (n @ '' permission'') else cat n)"

lemma wrapE_Inr [simp]: "wrapE msg m s = (Inr x, s') \<longleftrightarrow> m s = (Inr x, s')"
  by (auto simp: wrapE_def split: prod.split)

abbreviation roles_ok :: "Role table \<Rightarrow> bool" where
  "roles_ok t \<equiv> table_ok bm_ID (unique_on rl_Name) t"

lemma seed_step:
  "seed_permissions G (name # names) t = (Inr (), t') \<longleftrightarrow>
     (\<exists>e. permission_repo_GetByName G name t = Inr e \<and>
       (if e = None
        then \<exists>p t1. permission_repo_Create G (Some Background) (new_permission name (name @ '' permission'')) t = (Inr p, t1)
                 \<and> seed_permissions G names t1 = (Inr (), t')
        else seed_permissions G names t = (Inr (), t')))"
  by (cases "permission_repo_GetByName G name t"; cases "permission_repo_GetByName G name t = Inr None")
    (auto simp: bindE_Inr)

lemma new_row_core:
  "bm_ID (new_permission n d) = 0" "bm_ID (role_columns (setCreatedBy ctx (new_role n d))) = 0"
  by (simp_all add: new_permission_def new_role_def role_columns_def zero_base_def setCreatedBy_def Let_def)

context permission_store
begin

lemma GetByName_catalogue:
  "permission_repo_GetByName G name t = Inr e \<Longrightarrow> e = None \<longleftrightarrow> catalogue t name = None"
  unfolding permission_repo_GetByName_def catalogue_None
  by (cases e) (use first_opt_Some first_opt_None in blast)+

lemma seed_ok:
  "seed_permissions G names t = (Inr (), t') \<Longrightarrow> permissions_ok t \<Longrightarrow>
   permissions_ok t' \<and> catalogue t' = with_defaults names (catalogue t) \<and> (\<exists>new. rows t' = rows t @ new)
   \<and> (set names \<subseteq> dom (catalogue t) \<longrightarrow> t' = t)"
proof (induction names arbitrary: t)
  case Nil
  then show ?case by (simp add: with_defaults_def)
next
  case (Cons name names)
  from Cons.prems(1) obtain e where e: "permission_repo_GetByName G name t = Inr e"
    "if e = None
     then \<exists>p t1. permission_repo_Create G (Some Background) (new_permission name (name @ '' permission'')) t = (Inr p, t1)
              \<and> seed_permissions G names t1 = (Inr (), t')
     else seed_permissions G names t = (Inr (), t')"
    unfolding seed_step by blast
  show ?case
  proof (cases "e = None")
    case False
    then have "catalogue t name \<noteq> None" using GetByName_catalogue [OF e(1)] by simp
    with Cons.IH [of t] False e(2) Cons.prems(2) show ?thesis
      by (auto simp: with_defaults_def fun_eq_iff)
  next
    case True
    then obtain p t1 where c: "permission_repo_Create G (Some Background) (new_permission name (name @ '' permission'')) t = (Inr p, t1)"
      and s: "seed_permissions G names t1 = (Inr (), t')" using e(2) by auto
    let ?req = "\<lparr>pq_Name = name, pq_Description = name @ '' permission''\<rparr>"
    have "permission_Create G (Some Background) ?req t = (Inr (permission_ToResponse p), t1)"
      using True e(1) c by (simp add: permission_Create_def bindE_def)
    note cr = Create_refines [OF this]
    have d: "db_Create G (setCreatedBy (Some Background) (new_permission name (name @ '' permission''))) t = (Inr p, t1)"
      using c by (simp add: permission_repo_Create_def)
    have "permissions_ok t1" using Create_table_ok [OF Cons.prems(2) _ d] by (simp add: new_row_core)
    moreover have "rows t1 = rows t @ [p]" using Create_ok [OF d] by (simp add: new_row_core)
    ultimately show ?thesis using Cons.IH [OF s] cr(1,2)
      by (auto simp: with_defaults_def fun_eq_iff)
  qed
qed

lemma FindAllByNames_known:
  assumes "permission_repo_FindAllByNames G names t = Inr ps" "set names \<subseteq> dom (catalogue t)"
  shows "set ps = {p \<in> set (rows t). base_live p \<and> pm_Name p \<in> set names}" "pm_Name ` set ps = set names"
proof -
  show s: "set ps = {p \<in> set (rows t). base_live p \<and> pm_Name p \<in> set names}"
  proof (cases "names = []")
    case False
    then have "db_Find G (\<lambda>r. List.member names (pm_Name r)) unordered None t = Inr ps"
      using assms(1) by (simp add: permission_repo_FindAllByNames_def)
    then have "mset ps = mset (filter (\<lambda>r. base_live r \<and> List.member names (pm_Name r)) (rows t))"
      using Find_rows by fastforce
    from arg_cong [OF this, of set_mset] show ?thesis by auto
  qed (use assms(1) in \<open>simp add: permission_repo_FindAllByNames_def\<close>)
  have "\<exists>p \<in> set (rows t). base_live p \<and> pm_Name p = n" if "n \<in> set names" for n
    using assms(2) that catalogue_None [of t n] by (auto simp: dom_def)
  then show "pm_Name ` set ps = set names" unfolding s by force
qed

text \<open>A marked row still occupies its name: it can neither be found nor created again.\<close>

lemma seed_blocked:
  assumes "permissions_ok t" "p \<in> set (rows t)" "\<not> base_live p" "pm_Name p \<in> set names"
  shows "\<exists>e t'. seed_permissions G names t = (Inl e, t')"
proof (rule ccontr)
  assume "\<not> ?thesis"
  then obtain t' where s: "seed_permissions G names t = (Inr (), t')"
    by (cases "seed_permissions G names t"; cases "fst (seed_permissions G names t)") auto
  note ok = seed_ok [OF s assms(1)]
  have "catalogue t' (pm_Name p) \<noteq> None" using ok assms(4) by (auto simp: with_defaults_def)
  then obtain q where q: "q \<in> set (rows t')" "base_live q" "pm_Name q = pm_Name p"
    unfolding catalogue_None by blast
  have "p \<in> set (rows t')" using ok assms(2) by auto
  moreover have "inj_on pm_Name (set (rows t'))" using ok by (simp add: table_ok_def unique_on_def distinct_map)
  ultimately have "q = p" using q by (auto dest: inj_onD)
  with q(2) assms(3) show False by simp
qed

end

lemma role_columns_new:
  assumes "base_filled (role_columns (setCreatedBy ctx (new_role n d))) x"
  shows "base_live x" "rl_Name x = n"
proof -
  have "base_live (role_columns (setCreatedBy ctx (new_role n d)))" "rl_Name (role_columns (setCreatedBy ctx (new_role n d))) = n"
    by (simp_all add: new_role_def zero_base_def role_columns_def setCreatedBy_def base_live_def Let_def)
  then show "base_live x" "rl_Name x = n"
    using assms by (auto simp: base_rel_defs)
qed

context role_store
begin

text \<open>
  \<open>ensureRole\<close> yields a live role of that name which grants exactly the given permissions.  A role
  that is not there is appended; the grants of the other roles are left alone.
\<close>

lemma ensureRole_ok:
  assumes "permissions_ok (rd_permissions db)" "roles_ok (rd_roles db)" "set perms \<subseteq> dom (catalogue (rd_permissions db))"
    and "ensureRole G name desc perms db = (Inr r, db')"
  obtains x t j where "db' = db\<lparr>rd_roles := t, rd_role_permissions := j\<rparr>" "roles_ok t"
    "x \<in> set (rows t)" "base_live x" "rl_Name x = name" "role_perms db' (bm_ID x) = set perms"
    "\<And>rid k. rid \<noteq> bm_ID x \<Longrightarrow> (rid, k) \<in> set j \<longleftrightarrow> (rid, k) \<in> set (rd_role_permissions db)"
    "x \<in> set (rows (rd_roles db)) \<and> t = rd_roles db \<or>
     rows t = rows (rd_roles db) @ [x] \<and> (\<forall>y \<in> set (rows (rd_roles db)). base_live y \<longrightarrow> rl_Name y \<noteq> name)"
proof -
  obtain found e db1 ps where f: "role_repo_GetByName G name db = Inr found"
    and e: "(case found of None \<Rightarrow> role_repo_Create G (Some Background) (new_role name desc) | Some r \<Rightarrow> returnE r) db = (Inr e, db1)"
    and ps: "permission_repo_FindAllByNames (rg_permissions G) perms (rd_permissions db1) = Inr ps"
    and rp: "role_repo_ReplacePermissions G e ps db1 = (Inr (), db')"
    using assms(4) by (auto simp: ensureRole_def bindE_Inr)
  have "\<exists>x t. x \<in> set (rows t) \<and> base_live x \<and> rl_Name x = name \<and> bm_ID e = bm_ID x \<and> roles_ok t
      \<and> rd_permissions db1 = rd_permissions db
      \<and> (\<exists>j. db1 = db\<lparr>rd_roles := t, rd_role_permissions := j\<rparr> \<and> set j = set (rd_role_permissions db))
      \<and> (x \<in> set (rows (rd_roles db)) \<and> t = rd_roles db \<or>
         rows t = rows (rd_roles db) @ [x] \<and> (\<forall>y \<in> set (rows (rd_roles db)). base_live y \<longrightarrow> rl_Name y \<noteq> name))"
  proof (cases found)
    case (Some r0)
    with f have "role_repo_GetByName G name db = Inr (Some r0)" by simp
    then obtain x where x: "x \<in> set (rows (rd_roles db))" "base_live x" "rl_Name x = name"
      "r0 = x\<lparr>rl_Permissions := rl_Permissions r0\<rparr>" by (rule GetByName_Some)
    have "bm_ID r0 = bm_ID x" by (subst x(4)) simp
    moreover have "e = r0" "db1 = db" using e Some by auto
    ultimately show ?thesis using x assms(2) by (intro exI [of _ x] exI [of _ "rd_roles db"]) (auto intro: exI [of _ "rd_role_permissions db"])
  next
    case None
    let ?c = "role_columns (setCreatedBy (Some Background) (new_role name desc))"
    have nop: "rl_Permissions (new_role name desc) = []" by (simp add: new_role_def zero_base_def)
    obtain x t j where c: "ga_Create (rg_assoc G) ?c [] (rd_roles db, rd_role_permissions db) = (Inr x, (t, j))"
      and db1: "db1 = put_roles (t, j) db" and ee: "e = x\<lparr>rl_Permissions := []\<rparr>"
      using e None by (auto simp: role_repo_Create_def bindE_Inr zoomE_eq nop)
    note ok = roles.assoc_Create_ok [OF c new_row_core(2)]
    have "roles_ok t" by (rule roles.assoc_Create_table_ok [OF assms(2) new_row_core(2) c])
    moreover have "first_opt (rg_roles G) (\<lambda>r. rl_Name r = name) (rd_roles db) = Inr None"
      using f None by (auto simp: role_repo_GetByName_def preload_opt_def split: sum.splits option.splits)
    then have "\<forall>y \<in> set (rows (rd_roles db)). base_live y \<longrightarrow> rl_Name y \<noteq> name" using roles.first_opt_None by blast
    ultimately show ?thesis using ok role_columns_new [of "Some Background" name desc x]
      by (intro exI [of _ x] exI [of _ t]) (auto simp: db1 put_roles_def linked_def ee intro!: exI [of _ j])
  qed
  then obtain x t j1 where x: "x \<in> set (rows t)" "base_live x" "rl_Name x = name" "bm_ID e = bm_ID x" "roles_ok t"
    and db1: "db1 = db\<lparr>rd_roles := t, rd_role_permissions := j1\<rparr>" "set j1 = set (rd_role_permissions db)"
    and new: "x \<in> set (rows (rd_roles db)) \<and> t = rd_roles db \<or>
         rows t = rows (rd_roles db) @ [x] \<and> (\<forall>y \<in> set (rows (rd_roles db)). base_live y \<longrightarrow> rl_Name y \<noteq> name)" by blast
  obtain j where j: "ga_Replace (rg_assoc G) (bm_ID x) (map bm_ID ps) j1 = (Inr (), j)"
    and db': "db' = db\<lparr>rd_roles := t, rd_role_permissions := j\<rparr>"
    using rp by (auto simp: role_repo_ReplacePermissions_def zoomE_eq db1(1) x(4))
  have sj: "set j = {p \<in> set (rd_role_permissions db). fst p \<noteq> bm_ID x} \<union> linked (bm_ID x) (map bm_ID ps)"
    using roles.Replace_ok [OF j] by (simp add: db1(2))
  have pp: "rd_permissions db1 = rd_permissions db" by (simp add: db1(1))
  note known = perms.FindAllByNames_known [OF ps [unfolded pp] assms(3)]
  have "bm_ID p \<in> bm_ID ` set ps \<longleftrightarrow> p \<in> set ps" if "p \<in> set (rows (rd_permissions db))" for p
    using that known(1) assms(1) by (auto simp: table_ok_def distinct_map inj_on_def)
  then have "{p \<in> set (rows (rd_permissions db)). base_live p \<and> (bm_ID x, bm_ID p) \<in> set j} = set ps"
    unfolding sj using known(1) by (auto simp: linked_def)
  then have "role_perms db' (bm_ID x) = set perms" using known(2) by (simp add: role_perms_def db')
  moreover have "(rid, k) \<in> set j \<longleftrightarrow> (rid, k) \<in> set (rd_role_permissions db)" if "rid \<noteq> bm_ID x" for rid k
    using that by (auto simp: sj linked_def)
  ultimately show thesis using that [OF db' x(5,1,2,3)] new by blast
qed

lemma ensureRole_blocked:
  assumes "permissions_ok (rd_permissions db)" "roles_ok (rd_roles db)" "set perms \<subseteq> dom (catalogue (rd_permissions db))"
    and "y \<in> set (rows (rd_roles db))" "\<not> base_live y" "rl_Name y = name"
  shows "ensureRole G name desc perms db \<noteq> (Inr r, db')"
proof
  assume r: "ensureRole G name desc perms db = (Inr r, db')"
  show False
  proof (rule ensureRole_ok [OF assms(1-3) r])
    fix x t j
    assume t: "roles_ok t" "x \<in> set (rows t)" "base_live x" "rl_Name x = name"
      "x \<in> set (rows (rd_roles db)) \<and> t = rd_roles db \<or>
       rows t = rows (rd_roles db) @ [x] \<and> (\<forall>y \<in> set (rows (rd_roles db)). base_live y \<longrightarrow> rl_Name y \<noteq> name)"
    then have "y \<in> set (rows t)" using assms(4) by auto
    moreover have "inj_on rl_Name (set (rows t))" using t(1) by (simp add: table_ok_def unique_on_def distinct_map)
    ultimately have "x = y" using t(2,4) assms(6) by (auto dest: inj_onD)
    with t(3) assms(5) show False by simp
  qed
qed

end

text \<open>What every boot relies on.\<close>

definition seeded :: "string \<Rightarrow> 'x user_db_scheme \<Rightarrow> bool" where
  "seeded admin db =
     (set AllPermissions \<subseteq> dom (catalogue (rd_permissions db)) \<and>
      (\<exists>r \<in> set (rows (rd_roles db)). base_live r \<and> rl_Name r = NameAdmin \<and> role_perms db (bm_ID r) = set AllPermissions) \<and>
      (\<exists>r \<in> set (rows (rd_roles db)). base_live r \<and> rl_Name r = NameUser \<and> role_perms db (bm_ID r) = {ProductRead}) \<and>
      (\<exists>u \<in> set (rows (ud_users db)). base_live u \<and> (u_Username u = admin \<or> u_Email u = admin)))"

text \<open>The row of a freshly created administrator.\<close>

definition admin_row :: "BootstrapConfig \<Rightarrow> string \<Rightarrow> User \<Rightarrow> bool" where
  "admin_row bs hash u =
     (base_live u \<and> u_Username u = bc_AdminUsername bs \<and> u_Email u = bc_AdminEmail bs \<and> u_PasswordHash u = hash \<and> u_Enabled u)"

lemma admin_row_filled:
  assumes "base_filled (user_columns (setCreatedBy ctx
             ((new_user (bc_AdminUsername bs) (bc_AdminEmail bs) hash fullName)\<lparr>u_Roles := rs\<rparr>))) u"
  shows "admin_row bs hash u"
  using assms by (auto simp: base_rel_defs admin_row_def base_live_def user_columns_def new_user_def zero_base_def setCreatedBy_def Let_def)

lemma role_perms_cong:
  "rd_permissions db' = rd_permissions db \<Longrightarrow>
   (\<And>k. (rid, k) \<in> set (rd_role_permissions db') \<longleftrightarrow> (rid, k) \<in> set (rd_role_permissions db)) \<Longrightarrow>
   role_perms db' rid = role_perms db rid"
  by (simp add: role_perms_def)

context user_store
begin

lemma GetByUsernameOrEmail_None:
  assumes "user_repo_GetByUsernameOrEmail G ident db = Inr None"
  shows "\<forall>x \<in> set (rows (ud_users db)). base_live x \<longrightarrow> u_Username x \<noteq> ident \<and> u_Email x \<noteq> ident"
proof -
  have "first_opt (ug_users G) (\<lambda>r. u_Username r = ident \<or> u_Email r = ident) (ud_users db) = Inr None"
    using assms by (auto simp: user_repo_GetByUsernameOrEmail_def preload_opt_def split: sum.splits option.splits)
  then show ?thesis using users.first_opt_None by blast
qed

lemma seed_admin_user_ok:
  assumes "seed_admin_user G B salt bs db = (Inr (), db')"
  shows "db' = db \<and> (\<exists>u \<in> set (rows (ud_users db)). base_live u \<and> (u_Username u = bc_AdminUsername bs \<or> u_Email u = bc_AdminUsername bs))
    \<or> (\<exists>hash a u t j. HashPassword B salt (bc_AdminPassword bs) = Inr hash \<and> a \<in> set (rows (rd_roles db)) \<and> base_live a
        \<and> rl_Name a = NameAdmin \<and> db' = db\<lparr>ud_users := t, ud_user_roles := j\<rparr> \<and> rows t = rows (ud_users db) @ [u]
        \<and> unique_users (rows t) \<and> admin_row bs hash u \<and> (bm_ID u, bm_ID a) \<in> set j \<and> set (ud_user_roles db) \<subseteq> set j
        \<and> (\<forall>x \<in> set (rows (ud_users db)). base_live x \<longrightarrow> u_Username x \<noteq> bc_AdminUsername bs \<and> u_Email x \<noteq> bc_AdminUsername bs))"
proof -
  obtain existing where ex: "user_repo_GetByUsernameOrEmail G (bc_AdminUsername bs) db = Inr existing"
    using assms by (auto simp: seed_admin_user_def bindE_Inr)
  show ?thesis
  proof (cases existing)
    case (Some u)
    then obtain x where "first_opt (ug_users G) (\<lambda>r. u_Username r = bc_AdminUsername bs \<or> u_Email r = bc_AdminUsername bs) (ud_users db) = Inr (Some x)"
      using ex by (auto simp: user_repo_GetByUsernameOrEmail_def preload_opt_def split: sum.splits option.splits)
    then have "\<exists>u \<in> set (rows (ud_users db)). base_live u \<and> (u_Username u = bc_AdminUsername bs \<or> u_Email u = bc_AdminUsername bs)"
      using users.first_opt_Some by blast
    moreover have "db' = db" using assms ex Some by (simp add: seed_admin_user_def bindE_def)
    ultimately show ?thesis by blast
  next
    case None
    obtain hash ar u where h: "HashPassword B salt (bc_AdminPassword bs) = Inr hash"
      and ar: "role_repo_GetByName (ug_role G) NameAdmin db = Inr (Some ar)"
      and c: "user_repo_Create G (Some Background)
         ((new_user (bc_AdminUsername bs) (bc_AdminEmail bs) hash ''System Administrator'')\<lparr>u_Roles := [ar]\<rparr>) db = (Inr u, db')"
      using assms ex None by (auto simp: seed_admin_user_def bindE_Inr split: option.splits)
    obtain a where a: "a \<in> set (rows (rd_roles db))" "base_live a" "rl_Name a = NameAdmin" "ar = a\<lparr>rl_Permissions := rl_Permissions ar\<rparr>"
      using ar by (rule rs.GetByName_Some)
    have ida: "bm_ID ar = bm_ID a" by (subst a(4)) simp
    let ?c = "user_columns (setCreatedBy (Some Background)
         ((new_user (bc_AdminUsername bs) (bc_AdminEmail bs) hash ''System Administrator'')\<lparr>u_Roles := [ar]\<rparr>))"
    obtain x t j where cr: "ga_Create (ug_assoc G) ?c [bm_ID a] (ud_users db, ud_user_roles db) = (Inr x, (t, j))"
      and db': "db' = db\<lparr>ud_users := t, ud_user_roles := j\<rparr>"
      using c by (auto simp: user_repo_Create_def bindE_Inr zoomE_eq put_users_def ida)
    have none: "\<forall>x \<in> set (rows (ud_users db)). base_live x \<longrightarrow> u_Username x \<noteq> bc_AdminUsername bs \<and> u_Email x \<noteq> bc_AdminUsername bs"
      by (rule GetByUsernameOrEmail_None) (use ex None in simp)
    have "bm_ID ?c = 0" by (simp add: user_columns_def new_user_def zero_base_def)
    note ok = users.assoc_Create_ok [OF cr this]
    have "admin_row bs hash x" using ok by (intro admin_row_filled) blast
    with h a(1-3) ok db' none show ?thesis
      by (intro disjI2 exI [of _ hash] exI [of _ a] exI [of _ x] exI [of _ t] exI [of _ j]) (auto simp: linked_def)
  qed
qed

text \<open>
  A successful run: the built-in permissions exist, both built-in roles have exactly their stock
  grants, other roles keep theirs, and the administrator is there.
\<close>

lemma SeedAdmin_ok:
  assumes "permissions_ok (rd_permissions db)" "roles_ok (rd_roles db)" "SeedAdmin G B salt bs db = (Inr (), db')"
  obtains a r where
    "permissions_ok (rd_permissions db')" "catalogue (rd_permissions db') = with_defaults AllPermissions (catalogue (rd_permissions db))"
    "set AllPermissions \<subseteq> dom (catalogue (rd_permissions db)) \<longrightarrow> rd_permissions db' = rd_permissions db"
    "roles_ok (rd_roles db')" "a \<in> set (rows (rd_roles db'))" "base_live a" "rl_Name a = NameAdmin"
    "r \<in> set (rows (rd_roles db'))" "base_live r" "rl_Name r = NameUser"
    "role_perms db' (bm_ID a) = set AllPermissions" "role_perms db' (bm_ID r) = {ProductRead}"
    "\<And>rid k. rid \<noteq> bm_ID a \<Longrightarrow> rid \<noteq> bm_ID r \<Longrightarrow> (rid, k) \<in> set (rd_role_permissions db') \<longleftrightarrow> (rid, k) \<in> set (rd_role_permissions db)"
    "a \<in> set (rows (rd_roles db)) \<and> r \<in> set (rows (rd_roles db)) \<and> rd_roles db' = rd_roles db \<or>
     (\<exists>y \<in> {a, r}. y \<notin> set (rows (rd_roles db)) \<and> (\<forall>z \<in> set (rows (rd_roles db)). base_live z \<longrightarrow> rl_Name z \<noteq> rl_Name y))"
    "set (rows (rd_roles db)) \<subseteq> set (rows (rd_roles db'))"
    "\<exists>db3. ud_users db3 = ud_users db \<and> ud_user_roles db3 = ud_user_roles db \<and> rd_roles db3 = rd_roles db'
       \<and> seed_admin_user G B salt bs db3 = (Inr (), db')"
proof -
  let ?P = "rg_permissions (ug_role G)"
  obtain t db2 db3 r1 r2 where s: "seed_permissions ?P AllPermissions (rd_permissions db) = (Inr (), t)"
    and e1: "ensureRole (ug_role G) NameAdmin ''Full administrator'' AllPermissions (db\<lparr>rd_permissions := t\<rparr>) = (Inr r1, db2)"
    and e2: "ensureRole (ug_role G) NameUser ''Default end user'' [ProductRead] db2 = (Inr r2, db3)"
    and u: "seed_admin_user G B salt bs db3 = (Inr (), db')"
    using assms(3) by (auto simp: SeedAdmin_def bindE_Inr zoomE_eq)
  note pk = rs.perms.seed_ok [OF s assms(1)]
  have all: "set AllPermissions \<subseteq> dom (catalogue t)"
    using pk by (auto simp: with_defaults_def dom_def split: if_splits)
  let ?db1 = "db\<lparr>rd_permissions := t\<rparr>"
  obtain a t2 j2 where d2: "db2 = ?db1\<lparr>rd_roles := t2, rd_role_permissions := j2\<rparr>" and a: "roles_ok t2"
    "a \<in> set (rows t2)" "base_live a" "rl_Name a = NameAdmin" "role_perms db2 (bm_ID a) = set AllPermissions"
    and oa: "\<And>rid k. rid \<noteq> bm_ID a \<Longrightarrow> (rid, k) \<in> set j2 \<longleftrightarrow> (rid, k) \<in> set (rd_role_permissions db)"
    and na: "a \<in> set (rows (rd_roles db)) \<and> t2 = rd_roles db \<or>
     rows t2 = rows (rd_roles db) @ [a] \<and> (\<forall>y \<in> set (rows (rd_roles db)). base_live y \<longrightarrow> rl_Name y \<noteq> NameAdmin)"
    by (rule rs.ensureRole_ok [OF _ _ _ e1]) (use pk assms(2) all in simp_all)
  obtain r t3 j3 where d3: "db3 = db2\<lparr>rd_roles := t3, rd_role_permissions := j3\<rparr>" and r: "roles_ok t3"
    "r \<in> set (rows t3)" "base_live r" "rl_Name r = NameUser" "role_perms db3 (bm_ID r) = {ProductRead}"
    and orr: "\<And>rid k. rid \<noteq> bm_ID r \<Longrightarrow> (rid, k) \<in> set j3 \<longleftrightarrow> (rid, k) \<in> set j2"
    and nr: "r \<in> set (rows t2) \<and> t3 = t2 \<or>
     rows t3 = rows t2 @ [r] \<and> (\<forall>y \<in> set (rows t2). base_live y \<longrightarrow> rl_Name y \<noteq> NameUser)"
    by (rule rs.ensureRole_ok [OF _ _ _ e2]) (use pk a(1) all in \<open>auto simp: d2 AllPermissions_def\<close>)
  have a3: "a \<in> set (rows t3)" using a(2) nr by auto
  have "rl_Name a \<noteq> rl_Name r" using a(4) r(4) by (simp add: NameAdmin_def NameUser_def)
  then have ids: "bm_ID a \<noteq> bm_ID r" using r(1,2) a3 by (auto simp: table_ok_def distinct_map dest: inj_onD)
  have user: "\<exists>tu ju. db' = db3\<lparr>ud_users := tu, ud_user_roles := ju\<rparr>"
  proof (cases "db' = db3")
    case True then show ?thesis by (intro exI [of _ "ud_users db3"] exI [of _ "ud_user_roles db3"]) simp
  next
    case False then show ?thesis using seed_admin_user_ok [OF u] by blast
  qed
  then have same: "rd_permissions db' = t" "rd_roles db' = t3" "rd_role_permissions db' = j3"
    by (auto simp: d2 d3)
  have pa: "role_perms db' (bm_ID a) = set AllPermissions"
    using a(5) orr [OF ids] by (subst role_perms_cong [of db' db2]) (simp_all add: same d2)
  have pr: "role_perms db' (bm_ID r) = {ProductRead}"
    using r(5) by (subst role_perms_cong [of db' db3]) (simp_all add: same d2 d3)
  have others: "(rid, k) \<in> set (rd_role_permissions db') \<longleftrightarrow> (rid, k) \<in> set (rd_role_permissions db)"
    if "rid \<noteq> bm_ID a" "rid \<noteq> bm_ID r" for rid k
    using oa [OF that(1)] orr [OF that(2)] by (simp add: same)
  have fresh: "a \<in> set (rows (rd_roles db)) \<and> r \<in> set (rows (rd_roles db)) \<and> rd_roles db' = rd_roles db \<or>
     (\<exists>y \<in> {a, r}. y \<notin> set (rows (rd_roles db)) \<and> (\<forall>z \<in> set (rows (rd_roles db)). base_live z \<longrightarrow> rl_Name z \<noteq> rl_Name y))"
    using na nr a(3,4) r(3,4) by (auto simp: same)
  have pre: "set (rows (rd_roles db)) \<subseteq> set (rows (rd_roles db'))" using na nr by (auto simp: same)
  show thesis
    by (rule that [of a r]) (use pk a r a3 pa pr others fresh pre u in \<open>auto simp: same d2 d3\<close>)
qed

end

context user_store
begin

lemma SeedAdmin_seeded:
  assumes "permissions_ok (rd_permissions db)" "roles_ok (rd_roles db)" "SeedAdmin G B salt bs db = (Inr (), db')"
  shows "seeded (bc_AdminUsername bs) db'"
proof (rule SeedAdmin_ok [OF assms])
  fix a r
  assume c: "catalogue (rd_permissions db') = with_defaults AllPermissions (catalogue (rd_permissions db))"
    and r: "a \<in> set (rows (rd_roles db'))" "base_live a" "rl_Name a = NameAdmin"
      "r \<in> set (rows (rd_roles db'))" "base_live r" "rl_Name r = NameUser"
      "role_perms db' (bm_ID a) = set AllPermissions" "role_perms db' (bm_ID r) = {ProductRead}"
    and "\<exists>db3. ud_users db3 = ud_users db \<and> ud_user_roles db3 = ud_user_roles db \<and> rd_roles db3 = rd_roles db'
       \<and> seed_admin_user G B salt bs db3 = (Inr (), db')"
  then obtain db3 where u: "seed_admin_user G B salt bs db3 = (Inr (), db')" by blast
  have "\<exists>u \<in> set (rows (ud_users db')). base_live u \<and> (u_Username u = bc_AdminUsername bs \<or> u_Email u = bc_AdminUsername bs)"
    using seed_admin_user_ok [OF u]
  proof (elim disjE conjE exE)
    fix x t j hash assume "db' = db3\<lparr>ud_users := t, ud_user_roles := j\<rparr>" "rows t = rows (ud_users db3) @ [x]" "admin_row bs hash x"
    then show ?thesis by (auto simp: admin_row_def)
  qed simp
  moreover have "set AllPermissions \<subseteq> dom (catalogue (rd_permissions db'))"
    unfolding c by (auto simp: with_defaults_def dom_def split: if_splits)
  ultimately show ?thesis unfolding seeded_def using r by blast
qed

text \<open>A second successful run changes nothing a request can observe.\<close>

lemma SeedAdmin_again:
  assumes "permissions_ok (rd_permissions db)" "roles_ok (rd_roles db)" "seeded (bc_AdminUsername bs) db"
    and "SeedAdmin G B salt bs db = (Inr (), db')"
  shows "rd_permissions db' = rd_permissions db" "rd_roles db' = rd_roles db" "role_perms db' rid = role_perms db rid"
    "ud_users db' = ud_users db" "ud_user_roles db' = ud_user_roles db"
proof -
  obtain a r where p: "set AllPermissions \<subseteq> dom (catalogue (rd_permissions db)) \<longrightarrow> rd_permissions db' = rd_permissions db"
    and r: "a \<in> set (rows (rd_roles db'))" "base_live a" "rl_Name a = NameAdmin"
      "r \<in> set (rows (rd_roles db'))" "base_live r" "rl_Name r = NameUser"
      "role_perms db' (bm_ID a) = set AllPermissions" "role_perms db' (bm_ID r) = {ProductRead}"
    and o: "\<And>rid k. rid \<noteq> bm_ID a \<Longrightarrow> rid \<noteq> bm_ID r \<Longrightarrow>
      (rid, k) \<in> set (rd_role_permissions db') \<longleftrightarrow> (rid, k) \<in> set (rd_role_permissions db)"
    and f: "a \<in> set (rows (rd_roles db)) \<and> r \<in> set (rows (rd_roles db)) \<and> rd_roles db' = rd_roles db \<or>
     (\<exists>y \<in> {a, r}. y \<notin> set (rows (rd_roles db)) \<and> (\<forall>z \<in> set (rows (rd_roles db)). base_live z \<longrightarrow> rl_Name z \<noteq> rl_Name y))"
    and u: "\<exists>db3. ud_users db3 = ud_users db \<and> ud_user_roles db3 = ud_user_roles db \<and> rd_roles db3 = rd_roles db'
       \<and> seed_admin_user G B salt bs db3 = (Inr (), db')"
    by (rule SeedAdmin_ok [OF assms(1,2,4)], rule that)
  obtain a0 r0 where a0: "a0 \<in> set (rows (rd_roles db))" "base_live a0" "rl_Name a0 = NameAdmin" "role_perms db (bm_ID a0) = set AllPermissions"
    and r0: "r0 \<in> set (rows (rd_roles db))" "base_live r0" "rl_Name r0 = NameUser" "role_perms db (bm_ID r0) = {ProductRead}"
    using assms(3) unfolding seeded_def by blast
  have same: "rd_permissions db' = rd_permissions db" "rd_roles db' = rd_roles db"
    using assms(3) p f r a0 r0 by (auto simp: seeded_def)
  have "inj_on rl_Name (set (rows (rd_roles db)))" using assms(2) by (simp add: table_ok_def unique_on_def distinct_map)
  then have "a = a0" "r = r0" using a0 r0 r same by (metis inj_onD)+
  moreover have "role_perms db' rid = role_perms db rid" if "rid \<noteq> bm_ID a" "rid \<noteq> bm_ID r"
    by (rule role_perms_cong [OF same(1) o [OF that]])
  ultimately have perms: "role_perms db' rid = role_perms db rid"
    using a0(4) r0(4) r(7,8) by (cases "rid = bm_ID a"; cases "rid = bm_ID r") auto
  obtain db3 where d3: "ud_users db3 = ud_users db" "ud_user_roles db3 = ud_user_roles db"
    "seed_admin_user G B salt bs db3 = (Inr (), db')" using u by blast
  have "db' = db3" using seed_admin_user_ok [OF d3(3)] assms(3) unfolding seeded_def d3(1) by blast
  then show "rd_permissions db' = rd_permissions db" "rd_roles db' = rd_roles db" "role_perms db' rid = role_perms db rid"
    "ud_users db' = ud_users db" "ud_user_roles db' = ud_user_roles db"
    using same perms d3 by simp_all
qed

end

section \<open>Properties\<close>

text \<open>
  When \<open>SeedAdmin\<close> succeeds, every built-in permission exists (missing ones with their default
  description, present ones untouched), \<open>ADMIN\<close> grants all of them, \<open>USER\<close> grants exactly
  \<open>PRODUCT_READ\<close> whatever an administrator had assigned to it before, and the bootstrap
  account exists.
\<close>

theorem bootstrap_SeedAdmin_establishes:
  assumes "user_store G" "permissions_ok (rd_permissions db)" "roles_ok (rd_roles db)"
    and "SeedAdmin G B salt bs db = (Inr (), db')"
  shows "seeded (bc_AdminUsername bs) db'
    \<and> catalogue (rd_permissions db') = with_defaults AllPermissions (catalogue (rd_permissions db))"
proof
  show "seeded (bc_AdminUsername bs) db'" by (rule user_store.SeedAdmin_seeded [OF assms])
  show "catalogue (rd_permissions db') = with_defaults AllPermissions (catalogue (rd_permissions db))"
    by (rule user_store.SeedAdmin_ok [OF assms])
qed


text \<open>
  C27: a built-in permission or role that has been deleted through the API, or a deleted bootstrap
  account, makes the next boot fail: the marked row is invisible to the lookup but still owns its
  unique name.
\<close>

theorem bootstrap_fails_after_delete:
  assumes "user_store G" "permissions_ok (rd_permissions db)" "roles_ok (rd_roles db)"
    and "(\<exists>p \<in> set (rows (rd_permissions db)). \<not> base_live p \<and> pm_Name p \<in> set AllPermissions) \<or>
         (\<exists>r \<in> set (rows (rd_roles db)). \<not> base_live r \<and> rl_Name r \<in> {NameAdmin, NameUser}) \<or>
         (\<exists>u \<in> set (rows (ud_users db)). \<not> base_live u \<and> (u_Username u = bc_AdminUsername bs \<or> u_Email u = bc_AdminEmail bs) \<and>
            (\<forall>x \<in> set (rows (ud_users db)). base_live x \<longrightarrow> u_Username x \<noteq> bc_AdminUsername bs \<and> u_Email x \<noteq> bc_AdminUsername bs))"
  shows "\<exists>e db'. SeedAdmin G B salt bs db = (Inl e, db')"
proof (rule ccontr)
  assume "\<not> ?thesis"
  then obtain db' where s: "SeedAdmin G B salt bs db = (Inr (), db')"
    by (cases "SeedAdmin G B salt bs db"; cases "fst (SeedAdmin G B salt bs db)") auto
  have pm: False if p: "p \<in> set (rows (rd_permissions db))" "\<not> base_live p" "pm_Name p \<in> set AllPermissions" for p
  proof -
    obtain t where "seed_permissions (rg_permissions (ug_role G)) AllPermissions (rd_permissions db) = (Inr (), t)"
      using s by (auto simp: SeedAdmin_def bindE_Inr zoomE_eq)
    moreover have "permission_store (rg_permissions (ug_role G))"
      using assms(1) by (simp add: user_store_def role_store_def)
    ultimately show False using permission_store.seed_blocked [OF _ assms(2) p] by fastforce
  qed
  show False
  proof (rule user_store.SeedAdmin_ok [OF assms(1-3) s])
    fix a r
    assume ok: "roles_ok (rd_roles db')" and r: "a \<in> set (rows (rd_roles db'))" "base_live a" "rl_Name a = NameAdmin"
      "r \<in> set (rows (rd_roles db'))" "base_live r" "rl_Name r = NameUser"
      and pre: "set (rows (rd_roles db)) \<subseteq> set (rows (rd_roles db'))"
      and u: "\<exists>db3. ud_users db3 = ud_users db \<and> ud_user_roles db3 = ud_user_roles db \<and> rd_roles db3 = rd_roles db'
       \<and> seed_admin_user G B salt bs db3 = (Inr (), db')"
    have "inj_on rl_Name (set (rows (rd_roles db')))" using ok by (simp add: table_ok_def unique_on_def distinct_map)
    then have rl: False if "y \<in> set (rows (rd_roles db))" "\<not> base_live y" "rl_Name y \<in> {NameAdmin, NameUser}" for y
      using that r pre by (metis inj_onD insertE singletonD subsetD)
    have us: False if y: "y \<in> set (rows (ud_users db))" "\<not> base_live y" "u_Username y = bc_AdminUsername bs \<or> u_Email y = bc_AdminEmail bs"
      and n: "\<forall>x \<in> set (rows (ud_users db)). base_live x \<longrightarrow> u_Username x \<noteq> bc_AdminUsername bs \<and> u_Email x \<noteq> bc_AdminUsername bs" for y
    proof -
      obtain db3 where d3: "ud_users db3 = ud_users db" "seed_admin_user G B salt bs db3 = (Inr (), db')" using u by blast
      show False using user_store.seed_admin_user_ok [OF assms(1) d3(2)]
      proof (elim disjE conjE exE)
        assume "\<exists>u \<in> set (rows (ud_users db3)). base_live u \<and> (u_Username u = bc_AdminUsername bs \<or> u_Email u = bc_AdminUsername bs)"
        then show False using n by (auto simp: d3(1))
      next
        fix x t hash assume "rows t = rows (ud_users db3) @ [x]" "unique_users (rows t)" "admin_row bs hash x"
        moreover from this have "u_Username x \<noteq> u_Username y" "u_Email x \<noteq> u_Email y"
          using y(1) by (auto simp: d3(1) unique_users_def unique_on_def)
        ultimately show False using y(3) by (simp add: admin_row_def)
      qed
    qed
    show False using assms(4) pm rl us by blast
  qed
qed

text \<open>
  On a first boot the administrator is created with everything: it is enabled, the configured
  password matches its stored hash, and the tables grant it the \<open>ADMIN\<close> role and every built-in
  permission.
\<close>

lemma admin_granted_all:
  assumes "user_store G" "bcrypt_library B" "permissions_ok (rd_permissions db)" "roles_ok (rd_roles db)"
    and "rows (ud_users db) = []" "SeedAdmin G B salt bs db = (Inr (), db')"
  shows "\<exists>u. rows (ud_users db') = [u] \<and> base_live u \<and> u_Enabled u \<and> u_Username u = bc_AdminUsername bs
    \<and> u_Email u = bc_AdminEmail bs \<and> CheckPassword B (u_PasswordHash u) (bc_AdminPassword bs)
    \<and> insert (''ROLE_'' @ NameAdmin) (set AllPermissions) \<subseteq> granted db' (bm_ID u)"
proof (rule user_store.SeedAdmin_ok [OF assms(1,3,4,6)])
  fix a
  assume ok: "roles_ok (rd_roles db')" and a: "a \<in> set (rows (rd_roles db'))" "base_live a" "rl_Name a = NameAdmin"
    "role_perms db' (bm_ID a) = set AllPermissions"
    and u: "\<exists>db3. ud_users db3 = ud_users db \<and> ud_user_roles db3 = ud_user_roles db \<and> rd_roles db3 = rd_roles db'
       \<and> seed_admin_user G B salt bs db3 = (Inr (), db')"
  then obtain db3 where d3: "ud_users db3 = ud_users db" "rd_roles db3 = rd_roles db'" "seed_admin_user G B salt bs db3 = (Inr (), db')"
    by blast
  from user_store.seed_admin_user_ok [OF assms(1) d3(3)] show ?thesis
  proof (elim disjE conjE exE)
    fix hash b x t j
    assume h: "HashPassword B salt (bc_AdminPassword bs) = Inr hash" and b: "b \<in> set (rows (rd_roles db3))" "base_live b" "rl_Name b = NameAdmin"
      and n: "db' = db3\<lparr>ud_users := t, ud_user_roles := j\<rparr>" "rows t = rows (ud_users db3) @ [x]" "admin_row bs hash x"
      and l: "(bm_ID x, bm_ID b) \<in> set j"
    have "inj_on rl_Name (set (rows (rd_roles db')))" using ok by (simp add: table_ok_def unique_on_def distinct_map)
    then have "b = a" using a b d3(2) by (metis inj_onD)
    then have "a \<in> roles_of db' (bm_ID x)" using a l by (simp add: roles_of_def n(1))
    then have "insert (''ROLE_'' @ rl_Name a) (role_perms db' (bm_ID a)) \<subseteq> granted db' (bm_ID x)"
      unfolding granted_def by (rule UN_upper)
    then have "insert (''ROLE_'' @ NameAdmin) (set AllPermissions) \<subseteq> granted db' (bm_ID x)"
      by (simp only: a(3,4))
    then show ?thesis using n(2,3) bcrypt_library.Check_Hash [OF assms(2) h] assms(5)
      by (intro exI [of _ x]) (simp add: n(1) d3(1) admin_row_def)
  qed (simp add: d3(1) assms(5))
qed

section \<open>A first boot in memory\<close>

lemma mem_base_First:
  "db_First (mem_base cons) P t = Inl e \<Longrightarrow> e = ErrRecordNotFound \<and> (\<forall>r \<in> set (rows t). base_live r \<longrightarrow> \<not> P r)"
  unfolding mem_base_def mem_First_none by (auto simp: filter_empty_conv)

lemma mem_first_opt: "\<exists>e. first_opt (mem_base cons) P t = Inr e"
  using mem_base_First [of cons P t] by (cases "db_First (mem_base cons) P t") (auto simp: first_opt_def)

lemma mem_base_Create:
  "next_id t < 2 ^ 63 \<Longrightarrow> cons (rows t @ [r\<lparr>bm_ID := of_nat (max 1 (next_id t))\<rparr>]) \<Longrightarrow>
   db_Create (mem_base cons) r t = (Inr (r\<lparr>bm_ID := of_nat (max 1 (next_id t))\<rparr>),
     \<lparr>rows = rows t @ [r\<lparr>bm_ID := of_nat (max 1 (next_id t))\<rparr>], next_id = Suc (max 1 (next_id t))\<rparr>)"
  by (simp add: mem_base_def mem_gorm_def Let_def)

lemma mem_seed:
  "1 \<le> next_id t \<Longrightarrow> next_id t + length names < 2 ^ 63 \<Longrightarrow> unique_on pm_Name (rows t) \<Longrightarrow> list_all base_live (rows t) \<Longrightarrow>
   \<exists>t'. seed_permissions mem_permissions names t = (Inr (), t') \<and> next_id t \<le> next_id t' \<and> next_id t' \<le> next_id t + length names
     \<and> unique_on pm_Name (rows t') \<and> list_all base_live (rows t')"
proof (induction names arbitrary: t)
  case (Cons name names)
  obtain e where e: "permission_repo_GetByName mem_permissions name t = Inr e"
    using mem_first_opt unfolding permission_repo_GetByName_def mem_permissions_def by blast
  show ?case
  proof (cases "e = None")
    case False
    have "\<exists>t'. seed_permissions mem_permissions names t = (Inr (), t') \<and> next_id t \<le> next_id t' \<and> next_id t' \<le> next_id t + length names
       \<and> unique_on pm_Name (rows t') \<and> list_all base_live (rows t')"
      by (rule Cons.IH) (use Cons.prems in simp_all)
    moreover have "seed_permissions mem_permissions (name # names) t = seed_permissions mem_permissions names t"
      using e False by (simp add: bindE_def del: not_None_eq)
    ultimately show ?thesis by auto
  next
    case True
    let ?r = "(setCreatedBy (Some Background) (new_permission name (name @ '' permission'')))\<lparr>bm_ID := of_nat (next_id t)\<rparr>"
    let ?t = "\<lparr>rows = rows t @ [?r], next_id = Suc (next_id t)\<rparr>"
    have n: "pm_Name ?r = name" "base_live ?r" by (simp_all add: new_permission_def zero_base_def setCreatedBy_def base_live_def Let_def)
    have "\<forall>r \<in> set (rows t). pm_Name r \<noteq> name"
      using e True mem_permissions.GetByName_catalogue [OF e] Cons.prems(4) by (auto simp: catalogue_None list_all_iff)
    then have u: "unique_on pm_Name (rows t @ [?r])" using Cons.prems(3) n(1) by (auto simp: unique_on_def)
    have c: "permission_repo_Create mem_permissions (Some Background) (new_permission name (name @ '' permission'')) t = (Inr ?r, ?t)"
      using mem_base_Create [of t "unique_on pm_Name" "setCreatedBy (Some Background) (new_permission name (name @ '' permission''))"]
        u Cons.prems(1,2) by (simp add: permission_repo_Create_def mem_permissions_def)
    have "\<exists>t'. seed_permissions mem_permissions names ?t = (Inr (), t') \<and> next_id ?t \<le> next_id t' \<and> next_id t' \<le> next_id ?t + length names
       \<and> unique_on pm_Name (rows t') \<and> list_all base_live (rows t')"
      by (rule Cons.IH) (use Cons.prems u n(2) in simp_all)
    then obtain t' where "seed_permissions mem_permissions names ?t = (Inr (), t')" "Suc (next_id t) \<le> next_id t'"
      "next_id t' \<le> Suc (next_id t) + length names" "unique_on pm_Name (rows t')" "list_all base_live (rows t')" by auto
    then show ?thesis using e True c by (intro exI [of _ t']) (simp add: seed_step del: seed_permissions.simps)
  qed
qed simp

lemma mem_GetRole:
  "\<exists>e. role_repo_GetByName mem_role_gorm name db = Inr e
     \<and> (e = None \<longleftrightarrow> (\<forall>r \<in> set (rows (rd_roles db)). base_live r \<longrightarrow> rl_Name r \<noteq> name))"
proof -
  obtain e where e: "first_opt mem_roles (\<lambda>r. rl_Name r = name) (rd_roles db) = Inr e"
    using mem_first_opt unfolding mem_roles_def by blast
  have "e = None \<longleftrightarrow> (\<forall>r \<in> set (rows (rd_roles db)). base_live r \<longrightarrow> rl_Name r \<noteq> name)"
  proof (cases e)
    case None
    then show ?thesis using mem_role_gorm.roles.first_opt_None [of _ "rd_roles db"] e by (auto simp: mem_role_gorm_def)
  next
    case (Some r)
    then show ?thesis using mem_role_gorm.roles.first_opt_Some [of _ "rd_roles db" r] e by (auto simp: mem_role_gorm_def)
  qed
  then show ?thesis using e
    by (cases e) (auto simp: role_repo_GetByName_def preload_opt_def mem_role_gorm_def preload_permissions_def mem_assoc_def)
qed

definition roles_ready :: "Role table \<Rightarrow> bool" where
  "roles_ready t = (1 \<le> next_id t \<and> unique_on rl_Name (rows t) \<and> list_all base_live (rows t))"

lemma mem_ensureRole:
  assumes "roles_ready (rd_roles db)" "next_id (rd_roles db) < 2 ^ 63"
  shows "\<exists>r t j. ensureRole mem_role_gorm name desc perms db = (Inr r, db\<lparr>rd_roles := t, rd_role_permissions := j\<rparr>)
    \<and> roles_ready t \<and> next_id t \<le> Suc (next_id (rd_roles db))
    \<and> (\<exists>x \<in> set (rows t). rl_Name x = name) \<and> rl_Name ` set (rows (rd_roles db)) \<subseteq> rl_Name ` set (rows t)"
proof -
  obtain found where f: "role_repo_GetByName mem_role_gorm name db = Inr found"
    "found = None \<longleftrightarrow> (\<forall>r \<in> set (rows (rd_roles db)). base_live r \<longrightarrow> rl_Name r \<noteq> name)" using mem_GetRole by blast
  have "\<exists>e t j. (case found of None \<Rightarrow> role_repo_Create mem_role_gorm (Some Background) (new_role name desc) | Some r \<Rightarrow> returnE r) db
      = (Inr e, db\<lparr>rd_roles := t, rd_role_permissions := j\<rparr>) \<and> roles_ready t \<and> next_id t \<le> Suc (next_id (rd_roles db))
      \<and> (\<exists>x \<in> set (rows t). rl_Name x = name) \<and> rl_Name ` set (rows (rd_roles db)) \<subseteq> rl_Name ` set (rows t)"
  proof (cases found)
    case (Some r)
    then show ?thesis using f(2) assms(1)
      by (intro exI [of _ r] exI [of _ "rd_roles db"] exI [of _ "rd_role_permissions db"]) auto
  next
    case None
    let ?c = "role_columns (setCreatedBy (Some Background) (new_role name desc))"
    let ?x = "?c\<lparr>bm_ID := of_nat (next_id (rd_roles db))\<rparr>"
    have x: "rl_Name ?x = name" "base_live ?x"
      by (simp_all add: new_role_def zero_base_def setCreatedBy_def base_live_def role_columns_def Let_def)
    have u: "unique_on rl_Name (rows (rd_roles db) @ [?x])"
      using None f(2) assms(1) x(1) by (auto simp: unique_on_def roles_ready_def list_all_iff)
    then have c: "db_Create mem_roles ?c (rd_roles db) = (Inr ?x, \<lparr>rows = rows (rd_roles db) @ [?x], next_id = Suc (next_id (rd_roles db))\<rparr>)"
      using mem_base_Create [of "rd_roles db" "unique_on rl_Name" ?c] assms by (simp add: mem_roles_def roles_ready_def)
    have "role_repo_Create mem_role_gorm (Some Background) (new_role name desc) db
        = (Inr (?x\<lparr>rl_Permissions := []\<rparr>),
           db\<lparr>rd_roles := \<lparr>rows = rows (rd_roles db) @ [?x], next_id = Suc (next_id (rd_roles db))\<rparr>,
              rd_role_permissions := add_joins (bm_ID ?x) [] (rd_role_permissions db)\<rparr>)"
      using c by (simp add: role_repo_Create_def bindE_def zoomE_def dbE_def mem_role_gorm_def mem_assoc_def put_roles_def
          new_role_def zero_base_def)
    then show ?thesis using None u x assms(1) unfolding roles_ready_def
      by (intro exI conjI) (auto simp del: add_joins_def)
  qed
  then obtain e t j where e: "(case found of None \<Rightarrow> role_repo_Create mem_role_gorm (Some Background) (new_role name desc) | Some r \<Rightarrow> returnE r) db
      = (Inr e, db\<lparr>rd_roles := t, rd_role_permissions := j\<rparr>)"
    and t: "roles_ready t" "next_id t \<le> Suc (next_id (rd_roles db))" "\<exists>x \<in> set (rows t). rl_Name x = name"
      "rl_Name ` set (rows (rd_roles db)) \<subseteq> rl_Name ` set (rows t)" by blast
  obtain ps where ps: "permission_repo_FindAllByNames (rg_permissions mem_role_gorm) perms (rd_permissions db) = Inr ps"
    by (cases "perms = []") (auto simp: permission_repo_FindAllByNames_def dbR_def mem_role_gorm_def mem_permissions_def mem_base_def mem_gorm_def)
  let ?db = "db\<lparr>rd_roles := t, rd_role_permissions := add_joins (bm_ID e) (map bm_ID ps) (filter (\<lambda>p. fst p \<noteq> bm_ID e) j)\<rparr>"
  have rp: "role_repo_ReplacePermissions mem_role_gorm e ps (db\<lparr>rd_roles := t, rd_role_permissions := j\<rparr>) = (Inr (), ?db)"
    by (simp add: role_repo_ReplacePermissions_def zoomE_def dbE_def mem_role_gorm_def mem_assoc_def)
  have "ensureRole mem_role_gorm name desc perms db = (Inr (e\<lparr>rl_Permissions := ps\<rparr>), ?db)"
    using e by (simp add: ensureRole_def bindE_def f(1) ps rp)
  then show ?thesis using t by blast
qed

definition empty_db :: user_db where
  "empty_db =
     \<lparr>rd_permissions = \<lparr>rows = [], next_id = 1\<rparr>, rd_roles = \<lparr>rows = [], next_id = 1\<rparr>, rd_role_permissions = [],
      ud_users = \<lparr>rows = [], next_id = 1\<rparr>, ud_user_roles = [], ud_sessions = \<lparr>rows = [], next_id = 1\<rparr>\<rparr>"

definition demo_bootstrap :: BootstrapConfig where
  "demo_bootstrap = \<lparr>bc_AdminUsername = ''admin'', bc_AdminEmail = ''admin@gmail.com'', bc_AdminPassword = ''admin123''\<rparr>"

text \<open>Room for \<open>k\<close> more boots: nothing marked, keys below the limit, and no account or the administrator.\<close>

definition boot_ready :: "nat \<Rightarrow> 'x user_db_scheme \<Rightarrow> bool" where
  "boot_ready k db =
     (1 \<le> next_id (rd_permissions db) \<and> next_id (rd_permissions db) + 20 * k < 2 ^ 63 \<and>
      unique_on pm_Name (rows (rd_permissions db)) \<and> list_all base_live (rows (rd_permissions db)) \<and>
      roles_ready (rd_roles db) \<and> next_id (rd_roles db) + 2 * k < 2 ^ 63 \<and>
      (rows (ud_users db) = [] \<and> 1 \<le> next_id (ud_users db) \<and> next_id (ud_users db) < 2 ^ 63 \<or>
       (\<exists>u \<in> set (rows (ud_users db)). base_live u \<and> u_Username u = ''admin'')))"

lemma mem_GetUser:
  "\<exists>e. user_repo_GetByUsernameOrEmail mem_user_gorm name db = Inr e
     \<and> (e = None \<longleftrightarrow> (\<forall>u \<in> set (rows (ud_users db)). base_live u \<longrightarrow> u_Username u \<noteq> name \<and> u_Email u \<noteq> name))"
proof -
  let ?P = "\<lambda>r. u_Username r = name \<or> u_Email r = name"
  obtain e where e: "first_opt mem_users ?P (ud_users db) = Inr e"
    using mem_first_opt unfolding mem_users_def by blast
  have "e = None \<longleftrightarrow> (\<forall>u \<in> set (rows (ud_users db)). base_live u \<longrightarrow> u_Username u \<noteq> name \<and> u_Email u \<noteq> name)"
  proof (cases e)
    case None
    then show ?thesis using mem_user_gorm.users.first_opt_None [of ?P "ud_users db"] e by (auto simp: mem_user_gorm_def)
  next
    case (Some r)
    then show ?thesis using mem_user_gorm.users.first_opt_Some [of ?P "ud_users db" r] e by (auto simp: mem_user_gorm_def)
  qed
  moreover have "mapE (preload_permissions mem_role_gorm db) rs = Inr (map (\<lambda>r. r\<lparr>rl_Permissions :=
       filter (\<lambda>x. base_live x \<and> List.member (rd_role_permissions db) (bm_ID r, bm_ID x)) (rows (rd_permissions db))\<rparr>) rs)" for rs
    by (induction rs) (simp_all add: preload_permissions_def mem_role_gorm_def mem_assoc_def)
  ultimately show ?thesis using e
    by (cases e) (auto simp: user_repo_GetByUsernameOrEmail_def preload_opt_def mem_user_gorm_def preload_roles_def mem_assoc_def)
qed

lemma mem_seed_admin_user:
  assumes "rows (ud_users db) = [] \<and> 1 \<le> next_id (ud_users db) \<and> next_id (ud_users db) < 2 ^ 63 \<or>
       (\<exists>u \<in> set (rows (ud_users db)). base_live u \<and> u_Username u = ''admin'')"
    and "\<exists>x \<in> set (rows (rd_roles db)). base_live x \<and> rl_Name x = NameAdmin"
  shows "\<exists>t j. seed_admin_user mem_user_gorm plain_bcrypt 1 demo_bootstrap db = (Inr (), db\<lparr>ud_users := t, ud_user_roles := j\<rparr>)
    \<and> (\<exists>u \<in> set (rows t). base_live u \<and> u_Username u = ''admin'')"
proof -
  obtain e where e: "user_repo_GetByUsernameOrEmail mem_user_gorm ''admin'' db = Inr e"
    "e = None \<longleftrightarrow> (\<forall>u \<in> set (rows (ud_users db)). base_live u \<longrightarrow> u_Username u \<noteq> ''admin'' \<and> u_Email u \<noteq> ''admin'')"
    using mem_GetUser by blast
  show ?thesis
  proof (cases "e = None")
    case False
    then have "seed_admin_user mem_user_gorm plain_bcrypt 1 demo_bootstrap db = (Inr (), db)"
      using e(1) by (auto simp: seed_admin_user_def bindE_def demo_bootstrap_def)
    moreover have "\<exists>u \<in> set (rows (ud_users db)). base_live u \<and> u_Username u = ''admin''" using assms(1) False e(2) by auto
    ultimately show ?thesis by (intro exI [of _ "ud_users db"] exI [of _ "ud_user_roles db"]) simp
  next
    case True
    then have empty: "rows (ud_users db) = []" "1 \<le> next_id (ud_users db)" "next_id (ud_users db) < 2 ^ 63"
      using e(2) assms(1) by auto
    obtain ar where ar: "role_repo_GetByName mem_role_gorm NameAdmin db = Inr (Some ar)"
      using mem_GetRole [of NameAdmin db] assms(2) by auto
    obtain hash where h: "HashPassword plain_bcrypt 1 ''admin123'' = Inr hash"
      by (simp add: HashPassword_def plain_bcrypt_def)
    let ?u = "(new_user ''admin'' ''admin@gmail.com'' hash ''System Administrator'')\<lparr>u_Roles := [ar]\<rparr>"
    let ?c = "user_columns (setCreatedBy (Some Background) ?u)"
    let ?x = "?c\<lparr>bm_ID := of_nat (next_id (ud_users db))\<rparr>"
    have x: "u_Username ?x = ''admin''" "base_live ?x"
      by (simp_all add: new_user_def zero_base_def setCreatedBy_def base_live_def user_columns_def Let_def)
    have c: "db_Create mem_users ?c (ud_users db) = (Inr ?x, \<lparr>rows = [?x], next_id = Suc (next_id (ud_users db))\<rparr>)"
      using mem_base_Create [of "ud_users db" unique_users ?c] empty by (simp add: mem_users_def unique_users_def unique_on_def)
    have ug: "ug_role mem_user_gorm = mem_role_gorm" by (simp add: mem_user_gorm_def)
    have "user_repo_Create mem_user_gorm (Some Background) ?u db
       = (Inr (?x\<lparr>u_Roles := [ar]\<rparr>), db\<lparr>ud_users := \<lparr>rows = [?x], next_id = Suc (next_id (ud_users db))\<rparr>,
            ud_user_roles := add_joins (bm_ID ?x) [bm_ID ar] (ud_user_roles db)\<rparr>)"
      using c by (simp add: user_repo_Create_def bindE_def zoomE_def dbE_def mem_user_gorm_def mem_assoc_def put_users_def)
    then have "seed_admin_user mem_user_gorm plain_bcrypt 1 demo_bootstrap db
       = (Inr (), db\<lparr>ud_users := \<lparr>rows = [?x], next_id = Suc (next_id (ud_users db))\<rparr>,
            ud_user_roles := add_joins (bm_ID ?x) [bm_ID ar] (ud_user_roles db)\<rparr>)"
      using e(1) True h ar ug by (simp add: seed_admin_user_def bindE_def demo_bootstrap_def)
    then show ?thesis using x by (intro exI conjI) auto
  qed
qed

text \<open>In memory every boot with room succeeds, and leaves room for the next.\<close>

lemma mem_boot:
  assumes "boot_ready (Suc k) db"
  shows "\<exists>db'. SeedAdmin mem_user_gorm plain_bcrypt 1 demo_bootstrap db = (Inr (), db') \<and> boot_ready k db'"
proof -
  have ug: "ug_role mem_user_gorm = mem_role_gorm" "rg_permissions mem_role_gorm = mem_permissions"
    by (simp_all add: mem_user_gorm_def mem_role_gorm_def)
  have len: "length AllPermissions = 20" by (simp add: AllPermissions_def)
  obtain t where t: "seed_permissions mem_permissions AllPermissions (rd_permissions db) = (Inr (), t)"
    "next_id (rd_permissions db) \<le> next_id t" "next_id t \<le> next_id (rd_permissions db) + 20"
    "unique_on pm_Name (rows t)" "list_all base_live (rows t)"
    using mem_seed [of "rd_permissions db" AllPermissions] assms by (auto simp: boot_ready_def len)
  let ?db1 = "db\<lparr>rd_permissions := t\<rparr>"
  obtain r1 t1 j1 where 1: "ensureRole mem_role_gorm NameAdmin ''Full administrator'' AllPermissions ?db1
      = (Inr r1, ?db1\<lparr>rd_roles := t1, rd_role_permissions := j1\<rparr>)"
    "roles_ready t1" "next_id t1 \<le> Suc (next_id (rd_roles db))" "\<exists>x \<in> set (rows t1). rl_Name x = NameAdmin"
    using mem_ensureRole [of ?db1 NameAdmin "''Full administrator''" AllPermissions] assms by (auto simp: boot_ready_def)
  let ?db2 = "?db1\<lparr>rd_roles := t1, rd_role_permissions := j1\<rparr>"
  have p: "roles_ready (rd_roles ?db2)" "next_id (rd_roles ?db2) < 2 ^ 63" using assms 1(2,3) by (simp_all add: boot_ready_def)
  from mem_ensureRole [OF p, of NameUser "''Default end user''" "[ProductRead]"]
  obtain r2 t2 j2 where 2: "ensureRole mem_role_gorm NameUser ''Default end user'' [ProductRead] ?db2
      = (Inr r2, ?db2\<lparr>rd_roles := t2, rd_role_permissions := j2\<rparr>)"
    "roles_ready t2" "next_id t2 \<le> Suc (next_id (rd_roles ?db2))" "rl_Name ` set (rows (rd_roles ?db2)) \<subseteq> rl_Name ` set (rows t2)" by blast
  let ?db3 = "?db2\<lparr>rd_roles := t2, rd_role_permissions := j2\<rparr>"
  have "NameAdmin \<in> rl_Name ` set (rows t1)" using 1(4) by force
  then have "NameAdmin \<in> rl_Name ` set (rows t2)" using 2(4) by auto
  then obtain x where "x \<in> set (rows t2)" "rl_Name x = NameAdmin" by (metis imageE)
  then have adm: "\<exists>x \<in> set (rows t2). base_live x \<and> rl_Name x = NameAdmin"
    using 2(2) by (intro bexI [of _ x]) (auto simp: roles_ready_def list_all_iff)
  obtain tu ju where 3: "seed_admin_user mem_user_gorm plain_bcrypt 1 demo_bootstrap ?db3 = (Inr (), ?db3\<lparr>ud_users := tu, ud_user_roles := ju\<rparr>)"
    "\<exists>u \<in> set (rows tu). base_live u \<and> u_Username u = ''admin''"
    using mem_seed_admin_user [of ?db3] adm assms by (auto simp: boot_ready_def)
  have "SeedAdmin mem_user_gorm plain_bcrypt 1 demo_bootstrap db = (Inr (), ?db3\<lparr>ud_users := tu, ud_user_roles := ju\<rparr>)"
    unfolding SeedAdmin_def ug using t(1) 1(1) 2(1) 3(1) by (simp add: bindE_def zoomE_def)
  moreover have "boot_ready k (?db3\<lparr>ud_users := tu, ud_user_roles := ju\<rparr>)"
    using assms t 1(3) 2(2,3) 3(2) by (simp add: boot_ready_def)
  ultimately show ?thesis by blast
qed

lemma empty_db_ready: "boot_ready 2 empty_db"
  by (simp add: boot_ready_def roles_ready_def empty_db_def unique_on_def)

lemma empty_db_ok: "permissions_ok (rd_permissions empty_db)" "roles_ok (rd_roles empty_db)"
  by (simp_all add: empty_db_def table_ok_def unique_on_def)

lemma first_boot:
  obtains db' where "SeedAdmin mem_user_gorm plain_bcrypt 1 demo_bootstrap empty_db = (Inr (), db')" "boot_ready 1 db'"
  using mem_boot [of 1 empty_db] empty_db_ready by (auto simp: numeral_2_eq_2)

theorem bootstrap_SeedAdmin_establishes_witness:
  "\<exists>db'. SeedAdmin mem_user_gorm plain_bcrypt 1 demo_bootstrap empty_db = (Inr (), db') \<and> seeded ''admin'' db'"
proof (rule first_boot)
  fix db' assume s: "SeedAdmin mem_user_gorm plain_bcrypt 1 demo_bootstrap empty_db = (Inr (), db')"
  show ?thesis
    using bootstrap_SeedAdmin_establishes [OF mem_user_gorm_store empty_db_ok s] s by (auto simp: demo_bootstrap_def)
qed


theorem bootstrap_fails_after_delete_witness:
  "\<exists>e db'. SeedAdmin mem_user_gorm plain_bcrypt 1 demo_bootstrap
     (empty_db\<lparr>rd_permissions := \<lparr>rows = [demo_permission 1 UserRead (Some 5)], next_id = 2\<rparr>\<rparr>) = (Inl e, db')"
proof (rule bootstrap_fails_after_delete [OF mem_user_gorm_store], goal_cases)
  case 3
  then show ?case
    by (intro disjI1) (simp add: demo_permission_defs base_live_def AllPermissions_def)
qed (simp_all add: empty_db_def table_ok_def unique_on_def demo_permission_defs)

section \<open>The jobs that run\<close>

text \<open>The interval jobs a configuration asks for, in the order of registration.\<close>

definition builtin_jobs :: "Config \<Rightarrow> builtin_job intervalJob list" where
  "builtin_jobs cfg =
     filter (\<lambda>j. 0 < ij_interval j)
       ([\<lparr>ij_name = ''session-cleanup'', ij_interval = ssc_CleanupInterval (cfg_Sessions cfg), ij_fn = SessionCleanup\<rparr>]
        @ (if ic_Enabled (cfg_Idem cfg)
           then [\<lparr>ij_name = ''idempotency-cleanup'', ij_interval = ic_CleanupInterval (cfg_Idem cfg), ij_fn = IdempotencyCleanup\<rparr>] else [])
        @ [\<lparr>ij_name = ''password-reset-cleanup'', ij_interval = mc_PasswordResetCleanupInterval (cfg_Mail cfg),
            ij_fn = PasswordResetCleanup\<rparr>])"

lemma registerBuiltInJobs_eq:
  "\<not> sd_started s \<Longrightarrow> registerBuiltInJobs cfg s = s\<lparr>sd_intervals := sd_intervals s @ builtin_jobs cfg\<rparr>"
  by (simp add: registerBuiltInJobs_def builtin_jobs_def sched_Every_def Let_def)

lemma NewDependencies_Inr:
  "NewDependencies cb M new_mux mux_add unmarshal cfg = Inr d \<Longrightarrow>
     dp_Cfg d = cfg \<and> dp_Scheduler d = sched_New \<and> dp_Pool d = NewPool (jbc_WorkerPoolSize (cfg_Jobs cfg)) (jbc_QueueSize (cfg_Jobs cfg)) \<and> \<not> dp_queue_running d"
  by (auto simp: NewDependencies_def Let_def split: option.split_asm sum.split_asm)

text \<open>
  The scheduler runs exactly the jobs the configuration asks for, none of them with an interval its
  ticker would panic on, and stopping cancels every one of them, the queue and the pool.
\<close>

lemma background_jobs:
  assumes "NewDependencies cb M new_mux mux_add unmarshal cfg = Inr d"
  shows "map fst (sd_spawned (dp_Scheduler (StartBackgroundJobs d)))
      = (if jbc_Enabled (cfg_Jobs cfg) then map GInterval (builtin_jobs cfg) else [])
    \<and> list_all (\<lambda>(g, c). \<not> ticker_panics g) (sd_spawned (dp_Scheduler (StartBackgroundJobs d)))
    \<and> (let d' = StopBackgroundJobs (StartBackgroundJobs d)
       in list_all (\<lambda>(g, c). c \<in> sd_cancelled (dp_Scheduler d')) (sd_spawned (dp_Scheduler d'))
          \<and> \<not> sd_started (dp_Scheduler d') \<and> \<not> dp_queue_running d' \<and> wp_cancelled (dp_Pool d') = jbc_Enabled (cfg_Jobs cfg))"
proof -
  have d: "dp_Cfg d = cfg" "dp_Scheduler d = sched_New" "\<not> dp_queue_running d" using NewDependencies_Inr [OF assms] by blast+
  obtain s q where p: "dp_Pool d = NewPool s q" using NewDependencies_Inr [OF assms] by blast
  have b: "list_all (\<lambda>j. \<not> ticker_panics (GInterval j)) (builtin_jobs cfg)"
    by (simp add: ticker_panics_def builtin_jobs_def)
  have pool: "\<not> wp_cancelled (dp_Pool d)" "wp_cancelled (pool_Stop (pool_Start (dp_Pool d)))"
    by (simp_all add: p NewPool_def pool_Stop_def pool_Start_def Let_def)
  show ?thesis
  proof (cases "jbc_Enabled (cfg_Jobs cfg)")
    case True
    have sp: "dp_Scheduler (StartBackgroundJobs d) = sched_Start (registerBuiltInJobs cfg sched_New)"
      "dp_Cfg (StartBackgroundJobs d) = cfg" "dp_Pool (StartBackgroundJobs d) = pool_Start (dp_Pool d)"
      "dp_Queue (StartBackgroundJobs d) = dp_Queue d" "dp_queue_running (StartBackgroundJobs d) = (dp_Queue d \<noteq> None)"
      using True d by (simp_all add: StartBackgroundJobs_def Let_def)
    have s: "sd_spawned (sched_Start (registerBuiltInJobs cfg sched_New)) = map (\<lambda>j. (GInterval j, 1)) (builtin_jobs cfg)"
      "sd_started (sched_Start (registerBuiltInJobs cfg sched_New))" "sd_ctx (sched_Start (registerBuiltInJobs cfg sched_New)) = 1"
      by (simp_all add: registerBuiltInJobs_eq sched_Start_eq sched_New_def)
    show ?thesis using True b pool(2)
      by (simp add: StopBackgroundJobs_def Let_def sp s sched_Stop_def comp_def list_all_iff queue_Stop_def split: option.split)
  next
    case False
    then have "StartBackgroundJobs d = d" "StopBackgroundJobs d = d"
      using d(1) by (simp_all add: StartBackgroundJobs_def StopBackgroundJobs_def)
    then show ?thesis using False d pool(1) by (simp add: sched_New_def)
  qed
qed

lemma default_secret: "DecodeString ''change-me-in-prod'' = None"
  by code_simp

text \<open>
  The shipped default secret is shorter than the signing service accepts: with \<open>JWT_SECRET\<close> unset or
  empty the configuration loads, outside production, but the dependency graph can never be built.
\<close>

lemma default_secret_rejected:
  assumes "env ''JWT_SECRET'' = None \<or> env ''JWT_SECRET'' = Some ''''" "env ''APP_ENV'' \<noteq> Some ''prod''"
  shows "\<exists>cfg. Load env = Inr cfg \<and> NewDependencies None M new_mux mux_add unmarshal cfg
           = Inl (PlainError ''jwt: secret must be at least 32 bytes after decoding'')"
proof -
  have s: "jc_Secret (load_jwt env) = ''change-me-in-prod''"
    using assms(1) by (auto simp: load_jwt_def getString_def)
  have e: "app_Env (load_app env) \<noteq> ''prod''"
    using assms(2) by (auto simp: load_app_def getString_def split: option.split)
  obtain cfg where cfg: "Load env = Inr cfg" "cfg_JWT cfg = load_jwt env"
    using s e by (simp add: Load_def Let_def)
  have "NewJwtService (load_jwt env) = Inl (PlainError ''jwt: secret must be at least 32 bytes after decoding'')"
    by (simp add: NewJwtService_def s default_secret Let_def)
  then show ?thesis using cfg by (intro exI [of _ cfg]) (simp add: NewDependencies_def)
qed

end
