(* ===== verification/Cors.thy ===== *)
theory Cors
  imports GoStd
begin

text \<open>
  Origin patterns (\<open>internal/common/web/cors.go\<close>).  \<open>cors.New\<close> itself is a third-party
  middleware; the program's part is the decision \<open>AllowOriginFunc\<close>, which is
  \<open>matchOriginPatterns\<close>.  Indices are natural numbers, results that may be \<open>-1\<close> are
  integers.
\<close>

section \<open>The matcher of the source\<close>

fun splitN_loop :: "char \<Rightarrow> string \<Rightarrow> string list \<Rightarrow> string \<Rightarrow> string list" where
  "splitN_loop sep cur out [] = out @ [cur]"
| "splitN_loop sep cur out (r # s) =
     (if r = sep then splitN_loop sep '''' (out @ [cur]) s else splitN_loop sep (cur @ [r]) out s)"

definition splitN :: "string \<Rightarrow> char \<Rightarrow> string list" where
  "splitN s sep = splitN_loop sep '''' [] s"

definition startsWith :: "string \<Rightarrow> string \<Rightarrow> bool" where
  "startsWith s prefix = (if length s < length prefix then False else take (length prefix) s = prefix)"

definition endsWithFrom :: "string \<Rightarrow> string \<Rightarrow> nat \<Rightarrow> bool" where
  "endsWithFrom s suffix fromPos =
     (if int (length s) - int fromPos < int (length suffix) then False
      else drop (length s - length suffix) s = suffix)"

function index_loop :: "string \<Rightarrow> string \<Rightarrow> nat \<Rightarrow> int" where
  "index_loop s sub i =
     (if i + length sub \<le> length s
      then if take (length sub) (drop i s) = sub then int i else index_loop s sub (i + 1)
      else -1)"
  by auto
termination by (relation "measure (\<lambda>(s, sub, i). Suc (length s) - i)") auto

declare index_loop.simps [simp del]

definition indexFrom :: "string \<Rightarrow> string \<Rightarrow> nat \<Rightarrow> int" where
  "indexFrom s sub from = (if from > length s then -1 else index_loop s sub from)"

text \<open>The loop over the middle chunks; \<open>None\<close> is the early \<open>return false\<close>.\<close>

fun match_parts :: "string \<Rightarrow> nat \<Rightarrow> string list \<Rightarrow> nat option" where
  "match_parts s pos [] = Some pos"
| "match_parts s pos (p # ps) =
     (let idx = indexFrom s p pos
      in if idx < 0 then None else match_parts s (nat idx + length p) ps)"

definition matchWildcard :: "string \<Rightarrow> string \<Rightarrow> bool" where
  "matchWildcard s pattern =
     (if pattern = '''' then False
      else let parts = splitN pattern (CHR ''*'')
           in if length parts = 1 then s = pattern
              else if \<not> startsWith s (parts ! 0) then False
              else case match_parts s (length (parts ! 0)) (butlast (tl parts)) of
                     None \<Rightarrow> False
                   | Some pos \<Rightarrow> endsWithFrom s (last parts) pos)"

fun matchOriginPatterns :: "string \<Rightarrow> string list \<Rightarrow> bool" where
  "matchOriginPatterns origin [] = False"
| "matchOriginPatterns origin (p # ps) =
     (if p = ''*'' \<or> p = origin then True
      else if matchWildcard origin p then True
      else matchOriginPatterns origin ps)"

section \<open>What a pattern means\<close>

text \<open>A star stands for any string, every other character for itself.\<close>

fun glob :: "string \<Rightarrow> string \<Rightarrow> bool" where
  "glob [] s = (s = [])"
| "glob (c # p) s =
     (if c = CHR ''*'' then \<exists>k \<le> length s. glob p (drop k s)
      else case s of [] \<Rightarrow> False | d # t \<Rightarrow> c = d \<and> glob p t)"

section \<open>Splitting\<close>

fun chunks :: "char \<Rightarrow> string \<Rightarrow> string list" where
  "chunks sep [] = [[]]"
| "chunks sep (c # s) = (if c = sep then [] # chunks sep s
     else (c # hd (chunks sep s)) # tl (chunks sep s))"

lemma chunks_ne [simp]: "chunks sep s \<noteq> []"
  by (cases s) auto

lemma splitN_loop_chunks:
  "splitN_loop sep cur out s = out @ (cur @ hd (chunks sep s)) # tl (chunks sep s)"
  by (induction sep cur out s rule: splitN_loop.induct) auto

lemma splitN_chunks: "splitN s sep = chunks sep s"
  by (simp add: splitN_def splitN_loop_chunks)

lemma chunks_single: "tl (chunks sep s) = [] \<Longrightarrow> hd (chunks sep s) = s"
  by (induction s) (auto split: if_splits)

section \<open>Matching the chunks after a star\<close>

fun tail_match :: "string list \<Rightarrow> string \<Rightarrow> bool" where
  "tail_match [] s = (s = [])"
| "tail_match [l] s = (\<exists>a. s = a @ l)"
| "tail_match (p # q # ps) s = (\<exists>a b. s = a @ p @ b \<and> tail_match (q # ps) b)"

lemma tail_match_mono: "ps \<noteq> [] \<Longrightarrow> tail_match ps b \<Longrightarrow> tail_match ps (x @ b)"
  by (induction ps b arbitrary: x rule: tail_match.induct) (auto, (metis append_assoc)+)

definition head_match :: "string list \<Rightarrow> string \<Rightarrow> bool" where
  "head_match ps s = (if tl ps = [] then s = hd ps else \<exists>b. s = hd ps @ b \<and> tail_match (tl ps) b)"

lemma tail_match_drop:
  "ps \<noteq> [] \<Longrightarrow> tail_match ps s \<longleftrightarrow> (\<exists>k \<le> length s. head_match ps (drop k s))"
proof -
  assume ne: "ps \<noteq> []"
  have "tail_match ps s \<longleftrightarrow> (\<exists>a t. s = a @ t \<and> head_match ps t)"
    using ne by (cases ps; cases "tl ps") (auto simp: head_match_def)
  also have "\<dots> \<longleftrightarrow> (\<exists>k \<le> length s. head_match ps (drop k s))"
    by (metis append_eq_conv_conj append_take_drop_id le_add1 length_append)
  finally show ?thesis .
qed

lemma glob_chunks: "glob p s \<longleftrightarrow> head_match (chunks (CHR ''*'') p) s"
proof (induction p arbitrary: s)
  case (Cons c p)
  show ?case
  proof (cases "c = CHR ''*''")
    case True
    then show ?thesis using Cons tail_match_drop [of "chunks (CHR ''*'') p" s]
      by (simp add: head_match_def [of "[] # _"])
  next
    case False
    then show ?thesis using Cons by (cases s) (auto simp: head_match_def)
  qed
qed (auto simp: head_match_def)

section \<open>The greedy search is complete\<close>

lemma take_eq_append: "take (length sub) t = sub \<longleftrightarrow> (\<exists>b. t = sub @ b)"
  by (metis append_eq_conv_conj append_take_drop_id)

lemma index_loop_sound:
  "0 \<le> index_loop s sub i \<Longrightarrow>
     \<exists>k b. index_loop s sub i = int k \<and> i \<le> k \<and> k \<le> length s \<and> drop k s = sub @ b"
proof (induction s sub i rule: index_loop.induct)
  case (1 s sub i)
  then show ?case
    by (subst index_loop.simps, subst (asm) (3) index_loop.simps)
       (auto simp: take_eq_append split: if_splits dest!: Suc_leD)
qed

lemma index_loop_first:
  assumes "drop j s = sub @ b" "i \<le> j" "j \<le> length s"
  shows "0 \<le> index_loop s sub i \<and> index_loop s sub i \<le> int j"
  using assms(2)
proof (induction "j - i" arbitrary: i)
  case 0
  then have "i = j" by simp
  moreover have "length s - j = length sub + length b" using assms(1) by (metis length_append length_drop)
  ultimately show ?case using assms by (simp add: index_loop.simps [of s sub j])
next
  case (Suc d)
  have "length s - j = length sub + length b" using assms(1) by (metis length_append length_drop)
  then have "i + length sub \<le> length s" using Suc assms(3) by linarith
  then show ?case using Suc.hyps(1) [of "i + 1"] Suc.hyps(2) Suc.prems
    by (simp add: index_loop.simps [of s sub i])
qed

lemma match_parts_tail:
  assumes "pos \<le> length s"
  shows "(case match_parts s pos mids of None \<Rightarrow> False | Some pos' \<Rightarrow> endsWithFrom s l pos')
         \<longleftrightarrow> tail_match (mids @ [l]) (drop pos s)"
  using assms
proof (induction mids arbitrary: pos)
  case Nil
  have "endsWithFrom s l pos \<longleftrightarrow> (\<exists>a. drop pos s = a @ l)"
  proof
    assume e: "endsWithFrom s l pos"
    then have n: "pos + length l \<le> length s" by (auto simp: endsWithFrom_def split: if_splits)
    then have "drop pos s = take (length s - length l - pos) (drop pos s) @ drop (length s - length l) s"
      by (metis add.commute add_le_imp_le_diff append_take_drop_id drop_drop le_add_diff_inverse2)
    then show "\<exists>a. drop pos s = a @ l" using e by (auto simp: endsWithFrom_def split: if_splits)
  next
    assume "\<exists>a. drop pos s = a @ l"
    then obtain a where a: "drop pos s = a @ l" by blast
    then have n: "length s - pos = length a + length l" by (metis length_append length_drop)
    have "s = (take pos s @ a) @ l" using a by (metis append.assoc append_take_drop_id)
    then have "drop (length s - length l) s = l" by (metis add_diff_cancel_right' append_eq_conv_conj length_append)
    then show "endsWithFrom s l pos" using n Nil by (auto simp: endsWithFrom_def)
  qed
  then show ?case by simp
next
  case (Cons p ps)
  let ?i = "index_loop s p pos"
  have split: "tail_match (p # ps @ [l]) t \<longleftrightarrow> (\<exists>a b. t = a @ p @ b \<and> tail_match (ps @ [l]) b)" for t
    by (cases ps) auto
  show ?case
  proof (cases "?i < 0")
    case True
    have "\<not> (\<exists>a b. drop pos s = a @ p @ b)"
    proof (safe)
      fix a b assume ab: "drop pos s = a @ p @ b"
      then have "drop (pos + length a) s = p @ b" by (metis append_eq_conv_conj drop_drop add.commute)
      moreover have "pos + length a \<le> length s" using ab Cons.prems by (metis append_eq_conv_conj
            drop_drop le_add1 length_append length_drop add_le_mono1 le_add_diff_inverse add.commute)
      ultimately show False using index_loop_first [of "pos + length a" s p b pos] True by simp
    qed
    then show ?thesis using True Cons.prems by (simp add: indexFrom_def split)
  next
    case False
    then obtain k b where k: "?i = int k" "pos \<le> k" "k \<le> length s" "drop k s = p @ b"
      using index_loop_sound [of s p pos] by auto
    have kp: "k + length p \<le> length s" using k(3,4) by (metis add_le_cancel_left le_add1 le_add_diff_inverse length_append length_drop)
    have b: "drop (k + length p) s = b" using k(4) by (metis add.commute append_eq_conv_conj drop_drop)
    have "tail_match (ps @ [l]) b \<longleftrightarrow> (\<exists>a c. drop pos s = a @ p @ c \<and> tail_match (ps @ [l]) c)"
    proof
      assume "tail_match (ps @ [l]) b"
      moreover have "drop pos s = take (k - pos) (drop pos s) @ p @ b"
        using k by (metis append_take_drop_id drop_drop le_add_diff_inverse2)
      ultimately show "\<exists>a c. drop pos s = a @ p @ c \<and> tail_match (ps @ [l]) c" by blast
    next
      assume "\<exists>a c. drop pos s = a @ p @ c \<and> tail_match (ps @ [l]) c"
      then obtain a c where ac: "drop pos s = a @ p @ c" "tail_match (ps @ [l]) c" by blast
      let ?j = "pos + length a"
      have j: "drop ?j s = p @ c" using ac(1) by (metis append_eq_conv_conj drop_drop add.commute)
      have "length s - pos = length a + length (p @ c)" using ac(1) by (metis length_append length_drop)
      then have "?j \<le> length s" using Cons.prems by linarith
      then have "k \<le> ?j" using index_loop_first [OF j, of pos] k(1) by simp
      then have "c = drop (?j - k) b"
        using j b by (metis add.commute add.left_commute append_eq_conv_conj drop_drop le_add_diff_inverse2)
      then have "b = take (?j - k) b @ c" by simp
      then show "tail_match (ps @ [l]) b" using tail_match_mono [OF _ ac(2)] by (metis append_is_Nil_conv not_Cons_self2)
    qed
    then show ?thesis
      using Cons.IH [OF kp] k Cons.prems b by (simp add: indexFrom_def split nat_int)
  qed
qed

lemma matchWildcard_glob: "matchWildcard s p \<longleftrightarrow> p \<noteq> '''' \<and> glob p s"
proof (cases "p = ''''")
  case False
  let ?ps = "chunks (CHR ''*'') p"
  obtain h t where ht: "?ps = h # t" by (cases ?ps) auto
  show ?thesis
  proof (cases "t = []")
    case True
    then have "h = p" using chunks_single [of "CHR ''*''" p] ht by simp
    then show ?thesis using False True ht by (simp add: matchWildcard_def splitN_chunks glob_chunks head_match_def)
  next
    case t: False
    have bl: "butlast t @ [last t] = t" using t by simp
    have "startsWith s h \<longleftrightarrow> (\<exists>b. s = h @ b)"
      by (auto simp: startsWith_def take_eq_append)
    moreover have "(case match_parts (h @ b) (length h) (butlast t) of None \<Rightarrow> False
                     | Some pos \<Rightarrow> endsWithFrom (h @ b) (last (h # t)) pos) \<longleftrightarrow> tail_match t b" for b
      using match_parts_tail [where pos = "length h" and s = "h @ b" and mids = "butlast t" and l = "last t"] bl t
      unfolding last_ConsR [OF t] by simp
    ultimately show ?thesis using False t ht
      by (auto simp: matchWildcard_def splitN_chunks glob_chunks head_match_def Let_def)
  qed
qed (simp add: matchWildcard_def)

section \<open>Properties\<close>


end
