(* ===== verification/Product.thy ===== *)
theory Product
  imports FileStore AuditLog
begin

text \<open>
  Module \<open>internal/modules/product\<close>: the catalogue of products with image upload.  The endpoints
  that change something label the request for the audit log (\<open>Action\<close>) before they do anything
  else.  The server state is the product table together with the file tree.
\<close>

section \<open>Entity and responses\<close>

definition StatusDraft :: string where "StatusDraft = ''DRAFT''"
definition StatusPublished :: string where "StatusPublished = ''PUBLISHED''"
definition StatusArchived :: string where "StatusArchived = ''ARCHIVED''"

record Product = BaseModel +
  pd_Name :: string
  pd_SKU :: string
  pd_Description :: string
  pd_Price :: f64
  pd_Stock :: goint
  pd_ImageURL :: string
  pd_Status :: string

record ProductRequest =
  dq_Name :: string
  dq_SKU :: string
  dq_Description :: string
  dq_Price :: f64
  dq_Stock :: goint
  dq_ImageURL :: string
  dq_Status :: string

record ProductResponse =
  dx_ID :: uint64
  dx_Name :: string
  dx_SKU :: string
  dx_Description :: string
  dx_Price :: f64
  dx_Stock :: goint
  dx_ImageURL :: string
  dx_Status :: string
  dx_Base :: BaseResponse

record ProductFilter =
  df_Q :: string
  df_Status :: string
  df_MinP :: "f64 option"
  df_MaxP :: "f64 option"

definition product_ToResponse :: "Product \<Rightarrow> ProductResponse" where
  "product_ToResponse p =
     \<lparr>dx_ID = bm_ID p, dx_Name = pd_Name p, dx_SKU = pd_SKU p, dx_Description = pd_Description p,
      dx_Price = pd_Price p, dx_Stock = pd_Stock p, dx_ImageURL = pd_ImageURL p, dx_Status = pd_Status p,
      dx_Base = base_response p\<rparr>"

definition product_ToResponses :: "Product list \<Rightarrow> ProductResponse list" where
  "product_ToResponses ps = map product_ToResponse ps"

section \<open>Repository\<close>

type_synonym products = "Product table"

definition product_repo_Create :: "Product gorm \<Rightarrow> request_context option \<Rightarrow> Product \<Rightarrow> (products, go_error, Product) op" where
  "product_repo_Create G ctx p = dbE (db_Create G (setCreatedBy ctx p))"

definition product_repo_Update :: "Product gorm \<Rightarrow> request_context option \<Rightarrow> Product \<Rightarrow> (products, go_error, Product) op" where
  "product_repo_Update G ctx p = dbE (db_Save G (setUpdatedBy ctx p))"

definition product_repo_Delete :: "Product gorm \<Rightarrow> uint64 \<Rightarrow> (products, go_error, unit) op" where
  "product_repo_Delete G pid = bindE (dbE (db_Delete G (\<lambda>r. bm_ID r = pid))) (\<lambda>_. returnE ())"

definition product_repo_GetByID :: "Product gorm \<Rightarrow> uint64 \<Rightarrow> products \<Rightarrow> go_error + Product option" where
  "product_repo_GetByID G pid = first_opt G (\<lambda>r. bm_ID r = pid)"

definition product_repo_GetBySKU :: "Product gorm \<Rightarrow> string \<Rightarrow> products \<Rightarrow> go_error + Product option" where
  "product_repo_GetBySKU G sku = first_opt G (\<lambda>r. pd_SKU r = sku)"

definition product_matches :: "(string \<Rightarrow> string \<Rightarrow> bool) \<Rightarrow> ProductFilter \<Rightarrow> Product \<Rightarrow> bool" where
  "product_matches like f r =
     ((df_Q f \<noteq> '''' \<longrightarrow> (let pat = ''%'' @ df_Q f @ ''%''
                         in like (pd_Name r) pat \<or> like (pd_SKU r) pat \<or> like (pd_Description r) pat))
      \<and> (df_Status f \<noteq> '''' \<longrightarrow> pd_Status r = df_Status f)
      \<and> (case df_MinP f of None \<Rightarrow> True | Some m \<Rightarrow> f64_le m (pd_Price r))
      \<and> (case df_MaxP f of None \<Rightarrow> True | Some m \<Rightarrow> f64_le (pd_Price r) m))"

definition product_repo_Search ::
  "Product gorm \<Rightarrow> (string \<Rightarrow> string \<Rightarrow> bool) \<Rightarrow> ProductFilter \<Rightarrow> goint \<Rightarrow> goint \<Rightarrow> products \<Rightarrow> go_error + Product list \<times> int" where
  "product_repo_Search G like f offset cnt t =
     (case db_Count G (product_matches like f) t of
        Inl err \<Rightarrow> Inl (DbError err)
      | Inr n \<Rightarrow>
          (case db_Find G (product_matches like f) (\<lambda>a b. bm_ID b \<le> bm_ID a) (Some (offset, cnt)) t of
             Inl err \<Rightarrow> Inl (DbError err)
           | Inr rs \<Rightarrow> Inr (rs, n)))"

section \<open>Service\<close>

definition new_product :: "ProductRequest \<Rightarrow> Product" where
  "new_product req =
     (let status = (if dq_Status req = '''' then StatusDraft else dq_Status req)
      in zero_base \<lparr>pd_Name = dq_Name req, pd_SKU = dq_SKU req, pd_Description = dq_Description req,
                    pd_Price = dq_Price req, pd_Stock = dq_Stock req, pd_ImageURL = dq_ImageURL req,
                    pd_Status = status\<rparr>)"

definition product_Create ::
  "Product gorm \<Rightarrow> request_context option \<Rightarrow> ProductRequest \<Rightarrow> (products, go_error, ProductResponse) op" where
  "product_Create G ctx req =
     bindE (readE (product_repo_GetBySKU G (dq_SKU req))) (\<lambda>existing.
     if existing \<noteq> None then throwE (Duplicate (''Product with SKU '' @ [CHR 0x27] @ dq_SKU req @ [CHR 0x27] @ '' already exists''))
     else bindE (product_repo_Create G ctx (new_product req)) (\<lambda>p.
     returnE (product_ToResponse p)))"

text \<open>The row \<open>Update\<close> saves: an empty image or status keeps the old one.\<close>

definition updated_product :: "ProductRequest \<Rightarrow> Product \<Rightarrow> Product" where
  "updated_product req p =
     (let p = p\<lparr>pd_Name := dq_Name req, pd_SKU := dq_SKU req, pd_Description := dq_Description req,
                pd_Price := dq_Price req, pd_Stock := dq_Stock req\<rparr>;
          p = (if dq_ImageURL req \<noteq> '''' then p\<lparr>pd_ImageURL := dq_ImageURL req\<rparr> else p)
      in if dq_Status req \<noteq> '''' then p\<lparr>pd_Status := dq_Status req\<rparr> else p)"

text \<open>A changed SKU must not belong to another product.\<close>

definition product_sku_check :: "Product gorm \<Rightarrow> uint64 \<Rightarrow> ProductRequest \<Rightarrow> Product \<Rightarrow> (products, go_error, unit) op" where
  "product_sku_check G pid req p =
     (if dq_SKU req \<noteq> pd_SKU p
      then bindE (readE (product_repo_GetBySKU G (dq_SKU req))) (\<lambda>existing.
           case existing of
             Some e \<Rightarrow> if bm_ID e \<noteq> pid then throwE (Duplicate ''SKU already in use'') else returnE ()
           | None \<Rightarrow> returnE ())
      else returnE ())"

definition product_Update ::
  "Product gorm \<Rightarrow> request_context option \<Rightarrow> uint64 \<Rightarrow> ProductRequest \<Rightarrow> (products, go_error, ProductResponse) op" where
  "product_Update G ctx pid req =
     bindE (readE (product_repo_GetByID G pid)) (\<lambda>p.
     case p of
       None \<Rightarrow> throwE (NotFound ''Product'' pid)
     | Some p \<Rightarrow>
         bindE (product_sku_check G pid req p) (\<lambda>_.
         bindE (product_repo_Update G ctx (updated_product req p)) (\<lambda>p.
         returnE (product_ToResponse p))))"

definition product_Delete :: "Product gorm \<Rightarrow> uint64 \<Rightarrow> (products, go_error, unit) op" where
  "product_Delete G pid =
     bindE (readE (product_repo_GetByID G pid)) (\<lambda>p.
     case p of None \<Rightarrow> throwE (NotFound ''Product'' pid) | Some _ \<Rightarrow> product_repo_Delete G pid)"

definition product_GetByID :: "Product gorm \<Rightarrow> uint64 \<Rightarrow> products \<Rightarrow> go_error + ProductResponse" where
  "product_GetByID G pid t =
     (case product_repo_GetByID G pid t of
        Inl err \<Rightarrow> Inl err
      | Inr None \<Rightarrow> Inl (NotFound ''Product'' pid)
      | Inr (Some p) \<Rightarrow> Inr (product_ToResponse p))"

definition product_Search ::
  "Product gorm \<Rightarrow> (string \<Rightarrow> string \<Rightarrow> bool) \<Rightarrow> ProductFilter \<Rightarrow> PageRequest \<Rightarrow> products
     \<Rightarrow> go_error + ProductResponse PageResponse" where
  "product_Search G like f page t =
     (case product_repo_Search G like f (Offset page) (Limit page) t of
        Inl err \<Rightarrow> Inl err
      | Inr (rs, n) \<Rightarrow> Inr (NewPage (Some (product_ToResponses rs)) page n))"

section \<open>Endpoints\<close>

datatype product_data = ProductPage "ProductResponse PageResponse" | ProductOne ProductResponse

type_synonym 'f product_state = "products \<times> 'f"

type_synonym 'f product_op = "product_data gin_context \<Rightarrow> ('f product_state, go_error, product_data ApiResponse) op"

definition on_products :: "(products, go_error, 'a) op \<Rightarrow> ('f product_state, go_error, 'a) op" where
  "on_products = zoomE fst (\<lambda>t s. (t, snd s))"

definition on_files :: "('f, go_error, 'a) op \<Rightarrow> ('f product_state, go_error, 'a) op" where
  "on_files = zoomE snd (\<lambda>f s. (fst s, f))"

text \<open>An endpoint that first labels the request.\<close>

definition labelled :: "string \<Rightarrow> string \<Rightarrow> string \<Rightarrow> ('w, 'd) endpoint \<Rightarrow> ('w, 'd) endpoint" where
  "labelled action resourceType resourceID fn s = fn (fst s, Action action resourceType resourceID (snd s))"

definition product_list ::
  "Product gorm \<Rightarrow> (string \<Rightarrow> string \<Rightarrow> bool) \<Rightarrow> (string \<Rightarrow> ProductFilter) \<Rightarrow> (string \<Rightarrow> PageRequest) \<Rightarrow> time \<Rightarrow> 'f product_op" where
  "product_list G like bindf bindp now c =
     bindE (on_products (readE (product_Search G like (bindf (c_RawQuery c)) (BindPage bindp c)))) (\<lambda>res.
     returnE (OK now (Some (ProductPage res))))"

definition product_get :: "Product gorm \<Rightarrow> time \<Rightarrow> 'f product_op" where
  "product_get G now c =
     bindE (readE (\<lambda>_. parseID c)) (\<lambda>pid.
     bindE (on_products (readE (product_GetByID G pid))) (\<lambda>res.
     returnE (OK now (Some (ProductOne res)))))"

definition product_create ::
  "Product gorm \<Rightarrow> (string \<Rightarrow> go_error + ProductRequest) \<Rightarrow> time \<Rightarrow> ('f product_state, product_data) endpoint" where
  "product_create G bind now =
     labelled ''PRODUCT_CREATE'' ''Product'' '''' (endpoint (\<lambda>c.
     bindE (readE (\<lambda>_. BindJSON bind c)) (\<lambda>req.
     bindE (on_products (product_Create G (Some (c_Context c)) req)) (\<lambda>res.
     returnE (Created now (Some (ProductOne res)))))))"

text \<open>The endpoints with an id label the request once the id has been read.\<close>

definition with_id ::
  "string \<Rightarrow> (uint64 \<Rightarrow> ('w, 'd) endpoint) \<Rightarrow> ('w, 'd) endpoint" where
  "with_id action fn s =
     (case parseID (snd s) of
        Inl err \<Rightarrow> (Inl err, s)
      | Inr pid \<Rightarrow> labelled action ''Product'' (FormatUint pid) (fn pid) s)"

definition product_update ::
  "Product gorm \<Rightarrow> (string \<Rightarrow> go_error + ProductRequest) \<Rightarrow> time \<Rightarrow> ('f product_state, product_data) endpoint" where
  "product_update G bind now =
     with_id ''PRODUCT_UPDATE'' (\<lambda>pid. endpoint (\<lambda>c.
     bindE (readE (\<lambda>_. BindJSON bind c)) (\<lambda>req.
     bindE (on_products (product_Update G (Some (c_Context c)) pid req)) (\<lambda>res.
     returnE (OK now (Some (ProductOne res)))))))"

text \<open>The request \<open>uploadImage\<close> builds from what is stored.\<close>

definition image_request :: "ProductResponse \<Rightarrow> string \<Rightarrow> ProductRequest" where
  "image_request existing url =
     \<lparr>dq_Name = dx_Name existing, dq_SKU = dx_SKU existing, dq_Description = dx_Description existing,
      dq_Price = dx_Price existing, dq_Stock = dx_Stock existing, dq_ImageURL = url, dq_Status = dx_Status existing\<rparr>"

definition product_uploadImage ::
  "Product gorm \<Rightarrow> 'f filesys \<Rightarrow> string \<Rightarrow> file_service \<Rightarrow> (string \<Rightarrow> go_error + FileHeader) \<Rightarrow> time
     \<Rightarrow> ('f product_state, product_data) endpoint" where
  "product_uploadImage G OS uuid files form_file now =
     with_id ''PRODUCT_IMAGE_UPLOAD'' (\<lambda>pid. endpoint (\<lambda>c.
     case form_file (c_Body c) of
       Inl _ \<Rightarrow> throwE (BadRequest ''Field 'file' is required'')
     | Inr fh \<Rightarrow>
         bindE (on_files (file_Save OS uuid files (Some fh) ''products'')) (\<lambda>uploaded.
         bindE (on_products (readE (product_GetByID G pid))) (\<lambda>existing.
         bindE (on_products (product_Update G (Some (c_Context c)) pid (image_request existing (fr_URL uploaded)))) (\<lambda>res.
         returnE (OK now (Some (ProductOne res)))))))) "

definition product_delete :: "Product gorm \<Rightarrow> time \<Rightarrow> ('f product_state, product_data) endpoint" where
  "product_delete G now =
     with_id ''PRODUCT_DELETE'' (\<lambda>pid. endpoint (\<lambda>c.
     bindE (on_products (product_Delete G pid)) (\<lambda>_.
     returnE (MessageResponse now ''Deleted''))))"

datatype product_route =
  ProductRouteList | ProductRouteGet | ProductRouteCreate | ProductRouteUpdate | ProductRouteImage | ProductRouteDelete

text \<open>\<open>Register\<close>: the gate and the endpoint of each route.\<close>

fun product_gate :: "product_route \<Rightarrow> string list" where
  "product_gate ProductRouteList = [ProductRead]"
| "product_gate ProductRouteGet = [ProductRead]"
| "product_gate ProductRouteCreate = [ProductWrite]"
| "product_gate ProductRouteUpdate = [ProductWrite]"
| "product_gate ProductRouteImage = [ProductWrite]"
| "product_gate ProductRouteDelete = [ProductDelete]"

definition product_Register ::
  "Product gorm \<Rightarrow> (string \<Rightarrow> string \<Rightarrow> bool) \<Rightarrow> 'f filesys \<Rightarrow> string \<Rightarrow> file_service \<Rightarrow> (string \<Rightarrow> ProductFilter)
     \<Rightarrow> (string \<Rightarrow> PageRequest) \<Rightarrow> (string \<Rightarrow> go_error + ProductRequest) \<Rightarrow> (string \<Rightarrow> go_error + FileHeader) \<Rightarrow> clock
     \<Rightarrow> product_route \<Rightarrow> ('f product_state, product_data) handler" where
  "product_Register G like OS uuid files bindf bindp bind form_file clk route =
     HasPermission (clk 0) (product_gate route) (Handler (clk 2)
       (case route of
          ProductRouteList \<Rightarrow> endpoint (product_list G like bindf bindp (clk 1))
        | ProductRouteGet \<Rightarrow> endpoint (product_get G (clk 1))
        | ProductRouteCreate \<Rightarrow> product_create G bind (clk 1)
        | ProductRouteUpdate \<Rightarrow> product_update G bind (clk 1)
        | ProductRouteImage \<Rightarrow> product_uploadImage G OS uuid files form_file (clk 1)
        | ProductRouteDelete \<Rightarrow> product_delete G (clk 1)))"

section \<open>Facts about the service\<close>

abbreviation products_ok :: "products \<Rightarrow> bool" where
  "products_ok t \<equiv> table_ok bm_ID (unique_on pd_SKU) t"

lemma updated_product_fields [simp]:
  "bm_ID (updated_product req p) = bm_ID p" "base_live (updated_product req p) = base_live p"
  "bm_CreatedBy (updated_product req p) = bm_CreatedBy p"
  "pd_Name (updated_product req p) = dq_Name req" "pd_SKU (updated_product req p) = dq_SKU req"
  "pd_Description (updated_product req p) = dq_Description req"
  "pd_Price (updated_product req p) = dq_Price req" "pd_Stock (updated_product req p) = dq_Stock req"
  "pd_ImageURL (updated_product req p) = (if dq_ImageURL req = '''' then pd_ImageURL p else dq_ImageURL req)"
  "pd_Status (updated_product req p) = (if dq_Status req = '''' then pd_Status p else dq_Status req)"
  by (simp_all add: updated_product_def base_live_def Let_def)

lemma pd_touched:
  assumes "base_touched r q"
  shows "bm_ID q = bm_ID r" "base_live q = base_live r" "bm_CreatedBy q = bm_CreatedBy r" "bm_UpdatedBy q = bm_UpdatedBy r"
    "pd_Name q = pd_Name r" "pd_SKU q = pd_SKU r" "pd_Description q = pd_Description r" "pd_Price q = pd_Price r"
    "pd_Stock q = pd_Stock r" "pd_ImageURL q = pd_ImageURL r" "pd_Status q = pd_Status r"
  using assms by (auto simp: base_touched_def base_live_def)

lemma pd_setUpdatedBy [simp]:
  "pd_Name (setUpdatedBy ctx r) = pd_Name r" "pd_SKU (setUpdatedBy ctx r) = pd_SKU r"
  "pd_Description (setUpdatedBy ctx r) = pd_Description r" "pd_Price (setUpdatedBy ctx r) = pd_Price r"
  "pd_Stock (setUpdatedBy ctx r) = pd_Stock r" "pd_ImageURL (setUpdatedBy ctx r) = pd_ImageURL r"
  "pd_Status (setUpdatedBy ctx r) = pd_Status r" "bm_CreatedBy (setUpdatedBy ctx r) = bm_CreatedBy r"
  "bm_UpdatedBy (setUpdatedBy ctx r) = usernameFromContext ctx"
  by (simp_all add: setUpdatedBy_def Let_def)

lemma product_sku_check_state: "product_sku_check G pid req p t = (r, t') \<Longrightarrow> t' = t"
  by (auto simp: product_sku_check_def bindE_def split: if_split_asm option.splits sum.splits)

text \<open>\<open>q\<close> is the row \<open>p\<close> after the request.\<close>

definition product_after :: "request_context option \<Rightarrow> ProductRequest \<Rightarrow> Product \<Rightarrow> Product \<Rightarrow> bool" where
  "product_after ctx req p q =
     (bm_ID q = bm_ID p \<and> base_live q \<and> bm_CreatedBy q = bm_CreatedBy p \<and> bm_UpdatedBy q = usernameFromContext ctx
      \<and> pd_Name q = dq_Name req \<and> pd_SKU q = dq_SKU req \<and> pd_Description q = dq_Description req
      \<and> pd_Price q = dq_Price req \<and> pd_Stock q = dq_Stock req
      \<and> pd_ImageURL q = (if dq_ImageURL req = '''' then pd_ImageURL p else dq_ImageURL req)
      \<and> pd_Status q = (if dq_Status req = '''' then pd_Status p else dq_Status req))"

locale product_store = gorm_soft G bm_ID base_live base_filled base_touched "unique_on pd_SKU" base_dropped
  for G :: "Product gorm"
begin

lemma GetByID_Some:
  "product_repo_GetByID G pid t = Inr (Some p) \<Longrightarrow> p \<in> set (rows t) \<and> base_live p \<and> bm_ID p = pid"
  unfolding product_repo_GetByID_def by (rule first_opt_Some)

lemma GetBySKU_Some:
  "product_repo_GetBySKU G sku t = Inr (Some p) \<Longrightarrow> p \<in> set (rows t) \<and> base_live p \<and> pd_SKU p = sku"
  unfolding product_repo_GetBySKU_def by (rule first_opt_Some)

lemma sku_key:
  assumes "products_ok t" "p \<in> set (rows t)" "q \<in> set (rows t)"
  shows "bm_ID p = bm_ID q \<longleftrightarrow> pd_SKU p = pd_SKU q"
  using assms by (auto simp: table_ok_def unique_on_def distinct_map dest: inj_onD)

text \<open>Lookups on a connection that answers.\<close>

lemma first_opt_live:
  assumes "gorm_live G bm_ID base_live base_filled base_touched (unique_on pd_SKU)"
    and "p \<in> set (rows t)" "base_live p" "P p" "\<And>r. r \<in> set (rows t) \<Longrightarrow> P r \<Longrightarrow> r = p"
  shows "first_opt G P t = Inr (Some p)"
proof -
  obtain r where r: "db_First G P t = Inr r" using gorm_live.First_live [where P = P, OF assms(1-4)] by blast
  then show ?thesis using First_found [OF r] assms(5) by (simp add: first_opt_def)
qed

lemma GetByID_live:
  assumes "gorm_live G bm_ID base_live base_filled base_touched (unique_on pd_SKU)" "products_ok t"
    and "p \<in> set (rows t)" "base_live p" "bm_ID p = pid"
  shows "product_repo_GetByID G pid t = Inr (Some p)"
  unfolding product_repo_GetByID_def
  by (rule first_opt_live [OF assms(1,3,4)])
     (use assms in \<open>auto simp: table_ok_def distinct_map dest: inj_onD\<close>)

lemma GetBySKU_live:
  assumes "gorm_live G bm_ID base_live base_filled base_touched (unique_on pd_SKU)" "products_ok t"
    and "p \<in> set (rows t)" "base_live p" "pd_SKU p = sku"
  shows "product_repo_GetBySKU G sku t = Inr (Some p)"
  unfolding product_repo_GetBySKU_def
  by (rule first_opt_live [OF assms(1,3,4)])
     (use assms in \<open>auto simp: table_ok_def unique_on_def distinct_map dest: inj_onD\<close>)

lemma Update_ok:
  assumes "product_Update G ctx pid req t = (Inr resp, t')"
  obtains p q where "p \<in> set (rows t)" "base_live p" "bm_ID p = pid" "product_repo_GetByID G pid t = Inr (Some p)"
    "product_after ctx req p q" "rows t' = map (\<lambda>y. if base_live y \<and> bm_ID y = pid then q else y) (rows t)"
    "resp = product_ToResponse q"
proof -
  obtain p q where g: "product_repo_GetByID G pid t = Inr (Some p)"
    and s: "db_Save G (setUpdatedBy ctx (updated_product req p)) t = (Inr q, t')" and r: "resp = product_ToResponse q"
    using assms unfolding product_Update_def product_repo_Update_def
    by (auto simp: bindE_Inr split: option.splits dest!: product_sku_check_state)
  from GetByID_Some [OF g] have p: "p \<in> set (rows t)" "base_live p" "bm_ID p = pid" by auto
  have sv: "base_touched (setUpdatedBy ctx (updated_product req p)) q"
    "rows t' = map (\<lambda>y. if base_live y \<and> bm_ID y = pid then q else y) (rows t)"
    using Save_ok [OF s p(1,2)] p(3) by simp_all
  have "product_after ctx req p q" using pd_touched [OF sv(1)] p by (simp add: product_after_def)
  then show thesis using that p g sv(2) r by blast
qed

lemma Update_keeps_ok:
  assumes "products_ok t" "product_Update G ctx pid req t = (res, t')"
  shows "products_ok t'"
proof (cases "t' = t")
  case False
  then obtain p q where g: "product_repo_GetByID G pid t = Inr (Some p)"
    and s: "db_Save G (setUpdatedBy ctx (updated_product req p)) t = (q, t')"
    using assms(2) unfolding product_Update_def product_repo_Update_def
    by (auto simp: bindE_def dbE_def split: sum.split_asm option.split_asm prod.split_asm dest!: product_sku_check_state)
  have "bm_ID (setUpdatedBy ctx (updated_product req p)) = bm_ID p" by simp
  then show ?thesis using Save_table_ok [OF assms(1) _ _ _ s, of p] GetByID_Some [OF g] by simp
qed (use assms in simp)

end

section \<open>An instance\<close>

definition mem_products :: "Product gorm" where
  "mem_products = mem_base (unique_on pd_SKU)"

lemma unique_sku_mark: "unique_on pd_SKU rs \<Longrightarrow> unique_on pd_SKU (map (\<lambda>r. if P r then mark r else r) rs)"
  by (rule unique_on_mark) (simp add: mark_def)

interpretation mem_products: product_store mem_products
  unfolding product_store_def mem_products_def by (rule mem_base_soft) (rule unique_sku_mark)

lemma mem_products_live: "gorm_live mem_products bm_ID base_live base_filled base_touched (unique_on pd_SKU)"
  unfolding mem_products_def by (rule mem_base_live) (rule unique_sku_mark)

definition demo_request :: "string \<Rightarrow> ProductRequest" where
  "demo_request sku =
     \<lparr>dq_Name = ''lamp'', dq_SKU = sku, dq_Description = '''', dq_Price = Fin 10, dq_Stock = 3, dq_ImageURL = '''', dq_Status = ''''\<rparr>"

definition demo_product :: "uint64 \<Rightarrow> string \<Rightarrow> Product" where
  "demo_product pid sku = (new_product (demo_request sku))\<lparr>bm_ID := pid\<rparr>"

definition demo_products :: products where
  "demo_products = \<lparr>rows = [demo_product 1 ''A1'', demo_product 2 ''B2''], next_id = 3\<rparr>"

lemmas demo_product_defs = demo_products_def demo_product_def demo_request_def new_product_def zero_base_def

lemma demo_products_ok: "products_ok demo_products"
  by (simp add: table_ok_def unique_on_def demo_product_defs Let_def)

lemmas mem_product_eval = product_repo_GetByID_def product_repo_GetBySKU_def product_repo_Update_def product_repo_Create_def
  first_opt_def bindE_def dbE_def mem_products_def mem_base_def mem_gorm_def base_live_def sort_by_def

section \<open>Properties\<close>

text \<open>
  C39: a successful update rewrites exactly the live row with that id: every field takes the
  requested value, except that an empty image or status keeps the old one; the creator is kept and
  the updater is the user of the request.  All other rows stay as they are and the table stays
  consistent.
\<close>

theorem product_Update_exact:
  assumes "product_store G" "products_ok t" "product_Update G ctx pid req t = (Inr resp, t')"
  shows "products_ok t' \<and> (\<exists>p \<in> set (rows t). \<exists>q. base_live p \<and> bm_ID p = pid \<and> product_after ctx req p q
           \<and> rows t' = map (\<lambda>y. if base_live y \<and> bm_ID y = pid then q else y) (rows t)
           \<and> resp = product_ToResponse q)"
proof
  show "products_ok t'" by (rule product_store.Update_keeps_ok [OF assms])
  show "\<exists>p \<in> set (rows t). \<exists>q. base_live p \<and> bm_ID p = pid \<and> product_after ctx req p q
           \<and> rows t' = map (\<lambda>y. if base_live y \<and> bm_ID y = pid then q else y) (rows t) \<and> resp = product_ToResponse q"
    by (rule product_store.Update_ok [OF assms(1,3)]) (intro bexI exI conjI; assumption)
qed

theorem product_Update_exact_witness:
  "\<exists>resp t'. product_Update mem_products None 1 (demo_request ''A9'') demo_products = (Inr resp, t') \<and> products_ok t'"
proof -
  let ?r = "product_Update mem_products None 1 (demo_request ''A9'') demo_products"
  have "\<exists>resp. fst ?r = Inr resp"
    by (simp add: product_Update_def product_sku_check_def mem_product_eval demo_product_defs setUpdatedBy_def updated_product_def unique_on_def Let_def)
  then obtain resp where r: "?r = (Inr resp, snd ?r)" by (metis prod.collapse)
  then have "products_ok (snd ?r)"
    using product_Update_exact [OF mem_products.product_store_axioms demo_products_ok r] by simp
  then show ?thesis using r by blast
qed

text \<open>
  On a connection that answers, two live products never share a SKU through the service: a
  create with the SKU of a live product, or an update that would give a product the SKU of
  another live one, ends with a conflict (409) and changes nothing.
\<close>

theorem product_sku_conflict:
  assumes "product_store G" "gorm_live G bm_ID base_live base_filled base_touched (unique_on pd_SKU)" "products_ok t"
    and "q \<in> set (rows t)" "base_live q" "pd_SKU q = dq_SKU req"
    and "p \<in> set (rows t)" "base_live p" "bm_ID p = pid" "bm_ID q \<noteq> pid"
  shows "(\<exists>msg. product_Create G ctx req t = (Inl (Duplicate msg), t))
         \<and> product_Update G ctx pid req t = (Inl (Duplicate ''SKU already in use''), t)
         \<and> ar_Status (error_envelope now (Duplicate m)) = 409"
proof -
  have sku: "product_repo_GetBySKU G (dq_SKU req) t = Inr (Some q)"
    by (rule product_store.GetBySKU_live [OF assms(1-6)])
  have pid: "product_repo_GetByID G pid t = Inr (Some p)"
    by (rule product_store.GetByID_live [OF assms(1-3,7-9)])
  have ne: "dq_SKU req \<noteq> pd_SKU p"
    using product_store.sku_key [OF assms(1,3,4,7)] assms(6,9,10) by auto
  show ?thesis
    using sku pid ne assms(10)
    by (simp add: product_Create_def product_Update_def product_sku_check_def bindE_def error_envelope_def Duplicate_def ErrorResponse_def)
qed

theorem product_sku_conflict_witness:
  "product_Update mem_products None 2 (demo_request ''A1'') demo_products = (Inl (Duplicate ''SKU already in use''), demo_products)"
proof -
  have "demo_product 1 ''A1'' \<in> set (rows demo_products)" "demo_product 2 ''B2'' \<in> set (rows demo_products)"
    "base_live (demo_product 1 ''A1'')" "base_live (demo_product 2 ''B2'')"
    "pd_SKU (demo_product 1 ''A1'') = dq_SKU (demo_request ''A1'')"
    "bm_ID (demo_product 2 ''B2'') = 2" "bm_ID (demo_product 1 ''A1'') \<noteq> 2"
    by (simp_all add: demo_product_defs base_live_def Let_def)
  then show ?thesis
    using product_sku_conflict [OF mem_products.product_store_axioms mem_products_live demo_products_ok] by blast
qed

section \<open>Image upload\<close>

lemma uploadImage_eq:
  assumes "parseID c = Inr pid" "form_file (c_Body c) = Inr fh"
  shows "product_uploadImage G OS uuid files form_file now ((t, fsys), c) =
    (let c = Action ''PRODUCT_IMAGE_UPLOAD'' ''Product'' (FormatUint pid) c in
     case file_Save OS uuid files (Some fh) ''products'' fsys of
       (Inl err, fsys) \<Rightarrow> (Inl err, (t, fsys), c)
     | (Inr uploaded, fsys) \<Rightarrow>
         (case product_GetByID G pid t of
            Inl err \<Rightarrow> (Inl err, (t, fsys), c)
          | Inr existing \<Rightarrow>
              (case product_Update G (Some (c_Context c)) pid (image_request existing (fr_URL uploaded)) t of
                 (Inl err, t) \<Rightarrow> (Inl err, (t, fsys), c)
               | (Inr res, t) \<Rightarrow> (Inr (Some (OK now (Some (ProductOne res)))), (t, fsys), c))))"
proof -
  have b: "c_Body (Action a b d c) = c_Body c" for a b d
    by (simp add: Action_def SetKey_def Let_def)
  note defs = product_uploadImage_def with_id_def labelled_def endpoint_def bindE_def on_files_def on_products_def zoomE_def b Let_def
  obtain r1 f1 where 1: "file_Save OS uuid files (Some fh) ''products'' fsys = (r1, f1)"
    by (cases "file_Save OS uuid files (Some fh) ''products'' fsys") auto
  show ?thesis
  proof (cases r1)
    case (Inl e)
    then show ?thesis using assms 1 by (simp add: defs del: parseID_Inr)
  next
    case up: (Inr up)
    show ?thesis
    proof (cases "product_GetByID G pid t")
      case (Inl e)
      then show ?thesis using assms 1 up by (simp add: defs del: parseID_Inr)
    next
      case ex: (Inr ex)
      obtain r2 t2 where 2: "product_Update G (Some (c_Context (Action ''PRODUCT_IMAGE_UPLOAD'' ''Product'' (FormatUint pid) c))) pid
          (image_request ex (fr_URL up)) t = (r2, t2)" by (meson surj_pair)
      then show ?thesis using assms 1 up ex by (cases r2) (simp_all add: defs del: parseID_Inr)
    qed
  qed
qed

lemma fr_URL_nonempty: "file_Save OS uuid s (Some fh) sub f = (Inr r, f') \<Longrightarrow> fr_URL r \<noteq> ''''"
  by (auto simp: file_Save_def bindE_Inr file_response_def Let_def split: if_split_asm)

text \<open>
  A successful image upload changes nothing of the product but its image, which becomes the
  address of the stored file (and the updater), and labels the request for the audit log.
\<close>

theorem product_uploadImage_only_image:
  assumes "product_store G" "parseID c = Inr pid" "form_file (c_Body c) = Inr fh"
    and "product_uploadImage G OS uuid files form_file now ((t, fsys), c) = (Inr resp, (t', fsys'), c')"
  shows "\<exists>p \<in> set (rows t). \<exists>q up. base_live p \<and> bm_ID p = pid
           \<and> file_Save OS uuid files (Some fh) ''products'' fsys = (Inr up, fsys')
           \<and> rows t' = map (\<lambda>y. if base_live y \<and> bm_ID y = pid then q else y) (rows t)
           \<and> pd_ImageURL q = fr_URL up \<and> pd_Name q = pd_Name p \<and> pd_SKU q = pd_SKU p
           \<and> pd_Description q = pd_Description p \<and> pd_Price q = pd_Price p \<and> pd_Stock q = pd_Stock p
           \<and> pd_Status q = pd_Status p \<and> bm_ID q = pid \<and> base_live q
           \<and> c_Keys c' ctxAction = Some (AnyString ''PRODUCT_IMAGE_UPLOAD'')"
proof -
  let ?c = "Action ''PRODUCT_IMAGE_UPLOAD'' ''Product'' (FormatUint pid) c"
  note e = assms(4) [unfolded uploadImage_eq [where form_file = form_file, OF assms(2,3)] Let_def]
  obtain r1 f1 where f1: "file_Save OS uuid files (Some fh) ''products'' fsys = (r1, f1)" by (meson surj_pair)
  then obtain up where up: "r1 = Inr up" using e by (cases r1) simp_all
  obtain existing where g: "product_GetByID G pid t = Inr existing"
    using e f1 up by (cases "product_GetByID G pid t") simp_all
  obtain r2 t2 where u2: "product_Update G (Some (c_Context ?c)) pid (image_request existing (fr_URL up)) t = (r2, t2)"
    by (meson surj_pair)
  then obtain res where "r2 = Inr res" "t2 = t'" "f1 = fsys'" and c': "c' = ?c"
    using e f1 up g by (cases r2) simp_all
  then have f: "file_Save OS uuid files (Some fh) ''products'' fsys = (Inr up, fsys')"
    and u: "product_Update G (Some (c_Context ?c)) pid (image_request existing (fr_URL up)) t = (Inr res, t')"
    using f1 up u2 by simp_all
  obtain p q where p: "p \<in> set (rows t)" "base_live p" "bm_ID p = pid"
    "product_repo_GetByID G pid t = Inr (Some p)" "product_after (Some (c_Context ?c)) (image_request existing (fr_URL up)) p q"
    "rows t' = map (\<lambda>y. if base_live y \<and> bm_ID y = pid then q else y) (rows t)" "res = product_ToResponse q"
    by (rule product_store.Update_ok [OF assms(1) u])
  have e: "existing = product_ToResponse p" using g p(4) by (simp add: product_GetByID_def)
  have k: "c_Keys c' ctxAction = Some (AnyString ''PRODUCT_IMAGE_UPLOAD'')"
    by (simp add: c' Action_def audit_key_defs Let_def)
  show ?thesis
    using p f k e fr_URL_nonempty [OF f]
    by (intro bexI [of _ p] exI [of _ q] exI [of _ up])
       (simp_all add: product_after_def image_request_def product_ToResponse_def)
qed

definition image_context :: "string \<Rightarrow> product_data gin_context" where
  "image_context pid = (demo_context '''')\<lparr>c_Param := \<lambda>_. pid\<rparr>"

lemma image_context_fields: "parseID (image_context ''1'') = Inr 1" "parseID (image_context ''9'') = Inr 9"
  by (simp_all add: image_context_def parseID_def ParseUint_def is_digit_def digit_val_def)

lemma demo_image_Save:
  "\<exists>up f'. file_Save (mem_fs ''/srv'') ''u1'' demo_files (Some demo_upload) ''products'' Map.empty = (Inr up, f')"
  by (simp add: file_Save_def demo_files_def demo_upload_def mem_fs_def bindE_def copy_out_def Let_def)

theorem product_uploadImage_only_image_witness:
  "\<exists>resp t' f' c'. product_uploadImage mem_products (mem_fs ''/srv'') ''u1'' demo_files (\<lambda>_. Inr demo_upload) 0
       ((demo_products, Map.empty), image_context ''1'') = (Inr resp, (t', f'), c') \<and> map pd_SKU (rows t') = [''A1'', ''B2'']"
proof -
  let ?v = "product_uploadImage mem_products (mem_fs ''/srv'') ''u1'' demo_files (\<lambda>_. Inr demo_upload) 0
       ((demo_products, Map.empty), image_context ''1'')"
  obtain up f1 where f: "file_Save (mem_fs ''/srv'') ''u1'' demo_files (Some demo_upload) ''products'' Map.empty = (Inr up, f1)"
    using demo_image_Save by blast
  have "\<exists>resp. fst ?v = Inr resp"
    unfolding uploadImage_eq [where form_file = "\<lambda>_. Inr demo_upload", OF image_context_fields(1) refl]
    by (simp add: f product_GetByID_def product_Update_def product_sku_check_def image_request_def product_ToResponse_def
        mem_product_eval demo_product_defs setUpdatedBy_def updated_product_def unique_on_def Let_def)
  then obtain resp t' f' c' where v: "?v = (Inr resp, (t', f'), c')" by (metis prod.collapse)
  obtain p q where pq: "p \<in> set (rows demo_products)" "bm_ID p = 1" "pd_SKU q = pd_SKU p"
    "rows t' = map (\<lambda>y. if base_live y \<and> bm_ID y = 1 then q else y) (rows demo_products)"
    using product_uploadImage_only_image [OF mem_products.product_store_axioms image_context_fields(1) refl v] by blast
  have "pd_SKU p = ''A1''" using pq(1,2) by (auto simp: demo_product_defs Let_def)
  then have "map pd_SKU (rows t') = [''A1'', ''B2'']"
    using pq by (simp add: demo_product_defs base_live_def Let_def)
  then show ?thesis using v by (intro exI conjI)
qed

text \<open>
  The file is stored before the product is looked up, so an upload for a product that does
  not exist is answered with not found and still leaves the file on disk.
\<close>

theorem product_image_orphan:
  assumes "file_system OS d content" "safe_elem (uuid @ ToLower (Ext (fh_Filename fh)))"
    and "parseID c = Inr pid" "form_file (c_Body c) = Inr fh" "product_repo_GetByID G pid t = Inr None"
    and "file_Save OS uuid files (Some fh) ''products'' fsys = (Inr up, fsys')"
  shows "\<exists>bs. product_uploadImage G OS uuid files form_file now ((t, fsys), c)
             = (Inl (NotFound ''Product'' pid), (t, fsys'), Action ''PRODUCT_IMAGE_UPLOAD'' ''Product'' (FormatUint pid) c)
           \<and> fh_Open fh = Inr bs
           \<and> content fsys' (path_string True (abs_elems d (fs_basePath files) @ [''products'', fr_StoredName up])) = Some bs"
proof -
  have "TrimSpace ''products'' = ''products''" by code_simp
  moreover have "filter (\<lambda>p. \<not> (p = '''' \<or> p = ''.'' \<or> p = ''..''))
      (Split (CHR ''/'') (ReplaceAll (char_of (92 :: nat)) (CHR ''/'') ''products'')) = [''products'']" by code_simp
  ultimately have sub: "sub_elems ''products'' = [''products'']" by (simp add: sub_elems_def)
  have "\<exists>bs. fh_Open fh = Inr bs \<and> content fsys' (file_system.save_place d uuid files fh ''products'') = Some bs"
    by (rule file_system.Save_ok(4) [OF assms(1,6,2)])
  then obtain bs where "fh_Open fh = Inr bs"
    "content fsys' (path_string True (abs_elems d (fs_basePath files) @ [''products'', fr_StoredName up])) = Some bs"
    using file_system.save_place_def [OF assms(1), of uuid files fh "''products''"] file_system.Save_ok(1) [OF assms(1,6,2)] sub
    by (auto simp: stored_path_def)
  moreover have "product_uploadImage G OS uuid files form_file now ((t, fsys), c)
      = (Inl (NotFound ''Product'' pid), (t, fsys'), Action ''PRODUCT_IMAGE_UPLOAD'' ''Product'' (FormatUint pid) c)"
    unfolding uploadImage_eq [where form_file = form_file, OF assms(3,4)] Let_def by (simp add: assms(5,6) product_GetByID_def)
  ultimately show ?thesis by blast
qed

theorem product_image_orphan_witness:
  "\<exists>f' p. fst (snd (product_uploadImage mem_products (mem_fs ''/srv'') ''u1'' demo_files (\<lambda>_. Inr demo_upload) 0
       ((demo_products, Map.empty), image_context ''9''))) = (demo_products, f') \<and> f' p \<noteq> None"
proof -
  obtain up f1 where f: "file_Save (mem_fs ''/srv'') ''u1'' demo_files (Some demo_upload) ''products'' Map.empty = (Inr up, f1)"
    using demo_image_Save by blast
  have s: "safe_elem (''u1'' @ ToLower (Ext (fh_Filename demo_upload)))" unfolding demo_upload_name by code_simp
  have n: "product_repo_GetByID mem_products 9 demo_products = Inr None"
    by (simp add: mem_product_eval demo_product_defs Let_def)
  from product_image_orphan [OF mem_fs.file_system_axioms s image_context_fields(2) refl n f, of 0]
  obtain p bs where "product_uploadImage mem_products (mem_fs ''/srv'') ''u1'' demo_files (\<lambda>_. Inr demo_upload) 0
      ((demo_products, Map.empty), image_context ''9'')
    = (Inl (NotFound ''Product'' 9), (demo_products, f1), Action ''PRODUCT_IMAGE_UPLOAD'' ''Product'' (FormatUint 9) (image_context ''9''))"
    "f1 p = Some bs" by blast
  then show ?thesis by (intro exI [of _ f1] exI [of _ p]) simp
qed

end
