(* ===== verification/Router.thy ===== *)
theory Router
  imports Bootstrap Cors Product
begin

text \<open>
  Package \<open>internal/router\<close>: the whole server.  The state of one process is the request log, the
  rate limiter and the application state; a request is a \<open>gin_context\<close>, and \<open>serve\<close> runs it through
  every middleware in the order of \<open>New\<close> to the endpoint its route names.

  gin is third party: what is used of it is that it picks the handlers of the registered route that
  matches (static segments before parameters), runs the chain, and unwinds it on a panic.  So are
  \<open>gin-contrib/cors\<close>, whose middleware is the parameter \<open>cors_New\<close>, and the Swagger pages.
\<close>

section \<open>State and answers\<close>

record 'f app_state =
  ap_db :: auth_db
  ap_audit :: audit_service
  ap_products :: products
  ap_files :: 'f
  ap_idem :: "Record table"

datatype server_data =
    DPermission permission_data
  | DRole role_data
  | DUser user_data
  | DSession session_data
  | DAuth auth_data
  | DFile FileResponse
  | DProduct product_data
  | DAudit "Log PageResponse"
  | DInfo "(string \<times> string) list"

text \<open>The options handed to the CORS library.\<close>

record cors_config =
  cx_AllowMethods :: "string list"
  cx_AllowHeaders :: "string list"
  cx_ExposeHeaders :: "string list"
  cx_AllowCredentials :: bool
  cx_MaxAge :: duration
  cx_AllowOriginFunc :: "string \<Rightarrow> bool"

definition CORS :: "CORSConfig \<Rightarrow> cors_config" where
  "CORS cfg =
     \<lparr>cx_AllowMethods = cc_AllowedMethods cfg, cx_AllowHeaders = cc_AllowedHeaders cfg,
      cx_ExposeHeaders = cc_ExposedHeaders cfg, cx_AllowCredentials = cc_AllowCredentials cfg, cx_MaxAge = cc_MaxAge cfg,
      cx_AllowOriginFunc = (\<lambda>origin. matchOriginPatterns origin (cc_AllowedOrigins cfg))\<rparr>"

section \<open>Mounting a module\<close>

text \<open>
  A module's handler works on its part of the state and answers with its own data: \<open>mount\<close> embeds
  both.  None of the handlers reads what has been sent before.
\<close>

definition map_response :: "('a \<Rightarrow> 'b) \<Rightarrow> 'a ApiResponse \<Rightarrow> 'b ApiResponse" where
  "map_response f r =
     \<lparr>ar_Success = ar_Success r, ar_Message = ar_Message r, ar_Data = map_option f (ar_Data r), ar_Errors = ar_Errors r,
      ar_Timestamp = ar_Timestamp r, ar_Status = ar_Status r\<rparr>"

fun map_effect_data :: "('a \<Rightarrow> 'b) \<Rightarrow> 'a effect \<Rightarrow> 'b effect" where
  "map_effect_data f (EJSON s r) = EJSON s (map_response f r)"
| "map_effect_data f (EStatus s) = EStatus s"
| "map_effect_data f (EBytes b) = EBytes b"
| "map_effect_data f (EHeader k v) = EHeader k v"
| "map_effect_data f (EAbortJSON s m) = EAbortJSON s m"
| "map_effect_data f (EFile p) = EFile p"

definition with_out :: "'b effect list \<Rightarrow> 'a gin_context \<Rightarrow> 'b gin_context" where
  "with_out es c =
     \<lparr>c_Method = c_Method c, c_Path = c_Path c, c_RawQuery = c_RawQuery c, c_Header = c_Header c, c_Param = c_Param c,
      c_Body = c_Body c, c_ClientIP = c_ClientIP c, c_UserAgent = c_UserAgent c, c_Context = c_Context c,
      c_Keys = c_Keys c, c_Out = es, c_Aborted = c_Aborted c\<rparr>"

definition mount :: "('w \<Rightarrow> 'a) \<Rightarrow> ('a \<Rightarrow> 'w \<Rightarrow> 'w) \<Rightarrow> ('e \<Rightarrow> 'd) \<Rightarrow> ('a, 'e) handler \<Rightarrow> ('w, 'd) handler" where
  "mount get put emb h s =
     (let (w, c) = s;
          (a, c') = h (get w, with_out [] c)
      in (put a w, with_out (c_Out c @ map (map_effect_data emb) (c_Out c')) c'))"

section \<open>Routes\<close>

datatype api_route =
    RFile file_route
  | RAuth auth_route
  | RProduct product_route
  | RUser user_route
  | RRole role_route
  | RPermission permission_route
  | RSession session_route
  | RAudit

text \<open>The table the \<open>Register\<close> functions build, in their order.\<close>

definition file_paths :: "(string \<times> string \<times> api_route) list" where
  "file_paths =
     [(''POST'', ''/api/v1/files/upload'', RFile FileRouteUpload),
      (''GET'', ''/api/v1/files/*path'', RFile FileRouteServe)]"

definition auth_paths :: "(string \<times> string \<times> api_route) list" where
  "auth_paths =
     [(''POST'', ''/api/v1/auth/register'', RAuth AuthRouteRegister),
      (''POST'', ''/api/v1/auth/login'', RAuth AuthRouteLogin),
      (''POST'', ''/api/v1/auth/refresh'', RAuth AuthRouteRefresh),
      (''POST'', ''/api/v1/auth/forgot-password'', RAuth AuthRouteForgot),
      (''POST'', ''/api/v1/auth/reset-password'', RAuth AuthRouteReset),
      (''POST'', ''/api/v1/auth/logout'', RAuth AuthRouteLogout),
      (''POST'', ''/api/v1/auth/logout-all'', RAuth AuthRouteLogoutAll),
      (''GET'', ''/api/v1/auth/sessions'', RAuth AuthRouteSessions),
      (''DELETE'', ''/api/v1/auth/sessions/:id'', RAuth AuthRouteRevoke),
      (''POST'', ''/api/v1/auth/impersonate/:userId'', RAuth AuthRouteImpersonate)]"

definition product_paths :: "(string \<times> string \<times> api_route) list" where
  "product_paths =
     [(''GET'', ''/api/v1/products'', RProduct ProductRouteList),
      (''GET'', ''/api/v1/products/:id'', RProduct ProductRouteGet),
      (''POST'', ''/api/v1/products'', RProduct ProductRouteCreate),
      (''PUT'', ''/api/v1/products/:id'', RProduct ProductRouteUpdate),
      (''POST'', ''/api/v1/products/:id/image'', RProduct ProductRouteImage),
      (''DELETE'', ''/api/v1/products/:id'', RProduct ProductRouteDelete)]"

definition user_paths :: "(string \<times> string \<times> api_route) list" where
  "user_paths =
     [(''GET'', ''/api/v1/users/me'', RUser UserRouteMe),
      (''GET'', ''/api/v1/users'', RUser UserRouteList),
      (''GET'', ''/api/v1/users/:id'', RUser UserRouteGet),
      (''PUT'', ''/api/v1/users/:id'', RUser UserRouteUpdate),
      (''POST'', ''/api/v1/users/:id/activate'', RUser UserRouteActivate),
      (''POST'', ''/api/v1/users/:id/deactivate'', RUser UserRouteDeactivate),
      (''POST'', ''/api/v1/users/:id/force-logout'', RUser UserRouteForceLogout),
      (''PUT'', ''/api/v1/users/:id/roles'', RUser UserRouteRoles),
      (''DELETE'', ''/api/v1/users/:id'', RUser UserRouteDelete)]"

definition role_paths :: "(string \<times> string \<times> api_route) list" where
  "role_paths =
     [(''GET'', ''/api/v1/roles'', RRole RoleRouteList),
      (''GET'', ''/api/v1/roles/:id'', RRole RoleRouteGet),
      (''POST'', ''/api/v1/roles'', RRole RoleRouteCreate),
      (''PUT'', ''/api/v1/roles/:id'', RRole RoleRouteUpdate),
      (''PUT'', ''/api/v1/roles/:id/permissions'', RRole RoleRouteAssign),
      (''DELETE'', ''/api/v1/roles/:id'', RRole RoleRouteDelete)]"

definition permission_paths :: "(string \<times> string \<times> api_route) list" where
  "permission_paths =
     [(''GET'', ''/api/v1/permissions'', RPermission PermissionRouteList),
      (''GET'', ''/api/v1/permissions/:id'', RPermission PermissionRouteGet),
      (''POST'', ''/api/v1/permissions'', RPermission PermissionRouteCreate),
      (''PUT'', ''/api/v1/permissions/:id'', RPermission PermissionRouteUpdate),
      (''DELETE'', ''/api/v1/permissions/:id'', RPermission PermissionRouteDelete)]"

definition session_paths :: "(string \<times> string \<times> api_route) list" where
  "session_paths =
     [(''GET'', ''/api/v1/admin/sessions'', RSession SessionRouteSearch),
      (''GET'', ''/api/v1/admin/sessions/:id'', RSession SessionRouteGet),
      (''DELETE'', ''/api/v1/admin/sessions/:id'', RSession SessionRouteRevoke)]"

text \<open>The audit route exists only when auditing is enabled and its API exposed.\<close>

definition audit_paths :: "AuditConfig \<Rightarrow> (string \<times> string \<times> api_route) list" where
  "audit_paths cfg =
     (if \<not> ac_Enabled cfg \<or> \<not> ac_ExposeAPI cfg then [] else [(''GET'', ''/api/v1/audit-logs'', RAudit)])"

definition routes :: "AuditConfig \<Rightarrow> (string \<times> string \<times> api_route) list" where
  "routes cfg = file_paths @ auth_paths @ product_paths @ user_paths @ role_paths @ permission_paths @ session_paths @ audit_paths cfg"

text \<open>
  A pattern matches segment by segment: \<open>:name\<close> takes one non-empty segment, \<open>*name\<close> the rest with
  its slash.  The only patterns that overlap are the two \<open>GET\<close> routes below \<open>/users\<close>, where the static one
  stands first.
\<close>

fun match_segs :: "string list \<Rightarrow> string list \<Rightarrow> (string \<Rightarrow> string) option" where
  "match_segs [] [] = Some (\<lambda>_. '''')"
| "match_segs [] (s # ss) = None"
| "match_segs (p # ps) [] = None"
| "match_segs (p # ps) (s # ss) =
     (if HasPrefix p ''*'' then Some ((\<lambda>_. '''')(drop 1 p := ''/'' @ JoinStr (CHR ''/'') (s # ss)))
      else if HasPrefix p '':''
           then (if s = '''' then None else map_option (\<lambda>f. f(drop 1 p := s)) (match_segs ps ss))
      else if p = s then match_segs ps ss else None)"

fun find_route ::
  "(string \<times> string \<times> api_route) list \<Rightarrow> string \<Rightarrow> string \<Rightarrow> (api_route \<times> (string \<Rightarrow> string)) option" where
  "find_route [] meth path = None"
| "find_route ((m, pat, r) # rs) meth path =
     (if m = meth
      then (case match_segs (Split (CHR ''/'') pat) (Split (CHR ''/'') path) of
              Some ps \<Rightarrow> Some (r, ps)
            | None \<Rightarrow> find_route rs meth path)
      else find_route rs meth path)"

section \<open>What the server is given\<close>

text \<open>
  The libraries and binders of the whole program: the database interfaces, the file system, the
  query and body decoders, the collation and the \<open>LIKE\<close> of the database.
\<close>

record 'f server_env =
  se_cfg :: Config
  se_auth :: auth_env
  se_products :: "Product gorm"
  se_audit :: "Log gorm"
  se_idem :: "Record gorm"
  se_OS :: "'f filesys"
  se_files :: file_service
  se_wd :: "go_error + string"
  se_collate :: "string \<Rightarrow> string \<Rightarrow> bool"
  se_like :: "string \<Rightarrow> string \<Rightarrow> bool"
  se_wire :: "server_data effect \<Rightarrow> string"
  se_ReadAll :: "string \<Rightarrow> go_error + string"
  se_json :: json_codec
  se_page :: "string \<Rightarrow> PageRequest"
  se_permission_filter :: "string \<Rightarrow> PermissionFilter"
  se_permission_body :: "string \<Rightarrow> go_error + PermissionRequest"
  se_role_filter :: "string \<Rightarrow> RoleFilter"
  se_role_body :: "string \<Rightarrow> go_error + RoleRequest"
  se_assign_body :: "string \<Rightarrow> go_error + string list"
  se_session_filter :: "string \<Rightarrow> SessionFilter"
  se_product_filter :: "string \<Rightarrow> ProductFilter"
  se_product_body :: "string \<Rightarrow> go_error + ProductRequest"
  se_audit_filter :: "string \<Rightarrow> AuditFilter"
  se_user :: user_binders
  se_auth_body :: auth_binders
  se_form_file :: "string \<Rightarrow> go_error + FileHeader"
  se_form_value :: "string \<Rightarrow> string"
  se_swagger :: "server_data gin_context \<Rightarrow> server_data gin_context"

text \<open>
  What one request draws: the identifiers and random bytes it generates, what other requests do to
  the limiter between its reads, and its clock readings.
\<close>

record request_draws =
  dr_request_id :: string
  dr_file_id :: string
  dr_salt :: nat
  dr_random :: "go_error + string"
  dr_others :: "buckets \<Rightarrow> buckets"
  dr_clock :: clock

text \<open>The session service as the middleware sees it, and the idempotency store, in the whole state.\<close>

definition app_sessions :: "'f server_env \<Rightarrow> ('f app_state) SessionValidator" where
  "app_sessions N =
     (let V = db_sv (av_sessions (se_auth N))
      in \<lparr>sv_Validate = (\<lambda>now sid uid w. sv_Validate V now sid uid (ap_db w)),
          sv_Touch = (\<lambda>now sid w. w\<lparr>ap_db := sv_Touch V now sid (ap_db w)\<rparr>)\<rparr>)"

definition app_idem_store :: "'f server_env \<Rightarrow> ('f app_state) Store" where
  "app_idem_store N =
     (let G = se_idem N; put = (\<lambda>t w. w\<lparr>ap_idem := t\<rparr>)
      in \<lparr>st_Find = (\<lambda>now key meth path uid w. gormStore_Find G now key meth path uid (ap_idem w)),
          st_Save = (\<lambda>r. zoomE ap_idem put (gormStore_Save G r)),
          st_DeleteExpired = (\<lambda>before. zoomE ap_idem put (gormStore_DeleteExpired G before))\<rparr>)"

definition app_audit_sink :: "Log \<Rightarrow> 'f app_state \<Rightarrow> string option \<times> 'f app_state" where
  "app_audit_sink entry w = (case audit_Record entry (ap_audit w) of (p, a) \<Rightarrow> (p, w\<lparr>ap_audit := a\<rparr>))"

section \<open>The groups below /api/v1\<close>

text \<open>
  The middlewares of each group around the module's own handler.  The clock readings of the group's
  \<open>RequireAuth\<close> and idempotency middleware come first, then those of the module.
\<close>

abbreviation mount_db :: "('e \<Rightarrow> server_data) \<Rightarrow> (auth_db, 'e) handler \<Rightarrow> ('f app_state, server_data) handler" where
  "mount_db \<equiv> mount ap_db (\<lambda>db w. w\<lparr>ap_db := db\<rparr>)"

definition route_handler ::
  "'f server_env \<Rightarrow> request_draws \<Rightarrow> clock \<Rightarrow> api_route \<Rightarrow> ('f app_state, server_data) handler" where
  "route_handler N d clk route =
     (let E = se_auth N; G = av_users E; mclk = later 5 clk
      in case route of
           RFile r \<Rightarrow>
             mount ap_files (\<lambda>f w. w\<lparr>ap_files := f\<rparr>) DFile
               (file_Register (RequireAuth (clk 0)) (se_OS N) (se_wd N) (dr_file_id d) (se_files N) (se_form_file N)
                  (se_form_value N) mclk r)
         | RAuth r \<Rightarrow> mount_db DAuth (auth_routes E (se_auth_body N) (dr_salt d) (dr_random d) mclk r)
         | RProduct r \<Rightarrow>
             RequireAuth (clk 0)
               (idem_Middleware (se_wire N) (se_ReadAll N) (app_idem_store N) (cfg_Idem (se_cfg N)) (later 1 clk)
                 (mount (\<lambda>w. (ap_products w, ap_files w)) (\<lambda>(p, f) w. w\<lparr>ap_products := p, ap_files := f\<rparr>) DProduct
                   (product_Register (se_products N) (se_like N) (se_OS N) (dr_file_id d) (se_files N) (se_product_filter N)
                      (se_page N) (se_product_body N) (se_form_file N) mclk r)))
         | RUser r \<Rightarrow>
             RequireAuth (clk 0)
               (mount_db DUser (user_Register G (Some (session_RevokeAllForUser (av_sessions E))) (se_like N) (se_user N) mclk r))
         | RRole r \<Rightarrow>
             RequireAuth (clk 0)
               (mount_db DRole (role_Register (ug_role G) (se_collate N) (se_like N) (se_role_filter N) (se_page N) (se_role_body N)
                  (se_assign_body N) mclk r))
         | RPermission r \<Rightarrow>
             RequireAuth (clk 0)
               (mount (rd_permissions \<circ> ap_db) (\<lambda>t w. w\<lparr>ap_db := (ap_db w)\<lparr>rd_permissions := t\<rparr>\<rparr>) DPermission
                 (permission_Register (rg_permissions (ug_role G)) (se_collate N) (se_like N) (se_permission_filter N) (se_page N)
                    (se_permission_body N) mclk r))
         | RSession r \<Rightarrow>
             RequireAuth (clk 0)
               (mount (ud_sessions \<circ> ap_db) (\<lambda>t w. w\<lparr>ap_db := (ap_db w)\<lparr>ud_sessions := t\<rparr>\<rparr>) DSession
                 (session_Register (av_sessions E) (se_like N) (se_session_filter N) (se_page N) mclk r))
         | RAudit \<Rightarrow>
             RequireAuth (clk 0)
               (case audit_Register (cfg_Audit (se_cfg N)) (se_audit N) (se_like N) (se_audit_filter N) (se_page N) mclk of
                  None \<Rightarrow> (\<lambda>s. s)
                | Some h \<Rightarrow> mount ap_audit (\<lambda>a w. w\<lparr>ap_audit := a\<rparr>) DAudit h))"

section \<open>The chain\<close>

text \<open>
  A middleware that does nothing after \<open>c.Next()\<close> passes a panic of the rest of the chain on: the
  panic travels as a part of the state it does not look at.
\<close>

definition unwinding ::
  "(('a \<times> string option \<times> 'w, 'd) handler \<Rightarrow> ('a \<times> string option \<times> 'w, 'd) handler) \<Rightarrow> ('a \<times> 'w, 'd) panicking \<Rightarrow> ('a \<times> 'w, 'd) panicking" where
  "unwinding mw next_h s =
     (let ((a, w), c) = s;
          ((a, p, w), c) =
            mw (\<lambda>((a, p, w), c). case next_h ((a, w), c) of (p, (a, w), c) \<Rightarrow> ((a, p, w), c)) ((a, None, w), c)
      in (p, (a, w), c))"

text \<open>The line of \<open>RequestLogging\<close> is written after \<open>c.Next()\<close>, so a panic suppresses it.\<close>

definition logging_unwinding ::
  "clock \<Rightarrow> ('w, 'd) panicking \<Rightarrow> (log_line list \<times> 'w, 'd) panicking" where
  "logging_unwinding clk next_h s =
     (let ((logs, w), c) = s;
          ((logs', p, w), c) =
            RequestLogging clk (\<lambda>((p, w), c). case next_h (w, c) of (p, w, c) \<Rightarrow> ((p, w), c)) ((logs, None, w), c)
      in (p, (if p = None then logs' else logs, w), c))"

type_synonym 'f server_state = "log_line list \<times> RateService \<times> 'f app_state"

text \<open>\<open>/api\<close>: the rate limit, the audit log, authentication, then the group.\<close>

definition api_chain ::
  "'f server_env \<Rightarrow> request_draws \<Rightarrow> clock \<Rightarrow> api_route \<Rightarrow> (RateService \<times> 'f app_state, server_data) panicking" where
  "api_chain N d clk route =
     unwinding (rate_Middleware (dr_others d) clk) (\<lambda>((svc, w), c).
       case audit_Middleware (se_wire N) (se_ReadAll N) (se_json N) app_audit_sink (cfg_Audit (se_cfg N)) (later 3 clk)
              (\<lambda>s. (None,
                 JWTAuth (av_lib (se_auth N)) (av_jwt (se_auth N)) (Some (app_sessions N)) (later 10 clk)
                   (route_handler N d (later 20 clk) route) s)) (w, c)
       of (p, w, c) \<Rightarrow> (p, (svc, w), c))"

text \<open>The endpoints outside \<open>/api\<close>, and the answer when no route matches.\<close>

definition plain_endpoint ::
  "'f server_env \<Rightarrow> time \<Rightarrow> server_data gin_context \<Rightarrow> server_data gin_context" where
  "plain_endpoint N now c =
     (if c_Method c = ''GET'' \<and> c_Path c = ''/''
      then WriteResponse (Some (OK now (Some (DInfo
             [(''name'', app_Name (cfg_App (se_cfg N))), (''env'', app_Env (cfg_App (se_cfg N))), (''version'', ''1.0''),
              (''docs'', ''/swagger/index.html'')])))) c
      else if c_Method c = ''GET'' \<and> HasPrefix (c_Path c) ''/swagger/'' then se_swagger N c
      else if c_Method c = ''GET'' \<and> c_Path c = ''/health''
      then WriteResponse (Some (OK now (Some (DInfo [(''status'', ''ok'')])))) c
      else WriteResponse (Some (ErrorResponse now 404 (''Endpoint not found: '' @ c_Path c) None)) c)"

definition dispatch :: "'f server_env \<Rightarrow> request_draws \<Rightarrow> clock \<Rightarrow> (RateService \<times> 'f app_state, server_data) panicking" where
  "dispatch N d clk s =
     (case find_route (routes (cfg_Audit (se_cfg N))) (c_Method (snd s)) (c_Path (snd s)) of
        Some (route, params) \<Rightarrow> api_chain N d clk route (fst s, (snd s)\<lparr>c_Param := params\<rparr>)
      | None \<Rightarrow> (None, fst s, plain_endpoint N (clk 0) (snd s)))"

text \<open>
  gin's documented treatment of a trailing slash, on by default: a path without a route of the
  request's method whose other form (with or without the slash) has one is redirected there, before
  any middleware runs.
\<close>

definition known :: "'f server_env \<Rightarrow> string \<Rightarrow> string \<Rightarrow> bool" where
  "known N meth path =
     (find_route (routes (cfg_Audit (se_cfg N))) meth path \<noteq> None \<or>
      meth = ''GET'' \<and> (path = ''/'' \<or> path = ''/health'' \<or> HasPrefix path ''/swagger/''))"

definition other_slash :: "string \<Rightarrow> string" where
  "other_slash path = (if HasSuffix path ''/'' then butlast path else path @ ''/'')"

definition redirected :: "'f server_env \<Rightarrow> 'd gin_context \<Rightarrow> bool" where
  "redirected N c =
     (c_Method c \<noteq> ''CONNECT'' \<and> c_Path c \<noteq> ''/'' \<and> \<not> known N (c_Method c) (c_Path c)
        \<and> known N (c_Method c) (other_slash (c_Path c)))"

definition redirect_slash :: "'d gin_context \<Rightarrow> 'd gin_context" where
  "redirect_slash c =
     send (EStatus (if c_Method c = ''GET'' then 301 else 307))
       (send (EHeader ''Location'' (other_slash (c_Path c) @ (if c_RawQuery c = '''' then '''' else ''?'' @ c_RawQuery c))) c)"

text \<open>
  \<open>New\<close>: recovery outermost, then the request id, the request log and CORS around the dispatch.
  \<open>HandleMethodNotAllowed\<close> of the engine is never set, so gin never calls the \<open>NoMethod\<close> handler.
\<close>

definition serve ::
  "(cors_config \<Rightarrow> (RateService \<times> string option \<times> 'f app_state, server_data) handler
                 \<Rightarrow> (RateService \<times> string option \<times> 'f app_state, server_data) handler)
     \<Rightarrow> 'f server_env \<Rightarrow> request_draws \<Rightarrow> ('f server_state, server_data) handler" where
  "serve cors_New N d s =
     (let clk = dr_clock d
      in if redirected N (snd s) then (fst s, redirect_slash (snd s))
         else Recovery (clk 0)
           (unwinding (RequestID (dr_request_id d))
             (logging_unwinding (later 1 clk)
               (unwinding (cors_New (CORS (cfg_CORS (se_cfg N)))) (dispatch N d (later 3 clk))))) s)"

section \<open>Who may use a route\<close>

fun route_public :: "api_route \<Rightarrow> bool" where
  "route_public (RFile r) = (r = FileRouteServe)"
| "route_public (RAuth r) = auth_public r"
| "route_public _ = False"

text \<open>The permissions of which one is needed; \<open>None\<close> when any signed-in user may call the route.\<close>

fun route_perms :: "api_route \<Rightarrow> string list option" where
  "route_perms (RFile r) = None"
| "route_perms (RAuth r) = (if r = AuthRouteImpersonate then Some [UserImpersonate] else None)"
| "route_perms (RProduct r) = Some (product_gate r)"
| "route_perms (RUser r) = user_gate r"
| "route_perms (RRole r) = Some (role_gate r)"
| "route_perms (RPermission r) = Some (permission_gate r)"
| "route_perms (RSession r) = Some [if r = SessionRouteRevoke then SessionRevoke else SessionRead]"
| "route_perms RAudit = Some [AuditRead]"

definition permits :: "api_route \<Rightarrow> Principal option \<Rightarrow> bool" where
  "permits route who =
     (route_public route \<or>
      (case who of
         None \<Rightarrow> False
       | Some p \<Rightarrow> (case route_perms route of None \<Rightarrow> True | Some perms \<Rightarrow> HasAnyAuthority p perms)))"

text \<open>The identity a request proves: that of a valid access token whose session validates.\<close>

definition accepted :: "'f server_env \<Rightarrow> clock \<Rightarrow> 'f app_state \<Rightarrow> 'd gin_context \<Rightarrow> Principal option" where
  "accepted N clk w c =
     (let raw = extractBearer (c_Header c ''Authorization'')
      in if raw = '''' then None
         else case jwt_Parse (av_lib (se_auth N)) (av_jwt (se_auth N)) (clk 0) raw of
                Inl _ \<Rightarrow> None
              | Inr cl \<Rightarrow>
                  if cl_Type cl \<noteq> TokenTypeAccess then None
                  else if cl_SessionID cl \<noteq> 0 \<and> isl (sv_Validate (app_sessions N) (clk 1) (cl_SessionID cl) (cl_UserID cl) w) then None
                  else Some (principal_of cl))"

definition principal_in :: "'d gin_context \<Rightarrow> Principal option" where
  "principal_in c = (case CurrentPrincipal c of Inl _ \<Rightarrow> None | Inr p \<Rightarrow> Some p)"

section \<open>Confinement\<close>

lemma principal_in_cong: "c_Keys c' CtxPrincipal = c_Keys c CtxPrincipal \<Longrightarrow> principal_in c' = principal_in c"
  for c :: "'a gin_context" and c' :: "'b gin_context"
  by (simp add: principal_in_def CurrentPrincipal_def)

lemma with_out_fields [simp]:
  "c_Keys (with_out es c) = c_Keys c" "c_Aborted (with_out es c) = c_Aborted c" "c_Header (with_out es c) = c_Header c"
  "principal_in (with_out es c) = principal_in c"
  by (simp_all add: with_out_def principal_in_def CurrentPrincipal_def)

text \<open>A refused request: the state is untouched and the chain aborted.\<close>

definition refuses :: "('w, 'd) handler \<Rightarrow> 'w \<Rightarrow> 'd gin_context \<Rightarrow> bool" where
  "refuses h w c = (fst (h (w, c)) = w \<and> c_Aborted (snd (h (w, c))))"

lemma deny_refuses: "h (w, c) = deny now status msg (w, c) \<Longrightarrow> refuses h w c"
  by (simp add: refuses_def)

lemma RequireAuth_refuses: "principal_in c = None \<Longrightarrow> refuses (RequireAuth now h) w c"
  by (rule deny_refuses) (auto simp: RequireAuth_def principal_in_def split: sum.splits)

lemma RequireAuth_passes: "refuses h w c \<Longrightarrow> refuses (RequireAuth now h) w c"
  by (cases "principal_in c") (auto simp: RequireAuth_refuses, auto simp: refuses_def RequireAuth_def principal_in_def split: sum.splits)

lemma HasPermission_refuses:
  "(\<And>p. principal_in c = Some p \<Longrightarrow> \<not> HasAnyAuthority p perms) \<Longrightarrow> refuses (HasPermission now perms h) w c"
  by (cases "CurrentPrincipal c") (auto simp: HasPermission_def principal_in_def refuses_def)

lemma mount_refuses:
  "refuses h (get w) (with_out [] c) \<Longrightarrow> put (get w) w = w \<Longrightarrow> refuses (mount get put emb h) w c"
  by (auto simp: refuses_def mount_def Let_def split: prod.split)

text \<open>Idempotency in front of a refusing handler: replayed or refused, nothing changes.\<close>

lemma idem_keeps:
  assumes "\<And>b. refuses h w (c\<lparr>c_Body := b\<rparr>)" "refuses h w c"
  shows "fst (idem_Middleware wire rd S cfg clk h (w, c)) = w"
  using assms
  by (auto simp: idem_Middleware_def refuses_def Let_def split: sum.split option.split prod.split)
     (metis fst_conv snd_conv)+

lemma gated_refuses:
  assumes "\<not> permits route (principal_in c)" "route_perms route = Some perms"
  shows "refuses (HasPermission now perms h) w (with_out [] c)"
  using assms by (intro HasPermission_refuses) (auto simp: permits_def)

lemma ungated_refuses:
  assumes "\<not> permits route (principal_in c)" "route_perms route = None"
  shows "refuses (RequireAuth now h) w c"
  using assms by (intro RequireAuth_refuses) (auto simp: permits_def split: option.splits)

text \<open>Without the authority a route asks for, its handler changes nothing.\<close>

lemma route_refuses:
  assumes "\<not> permits route (principal_in c)" "\<forall>x. route \<noteq> RProduct x" "route \<noteq> RAudit"
  shows "refuses (route_handler N d clk route) w c"
proof (cases route)
  case (RFile x)
  then have x: "x = FileRouteUpload" using assms by (cases x) (simp_all add: permits_def)
  have "refuses (RequireAuth (clk 0) h) (ap_files w) (with_out [] c)" for h :: "(_, FileResponse) handler"
    using assms(1) by (intro RequireAuth_refuses) (auto simp: permits_def RFile split: option.splits)
  then show ?thesis
    unfolding route_handler_def RFile x file_Register_def Let_def api_route.case file_route.case by (intro mount_refuses) simp_all
next
  case (RAuth x)
  then have pub: "\<not> auth_public x" using assms by (simp add: permits_def)
  have "refuses (RequireAuth now (if x = AuthRouteImpersonate then HasPermission now' [UserImpersonate] h else h)) (ap_db w) (with_out [] c)"
    for now now' and h :: "(auth_db, auth_data) handler"
    using assms(1) gated_refuses [of route c "[UserImpersonate]" now' h "ap_db w"]
    by (cases "x = AuthRouteImpersonate") (auto simp: RAuth permits_def split: option.splits intro: RequireAuth_passes RequireAuth_refuses)
  then have "refuses (auth_routes (se_auth N) (se_auth_body N) (dr_salt d) (dr_random d) (later 5 clk) x) (ap_db w) (with_out [] c)"
    unfolding auth_routes_def Let_def using pub by simp
  then show ?thesis
    unfolding route_handler_def RAuth Let_def api_route.case by (rule mount_refuses) simp
next
  case (RUser x)
  show ?thesis
  proof (cases "user_gate x")
    case None
    then have "route_perms route = None" by (simp add: RUser)
    from ungated_refuses [OF assms(1) this] show ?thesis unfolding RUser route_handler_def Let_def api_route.case .
  next
    case (Some perms)
    then show ?thesis
      unfolding route_handler_def RUser Let_def api_route.case user_Register_def Some option.case
      by (intro RequireAuth_passes mount_refuses gated_refuses [OF assms(1)]) (simp_all add: RUser Some)
  qed
next
  case (RRole x)
  then show ?thesis
    unfolding route_handler_def RRole Let_def api_route.case role_Register_def
    by (intro RequireAuth_passes mount_refuses gated_refuses [OF assms(1)]) (simp_all add: RRole)
next
  case (RPermission x)
  then show ?thesis
    unfolding route_handler_def RPermission Let_def api_route.case permission_Register_def
    by (intro RequireAuth_passes mount_refuses gated_refuses [OF assms(1)]) (simp_all add: RPermission)
next
  case (RSession x)
  then show ?thesis
    unfolding route_handler_def RSession Let_def api_route.case
    by (cases x; simp only: session_Register.simps) (intro RequireAuth_passes mount_refuses gated_refuses [OF assms(1)]; simp add: RSession)+
qed (use assms(2,3) in simp_all)

lemma route_confined:
  assumes "\<not> permits route (principal_in c)"
  shows "fst (route_handler N d clk route (w, c)) = w"
proof (cases route)
  case (RProduct x)
  let ?h = "mount (\<lambda>w. (ap_products w, ap_files w)) (\<lambda>(p, f) w. w\<lparr>ap_products := p, ap_files := f\<rparr>) DProduct
     (product_Register (se_products N) (se_like N) (se_OS N) (dr_file_id d) (se_files N) (se_product_filter N)
        (se_page N) (se_product_body N) (se_form_file N) (later 5 clk) x)"
  have r: "refuses ?h w c'" if "principal_in c' = principal_in c" for c'
  proof -
    have "\<not> permits (RProduct x) (principal_in c')" using assms RProduct that by simp
    then show ?thesis unfolding product_Register_def by (intro mount_refuses gated_refuses [of "RProduct x"]) simp_all
  qed
  have "fst (idem_Middleware (se_wire N) (se_ReadAll N) (app_idem_store N) (cfg_Idem (se_cfg N)) (later 1 clk) ?h (w, c)) = w"
    by (rule idem_keeps; rule r) (simp_all add: principal_in_def CurrentPrincipal_def)
  then show ?thesis
    unfolding route_handler_def RProduct Let_def api_route.case
    by (cases "principal_in c") (auto simp: RequireAuth_def principal_in_def split: sum.splits)
next
  case RAudit
  show ?thesis
  proof (cases "audit_Register (cfg_Audit (se_cfg N)) (se_audit N) (se_like N) (se_audit_filter N) (se_page N) (later 5 clk)")
    case None
    then show ?thesis by (auto simp: route_handler_def RAudit Let_def RequireAuth_def split: sum.split)
  next
    case (Some h)
    have h: "h = HasPermission (later 5 clk 0) [AuditRead] (Handler (later 5 clk 2)
        (endpoint (audit_search (se_audit N) (se_like N) (se_audit_filter N) (se_page N) (later 5 clk 1))))"
      using Some by (simp add: audit_Register_def split: if_split_asm)
    have "refuses (mount ap_audit (\<lambda>a w. w\<lparr>ap_audit := a\<rparr>) DAudit h) w c"
      unfolding h by (intro mount_refuses gated_refuses [OF assms]) (simp_all add: RAudit)
    from RequireAuth_passes [OF this, of "clk 0"] show ?thesis
      unfolding route_handler_def RAudit Let_def api_route.case Some option.case refuses_def by (rule conjunct1)
  qed
qed (use route_refuses [OF assms, of N d clk w] in \<open>simp_all add: refuses_def\<close>)

text \<open>What a refused request may leave behind: the last use of the caller's session, and an audit entry.\<close>

definition only_traces :: "'f server_env \<Rightarrow> 'f app_state \<Rightarrow> 'f app_state \<Rightarrow> bool" where
  "only_traces N w w' =
     (\<exists>t a. (t = ud_sessions (ap_db w) \<or> (\<exists>now sid. t = session_Touch (av_sessions (se_auth N)) now sid (ud_sessions (ap_db w))))
          \<and> w' = w\<lparr>ap_db := (ap_db w)\<lparr>ud_sessions := t\<rparr>, ap_audit := a\<rparr>)"

lemma only_traces_refl: "only_traces N w w"
  unfolding only_traces_def by (intro exI [of _ "ud_sessions (ap_db w)"] exI [of _ "ap_audit w"]) simp

lemma only_traces_touch: "only_traces N w (sv_Touch (app_sessions N) now sid w)"
  unfolding only_traces_def
  by (intro exI [of _ "session_Touch (av_sessions (se_auth N)) now sid (ud_sessions (ap_db w))"] exI [of _ "ap_audit w"])
    (auto simp: app_sessions_def db_sv_def)

lemma only_traces_audit: "only_traces N w w' \<Longrightarrow> only_traces N w (snd (app_audit_sink e w'))"
proof -
  assume "only_traces N w w'"
  then obtain t a where t: "t = ud_sessions (ap_db w) \<or> (\<exists>now sid. t = session_Touch (av_sessions (se_auth N)) now sid (ud_sessions (ap_db w)))"
    and w': "w' = w\<lparr>ap_db := (ap_db w)\<lparr>ud_sessions := t\<rparr>, ap_audit := a\<rparr>" unfolding only_traces_def by blast
  have "snd (app_audit_sink e w') = w\<lparr>ap_db := (ap_db w)\<lparr>ud_sessions := t\<rparr>, ap_audit := snd (audit_Record e a)\<rparr>"
    by (simp add: app_audit_sink_def w' split: prod.split)
  with t show ?thesis unfolding only_traces_def by blast
qed

lemma principal_set [simp]: "principal_in (set_principal p c) = Some p"
  by (simp add: principal_in_def)

lemma jwt_confined:
  assumes "principal_in c = None" "\<not> permits route (accepted N clk w c)"
  shows "only_traces N w (fst (JWTAuth (av_lib (se_auth N)) (av_jwt (se_auth N)) (Some (app_sessions N)) clk
           (route_handler N d clk' route) (w, c)))"
proof (cases "extractBearer (c_Header c ''Authorization'') = ''''")
  case True
  then have "accepted N clk w c = None" by (simp add: accepted_def Let_def)
  then have "fst (route_handler N d clk' route (w, c)) = w" using assms by (intro route_confined) simp
  then show ?thesis using True by (simp add: JWTAuth_def Let_def only_traces_refl)
next
  case raw: False
  show ?thesis
  proof (cases "jwt_Parse (av_lib (se_auth N)) (av_jwt (se_auth N)) (clk 0) (extractBearer (c_Header c ''Authorization''))")
    case (Inl e)
    then show ?thesis using raw by (simp add: JWTAuth_def Let_def only_traces_refl)
  next
    case (Inr cl)
    let ?V = "sv_Validate (app_sessions N) (clk 1) (cl_SessionID cl) (cl_UserID cl) w"
    show ?thesis
    proof (cases "cl_Type cl \<noteq> TokenTypeAccess \<or> cl_SessionID cl \<noteq> 0 \<and> isl ?V")
      case True
      then show ?thesis using raw Inr
        by (cases ?V) (auto simp: JWTAuth_def Let_def only_traces_refl)
    next
      case False
      then have "accepted N clk w c = Some (principal_of cl)" using raw Inr by (simp add: accepted_def Let_def)
      then have r: "fst (route_handler N d clk' route (w', set_principal (principal_of cl) c)) = w'" for w'
        using assms(2) by (intro route_confined) simp
      show ?thesis using False raw Inr
        by (cases ?V; cases "cl_SessionID cl = 0") (simp_all add: JWTAuth_def Let_def r only_traces_refl only_traces_touch)
    qed
  qed
qed

lemma audit_confined:
  assumes "\<And>b. only_traces N w (fst (h (w, c\<lparr>c_Body := b\<rparr>)))"
  shows "only_traces N w (fst (snd (audit_Middleware wire rd J app_audit_sink cfg clk (\<lambda>s. (None, h s)) (w, c))))"
proof -
  have id: "c\<lparr>c_Body := c_Body c\<rparr> = c" by simp
  have h: "only_traces N w (fst (h (w, c)))" using assms [of "c_Body c"] unfolding id .
  have "only_traces N w w' \<Longrightarrow> only_traces N w (snd (app_audit_sink e w'))" for w' and e by (rule only_traces_audit)
  then show ?thesis using h assms
    by (auto simp: audit_Middleware_def Let_def split: prod.split option.split sum.split)
       (metis fst_conv snd_conv)+
qed

text \<open>The limiter after a request of an identity on a path.\<close>

definition charged :: "(buckets \<Rightarrow> buckets) \<Rightarrow> clock \<Rightarrow> string \<Rightarrow> string \<Rightarrow> RateService \<Rightarrow> RateService" where
  "charged others clk who path svc =
     (if \<not> rl_Enabled (sv_cfg svc) \<or> \<not> IsIncluded (sv_cfg svc) path then svc
      else snd (if IsAuthPath (sv_cfg svc) path then TakeAuth others clk who svc else TakeDefault others clk who svc))"

definition same_request :: "'d gin_context \<Rightarrow> 'd gin_context \<Rightarrow> bool" where
  "same_request c c1 = (c1 = c\<lparr>c_Out := c_Out c1\<rparr>)"

lemma same_request_refl [simp]: "same_request c c"
  by (simp add: same_request_def)

lemma same_request_fields:
  assumes "same_request c c1"
  shows "c_Keys c1 = c_Keys c" "c_Header c1 = c_Header c" "c_Path c1 = c_Path c" "c_Method c1 = c_Method c"
    "c_ClientIP c1 = c_ClientIP c"
  using assms unfolding same_request_def by (metis gin_context.select_convs gin_context.surjective gin_context.update_convs(11))+

text \<open>A middleware that passes a request on, and one that answers itself.\<close>

lemma unwinding_next:
  "(\<And>h. mw h ((a, None, w), c) = h ((a1, None, w1), c1)) \<Longrightarrow> unwinding mw f ((a, w), c) = f ((a1, w1), c1)"
  by (cases "f ((a1, w1), c1)") (auto simp: unwinding_def)

lemma unwinding_answer:
  "(\<And>h. mw h ((a, None, w), c) = ((a1, None, w1), c1)) \<Longrightarrow> unwinding mw f ((a, w), c) = (None, (a1, w1), c1)"
  by (simp add: unwinding_def)

lemma rate_unwinding:
  assumes "unwinding (rate_Middleware others clk) f ((svc, w), c) = (p, (svc', w'), c')"
  shows "(\<exists>c1. same_request c c1 \<and> f ((charged others clk (rate_identity c) (c_Path c) svc, w), c1) = (p, (svc', w'), c'))
       \<or> svc' = charged others clk (rate_identity c) (c_Path c) svc \<and> w' = w"
proof -
  let ?u = "if IsAuthPath (sv_cfg svc) (c_Path c) then TakeAuth others clk (rate_identity c) svc else TakeDefault others clk (rate_identity c) svc"
  show ?thesis
  proof (cases "\<not> rl_Enabled (sv_cfg svc) \<or> \<not> IsIncluded (sv_cfg svc) (c_Path c)")
    case True
    then have "unwinding (rate_Middleware others clk) f ((svc, w), c) = f ((svc, w), c)"
      by (intro unwinding_next) (auto simp: rate_Middleware_def)
    with True assms show ?thesis by (auto simp: charged_def)
  next
    case False
    obtain ok rem cap retry svc1 where u: "?u = ((ok, rem, cap, retry), svc1)" by (cases ?u) auto
    have ch: "charged others clk (rate_identity c) (c_Path c) svc = svc1" using False u by (simp add: charged_def)
    let ?c = "send (EHeader ''X-RateLimit-Remaining'' (FormatInt (sint rem))) (send (EHeader ''X-RateLimit-Limit'' (FormatInt (sint cap))) c)"
    have sr: "same_request c ?c" by (simp add: same_request_def send_def)
    show ?thesis
    proof (cases ok)
      case True
      then have "unwinding (rate_Middleware others clk) f ((svc, w), c) = f ((svc1, w), ?c)"
        using False u by (intro unwinding_next) (simp add: rate_Middleware_def Let_def)
      then show ?thesis using ch sr assms by auto
    next
      case nok: False
      then have "\<exists>c2. unwinding (rate_Middleware others clk) f ((svc, w), c) = (None, (svc1, w), c2)"
        using False u by (intro exI unwinding_answer) (simp add: rate_Middleware_def Let_def)
      then show ?thesis using ch assms by auto
    qed
  qed
qed

section \<open>The CORS library\<close>

text \<open>
  As documented: a request without an \<open>Origin\<close> header is left alone; any other is either passed on,
  with response headers added, or answered by the middleware itself.
\<close>

locale cors_library =
  fixes cors_New :: "cors_config \<Rightarrow> (RateService \<times> string option \<times> 'f app_state, server_data) handler
      \<Rightarrow> (RateService \<times> string option \<times> 'f app_state, server_data) handler"
  assumes not_cors: "c_Header c ''Origin'' = '''' \<Longrightarrow> cors_New cfg h (s, c) = h (s, c)"
    and cors_decides: "(\<exists>c1. same_request c c1 \<and> (\<forall>h. cors_New cfg h (s, c) = h (s, c1)))
        \<or> (\<exists>c1. \<forall>h. cors_New cfg h (s, c) = (s, c1))"
begin

lemma cors_unwinding:
  "(\<exists>c1. same_request c c1 \<and> unwinding (cors_New cfg) f ((a, w), c) = f ((a, w), c1))
   \<or> (\<exists>c1. unwinding (cors_New cfg) f ((a, w), c) = (None, (a, w), c1))"
  using cors_decides [of c cfg "(a, None, w)"] by (auto intro: unwinding_next unwinding_answer)

lemma not_cors_unwinding:
  "c_Header c ''Origin'' = '''' \<Longrightarrow> unwinding (cors_New cfg) f ((a, w), c) = f ((a, w), c)"
  by (intro unwinding_next not_cors)

text \<open>What reaches the dispatch of a request whose keys are empty, and what is done with its result.\<close>

lemma serve_cases:
  assumes "serve cors_New N d ((logs, svc, w), c) = ((logs', svc', w'), c')" "c_Keys c = Map.empty"
  obtains (dispatched) c1 p c2 where "dispatch N d (later 3 (dr_clock d)) ((svc, w), c1) = (p, (svc', w'), c2)"
      "c_Method c1 = c_Method c" "c_Path c1 = c_Path c" "c_Header c1 = c_Header c" "c_ClientIP c1 = c_ClientIP c"
      "principal_in c1 = None" "GetString CtxUsername c1 = None"
  | (answered) "svc' = svc" "w' = w" "c_Header c ''Origin'' \<noteq> '''' \<or> find_route (routes (cfg_Audit (se_cfg N))) (c_Method c) (c_Path c) = None"
proof (cases "redirected N c")
  case True
  then have "find_route (routes (cfg_Audit (se_cfg N))) (c_Method c) (c_Path c) = None" by (auto simp: redirected_def known_def simp del: not_None_eq)
  then show thesis using True assms(1) by (intro answered) (simp_all add: serve_def)
next
  case direct: False
  let ?clk = "dr_clock d" and ?cors = "cors_New (CORS (cfg_CORS (se_cfg N)))"
  let ?disp = "dispatch N d (later 3 ?clk)"
  let ?ctx = "\<lambda>c. c_Keys c CtxPrincipal = None \<and> c_Keys c CtxUsername = None"
  obtain p0 s0 c0 where r: "unwinding (RequestID (dr_request_id d)) (logging_unwinding (later 1 ?clk) (unwinding ?cors ?disp)) ((logs, svc, w), c)
       = (p0, s0, c0)" by (rule prod_cases3)
  have s0: "s0 = (logs', svc', w')"
    using assms(1) r direct by (auto simp: serve_def Recovery_def Let_def split: option.splits)
  obtain c1 where c1: "unwinding (RequestID (dr_request_id d)) (logging_unwinding (later 1 ?clk) (unwinding ?cors ?disp)) ((logs, svc, w), c)
       = logging_unwinding (later 1 ?clk) (unwinding ?cors ?disp) ((logs, svc, w), c1)"
    "c_Method c1 = c_Method c" "c_Path c1 = c_Path c" "c_Header c1 = c_Header c" "c_ClientIP c1 = c_ClientIP c" "?ctx c1"
  proof
    let ?rid = "if c_Header c requestIDHeader = '''' then dr_request_id d else c_Header c requestIDHeader"
    let ?c1 = "send (EHeader requestIDHeader ?rid) (SetKey CtxRequestID (AnyString ?rid) c)"
    show "unwinding (RequestID (dr_request_id d)) (logging_unwinding (later 1 ?clk) (unwinding ?cors ?disp)) ((logs, svc, w), c)
       = logging_unwinding (later 1 ?clk) (unwinding ?cors ?disp) ((logs, svc, w), ?c1)"
      by (rule unwinding_next) (simp add: RequestID_def Let_def)
    show "?ctx ?c1" using assms(2) by (simp add: CtxRequestID_def ctx_key_defs)
  qed (simp_all add: send_def SetKey_def)
  obtain c2 p c3 where c2: "unwinding ?cors ?disp ((svc, w), c2) = (p, (svc', w'), c3)"
    "c_Method c2 = c_Method c" "c_Path c2 = c_Path c" "c_Header c2 = c_Header c" "c_ClientIP c2 = c_ClientIP c" "?ctx c2"
  proof -
    let ?k = "SetKey CtxStart (AnyTime (later 1 ?clk 0)) c1"
    let ?c2 = "?k\<lparr>c_Context := (c_Context ?k)\<lparr>rc_fields := rc_fields (c_Context ?k) @ [(''request_id'', GetRequestID ?k)]\<rparr>\<rparr>"
    obtain p sw c3 where "unwinding ?cors ?disp ((svc, w), ?c2) = (p, sw, c3)" by (rule prod_cases3)
    then obtain sv ww where u: "unwinding ?cors ?disp ((svc, w), ?c2) = (p, (sv, ww), c3)" by (cases sw) simp
    have "snd (fst (snd (logging_unwinding (later 1 ?clk) (unwinding ?cors ?disp) ((logs, svc, w), c1)))) = (sv, ww)"
      using u by (simp add: logging_unwinding_def RequestLogging_def Let_def)
    moreover have "logging_unwinding (later 1 ?clk) (unwinding ?cors ?disp) ((logs, svc, w), c1) = (p0, (logs', svc', w'), c0)"
      using r unfolding c1(1) s0 .
    ultimately have "(sv, ww) = (svc', w')" by simp
    then show thesis using that [of ?c2 p c3] u c1(2-) by (simp add: SetKey_def CtxStart_def ctx_key_defs)
  qed
  have "(\<exists>c1. same_request c2 c1 \<and> unwinding ?cors ?disp ((svc, w), c2) = ?disp ((svc, w), c1))
      \<or> c_Header c ''Origin'' \<noteq> '''' \<and> (\<exists>c1. unwinding ?cors ?disp ((svc, w), c2) = (None, (svc, w), c1))"
  proof (cases "c_Header c ''Origin'' = ''''")
    case True
    then show ?thesis using not_cors_unwinding [of c2 "CORS (cfg_CORS (se_cfg N))" ?disp svc w] same_request_refl [of c2] c2(4) by metis
  next
    case False
    then show ?thesis using cors_unwinding [of c2 "CORS (cfg_CORS (se_cfg N))" ?disp svc w] by blast
  qed
  then show thesis
  proof (elim disjE exE conjE)
    fix c4 assume "same_request c2 c4" "unwinding ?cors ?disp ((svc, w), c2) = ?disp ((svc, w), c4)"
    then show thesis using c2 same_request_fields [of c2 c4]
      by (intro dispatched [of c4 p c3]) (simp_all add: principal_in_def CurrentPrincipal_def GetString_def)
  next
    fix c4 assume "unwinding ?cors ?disp ((svc, w), c2) = (None, (svc, w), c4)" "c_Header c ''Origin'' \<noteq> ''''"
    then show thesis using c2(1) by (intro answered) simp_all
  qed
qed

lemma serve_no_origin:
  assumes "c_Header c ''Origin'' = ''''" "\<not> redirected N c"
  obtains c1 where
    "c1 = c\<lparr>c_Keys := c_Keys c1, c_Context := c_Context c1,
            c_Out := c_Out c @ [EHeader requestIDHeader (if c_Header c requestIDHeader = '''' then dr_request_id d else c_Header c requestIDHeader)]\<rparr>"
    "c_Keys c1 CtxPrincipal = c_Keys c CtxPrincipal" "c_Keys c1 CtxUsername = c_Keys c CtxUsername"
    "\<And>svw' c2. dispatch N d (later 3 (dr_clock d)) ((svc, w), c1) = (None, svw', c2)
       \<Longrightarrow> \<exists>logs'. serve cors_New N d ((logs, svc, w), c) = ((logs', svw'), c2)"
proof -
  let ?clk = "dr_clock d" and ?cors = "cors_New (CORS (cfg_CORS (se_cfg N)))"
  let ?disp = "dispatch N d (later 3 ?clk)"
  let ?rid = "if c_Header c requestIDHeader = '''' then dr_request_id d else c_Header c requestIDHeader"
  let ?started = "send (EHeader requestIDHeader ?rid) (SetKey CtxRequestID (AnyString ?rid) c)"
  let ?k = "SetKey CtxStart (AnyTime (later 1 ?clk 0)) ?started"
  let ?c1 = "?k\<lparr>c_Context := (c_Context ?k)\<lparr>rc_fields := rc_fields (c_Context ?k) @ [(''request_id'', GetRequestID ?k)]\<rparr>\<rparr>"
  have h: "c_Header ?c1 ''Origin'' = ''''" using assms(1) by (simp add: SetKey_def send_def)
  have u: "unwinding ?cors ?disp ((svc, w), ?c1) = ?disp ((svc, w), ?c1)" by (rule not_cors_unwinding [OF h])
  have r: "unwinding (RequestID (dr_request_id d)) f ((logs, svc, w), c) = f ((logs, svc, w), ?started)" for f
    by (rule unwinding_next) (simp add: RequestID_def Let_def)
  show thesis
  proof (rule that [of ?c1])
    fix svw' c2 assume d: "?disp ((svc, w), ?c1) = (None, svw', c2)"
    have "\<exists>logs'. logging_unwinding (later 1 ?clk) (unwinding ?cors ?disp) ((logs, svc, w), ?started) = (None, (logs', svw'), c2)"
      using u d by (simp add: logging_unwinding_def RequestLogging_def Let_def)
    then show "\<exists>logs'. serve cors_New N d ((logs, svc, w), c) = ((logs', svw'), c2)"
      by (auto simp: serve_def Recovery_def Let_def r assms(2))
  qed (simp_all add: SetKey_def send_def CtxRequestID_def CtxStart_def ctx_key_defs)
qed

end

text \<open>A CORS middleware that checks the origin as the options say.\<close>

definition simple_cors ::
  "cors_config \<Rightarrow> (RateService \<times> string option \<times> 'f app_state, server_data) handler \<Rightarrow> (RateService \<times> string option \<times> 'f app_state, server_data) handler" where
  "simple_cors cfg h s =
     (let (w, c) = s; origin = c_Header c ''Origin''
      in if origin = '''' then h (w, c)
         else if cx_AllowOriginFunc cfg origin then h (w, send (EHeader ''Access-Control-Allow-Origin'' origin) c)
         else (w, Abort (send (EStatus 403) c)))"

interpretation simple_cors: cors_library simple_cors
proof
  fix cfg h s and c :: "server_data gin_context"
  show "simple_cors cfg h (s, c) = h (s, c)" if "c_Header c ''Origin'' = ''''"
    using that by (simp add: simple_cors_def)
  let ?origin = "c_Header c ''Origin''"
  show "(\<exists>c1. same_request c c1 \<and> (\<forall>h. simple_cors cfg h (s, c) = h (s, c1))) \<or> (\<exists>c1. \<forall>h. simple_cors cfg h (s, c) = (s, c1))"
  proof (cases "?origin = '''' \<or> cx_AllowOriginFunc cfg ?origin")
    case True
    let ?c1 = "if ?origin = '''' then c else send (EHeader ''Access-Control-Allow-Origin'' ?origin) c"
    have "same_request c ?c1" by (simp add: same_request_def send_def)
    moreover have "\<forall>h. simple_cors cfg h (s, c) = h (s, ?c1)" using True by (auto simp: simple_cors_def Let_def)
    ultimately show ?thesis by blast
  next
    case False
    then have "\<forall>h. simple_cors cfg h (s, c) = (s, Abort (send (EStatus 403) c))" by (simp add: simple_cors_def Let_def)
    then show ?thesis by blast
  qed
qed

text \<open>A proven identity comes from an access token whose session is active.\<close>

lemma accepted_token:
  assumes "session_store (av_sessions (se_auth N))" "accepted N clk w c = Some who"
  obtains cl where "jwt_Parse (av_lib (se_auth N)) (av_jwt (se_auth N)) (clk 0) (extractBearer (c_Header c ''Authorization'')) = Inr cl"
    "cl_Type cl = TokenTypeAccess" "who = principal_of cl"
    "cl_SessionID cl \<noteq> 0 \<longrightarrow> db_active (clk 1) (cl_SessionID cl) (cl_UserID cl) (ap_db w)"
proof -
  obtain cl where cl: "jwt_Parse (av_lib (se_auth N)) (av_jwt (se_auth N)) (clk 0) (extractBearer (c_Header c ''Authorization'')) = Inr cl"
    "cl_Type cl = TokenTypeAccess" "who = principal_of cl"
    "cl_SessionID cl \<noteq> 0 \<longrightarrow> \<not> isl (sv_Validate (app_sessions N) (clk 1) (cl_SessionID cl) (cl_UserID cl) w)"
    using assms(2) by (auto simp: accepted_def Let_def split: if_split_asm sum.split_asm)
  have "db_active (clk 1) (cl_SessionID cl) (cl_UserID cl) (ap_db w)" if s: "cl_SessionID cl \<noteq> 0"
  proof -
    obtain u where "sv_Validate (db_sv (av_sessions (se_auth N))) (clk 1) (cl_SessionID cl) (cl_UserID cl) (ap_db w) = Inr u"
      using cl(4) s by (cases "sv_Validate (app_sessions N) (clk 1) (cl_SessionID cl) (cl_UserID cl) w")
        (auto simp: app_sessions_def Let_def split: sum.splits prod.splits)
    then show ?thesis
      using session_store.Validate_sound [OF assms(1)] by (auto simp: db_sv_def db_active_def)
  qed
  then have "cl_SessionID cl \<noteq> 0 \<longrightarrow> db_active (clk 1) (cl_SessionID cl) (cl_UserID cl) (ap_db w)" by blast
  with cl(1-3) show thesis by (rule that)
qed

lemma api_confined:
  assumes "api_chain N d clk route ((svc, w), c) = (p, (svc', w'), c')" "principal_in c = None"
    and "\<not> permits route (accepted N (later 10 clk) w c)"
  shows "only_traces N w w'"
proof -
  let ?jwt = "JWTAuth (av_lib (se_auth N)) (av_jwt (se_auth N)) (Some (app_sessions N)) (later 10 clk) (route_handler N d (later 20 clk) route)"
  let ?audit = "audit_Middleware (se_wire N) (se_ReadAll N) (se_json N) app_audit_sink (cfg_Audit (se_cfg N)) (later 3 clk) (\<lambda>s. (None, ?jwt s))"
  have a: "only_traces N w (fst (snd (?audit (w, c1))))" if "same_request c c1" for c1
  proof -
    have "only_traces N w (fst (?jwt (w, c1\<lparr>c_Body := b\<rparr>)))" for b
    proof -
      let ?c = "c1\<lparr>c_Body := b\<rparr>"
      have "principal_in ?c = None" "accepted N (later 10 clk) w ?c = accepted N (later 10 clk) w c"
        using assms(2) same_request_fields [OF that]
        by (simp_all add: accepted_def principal_in_def CurrentPrincipal_def)
      then show ?thesis using assms(3) by (intro jwt_confined) simp_all
    qed
    then show ?thesis by (rule audit_confined)
  qed
  let ?f = "\<lambda>((svc, w), c). let (p, w, c) = ?audit (w, c) in (p, (svc, w), c)"
  have "w' = fst (snd (?audit (w, c1)))" if "?f ((svc1, w), c1) = (p, (svc', w'), c')" for svc1 c1
    using that by (simp split: prod.split_asm)
  moreover have "(\<exists>c1. same_request c c1 \<and> ?f ((charged (dr_others d) clk (rate_identity c) (c_Path c) svc, w), c1) = (p, (svc', w'), c'))
       \<or> svc' = charged (dr_others d) clk (rate_identity c) (c_Path c) svc \<and> w' = w"
    by (rule rate_unwinding) (use assms(1) in \<open>simp add: api_chain_def\<close>)
  ultimately show ?thesis using a only_traces_refl by metis
qed

lemma api_charges:
  assumes "api_chain N d clk route ((svc, w), c) = (p, (svc', w'), c')"
  shows "svc' = charged (dr_others d) clk (rate_identity c) (c_Path c) svc"
proof -
  let ?jwt = "JWTAuth (av_lib (se_auth N)) (av_jwt (se_auth N)) (Some (app_sessions N)) (later 10 clk) (route_handler N d (later 20 clk) route)"
  let ?audit = "audit_Middleware (se_wire N) (se_ReadAll N) (se_json N) app_audit_sink (cfg_Audit (se_cfg N)) (later 3 clk) (\<lambda>s. (None, ?jwt s))"
  let ?f = "\<lambda>((svc, w), c). let (p, w, c) = ?audit (w, c) in (p, (svc, w), c)"
  have "svc1 = svc'" if "?f ((svc1, w), c1) = (p, (svc', w'), c')" for svc1 c1
    using that by (simp split: prod.split_asm)
  moreover have "(\<exists>c1. same_request c c1 \<and> ?f ((charged (dr_others d) clk (rate_identity c) (c_Path c) svc, w), c1) = (p, (svc', w'), c'))
       \<or> svc' = charged (dr_others d) clk (rate_identity c) (c_Path c) svc \<and> w' = w"
    by (rule rate_unwinding) (use assms in \<open>simp add: api_chain_def\<close>)
  ultimately show ?thesis by metis
qed

section \<open>Examples\<close>

text \<open>An access token of session 1 of the example state, issued at time 0.\<close>

definition demo_access :: string where
  "demo_access = enc_token (js_secret demo_jwt) (issue_claims plain_jwt demo_jwt 0 7 ''ada'' 1 0 [] TokenTypeAccess (900 * second))"

lemma demo_access_issue:
  "issue plain_jwt demo_jwt 0 7 ''ada'' 1 0 [] TokenTypeAccess (900 * second) = Inr (demo_access, 900 * second)"
  by (simp add: issue_def plain_jwt_Sign demo_access_def)

lemma demo_access_claims:
  "jwt_Parse plain_jwt demo_jwt 5 demo_access
     = Inr ((issue_claims plain_jwt demo_jwt 0 7 ''ada'' 1 0 [] TokenTypeAccess (900 * second))\<lparr>cl_Subject := ''''\<rparr>)"
  by (rule plain_jwt.Parse_issue [OF demo_access_issue]) simp_all

lemmas demo_access_shape = plain_jwt.issue_shape [OF demo_access_issue]

lemma demo_Logout:
  "\<exists>db1. auth_Logout demo_env 5 1 db = (Inr (), db1) \<and> \<not> session_active 5 1 7 (ud_sessions db1)"
proof -
  obtain db1 where "auth_Logout demo_env 5 1 db = (Inr (), db1)"
    "rows (ud_sessions db1) = map (\<lambda>r. if us_ID r = 1 \<and> us_RevokedAt r = None
       then r\<lparr>us_RevokedAt := Some 5, us_RevokedReason := ''user-logout''\<rparr> else r) (rows (ud_sessions db))"
    by (simp add: auth_Logout_def on_sessions_def zoomE_def mem_sessions_Revoke)
  then show ?thesis by (auto simp: session_active_def list_ex_iff split: if_splits)
qed

text \<open>Any server over the example database, with auditing and the rate limit switched off.\<close>

definition demo_server :: "'f server_env \<Rightarrow> 'f server_env" where
  "demo_server N = N\<lparr>se_auth := demo_env, se_cfg := (se_cfg N)\<lparr>cfg_Audit := demo_audit_cfg\<lparr>ac_Enabled := False\<rparr>\<rparr>\<rparr>"

definition demo_limiter :: RateService where
  "demo_limiter = NewService (demo_rate\<lparr>rl_Enabled := False\<rparr>)"

definition demo_logout :: "server_data gin_context" where
  "demo_logout = (demo_context (''Bearer '' @ demo_access))\<lparr>c_Method := ''POST'', c_Path := ''/api/v1/auth/logout''\<rparr>"

lemma demo_server_fields [simp]:
  "se_auth (demo_server N) = demo_env" "cfg_Audit (se_cfg (demo_server N)) = demo_audit_cfg\<lparr>ac_Enabled := False\<rparr>"
  by (simp_all add: demo_server_def)

lemma demo_unlimited: "unwinding (rate_Middleware others clk) f ((demo_limiter, w), c) = f ((demo_limiter, w), c)"
  by (rule unwinding_next) (simp add: rate_Middleware_def demo_limiter_def NewService_def)

lemma demo_logout_bearer: "extractBearer (c_Header demo_logout ''Authorization'') = demo_access"
  using extractBearer_Bearer demo_access_shape by (simp add: demo_context_def demo_logout_def)

lemma demo_logout_route:
  "\<exists>ps. find_route (routes (cfg_Audit (se_cfg (demo_server N)))) ''POST'' ''/api/v1/auth/logout'' = Some (RAuth AuthRouteLogout, ps)"
proof -
  have "map_option fst (find_route (routes (demo_audit_cfg\<lparr>ac_Enabled := False\<rparr>)) ''POST'' ''/api/v1/auth/logout'') = Some (RAuth AuthRouteLogout)"
    by code_simp
  then show ?thesis by auto
qed

lemma demo_session_valid:
  "sv_Validate (app_sessions (demo_server N)) 5 1 7 (w\<lparr>ap_db := demo_auth_db\<rparr>) = Inr ()"
proof -
  have "session_active 5 1 7 (ud_sessions demo_auth_db)"
    by (simp add: demo_auth_db_def demo_sessions_def demo_session_def session_active_def)
  then show ?thesis
    using mem_sessions.Validate_active [OF demo_sessions_ok]
    by (simp add: app_sessions_def demo_server_def db_sv_def demo_auth_db_def)
qed

text \<open>The logout of that session goes through the whole server and revokes it.\<close>

lemma demo_logout_handler:
  assumes "principal_in c = Some p" "p_SessionID p = 1"
  shows "\<not> session_active 5 1 7 (ud_sessions (ap_db (fst (route_handler (demo_server N) d (\<lambda>_. 5) (RAuth AuthRouteLogout) (w, c)))))"
proof -
  let ?c = "with_out [] c :: auth_data gin_context"
  obtain db1 where l: "auth_Logout demo_env 5 1 (ap_db w) = (Inr (), db1)" "\<not> session_active 5 1 7 (ud_sessions db1)"
    using demo_Logout by blast
  have p: "CurrentPrincipal ?c = Inr p"
    using assms(1) by (simp add: principal_in_def CurrentPrincipal_def split: sum.splits)
  have "endpoint (h_logout demo_env (\<lambda>_. 5)) (ap_db w, ?c) = (Inr (Some (MessageResponse 5 ''Logged out'')), db1, ?c)"
    by (simp add: endpoint_def h_logout_def bindE_def p assms(2) l)
  then have "ap_db (fst (route_handler (demo_server N) d (\<lambda>_. 5) (RAuth AuthRouteLogout) (w, c))) = db1"
    using p by (simp add: route_handler_def demo_server_def mount_def auth_routes_def Handler_def RequireAuth_def)
  then show ?thesis using l(2) by simp
qed

lemma demo_logout_served:
  "\<exists>logs' svc' w' c'. serve simple_cors (demo_server N) (d\<lparr>dr_clock := \<lambda>_. 5\<rparr>) ((logs, demo_limiter, w\<lparr>ap_db := demo_auth_db\<rparr>), demo_logout)
       = ((logs', svc', w'), c') \<and> \<not> only_traces (demo_server N) (w\<lparr>ap_db := demo_auth_db\<rparr>) w'"
proof -
  let ?N = "demo_server N" and ?d = "d\<lparr>dr_clock := \<lambda>_. 5\<rparr>" and ?w = "w\<lparr>ap_db := demo_auth_db\<rparr>"
  let ?cl = "(issue_claims plain_jwt demo_jwt 0 7 ''ada'' 1 0 [] TokenTypeAccess (900 * second))\<lparr>cl_Subject := ''''\<rparr>"
  have nr: "\<not> redirected ?N demo_logout"
    using demo_logout_route [of N] by (auto simp: redirected_def known_def demo_logout_def)
  have o: "c_Header demo_logout ''Origin'' = ''''" by (simp add: demo_logout_def demo_context_def)
  obtain c1 where c1: "c1 = demo_logout\<lparr>c_Keys := c_Keys c1, c_Context := c_Context c1,
       c_Out := c_Out demo_logout @ [EHeader requestIDHeader (if c_Header demo_logout requestIDHeader = '''' then dr_request_id ?d else c_Header demo_logout requestIDHeader)]\<rparr>"
    and run: "\<And>svw' c2. dispatch ?N ?d (later 3 (dr_clock ?d)) ((demo_limiter, ?w), c1) = (None, svw', c2)
       \<Longrightarrow> \<exists>logs'. serve simple_cors ?N ?d ((logs, demo_limiter, ?w), demo_logout) = ((logs', svw'), c2)"
    by (rule simple_cors.serve_no_origin [OF o nr, of ?d demo_limiter ?w logs], rule that)
  obtain ps where ps: "find_route (routes (cfg_Audit (se_cfg ?N))) ''POST'' ''/api/v1/auth/logout'' = Some (RAuth AuthRouteLogout, ps)"
    using demo_logout_route by blast
  let ?c = "c1\<lparr>c_Param := ps\<rparr>"
  let ?h = "route_handler ?N ?d (\<lambda>_. 5) (RAuth AuthRouteLogout)"
  let ?touched = "sv_Touch (app_sessions ?N) 5 1 ?w"
  obtain w2 c2 where w2: "?h (?touched, set_principal (principal_of ?cl) ?c) = (w2, c2)" by (cases "?h (?touched, set_principal (principal_of ?cl) ?c)")
  have f: "c_Method c1 = ''POST''" "c_Path c1 = ''/api/v1/auth/logout''" "c_Header c1 = c_Header demo_logout"
    by (subst c1, simp add: demo_logout_def)+
  have "JWTAuth plain_jwt demo_jwt (Some (app_sessions ?N)) (\<lambda>_. 5) ?h (?w, ?c) = (w2, c2)"
    using w2 demo_access_shape by (simp add: JWTAuth_def f demo_logout_bearer demo_access_claims issue_claims_def demo_session_valid)
  then have "dispatch ?N ?d (later 3 (dr_clock ?d)) ((demo_limiter, ?w), c1) = (None, (demo_limiter, w2), c2)"
    using ps by (simp add: dispatch_def f api_chain_def audit_Middleware_def demo_unlimited)
  then obtain logs' where "serve simple_cors ?N ?d ((logs, demo_limiter, ?w), demo_logout) = ((logs', demo_limiter, w2), c2)"
    using run by blast
  moreover have "\<not> only_traces ?N ?w w2"
  proof
    have "\<not> session_active 5 1 7 (ud_sessions (ap_db w2))"
      using demo_logout_handler [of "set_principal (principal_of ?cl) ?c" "principal_of ?cl" N ?d ?touched] w2
      by (simp add: issue_claims_def principal_of_def)
    moreover assume "only_traces ?N ?w w2"
    ultimately show False
      using mem_sessions.Touch_active
      by (auto simp: only_traces_def demo_server_def demo_auth_db_def demo_sessions_def demo_session_def session_active_def)
  qed
  ultimately show ?thesis by blast
qed

section \<open>Properties\<close>



text \<open>
  The rate limit is by client address.  Whatever token a request carries, the bucket it draws on
  is that of its address: the limiter runs before authentication, so no user name is known to it.  A
  request outside the API, or one the CORS middleware answered, is not counted.
\<close>

theorem router_rate_by_client:
  assumes "cors_library cors_New" "c_Keys c = Map.empty"
    and "serve cors_New N d ((logs, svc, w), c) = ((logs', svc', w'), c')"
  shows "svc' = (if find_route (routes (cfg_Audit (se_cfg N))) (c_Method c) (c_Path c) = None then svc
                 else charged (dr_others d) (later 3 (dr_clock d)) (c_ClientIP c) (c_Path c) svc)
       \<or> c_Header c ''Origin'' \<noteq> '''' \<and> svc' = svc"
  using assms(1,3,2)
proof (rule cors_library.serve_cases)
  fix c1 p c2
  assume disp: "dispatch N d (later 3 (dr_clock d)) ((svc, w), c1) = (p, (svc', w'), c2)"
    and c1: "c_Method c1 = c_Method c" "c_Path c1 = c_Path c" "c_ClientIP c1 = c_ClientIP c" "GetString CtxUsername c1 = None"
  have "rate_identity (c1\<lparr>c_Param := ps\<rparr>) = c_ClientIP c" for ps
    using c1 by (simp add: rate_identity_def GetString_def)
  then show ?thesis
    using disp c1 by (auto simp: dispatch_def dest: api_charges split: option.split_asm)
qed auto

theorem router_rate_by_client_witness:
  "\<forall>(N :: unit server_env) d logs (w :: unit app_state). \<exists>logs' svc' w' c'.
     serve simple_cors (demo_server N) (d\<lparr>dr_clock := \<lambda>_. 5\<rparr>) ((logs, NewService demo_rate, w), demo_logout) = ((logs', svc', w'), c')
     \<and> svc' = charged (dr_others d) (\<lambda>_. 5) ''10.0.0.1'' ''/api/v1/auth/logout'' (NewService demo_rate)"
proof (intro allI)
  fix N :: "unit server_env" and d logs and w :: "unit app_state"
  obtain logs' svc' w' c' where s: "serve simple_cors (demo_server N) (d\<lparr>dr_clock := \<lambda>_. 5\<rparr>) ((logs, NewService demo_rate, w), demo_logout)
    = ((logs', svc', w'), c')" by (cases "serve simple_cors (demo_server N) (d\<lparr>dr_clock := \<lambda>_. 5\<rparr>) ((logs, NewService demo_rate, w), demo_logout)") auto
  have k: "c_Keys demo_logout = Map.empty" "c_Method demo_logout = ''POST''" "c_Path demo_logout = ''/api/v1/auth/logout''"
    "c_ClientIP demo_logout = ''10.0.0.1''" "c_Header demo_logout ''Origin'' = ''''" by (simp_all add: demo_logout_def demo_context_def)
  then show "\<exists>logs' svc' w' c'. serve simple_cors (demo_server N) (d\<lparr>dr_clock := \<lambda>_. 5\<rparr>) ((logs, NewService demo_rate, w), demo_logout) = ((logs', svc', w'), c')
     \<and> svc' = charged (dr_others d) (\<lambda>_. 5) ''10.0.0.1'' ''/api/v1/auth/logout'' (NewService demo_rate)"
    using router_rate_by_client [OF simple_cors.cors_library_axioms k(1) s] s demo_logout_route [of N] by auto
qed

text \<open>
  A request no route matches, with or without a final slash, is answered 404 in the envelope of
  the API and changes nothing but the request log; this includes a known path with another method,
  for which gin's engine would only answer 405 if it were told to.
\<close>

theorem router_unmatched_404:
  assumes "cors_library cors_New" "c_Header c ''Origin'' = ''''"
    and "\<not> known N (c_Method c) (c_Path c)" "\<not> redirected N c"
  shows "\<exists>logs' c'. serve cors_New N d ((logs, svc, w), c) = ((logs', svc, w), c')
     \<and> c_Out c' = c_Out c @
         [EHeader requestIDHeader (if c_Header c requestIDHeader = '''' then dr_request_id d else c_Header c requestIDHeader),
          EJSON 404 (ErrorResponse (dr_clock d 3) 404 (''Endpoint not found: '' @ c_Path c) None)]"
proof (rule cors_library.serve_no_origin [OF assms(1,2,4)])
  fix c1
  assume c1: "c1 = c\<lparr>c_Keys := c_Keys c1, c_Context := c_Context c1,
      c_Out := c_Out c @ [EHeader requestIDHeader (if c_Header c requestIDHeader = '''' then dr_request_id d else c_Header c requestIDHeader)]\<rparr>"
    and run: "\<And>svw' c2. dispatch N d (later 3 (dr_clock d)) ((svc, w), c1) = (None, svw', c2)
       \<Longrightarrow> \<exists>logs'. serve cors_New N d ((logs, svc, w), c) = ((logs', svw'), c2)"
  have f: "c_Method c1 = c_Method c" "c_Path c1 = c_Path c"
    "c_Out c1 = c_Out c @ [EHeader requestIDHeader (if c_Header c requestIDHeader = '''' then dr_request_id d else c_Header c requestIDHeader)]"
    by (subst c1, simp)+
  let ?e = "EJSON 404 (ErrorResponse (dr_clock d 3) 404 (''Endpoint not found: '' @ c_Path c) None)"
  have "dispatch N d (later 3 (dr_clock d)) ((svc, w), c1) = (None, (svc, w), send ?e c1)"
    using assms(3) by (auto simp: dispatch_def f plain_endpoint_def known_def simp del: not_None_eq)
  from run [OF this] show ?thesis by (auto simp: f send_def)
qed

theorem router_unmatched_404_witness:
  "\<forall>(N :: unit server_env) d logs svc (w :: unit app_state). \<exists>logs' c'.
     serve simple_cors (demo_server N) d ((logs, svc, w), demo_logout\<lparr>c_Method := ''GET''\<rparr>) = ((logs', svc, w), c')
     \<and> c_Out c' = [EHeader requestIDHeader (dr_request_id d),
          EJSON 404 (ErrorResponse (dr_clock d 3) 404 ''Endpoint not found: /api/v1/auth/logout'' None)]"
proof (intro allI)
  fix N :: "unit server_env" and d logs svc and w :: "unit app_state"
  let ?c = "demo_logout\<lparr>c_Method := ''GET''\<rparr>"
  have "\<not> known (demo_server N) ''GET'' ''/api/v1/auth/logout''" "\<not> known (demo_server N) ''GET'' ''/api/v1/auth/logout/''"
  proof -
    let ?rs = "routes (demo_audit_cfg\<lparr>ac_Enabled := False\<rparr>)"
    have "map_option fst (find_route ?rs ''GET'' ''/api/v1/auth/logout'') = None"
      "map_option fst (find_route ?rs ''GET'' ''/api/v1/auth/logout/'') = None"
      "\<not> HasPrefix ''/api/v1/auth/logout'' ''/swagger/''" "\<not> HasPrefix ''/api/v1/auth/logout/'' ''/swagger/''"
      by code_simp+
    then show "\<not> known (demo_server N) ''GET'' ''/api/v1/auth/logout''" "\<not> known (demo_server N) ''GET'' ''/api/v1/auth/logout/''"
      by (simp_all add: known_def)
  qed
  moreover have "other_slash ''/api/v1/auth/logout'' = ''/api/v1/auth/logout/''" by code_simp
  moreover have "c_Header ?c h = ''''" if "h \<noteq> ''Authorization''" for h using that by (simp add: demo_logout_def demo_context_def)
  moreover have "c_Path ?c = ''/api/v1/auth/logout''" "c_Method ?c = ''GET''" "c_Out ?c = []" by (simp_all add: demo_logout_def demo_context_def)
  ultimately show "\<exists>logs' c'. serve simple_cors (demo_server N) d ((logs, svc, w), ?c) = ((logs', svc, w), c')
     \<and> c_Out c' = [EHeader requestIDHeader (dr_request_id d),
          EJSON 404 (ErrorResponse (dr_clock d 3) 404 ''Endpoint not found: /api/v1/auth/logout'' None)]"
    using router_unmatched_404 [OF simple_cors.cors_library_axioms, of ?c "demo_server N" d logs svc w]
    by (simp add: requestIDHeader_def redirected_def)
qed

end
