(* ===== verification/Logger.thy ===== *)
theory Logger
  imports Configuration
begin

text \<open>
  Packages \<open>internal/logger\<close> and \<open>internal/common/applog\<close>: which lines reach which file.  zap and
  lumberjack are third party; a logger is what this code hands to them, the list of cores (an
  encoder, a sink and a minimum level each) and the fields attached to it.  A core writes a line
  exactly when the line's level is at least its own, as zap documents.
\<close>

section \<open>Loggers\<close>

datatype zap_level = DebugLevel | InfoLevel | WarnLevel | ErrorLevel | FatalLevel

text \<open>The order of \<open>zapcore.Level\<close>.\<close>

fun level_number :: "zap_level \<Rightarrow> int" where
  "level_number DebugLevel = -1"
| "level_number InfoLevel = 0"
| "level_number WarnLevel = 1"
| "level_number ErrorLevel = 2"
| "level_number FatalLevel = 5"

instantiation zap_level :: linorder
begin

definition less_eq_zap_level :: "zap_level \<Rightarrow> zap_level \<Rightarrow> bool" where
  "less_eq_zap_level a b = (level_number a \<le> level_number b)"

definition less_zap_level :: "zap_level \<Rightarrow> zap_level \<Rightarrow> bool" where
  "less_zap_level a b = (level_number a < level_number b)"

instance
proof
  fix a b :: zap_level
  assume "a \<le> b" "b \<le> a"
  then show "a = b" by (cases a; cases b) (simp_all add: less_eq_zap_level_def)
qed (auto simp: less_eq_zap_level_def less_zap_level_def)

end

text \<open>How the level is written, which is the only setting of the encoders that varies.\<close>

datatype level_encoder = LowercaseLevelEncoder | CapitalColorLevelEncoder

datatype encoder = JSONEncoder level_encoder | ConsoleEncoder level_encoder

record lumberjack =
  lj_Filename :: string
  lj_MaxSize :: goint
  lj_MaxBackups :: goint
  lj_MaxAge :: goint
  lj_Compress :: bool
  lj_LocalTime :: bool

datatype sink = Stdout | Rotating lumberjack

record zap_core =
  zc_encoder :: encoder
  zc_sink :: sink
  zc_level :: zap_level

record zap_logger =
  zl_cores :: "zap_core list"
  zl_fields :: "(string \<times> string) list"

definition NewNop :: zap_logger where
  "NewNop = \<lparr>zl_cores = [], zl_fields = []\<rparr>"

definition zap_New :: "zap_core list \<Rightarrow> zap_logger" where
  "zap_New cores = \<lparr>zl_cores = cores, zl_fields = []\<rparr>"

definition With :: "(string \<times> string) list \<Rightarrow> zap_logger \<Rightarrow> zap_logger" where
  "With fs l = l\<lparr>zl_fields := zl_fields l @ fs\<rparr>"

text \<open>Where a line goes, and with which fields.\<close>

definition written :: "zap_level \<Rightarrow> zap_logger \<Rightarrow> (sink \<times> (string \<times> string) list) list" where
  "written lvl l = map (\<lambda>k. (zc_sink k, zl_fields l)) (filter (\<lambda>k. zc_level k \<le> lvl) (zl_cores l))"

section \<open>The package's state\<close>

text \<open>\<open>stdoutCore\<close> is \<open>nil\<close> until \<open>New\<close> has run; the cache maps file names to loggers.\<close>

record logger_state =
  lg_global :: "zap_logger option"
  lg_cfg :: LogConfig
  lg_level :: zap_level
  lg_enc :: level_encoder
  lg_stdout :: "zap_core option"
  lg_files :: "string \<rightharpoonup> zap_logger"

definition logger_init :: logger_state where
  "logger_init =
     \<lparr>lg_global = None,
      lg_cfg = \<lparr>lc_Level = '''', lc_Format = '''', lc_Dir = '''', lc_File = '''', lc_MaxSizeMB = 0, lc_MaxBackups = 0,
                lc_MaxAgeDays = 0, lc_Compress = False\<rparr>,
      lg_level = InfoLevel, lg_enc = LowercaseLevelEncoder, lg_stdout = None, lg_files = Map.empty\<rparr>"

definition parseLevel :: "string \<Rightarrow> go_error + zap_level" where
  "parseLevel s =
     (let v = ToLower (TrimSpace s)
      in if v = ''debug'' then Inr DebugLevel
         else if v = ''info'' \<or> v = '''' then Inr InfoLevel
         else if v = ''warn'' \<or> v = ''warning'' then Inr WarnLevel
         else if v = ''error'' then Inr ErrorLevel
         else if v = ''fatal'' then Inr FatalLevel
         else Inl (PlainError (''unknown log level '' @ s)))"

definition fileCore :: "LogConfig \<Rightarrow> string \<Rightarrow> level_encoder \<Rightarrow> zap_level \<Rightarrow> zap_core" where
  "fileCore cfg name encCfg lvl =
     \<lparr>zc_encoder = JSONEncoder encCfg,
      zc_sink = Rotating \<lparr>lj_Filename = JoinPath [lc_Dir cfg, name], lj_MaxSize = lc_MaxSizeMB cfg,
                          lj_MaxBackups = lc_MaxBackups cfg, lj_MaxAge = lc_MaxAgeDays cfg, lj_Compress = lc_Compress cfg,
                          lj_LocalTime = True\<rparr>,
      zc_level = lvl\<rparr>"

text \<open>
  \<open>mkdir\<close> tells whether \<open>os.MkdirAll\<close> succeeds on a directory.  The encoder settings are changed
  for the console format before the file core is built from them.
\<close>

definition logger_New :: "(string \<Rightarrow> bool) \<Rightarrow> LogConfig \<Rightarrow> logger_state \<Rightarrow> (go_error + zap_logger) \<times> logger_state" where
  "logger_New mkdir cfg s =
     (case parseLevel (lc_Level cfg) of
        Inl err \<Rightarrow> (Inl err, s)
      | Inr lvl \<Rightarrow>
          (let encCfg = (if EqualFold (lc_Format cfg) ''json'' then LowercaseLevelEncoder else CapitalColorLevelEncoder);
               enc = (if EqualFold (lc_Format cfg) ''json'' then JSONEncoder encCfg else ConsoleEncoder encCfg);
               stdout = \<lparr>zc_encoder = enc, zc_sink = Stdout, zc_level = lvl\<rparr>;
               cores = [stdout] @ (if lc_Dir cfg \<noteq> '''' \<and> lc_File cfg \<noteq> ''''
                                   then if mkdir (lc_Dir cfg) then [fileCore cfg (lc_File cfg) encCfg lvl] else []
                                   else [])
           in (Inr (zap_New cores),
               s\<lparr>lg_cfg := cfg, lg_level := lvl, lg_enc := encCfg, lg_stdout := Some stdout, lg_files := Map.empty\<rparr>)))"

definition SetGlobal :: "zap_logger \<Rightarrow> logger_state \<Rightarrow> logger_state" where
  "SetGlobal l s = s\<lparr>lg_global := Some l\<rparr>"

definition L :: "logger_state \<Rightarrow> zap_logger" where
  "L s = (case lg_global s of None \<Rightarrow> NewNop | Some l \<Rightarrow> l)"

text \<open>\<open>filepath.Base\<close>.\<close>

definition Base :: "string \<Rightarrow> string" where
  "Base p =
     (if p = '''' then ''.''
      else let q = TrimRight (CHR ''/'') p; b = after_last (CHR ''/'') q q in if b = '''' then ''/'' else b)"

definition File :: "(string \<Rightarrow> bool) \<Rightarrow> string \<Rightarrow> logger_state \<Rightarrow> zap_logger \<times> logger_state" where
  "File mkdir name s =
     (if name = '''' then (L s, s)
      else let name = Base (Clean name)
      in if name = '''' \<or> name = ''.'' \<or> name = ''..'' \<or> name = ''/'' then (L s, s)
         else case lg_files s name of
                Some l \<Rightarrow> (l, s)
              | None \<Rightarrow>
                  if lc_Dir (lg_cfg s) = ''''
                  then let l = (case lg_stdout s of None \<Rightarrow> NewNop | Some k \<Rightarrow> zap_New [k])
                       in (l, s\<lparr>lg_files := (lg_files s)(name \<mapsto> l)\<rparr>)
                  else if \<not> mkdir (lc_Dir (lg_cfg s)) then (L s, s)
                  else let l = zap_New ((case lg_stdout s of None \<Rightarrow> [] | Some k \<Rightarrow> [k])
                                          @ [fileCore (lg_cfg s) name (lg_enc s) (lg_level s)])
                       in (l, s\<lparr>lg_files := (lg_files s)(name \<mapsto> l)\<rparr>))"

section \<open>Fields of a request\<close>

definition WithFields :: "request_context \<Rightarrow> (string \<times> string) list \<Rightarrow> request_context" where
  "WithFields ctx fs = (if fs = [] then ctx else ctx\<lparr>rc_fields := rc_fields ctx @ fs\<rparr>)"

definition annotated :: "request_context option \<Rightarrow> zap_logger \<Rightarrow> zap_logger" where
  "annotated ctx l =
     (case ctx of None \<Rightarrow> l | Some ctx \<Rightarrow> if rc_fields ctx = [] then l else With (rc_fields ctx) l)"

definition FromContext :: "request_context option \<Rightarrow> logger_state \<Rightarrow> zap_logger" where
  "FromContext ctx s = annotated ctx (L s)"

definition FromContextFile ::
  "(string \<Rightarrow> bool) \<Rightarrow> request_context option \<Rightarrow> string \<Rightarrow> logger_state \<Rightarrow> zap_logger \<times> logger_state" where
  "FromContextFile mkdir ctx name s = (case File mkdir name s of (l, s) \<Rightarrow> (annotated ctx l, s))"

text \<open>\<open>applog.For\<close> and \<open>applog.Channel\<close>.\<close>

definition applog_For ::
  "(string \<Rightarrow> bool) \<Rightarrow> request_context \<Rightarrow> string \<Rightarrow> logger_state \<Rightarrow> zap_logger \<times> logger_state" where
  "applog_For mkdir ctx file s =
     (case FromContextFile mkdir (Some ctx) file s of
        (l, s) \<Rightarrow>
          (case rc_principal ctx of
             None \<Rightarrow> (l, s)
           | Some p \<Rightarrow> (With [(''actorId'', FormatUint (p_UserID p)), (''actor'', p_Username p)] l, s)))"

definition applog_Channel ::
  "(string \<Rightarrow> bool) \<Rightarrow> string \<Rightarrow> request_context \<Rightarrow> logger_state \<Rightarrow> zap_logger \<times> logger_state" where
  "applog_Channel mkdir file = (\<lambda>ctx. applog_For mkdir ctx file)"

section \<open>Names\<close>

text \<open>What \<open>File\<close> makes of a name: \<open>None\<close> when it falls back to the global logger.\<close>

definition log_name :: "string \<Rightarrow> string option" where
  "log_name name =
     (let b = Base (Clean name)
      in if name = '''' \<or> b = '''' \<or> b = ''.'' \<or> b = ''..'' \<or> b = ''/'' then None else Some b)"

lemma Base_element: "Base p = ''/'' \<or> CHR ''/'' \<notin> set (Base p)"
  using after_last_no_sep [of "CHR ''/''" "TrimRight (CHR ''/'') p" "TrimRight (CHR ''/'') p"]
  by (auto simp: Base_def Let_def)

lemma log_name_safe: "log_name name = Some e \<Longrightarrow> safe_elem e"
  using Base_element [of "Clean name"] by (auto simp: log_name_def safe_elem_def Let_def split: if_split_asm)

lemma TrimRight_id: "s \<noteq> [] \<Longrightarrow> last s \<noteq> ch \<Longrightarrow> TrimRight ch s = s"
  by (cases s rule: rev_cases) (simp_all add: TrimRight_def)

text \<open>Of any path that ends in a proper name, that name is left.\<close>

lemma log_name_path:
  assumes "safe_elem e"
  shows "log_name (dir @ CHR ''/'' # e) = Some e" "log_name e = Some e"
proof -
  have e: "e \<noteq> ''''" "CHR ''/'' \<notin> set e" "e \<noteq> ''.''" "e \<noteq> ''..''" "e \<noteq> ''/''" using assms by (auto simp: safe_elem_def)
  have last: "last (x @ e) \<noteq> CHR ''/''" for x using e(1,2) by (metis last_appendR last_in_set)
  have "Base e = e"
    using e last [of "[]"] by (simp add: Base_def TrimRight_id after_last_free)
  moreover have B: "Base (x @ CHR ''/'' # e) = e" for x
    using e last [of "x @ ''/''"] by (simp add: Base_def TrimRight_id after_last_append after_last_free)
  moreover have "Base (CHR ''/'' # e) = e" "Base (CHR ''/'' # x @ CHR ''/'' # e) = e" for x
    using B [of Nil] B [of "CHR ''/'' # x"] by simp_all
  ultimately have b: "Base (path_string r (es @ [e])) = e" for r es
    by (cases "es = []") (auto simp: path_string_def JoinStr_append)
  have st: "clean_stack r st [e] = e # st" for r st
    using assms by (simp add: clean_stack_def clean_push_safe)
  have "Base (Clean e) = e"
    using b [of _ Nil] e(1,2) by (simp add: Clean_def clean_elems_def Split_single st)
  then show "log_name e = Some e" using e by (simp add: log_name_def)
  have "Base (Clean (dir @ CHR ''/'' # e)) = e"
    using b e(1,2) by (simp add: Clean_def clean_elems_def Split_append Split_single clean_stack_append st)
  then show "log_name (dir @ CHR ''/'' # e) = Some e" using e by (simp add: log_name_def)
qed

section \<open>The cache never goes stale\<close>

text \<open>The logger of a file under the current configuration.\<close>

definition file_logger :: "logger_state \<Rightarrow> string \<Rightarrow> zap_logger" where
  "file_logger s e =
     zap_New ((case lg_stdout s of None \<Rightarrow> [] | Some k \<Rightarrow> [k])
              @ (if lc_Dir (lg_cfg s) = '''' then [] else [fileCore (lg_cfg s) e (lg_enc s) (lg_level s)]))"

text \<open>The states the package can be in.\<close>

inductive logger_reach :: "logger_state \<Rightarrow> bool" where
  reach_init: "logger_reach logger_init"
| reach_New: "logger_reach s \<Longrightarrow> logger_reach (snd (logger_New mkdir cfg s))"
| reach_SetGlobal: "logger_reach s \<Longrightarrow> logger_reach (SetGlobal l s)"
| reach_File: "logger_reach s \<Longrightarrow> logger_reach (snd (File mkdir name s))"

definition logger_ok :: "logger_state \<Rightarrow> bool" where
  "logger_ok s =
     ((\<forall>name l. lg_files s name = Some l \<longrightarrow> safe_elem name \<and> l = file_logger s name)
      \<and> (case lg_stdout s of None \<Rightarrow> lc_Dir (lg_cfg s) = '''' | Some k \<Rightarrow> zc_sink k = Stdout \<and> zc_level k = lg_level s))"

lemma File_cases:
  obtains (fallback) "log_name name = None" "File mkdir name s = (L s, s)"
  | (cached) e l where "log_name name = Some e" "lg_files s e = Some l" "File mkdir name s = (l, s)"
  | (no_dir) e where "log_name name = Some e" "lg_files s e = None" "lc_Dir (lg_cfg s) \<noteq> ''''" "\<not> mkdir (lc_Dir (lg_cfg s))"
      "File mkdir name s = (L s, s)"
  | (built) e where "log_name name = Some e" "lg_files s e = None" "lc_Dir (lg_cfg s) = '''' \<or> mkdir (lc_Dir (lg_cfg s))"
      "File mkdir name s = (file_logger s e, s\<lparr>lg_files := (lg_files s)(e \<mapsto> file_logger s e)\<rparr>)"
proof (cases "log_name name")
  case None
  then have "File mkdir name s = (L s, s)" by (auto simp: log_name_def File_def Let_def split: if_split_asm)
  with None show thesis by (rule fallback)
next
  case (Some e)
  then have n: "name \<noteq> ''''" "Base (Clean name) = e" "e \<noteq> ''''" "e \<noteq> ''.''" "e \<noteq> ''..''" "e \<noteq> ''/''"
    by (auto simp: log_name_def Let_def split: if_split_asm)
  show thesis
  proof (cases "lg_files s e")
    case (Some l)
    then have "File mkdir name s = (l, s)" using n by (simp add: File_def)
    with \<open>log_name name = Some e\<close> Some show thesis by (rule cached)
  next
    case None
    show thesis
    proof (cases "lc_Dir (lg_cfg s) = '''' \<or> mkdir (lc_Dir (lg_cfg s))")
      case True
      then have "File mkdir name s = (file_logger s e, s\<lparr>lg_files := (lg_files s)(e \<mapsto> file_logger s e)\<rparr>)"
        using n None by (auto simp: File_def file_logger_def zap_New_def NewNop_def Let_def split: option.split)
      with Some None True show thesis by (rule built)
    next
      case False
      then have "File mkdir name s = (L s, s)" using n None by (simp add: File_def)
      with Some None False show thesis by (intro no_dir) simp_all
    qed
  qed
qed

lemma file_logger_cong [simp]:
  "file_logger (s\<lparr>lg_files := fs\<rparr>) = file_logger s" "file_logger (s\<lparr>lg_global := g\<rparr>) = file_logger s"
  by (simp_all add: file_logger_def fun_eq_iff)

lemma File_ok: "logger_ok s \<Longrightarrow> logger_ok (snd (File mkdir name s))"
  by (cases rule: File_cases [of name mkdir s]) (auto simp: logger_ok_def split: option.split dest: log_name_safe)

lemma New_ok: "logger_ok s \<Longrightarrow> logger_ok (snd (logger_New mkdir cfg s))"
  by (cases "parseLevel (lc_Level cfg)") (auto simp: logger_New_def logger_ok_def Let_def split: option.split)

lemma reach_ok: "logger_reach s \<Longrightarrow> logger_ok s"
proof (induction rule: logger_reach.induct)
  case reach_init show ?case by (simp add: logger_ok_def logger_init_def)
next
  case reach_SetGlobal then show ?case by (auto simp: logger_ok_def SetGlobal_def split: option.split)
qed (rule New_ok File_ok, assumption)+

section \<open>Properties\<close>


text \<open>A configuration, and the state after \<open>New\<close> with it.\<close>

definition demo_log :: LogConfig where
  "demo_log =
     \<lparr>lc_Level = ''warn'', lc_Format = ''console'', lc_Dir = ''logs'', lc_File = ''app.log'', lc_MaxSizeMB = 100, lc_MaxBackups = 7,
      lc_MaxAgeDays = 2, lc_Compress = True\<rparr>"

definition demo_log_state :: logger_state where
  "demo_log_state = snd (logger_New (\<lambda>_. True) demo_log logger_init)"

lemma demo_log_state_simps:
  "logger_reach demo_log_state" "lg_cfg demo_log_state = demo_log" "lg_level demo_log_state = WarnLevel"
  "lg_enc demo_log_state = CapitalColorLevelEncoder" "lg_files demo_log_state = Map.empty"
proof -
  show "logger_reach demo_log_state" unfolding demo_log_state_def by (intro reach_New reach_init)
  have "ToLower (TrimSpace ''warn'') = ''warn''" "\<not> EqualFold ''console'' ''json''" by code_simp+
  then have "parseLevel ''warn'' = Inr WarnLevel" "\<not> EqualFold ''console'' ''json''" by (simp_all add: parseLevel_def)
  then show "lg_cfg demo_log_state = demo_log" "lg_level demo_log_state = WarnLevel"
    "lg_enc demo_log_state = CapitalColorLevelEncoder" "lg_files demo_log_state = Map.empty"
    by (simp_all add: demo_log_state_def logger_New_def demo_log_def Let_def)
qed


text \<open>
  A line logged through a domain channel reaches the standard output and the channel's file,
  nothing else, exactly when its level is at least the configured one, and it carries the fields
  of its request followed by the acting principal, if there is one.
\<close>

theorem applog_For_lines:
  assumes "logger_reach s" "lc_Dir (lg_cfg s) \<noteq> ''''" "mkdir (lc_Dir (lg_cfg s))" "log_name fname = Some e"
    and "applog_For mkdir ctx fname s = (l, s')"
  shows "written lvl l =
    (let fs = rc_fields ctx @ (case rc_principal ctx of None \<Rightarrow> []
                               | Some p \<Rightarrow> [(''actorId'', FormatUint (p_UserID p)), (''actor'', p_Username p)])
     in if lg_level s \<le> lvl
        then [(Stdout, fs), (zc_sink (fileCore (lg_cfg s) e (lg_enc s) (lg_level s)), fs)] else [])"
proof -
  have ok: "logger_ok s" by (rule reach_ok) fact
  obtain k where k: "lg_stdout s = Some k" "zc_sink k = Stdout" "zc_level k = lg_level s"
    using ok assms(2) by (auto simp: logger_ok_def split: option.splits)
  have "fst (File mkdir fname s) = file_logger s e"
    using ok assms(2-4) by (cases rule: File_cases [of fname mkdir s]) (auto simp: logger_ok_def)
  then have f: "fst (File mkdir fname s) = zap_New [k, fileCore (lg_cfg s) e (lg_enc s) (lg_level s)]"
    using k assms(2) by (simp add: file_logger_def)
  have "zc_level (fileCore (lg_cfg s) e (lg_enc s) (lg_level s)) = lg_level s" by (simp add: fileCore_def)
  with f k show ?thesis
    using assms(5)
    by (auto simp: applog_For_def FromContextFile_def annotated_def With_def zap_New_def written_def Let_def
        split: prod.split_asm option.splits if_splits)
qed

theorem applog_For_lines_witness:
  "\<exists>l s' f. applog_For (\<lambda>_. True) (WithFields \<lparr>rc_username = None, rc_principal = None, rc_fields = []\<rparr> [(''request_id'', ''r1'')])
          ''orders.log'' demo_log_state = (l, s')
      \<and> written ErrorLevel l = [(Stdout, [(''request_id'', ''r1'')]), (f, [(''request_id'', ''r1'')])]
      \<and> written InfoLevel l = []"
proof -
  let ?ctx = "WithFields \<lparr>rc_username = None, rc_principal = None, rc_fields = []\<rparr> [(''request_id'', ''r1'')]"
  obtain l s' where f: "applog_For (\<lambda>_. True) ?ctx ''orders.log'' demo_log_state = (l, s')"
    by (cases "applog_For (\<lambda>_. True) ?ctx ''orders.log'' demo_log_state")
  have n: "log_name ''orders.log'' = Some ''orders.log''" by code_simp
  have d: "lc_Dir (lg_cfg demo_log_state) \<noteq> ''''" by (simp add: demo_log_state_simps demo_log_def)
  have lv: "WarnLevel \<le> ErrorLevel" "\<not> WarnLevel \<le> InfoLevel" by (simp_all add: less_eq_zap_level_def)
  show ?thesis
    using applog_For_lines [OF demo_log_state_simps(1) d TrueI n f] f lv
    by (auto simp: demo_log_state_simps WithFields_def Let_def simp del: not_le)
qed

text \<open>
  \<open>New\<close> fails exactly on an unknown level.  Otherwise everything goes to the standard output, and
  to the log file as well when its directory exists or can be made; with the console format the
  JSON lines of the file carry the coloured levels of the console.
\<close>

theorem logger_New_cores:
  "case logger_New mkdir cfg s of
     (Inl err, s') \<Rightarrow> s' = s \<and> ToLower (TrimSpace (lc_Level cfg))
        \<notin> {''debug'', ''info'', '''', ''warn'', ''warning'', ''error'', ''fatal''}
   | (Inr l, s') \<Rightarrow> \<exists>lvl. parseLevel (lc_Level cfg) = Inr lvl \<and> lg_files s' = Map.empty
        \<and> map (\<lambda>k. (zc_sink k = Stdout, zc_encoder k, zc_level k)) (zl_cores l) =
          (let style = (if EqualFold (lc_Format cfg) ''json'' then LowercaseLevelEncoder else CapitalColorLevelEncoder)
           in (True, (if EqualFold (lc_Format cfg) ''json'' then JSONEncoder style else ConsoleEncoder style), lvl)
              # (if lc_Dir cfg \<noteq> '''' \<and> lc_File cfg \<noteq> '''' \<and> mkdir (lc_Dir cfg) then [(False, JSONEncoder style, lvl)] else []))"
proof (cases "parseLevel (lc_Level cfg)")
  case (Inl e)
  then show ?thesis by (auto simp: logger_New_def parseLevel_def Let_def split: if_split_asm)
next
  case (Inr lvl)
  then show ?thesis by (simp add: logger_New_def Let_def fileCore_def zap_New_def)
qed

end
