(* ===== verification/Database.thy ===== *)
theory Database
  imports Configuration
begin

text \<open>
  Package \<open>internal/database\<close>: the connection and the migrations.  GORM's drivers, \<open>database/sql\<close> and
  goose are third party: what the code calls of them is the record \<open>db_driver\<close>.  The bridges from
  their loggers to zap are left out, except the settings handed to GORM.
\<close>

datatype dialector = Postgres string | MySQL string

record gorm_options =
  go_SlowThreshold :: duration
  go_IgnoreRecordNotFoundError :: bool
  go_Colorful :: bool
  go_DisableForeignKeyConstraintWhenMigrating :: bool
  go_SkipDefaultTransaction :: bool

record pool_settings =
  ps_MaxOpenConns :: goint
  ps_MaxIdleConns :: goint
  ps_ConnMaxLifetime :: duration

text \<open>\<open>'h\<close> is a GORM handle, \<open>'p\<close> the pool behind it, \<open>'s\<close> the contents of the database.\<close>

record ('h, 'p, 's) db_driver =
  dv_Open :: "dialector \<Rightarrow> gorm_options \<Rightarrow> go_error + 'h"
  dv_DB :: "'h \<Rightarrow> go_error + 'p"
  dv_Ping :: "'p \<Rightarrow> pool_settings \<Rightarrow> go_error option"
  dv_SetDialect :: "string \<Rightarrow> go_error option"
  dv_Up :: "'p \<Rightarrow> string \<Rightarrow> 's \<Rightarrow> go_error option \<times> 's"

definition buildDialector :: "DBConfig \<Rightarrow> go_error + dialector" where
  "buildDialector cfg =
     (let driver = ToLower (dbc_Driver cfg)
      in if driver = ''postgres'' \<or> driver = ''postgresql''
         then Inr (Postgres
                (''host='' @ dbc_Host cfg @ '' port='' @ dbc_Port cfg @ '' user='' @ dbc_User cfg @ '' password='' @ dbc_Password cfg
                 @ '' dbname='' @ dbc_Name cfg @ '' sslmode='' @ dbc_SSLMode cfg @ '' TimeZone='' @ dbc_TimeZone cfg))
         else if driver = ''mysql''
         then Inr (MySQL
                (dbc_User cfg @ '':'' @ dbc_Password cfg @ ''@tcp('' @ dbc_Host cfg @ '':'' @ dbc_Port cfg @ '')/'' @ dbc_Name cfg
                 @ ''?charset=utf8mb4&parseTime=True&loc='' @ dbc_TimeZone cfg))
         else Inl (PlainError (''unsupported db driver '' @ dbc_Driver cfg @ '' (use postgres or mysql)'')))"

definition gooseDialect :: "string \<Rightarrow> string" where
  "gooseDialect driver =
     (let d = ToLower driver
      in if d = ''postgres'' \<or> d = ''postgresql'' then ''postgres'' else if d = ''mysql'' then ''mysql'' else driver)"

definition gorm_settings :: gorm_options where
  "gorm_settings =
     \<lparr>go_SlowThreshold = 200000000, go_IgnoreRecordNotFoundError = True, go_Colorful = False,
      go_DisableForeignKeyConstraintWhenMigrating = True, go_SkipDefaultTransaction = True\<rparr>"

definition database_Open :: "('h, 'p, 's) db_driver \<Rightarrow> DBConfig \<Rightarrow> go_error + 'h \<times> pool_settings" where
  "database_Open D cfg =
     (case buildDialector cfg of
        Inl err \<Rightarrow> Inl err
      | Inr dialector \<Rightarrow>
          (case dv_Open D dialector gorm_settings of
             Inl err \<Rightarrow> Inl (WrapError ''gorm open'' err)
           | Inr db \<Rightarrow>
               (case dv_DB D db of
                  Inl err \<Rightarrow> Inl (WrapError ''gorm sql.DB'' err)
                | Inr sqlDB \<Rightarrow>
                    let tuned = \<lparr>ps_MaxOpenConns = dbc_MaxOpenConns cfg, ps_MaxIdleConns = dbc_MaxIdleConns cfg,
                                 ps_ConnMaxLifetime = dbc_ConnMaxLifetime cfg\<rparr>
                    in case dv_Ping D sqlDB tuned of
                         Some err \<Rightarrow> Inl (WrapError ''ping db'' err)
                       | None \<Rightarrow> Inr (db, tuned))))"

text \<open>\<open>Close\<close>: the pool that is closed, if any.\<close>

definition database_Close :: "('h, 'p, 's) db_driver \<Rightarrow> 'h option \<Rightarrow> 'p option" where
  "database_Close D db =
     (case db of
        None \<Rightarrow> None
      | Some h \<Rightarrow> (case dv_DB D h of Inl _ \<Rightarrow> None | Inr sqlDB \<Rightarrow> Some sqlDB))"

definition RunMigrations ::
  "('h, 'p, 's) db_driver \<Rightarrow> 'h \<Rightarrow> string \<Rightarrow> string \<Rightarrow> ('s, go_error, unit) op" where
  "RunMigrations D db driver dir s =
     (case dv_DB D db of
        Inl err \<Rightarrow> (Inl err, s)
      | Inr sqlDB \<Rightarrow>
          (case dv_SetDialect D (gooseDialect driver) of
             Some err \<Rightarrow> (Inl (WrapError ''goose dialect'' err), s)
           | None \<Rightarrow>
               (case dv_Up D sqlDB dir s of
                  (Some err, s') \<Rightarrow> (Inl err, s')
                | (None, s') \<Rightarrow> (Inr (), s'))))"

section \<open>What a connection string says\<close>

text \<open>The key and value of each space-separated part of a connection string.\<close>

definition dsn_pairs :: "string \<Rightarrow> (string \<times> string) list" where
  "dsn_pairs dsn =
     map (\<lambda>part. (takeWhile (\<lambda>c. c \<noteq> CHR ''='') part, drop 1 (dropWhile (\<lambda>c. c \<noteq> CHR ''='') part))) (Split (CHR '' '') dsn)"

lemma dsn_pairs_join:
  assumes "ps \<noteq> []" "\<forall>(k, v) \<in> set ps. CHR '' '' \<notin> set k \<and> CHR '' '' \<notin> set v \<and> CHR ''='' \<notin> set k"
  shows "dsn_pairs (JoinStr (CHR '' '') (map (\<lambda>(k, v). k @ CHR ''='' # v) ps)) = ps"
proof -
  have "Split (CHR '' '') (JoinStr (CHR '' '') (map (\<lambda>(k, v). k @ CHR ''='' # v) ps)) = map (\<lambda>(k, v). k @ CHR ''='' # v) ps"
    using assms by (intro Split_JoinStr) auto
  moreover have "takeWhile (\<lambda>c. c \<noteq> CHR ''='') (k @ CHR ''='' # v) = k" "dropWhile (\<lambda>c. c \<noteq> CHR ''='') (k @ CHR ''='' # v) = CHR ''='' # v"
    if "CHR ''='' \<notin> set k" for k v
    using that by (induction k) auto
  ultimately show ?thesis
    using assms(2) by (auto simp: dsn_pairs_def split: prod.splits intro!: map_idI)
qed

text \<open>
  The Postgres connection string says what the configuration says, setting by setting, as long as
  none of its values contains a space.
\<close>

theorem database_dsn_round_trip:
  assumes "buildDialector cfg = Inr (Postgres dsn)"
    and "\<forall>v \<in> {dbc_Host cfg, dbc_Port cfg, dbc_User cfg, dbc_Password cfg, dbc_Name cfg, dbc_SSLMode cfg, dbc_TimeZone cfg}.
           CHR '' '' \<notin> set v"
  shows "dsn_pairs dsn =
    [(''host'', dbc_Host cfg), (''port'', dbc_Port cfg), (''user'', dbc_User cfg), (''password'', dbc_Password cfg),
     (''dbname'', dbc_Name cfg), (''sslmode'', dbc_SSLMode cfg), (''TimeZone'', dbc_TimeZone cfg)]"
proof -
  let ?ps = "[(''host'', dbc_Host cfg), (''port'', dbc_Port cfg), (''user'', dbc_User cfg), (''password'', dbc_Password cfg),
     (''dbname'', dbc_Name cfg), (''sslmode'', dbc_SSLMode cfg), (''TimeZone'', dbc_TimeZone cfg)]"
  have "dsn = JoinStr (CHR '' '') (map (\<lambda>(k, v). k @ CHR ''='' # v) ?ps)"
    using assms(1) by (auto simp: buildDialector_def Let_def split: if_split_asm)
  then show ?thesis using assms(2) by (simp only:) (rule dsn_pairs_join, auto)
qed

definition demo_dbcfg :: "string \<Rightarrow> DBConfig" where
  "demo_dbcfg password =
     \<lparr>dbc_Driver = ''Postgres'', dbc_Host = ''localhost'', dbc_Port = ''5432'', dbc_User = ''app'', dbc_Password = password,
      dbc_Name = ''gin'', dbc_SSLMode = ''disable'', dbc_TimeZone = ''UTC'', dbc_MaxOpenConns = 25, dbc_MaxIdleConns = 5,
      dbc_ConnMaxLifetime = 1800 * second\<rparr>"

lemma demo_dialector: "\<exists>dsn. buildDialector (demo_dbcfg p) = Inr (Postgres dsn)"
proof -
  have "ToLower ''Postgres'' = ''postgres''" by code_simp
  then show ?thesis by (simp add: buildDialector_def demo_dbcfg_def)
qed

theorem database_dsn_round_trip_witness:
  "\<exists>dsn. buildDialector (demo_dbcfg ''p4ss=word'') = Inr (Postgres dsn) \<and> (''password'', ''p4ss=word'') \<in> set (dsn_pairs dsn)"
proof -
  obtain dsn where b: "buildDialector (demo_dbcfg ''p4ss=word'') = Inr (Postgres dsn)" using demo_dialector by blast
  then show ?thesis using database_dsn_round_trip [OF b] by (auto simp: demo_dbcfg_def)
qed

text \<open>
  Values are not quoted: a password with a space in it becomes further settings of the connection
  string, so two configurations that differ in password and database name can ask for the same
  connection.
\<close>

theorem database_dsn_unquoted:
  "buildDialector (cfg\<lparr>dbc_Password := p @ '' dbname='' @ name, dbc_Name := name'\<rparr>)
     = buildDialector (cfg\<lparr>dbc_Password := p, dbc_Name := name @ '' dbname='' @ name'\<rparr>)
   \<or> ToLower (dbc_Driver cfg) = ''mysql''"
  by (auto simp: buildDialector_def Let_def)

section \<open>Opening\<close>

text \<open>
  \<open>Open\<close> succeeds exactly when the driver is a known one and GORM, the pool and the ping accept the
  connection; the pool then has the configured limits, and the migration tool gets the dialect of
  the same driver.
\<close>

theorem database_Open_exact:
  "database_Open D cfg = Inr (db, tuned) \<longleftrightarrow>
     (\<exists>dialector sqlDB. buildDialector cfg = Inr dialector \<and> dv_Open D dialector gorm_settings = Inr db \<and> dv_DB D db = Inr sqlDB
        \<and> dv_Ping D sqlDB tuned = None
        \<and> tuned = \<lparr>ps_MaxOpenConns = dbc_MaxOpenConns cfg, ps_MaxIdleConns = dbc_MaxIdleConns cfg,
                   ps_ConnMaxLifetime = dbc_ConnMaxLifetime cfg\<rparr>
        \<and> gooseDialect (dbc_Driver cfg) = (case dialector of Postgres _ \<Rightarrow> ''postgres'' | MySQL _ \<Rightarrow> ''mysql''))"
  by (auto simp: database_Open_def gooseDialect_def buildDialector_def Let_def split: sum.splits option.splits if_splits)

end
