(* ===== verification/Boot.thy ===== *)
theory Boot
  imports Router Logger Database
begin

text \<open>
  \<open>main.go\<close>: the boot sequence and the shutdown sequence of the process.  The HTTP server, the
  signals and the process exit are the operating system's: a boot ends with an exit and its reason,
  or with a running server, and the server runs \<open>serve\<close> (theory \<open>Router\<close>) on each request.
\<close>

text \<open>
  How a boot can end: the two errors written to the standard error, the calls of \<open>log.Fatal\<close> with
  their messages.
\<close>

datatype boot_exit = ConfigError go_error | LoggerError go_error | FatalLog string go_error

text \<open>
  What a boot is given besides the environment: the operating system's \<open>MkdirAll\<close>, the database
  drivers, the registration of a callback with GORM, the mail service for a configuration, the
  multiplexer of the task queue, and the salt of the administrator's password.
\<close>

record ('f, 'h, 'p, 'm) boot_libs =
  bt_mkdir :: "string \<Rightarrow> bool"
  bt_driver :: "('h, 'p, 'f app_state) db_driver"
  bt_callbacks :: "'h \<Rightarrow> callback_point \<Rightarrow> string \<Rightarrow> callback \<Rightarrow> go_error option"
  bt_mail :: "MailConfig \<Rightarrow> MailService"
  bt_mux :: 'm
  bt_mux_add :: "string \<Rightarrow> (string \<Rightarrow> Message option \<times> (go_error + unit)) \<Rightarrow> 'm \<Rightarrow> 'm"
  bt_unmarshal :: "string \<Rightarrow> go_error + PasswordResetEmailPayload"
  bt_salt :: nat

text \<open>A running process: \<open>http.Server\<close> with its engine, the dependencies, the loggers.\<close>

record ('f, 't, 'm, 'h) process =
  pr_Env :: "'f server_env"
  pr_Limiter :: RateService
  pr_Deps :: "('t, 'm) Deps"
  pr_Loggers :: logger_state
  pr_DB :: 'h
  pr_Addr :: string
  pr_ReadTimeout :: duration
  pr_WriteTimeout :: duration
  pr_ShutdownTimeout :: duration

text \<open>
  The engine of \<open>router.New(cfg, log, deps)\<close>: the handlers work with the configuration and with the
  signing service and mail service of the dependencies.
\<close>

definition engine_env :: "'f server_env \<Rightarrow> Config \<Rightarrow> JwtService \<Rightarrow> MailService \<Rightarrow> 'f server_env" where
  "engine_env N cfg jwt M =
     N\<lparr>se_cfg := cfg, se_auth := (se_auth N)\<lparr>av_jwt := jwt, av_mail := M, av_mailCfg := cfg_Mail cfg\<rparr>\<rparr>"

definition migrate ::
  "('f, 'h, 'p, 'm) boot_libs \<Rightarrow> Config \<Rightarrow> 'h \<Rightarrow> ('f app_state, go_error, unit) op" where
  "migrate B cfg db =
     (if mgc_AutoRun (cfg_Migrations cfg)
      then RunMigrations (bt_driver B) db (dbc_Driver (cfg_DB cfg)) (mgc_Dir (cfg_Migrations cfg))
      else returnE ())"

definition main_start ::
  "'f server_env \<Rightarrow> ('f, 'h, 'p, 'm) boot_libs \<Rightarrow> environment \<Rightarrow> 'f app_state
     \<Rightarrow> (boot_exit + ('f, 't, 'm, 'h) process) \<times> 'f app_state" where
  "main_start N B env w =
     (case Load env of
        Inl err \<Rightarrow> (Inl (ConfigError err), w)
      | Inr cfg \<Rightarrow>
     (case logger_New (bt_mkdir B) (cfg_Log cfg) logger_init of
        (Inl err, _) \<Rightarrow> (Inl (LoggerError err), w)
      | (Inr zl, logs) \<Rightarrow>
     let logs = SetGlobal zl logs in
     (case database_Open (bt_driver B) (cfg_DB cfg) of
        Inl err \<Rightarrow> (Inl (FatalLog ''database connect failed'' err), w)
      | Inr (db, _) \<Rightarrow>
     (case migrate B cfg db w of
        (Inl err, w) \<Rightarrow> (Inl (FatalLog ''migrations failed'' err), w)
      | (Inr _, w) \<Rightarrow>
     (case NewDependencies (RegisterCallbacks (bt_callbacks B db)) (bt_mail B (cfg_Mail cfg)) (bt_mux B) (bt_mux_add B) (bt_unmarshal B) cfg of
        Inl err \<Rightarrow> (Inl (FatalLog ''bootstrap failed'' err), w)
      | Inr deps \<Rightarrow>
     (case SeedAdmin (av_users (se_auth N)) (av_bcrypt (se_auth N)) (bt_salt B) (cfg_Bootstrap cfg) (ap_db w) of
        (Inl err, db') \<Rightarrow> (Inl (FatalLog ''bootstrap admin failed'' err), w\<lparr>ap_db := db'\<rparr>)
      | (Inr _, db') \<Rightarrow>
          (Inr \<lparr>pr_Env = engine_env N cfg (dp_JWT deps) (bt_mail B (cfg_Mail cfg)),
                pr_Limiter = NewService (cfg_RateLimit cfg),
                pr_Deps = StartBackgroundJobs deps, pr_Loggers = logs, pr_DB = db,
                pr_Addr = '':'' @ srv_Port (cfg_Server cfg),
                pr_ReadTimeout = srv_ReadTimeout (cfg_Server cfg), pr_WriteTimeout = srv_WriteTimeout (cfg_Server cfg),
                pr_ShutdownTimeout = srv_ShutdownTimeout (cfg_Server cfg)\<rparr>,
           w\<lparr>ap_db := db'\<rparr>)))))))"

text \<open>
  The shutdown: the background work first, then the HTTP server, which is closed hard when it does not
  finish in time, then the audit queue is closed; the deferred calls close the database and flush
  the log.
\<close>

datatype stop_step = StopJobs | ServerShutdown | ServerClose | CloseAudit | CloseDatabase | SyncLog

definition main_stop ::
  "('h, 'p, 's) db_driver \<Rightarrow> go_error option \<Rightarrow> ('f, 't, 'm, 'h) process \<Rightarrow> 'f app_state
     \<Rightarrow> stop_step list \<times> 'p option \<times> ('f, 't, 'm, 'h) process \<times> 'f app_state" where
  "main_stop D shutdown_err p w =
     (let p = p\<lparr>pr_Deps := StopBackgroundJobs (pr_Deps p)\<rparr>;
          steps = [StopJobs, ServerShutdown] @ (case shutdown_err of None \<Rightarrow> [] | Some _ \<Rightarrow> [ServerClose]);
          w = w\<lparr>ap_audit := snd (audit_close (ap_audit w))\<rparr>
      in (steps @ [CloseAudit, CloseDatabase, SyncLog], database_Close D (Some (pr_DB p)), p, w))"

section \<open>What a boot establishes\<close>

lemma NewJwtService_secret: "NewJwtService cfg = Inr j \<Longrightarrow> 32 \<le> length (js_secret j)"
  by (auto simp: NewJwtService_def Let_def split: if_splits option.splits)

lemma NewDependencies_JWT:
  assumes "NewDependencies cb M mux mux_add um cfg = Inr d"
  shows "NewJwtService (cfg_JWT cfg) = Inr (dp_JWT d)"
  using assms by (auto simp: NewDependencies_def Let_def split: option.splits sum.splits)

lemma main_start_Inr:
  assumes "main_start N B env w = (Inr p, w')"
  obtains cfg zl logs db tuned w1 deps db' where "Load env = Inr cfg"
    "logger_New (bt_mkdir B) (cfg_Log cfg) logger_init = (Inr zl, logs)"
    "database_Open (bt_driver B) (cfg_DB cfg) = Inr (db, tuned)"
    "migrate B cfg db w = (Inr (), w1)"
    "NewDependencies (RegisterCallbacks (bt_callbacks B db)) (bt_mail B (cfg_Mail cfg)) (bt_mux B) (bt_mux_add B) (bt_unmarshal B) cfg = Inr deps"
    "SeedAdmin (av_users (se_auth N)) (av_bcrypt (se_auth N)) (bt_salt B) (cfg_Bootstrap cfg) (ap_db w1) = (Inr (), db')"
    "w' = w1\<lparr>ap_db := db'\<rparr>" "pr_Env p = engine_env N cfg (dp_JWT deps) (bt_mail B (cfg_Mail cfg))"
    "pr_Deps p = StartBackgroundJobs deps" "pr_Limiter p = NewService (cfg_RateLimit cfg)"
    "pr_Loggers p = SetGlobal zl logs" "pr_DB p = db" "pr_Addr p = '':'' @ srv_Port (cfg_Server cfg)"
  using assms unfolding main_start_def Let_def
  by (auto split: sum.split_asm prod.split_asm)

text \<open>
  C7: a process serves requests only after every step of its boot succeeded: the configuration was
  accepted, the driver is a known one, tokens are signed with at least 32 bytes of secret, and the
  tables hold the built-in permissions and roles and the configured administrator.
\<close>

theorem boot_serves_seeded:
  fixes p :: "('f, 't, 'm, 'h) process"
  assumes "main_start N B env w = (Inr p, w')" "user_store (av_users (se_auth N))"
    and "permissions_ok (rd_permissions (ap_db w))" "roles_ok (rd_roles (ap_db w))"
    and "\<And>h dir s r s'. dv_Up (bt_driver B) h dir s = (r, s') \<Longrightarrow> permissions_ok (rd_permissions (ap_db s)) \<Longrightarrow>
           roles_ok (rd_roles (ap_db s)) \<Longrightarrow> permissions_ok (rd_permissions (ap_db s')) \<and> roles_ok (rd_roles (ap_db s'))"
  shows "\<exists>cfg. Load env = Inr cfg \<and> se_cfg (pr_Env p) = cfg \<and> gooseDialect (dbc_Driver (cfg_DB cfg)) \<in> {''postgres'', ''mysql''}
    \<and> NewJwtService (cfg_JWT cfg) = Inr (av_jwt (se_auth (pr_Env p))) \<and> 32 \<le> length (js_secret (av_jwt (se_auth (pr_Env p))))
    \<and> seeded (bc_AdminUsername (cfg_Bootstrap cfg)) (ap_db w')"
  using assms(1)
proof (rule main_start_Inr)
  fix cfg zl logs db tuned w1 deps db'
  assume c: "Load env = Inr cfg" and o: "database_Open (bt_driver B) (cfg_DB cfg) = Inr (db, tuned)"
    and m: "migrate B cfg db w = (Inr (), w1)"
    and d: "NewDependencies (RegisterCallbacks (bt_callbacks B db)) (bt_mail B (cfg_Mail cfg)) (bt_mux B) (bt_mux_add B) (bt_unmarshal B) cfg = Inr deps"
    and s: "SeedAdmin (av_users (se_auth N)) (av_bcrypt (se_auth N)) (bt_salt B) (cfg_Bootstrap cfg) (ap_db w1) = (Inr (), db')"
    and w': "w' = w1\<lparr>ap_db := db'\<rparr>" and e: "pr_Env p = engine_env N cfg (dp_JWT deps) (bt_mail B (cfg_Mail cfg))"
  have "permissions_ok (rd_permissions (ap_db w1)) \<and> roles_ok (rd_roles (ap_db w1))"
    using m assms(3-5)
    by (auto simp: migrate_def RunMigrations_def split: if_split_asm sum.split_asm option.split_asm prod.split_asm)
  then have "seeded (bc_AdminUsername (cfg_Bootstrap cfg)) db'"
    by (intro user_store.SeedAdmin_seeded [OF assms(2) _ _ s]) simp_all
  moreover have "gooseDialect (dbc_Driver (cfg_DB cfg)) \<in> {''postgres'', ''mysql''}"
    using o by (auto simp: database_Open_def buildDialector_def gooseDialect_def Let_def split: if_split_asm sum.split_asm)
  moreover have "NewJwtService (cfg_JWT cfg) = Inr (dp_JWT deps)" using d by (rule NewDependencies_JWT)
  moreover from this have "32 \<le> length (js_secret (dp_JWT deps))" by (rule NewJwtService_secret)
  ultimately show ?thesis using c w' e by (simp add: engine_env_def)
qed

text \<open>
  A failed boot writes nothing before the database has accepted the connection, and after that
  only what the migrations or an interrupted seeding wrote.
\<close>

theorem boot_failure_writes:
  assumes "main_start N B env w = (Inl e, w')"
  shows "w' = w \<or> (\<exists>cfg db tuned. Load env = Inr cfg \<and> database_Open (bt_driver B) (cfg_DB cfg) = Inr (db, tuned)
    \<and> (mgc_AutoRun (cfg_Migrations cfg) \<and> w' = snd (migrate B cfg db w)
       \<or> (\<exists>err w1 db'. e = FatalLog ''bootstrap admin failed'' err \<and> migrate B cfg db w = (Inr (), w1) \<and> w' = w1\<lparr>ap_db := db'\<rparr>)))"
proof -
  have "snd (migrate B cfg db w) = w" if "\<not> mgc_AutoRun (cfg_Migrations cfg)" for cfg db
    using that by (simp add: migrate_def)
  then show ?thesis
    using assms unfolding main_start_def Let_def
    by (cases "Load env"; simp)
       (auto split: sum.split_asm prod.split_asm, (metis snd_conv)+)
qed

text \<open>
  Without a \<open>JWT_SECRET\<close> the process never serves: whatever the environment says otherwise and
  whatever the libraries do, the boot ends in an exit.
\<close>

theorem boot_needs_secret:
  assumes "env ''JWT_SECRET'' = None \<or> env ''JWT_SECRET'' = Some ''''"
  shows "\<exists>e. fst (main_start N B env w :: (boot_exit + ('f, 't, 'm, 'h) process) \<times> 'f app_state) = Inl e"
proof (rule ccontr)
  assume "\<nexists>e. fst (main_start N B env w :: (boot_exit + ('f, 't, 'm, 'h) process) \<times> 'f app_state) = Inl e"
  then obtain w' and p :: "('f, 't, 'm, 'h) process" where "main_start N B env w = (Inr p, w')"
    by (cases "main_start N B env w :: (boot_exit + ('f, 't, 'm, 'h) process) \<times> 'f app_state"; cases "fst (main_start N B env w :: (boot_exit + ('f, 't, 'm, 'h) process) \<times> 'f app_state)") auto
  then show False
  proof (rule main_start_Inr)
    fix cfg db and deps :: "('t, 'm) Deps"
    assume c: "Load env = Inr cfg"
      and "NewDependencies (RegisterCallbacks (bt_callbacks B db)) (bt_mail B (cfg_Mail cfg)) (bt_mux B) (bt_mux_add B) (bt_unmarshal B) cfg = Inr deps"
    then have j: "NewJwtService (cfg_JWT cfg) = Inr (dp_JWT deps)" by (intro NewDependencies_JWT)
    have "cfg_JWT cfg = load_jwt env" using c by (auto simp: Load_def Let_def split: if_split_asm)
    moreover have "jc_Secret (load_jwt env) = ''change-me-in-prod''"
      using assms by (auto simp: load_jwt_def getString_def)
    ultimately show False using j by (simp add: NewJwtService_def default_secret)
  qed
qed

section \<open>An example boot\<close>

definition demo_driver :: "(unit, unit, 's) db_driver" where
  "demo_driver =
     \<lparr>dv_Open = (\<lambda>_ _. Inr ()), dv_DB = (\<lambda>_. Inr ()), dv_Ping = (\<lambda>_ _. None), dv_SetDialect = (\<lambda>_. None), dv_Up = (\<lambda>_ _ s. (None, s))\<rparr>"

definition demo_libs :: "(unit, unit, unit, nat) boot_libs" where
  "demo_libs =
     \<lparr>bt_mkdir = (\<lambda>_. True), bt_driver = demo_driver, bt_callbacks = (\<lambda>_ _ _ _. None), bt_mail = (\<lambda>_. av_mail demo_env),
      bt_mux = 0, bt_mux_add = (\<lambda>_ _ m. m), bt_unmarshal = (\<lambda>_. Inl (PlainError ''bad payload'')), bt_salt = 1\<rparr>"

definition demo_environment :: environment where
  "demo_environment = [''JWT_SECRET'' \<mapsto> ''0123456789-0123456789-0123456789-'']"

definition fresh_db :: auth_db where
  "fresh_db =
     \<lparr>rd_permissions = \<lparr>rows = [], next_id = 1\<rparr>, rd_roles = \<lparr>rows = [], next_id = 1\<rparr>, rd_role_permissions = [],
      ud_users = \<lparr>rows = [], next_id = 1\<rparr>, ud_user_roles = [], ud_sessions = \<lparr>rows = [], next_id = 1\<rparr>,
      ad_reset_tokens = \<lparr>rows = [], next_id = 1\<rparr>, ad_outbox = []\<rparr>"

lemma fresh_db_ok: "permissions_ok (rd_permissions fresh_db)" "roles_ok (rd_roles fresh_db)" "boot_ready 1 fresh_db"
  by (simp_all add: fresh_db_def table_ok_def unique_on_def boot_ready_def roles_ready_def)

lemma demo_Load:
  "\<exists>cfg. Load demo_environment = Inr cfg \<and> cfg_Bootstrap cfg = demo_bootstrap \<and> cfg_Log cfg = load_log demo_environment
     \<and> cfg_DB cfg = load_db demo_environment \<and> cfg_JWT cfg = load_jwt demo_environment"
  by (simp add: Load_def Let_def demo_environment_def load_jwt_def load_app_def load_bootstrap_def getString_def demo_bootstrap_def)

lemma demo_boot:
  "\<exists>p db'. main_start (demo_server N) demo_libs demo_environment (w\<lparr>ap_db := fresh_db\<rparr>)
     = (Inr (p :: (unit, nat, nat, unit) process), w\<lparr>ap_db := db'\<rparr>)"
proof -
  obtain cfg where cfg: "Load demo_environment = Inr cfg" "cfg_Bootstrap cfg = demo_bootstrap"
    "cfg_Log cfg = load_log demo_environment" "cfg_DB cfg = load_db demo_environment" "cfg_JWT cfg = load_jwt demo_environment"
    using demo_Load by blast
  have lv: "lc_Level (cfg_Log cfg) = ''info''" by (simp add: cfg load_log_def demo_environment_def getString_def)
  have "ToLower (TrimSpace ''info'') = ''info''" by code_simp
  then obtain zl logs where l: "logger_New (bt_mkdir demo_libs) (cfg_Log cfg) logger_init = (Inr zl, logs)"
    by (simp add: logger_New_def parseLevel_def lv Let_def)
  have dr: "dbc_Driver (cfg_DB cfg) = ''postgres''" by (simp add: cfg load_db_def demo_environment_def getString_def)
  have "ToLower ''postgres'' = ''postgres''" by code_simp
  then have o: "\<exists>tuned. database_Open (bt_driver demo_libs) (cfg_DB cfg) = Inr ((), tuned)"
    by (simp add: database_Open_def buildDialector_def dr demo_libs_def demo_driver_def Let_def)
  have m: "migrate demo_libs cfg () s = (Inr (), s)" for s
    by (simp add: migrate_def RunMigrations_def demo_libs_def demo_driver_def)
  have "jc_Secret (load_jwt demo_environment) = ''0123456789-0123456789-0123456789-''"
    by (simp add: load_jwt_def demo_environment_def getString_def)
  then have "\<exists>j. NewJwtService (cfg_JWT cfg) = Inr j"
    by (cases "DecodeString ''0123456789-0123456789-0123456789-''") (simp_all add: NewJwtService_def cfg Let_def)
  then have d: "\<exists>deps :: (nat, nat) Deps. NewDependencies (RegisterCallbacks (bt_callbacks demo_libs ())) (bt_mail demo_libs (cfg_Mail cfg)) (bt_mux demo_libs)
      (bt_mux_add demo_libs) (bt_unmarshal demo_libs) cfg = Inr deps"
    by (auto simp: NewDependencies_def RegisterCallbacks_def Let_def demo_libs_def)
  obtain db' where "SeedAdmin mem_user_gorm plain_bcrypt 1 demo_bootstrap fresh_db = (Inr (), db')"
    using mem_boot [of 0 fresh_db] fresh_db_ok(3) by auto
  then have "SeedAdmin (av_users (se_auth (demo_server N))) (av_bcrypt (se_auth (demo_server N))) (bt_salt demo_libs) (cfg_Bootstrap cfg) fresh_db
      = (Inr (), db')" by (simp add: cfg demo_libs_def)
  then show ?thesis using cfg(1) l o m d by (auto simp: main_start_def Let_def)
qed

section \<open>The witnesses, and a whole life\<close>

theorem boot_serves_seeded_witness:
  "\<forall>N (w :: unit app_state). \<exists>p db'. main_start (demo_server N) demo_libs demo_environment (w\<lparr>ap_db := fresh_db\<rparr>)
       = (Inr (p :: (unit, nat, nat, unit) process), w\<lparr>ap_db := db'\<rparr>)
     \<and> seeded ''admin'' db' \<and> 32 \<le> length (js_secret (av_jwt (se_auth (pr_Env p))))"
proof (intro allI)
  fix N and w :: "unit app_state"
  obtain p db' where b: "main_start (demo_server N) demo_libs demo_environment (w\<lparr>ap_db := fresh_db\<rparr>)
      = (Inr (p :: (unit, nat, nat, unit) process), w\<lparr>ap_db := db'\<rparr>)" using demo_boot by blast
  have g: "user_store (av_users (se_auth (demo_server N)))" by (simp add: mem_user_gorm_store)
  obtain cfg where cfg: "Load demo_environment = Inr cfg" "cfg_Bootstrap cfg = demo_bootstrap" using demo_Load by blast
  have up: "dv_Up (bt_driver demo_libs) h dir s = (r, s') \<Longrightarrow> s' = s" for h dir s r s'
    by (simp add: demo_libs_def demo_driver_def)
  from boot_serves_seeded [OF b g] fresh_db_ok up cfg b
  show "\<exists>p db'. main_start (demo_server N) demo_libs demo_environment (w\<lparr>ap_db := fresh_db\<rparr>)
       = (Inr (p :: (unit, nat, nat, unit) process), w\<lparr>ap_db := db'\<rparr>)
     \<and> seeded ''admin'' db' \<and> 32 \<le> length (js_secret (av_jwt (se_auth (pr_Env p))))"
    by (intro exI [of _ p] exI [of _ db']) (auto simp: demo_bootstrap_def)
qed

theorem boot_failure_writes_witness:
  "\<forall>N (w :: unit app_state). \<exists>e. main_start N demo_libs [''APP_ENV'' \<mapsto> ''prod''] w
      = (Inl e :: boot_exit + (unit, nat, nat, unit) process, w)"
proof (intro allI)
  fix N and w :: "unit app_state"
  obtain err where err: "Load [''APP_ENV'' \<mapsto> ''prod''] = Inl err"
    by (simp add: Load_def Let_def load_jwt_def load_app_def getString_def HasPrefix_def)
  then have m: "main_start N demo_libs [''APP_ENV'' \<mapsto> ''prod''] w = (Inl (ConfigError err) :: boot_exit + (unit, nat, nat, unit) process, w)"
    by (simp add: main_start_def)
  then show "\<exists>e. main_start N demo_libs [''APP_ENV'' \<mapsto> ''prod''] w
      = (Inl e :: boot_exit + (unit, nat, nat, unit) process, w)"
    using boot_failure_writes [OF m] err by auto
qed

theorem boot_needs_secret_witness:
  "\<forall>N (w :: unit app_state). \<exists>e. fst (main_start N demo_libs Map.empty w :: (boot_exit + (unit, nat, nat, unit) process) \<times> _) = Inl e"
  by (intro allI boot_needs_secret) simp



text \<open>Tables no boot has touched yet.\<close>

definition untouched :: "'x user_db_scheme \<Rightarrow> bool" where
  "untouched db = (permissions_ok (rd_permissions db) \<and> roles_ok (rd_roles db) \<and> rows (ud_users db) = [])"

text \<open>
  C13: after the first boot the configured administrator can log in.  On tables without accounts, if the
  database answers the lookup, the credentials of the configuration are accepted by the server that
  was started, for an account that holds the \<open>ADMIN\<close> role and every built-in permission.
\<close>

theorem boot_admin_login:
  fixes p :: "('f, 't, 'm, 'h) process"
  assumes "main_start N B env w = (Inr p, w')" "auth_service (se_auth N)" "untouched (ap_db w)"
    and "\<And>h dir s r s'. dv_Up (bt_driver B) h dir s = (r, s') \<Longrightarrow> untouched (ap_db s) \<Longrightarrow> untouched (ap_db s')"
    and "lr_UsernameOrEmail req = bc_AdminUsername (cfg_Bootstrap (se_cfg (pr_Env p)))"
    and "lr_Password req = bc_AdminPassword (cfg_Bootstrap (se_cfg (pr_Env p)))"
    and "user_repo_GetByUsernameOrEmail (av_users (se_auth N)) (lr_UsernameOrEmail req) (ap_db w') = Inr found"
  shows "\<exists>u. found = Some u \<and> u_Username u = lr_UsernameOrEmail req
    \<and> insert (''ROLE_'' @ NameAdmin) (set AllPermissions) \<subseteq> set (AuthoritiesOf u)
    \<and> auth_Login (se_auth (pr_Env p)) clk req ua ip (ap_db w')
        = issueTokens (se_auth (pr_Env p)) clk u 0 (deviceNameFromUserAgent ua) ua ip (ap_db w')"
  using assms(1)
proof (rule main_start_Inr)
  fix cfg db w1 db' and deps :: "('t, 'm) Deps"
  let ?E = "se_auth N"
  assume m: "migrate B cfg db w = (Inr (), w1)"
    and s: "SeedAdmin (av_users ?E) (av_bcrypt ?E) (bt_salt B) (cfg_Bootstrap cfg) (ap_db w1) = (Inr (), db')"
    and w': "w' = w1\<lparr>ap_db := db'\<rparr>" and e: "pr_Env p = engine_env N cfg (dp_JWT deps) (bt_mail B (cfg_Mail cfg))"
  have g: "user_store (av_users ?E)" "bcrypt_library (av_bcrypt ?E)" using assms(2) by (simp_all add: auth_service_def)
  have "untouched (ap_db w1)"
    using m assms(3,4)
    by (auto simp: migrate_def RunMigrations_def split: if_split_asm sum.split_asm option.split_asm prod.split_asm)
  then obtain x where x: "rows (ud_users db') = [x]" "base_live x" "u_Enabled x" "u_Username x = lr_UsernameOrEmail req"
    "CheckPassword (av_bcrypt ?E) (u_PasswordHash x) (lr_Password req)"
    "insert (''ROLE_'' @ NameAdmin) (set AllPermissions) \<subseteq> granted db' (bm_ID x)"
    using admin_granted_all [OF g _ _ _ s] assms(5,6) by (auto simp: untouched_def e engine_env_def)
  have found: "user_repo_GetByUsernameOrEmail (av_users ?E) (lr_UsernameOrEmail req) db' = Inr found"
    using assms(7) by (simp add: w')
  show ?thesis
  proof (cases found)
    case None
    with found have "user_repo_GetByUsernameOrEmail (av_users ?E) (lr_UsernameOrEmail req) db' = Inr None" by simp
    from user_store.GetByUsernameOrEmail_None [OF g(1) this] x show ?thesis by simp
  next
    case (Some u)
    obtain y where y: "y \<in> set (rows (ud_users db'))" "u_PasswordHash u = u_PasswordHash y" "u_Enabled u = u_Enabled y"
      "u_Username u = u_Username y" "set (AuthoritiesOf u) = granted db' (bm_ID y)"
      by (rule auth_service.GetByUsernameOrEmail_Some [OF assms(2) found [unfolded Some]])
    then have "y = x" using x(1) by simp
    then show ?thesis using x y found Some
      by (intro exI [of _ u]) (simp add: auth_Login_def bindE_def e engine_env_def w')
  qed
qed

theorem boot_admin_login_witness:
  "\<forall>N (w :: unit app_state) clk. \<exists>p db' u. main_start (demo_server N) demo_libs demo_environment (w\<lparr>ap_db := fresh_db\<rparr>)
       = (Inr (p :: (unit, nat, nat, unit) process), w\<lparr>ap_db := db'\<rparr>)
     \<and> ProductDelete \<in> set (AuthoritiesOf u)
     \<and> auth_Login (se_auth (pr_Env p)) clk \<lparr>lr_UsernameOrEmail = ''admin'', lr_Password = ''admin123''\<rparr> ''curl/8'' ''10.0.0.1'' db'
        = issueTokens (se_auth (pr_Env p)) clk u 0 (deviceNameFromUserAgent ''curl/8'') ''curl/8'' ''10.0.0.1'' db'"
proof (intro allI)
  fix N and w :: "unit app_state" and clk
  let ?req = "\<lparr>lr_UsernameOrEmail = ''admin'', lr_Password = ''admin123''\<rparr>"
  obtain p db' where b: "main_start (demo_server N) demo_libs demo_environment (w\<lparr>ap_db := fresh_db\<rparr>)
      = (Inr (p :: (unit, nat, nat, unit) process), w\<lparr>ap_db := db'\<rparr>)" using demo_boot by blast
  obtain cfg where cfg: "Load demo_environment = Inr cfg" "cfg_Bootstrap cfg = demo_bootstrap" using demo_Load by blast
  have "se_cfg (pr_Env p) = cfg" using b by (rule main_start_Inr) (simp add: cfg engine_env_def)
  then have r: "lr_UsernameOrEmail ?req = bc_AdminUsername (cfg_Bootstrap (se_cfg (pr_Env p)))"
    "lr_Password ?req = bc_AdminPassword (cfg_Bootstrap (se_cfg (pr_Env p)))" by (simp_all add: cfg demo_bootstrap_def)
  have a: "auth_service (se_auth (demo_server N))" by (simp add: demo_auth.auth_service_axioms)
  have u: "untouched (ap_db (w\<lparr>ap_db := fresh_db\<rparr>))" using fresh_db_ok by (simp add: untouched_def) (simp add: fresh_db_def)
  have up: "dv_Up (bt_driver demo_libs) h dir s = (r, s') \<Longrightarrow> untouched (ap_db s) \<Longrightarrow> untouched (ap_db s')" for h dir s r s'
    by (simp add: demo_libs_def demo_driver_def)
  obtain found where f: "user_repo_GetByUsernameOrEmail (av_users (se_auth (demo_server N))) (lr_UsernameOrEmail ?req) (ap_db (w\<lparr>ap_db := db'\<rparr>)) = Inr found"
    using mem_GetUser [of "''admin''" db'] by auto
  have d: "ap_db (w\<lparr>ap_db := db'\<rparr>) = db'" by simp
  have "\<exists>u. found = Some u \<and> u_Username u = lr_UsernameOrEmail ?req
    \<and> insert (''ROLE_'' @ NameAdmin) (set AllPermissions) \<subseteq> set (AuthoritiesOf u)
    \<and> auth_Login (se_auth (pr_Env p)) clk ?req ''curl/8'' ''10.0.0.1'' (ap_db (w\<lparr>ap_db := db'\<rparr>))
        = issueTokens (se_auth (pr_Env p)) clk u 0 (deviceNameFromUserAgent ''curl/8'') ''curl/8'' ''10.0.0.1'' (ap_db (w\<lparr>ap_db := db'\<rparr>))"
    by (rule boot_admin_login [OF b a u _ r f]) (rule up)
  then obtain u where u: "insert (''ROLE_'' @ NameAdmin) (set AllPermissions) \<subseteq> set (AuthoritiesOf u)"
    "auth_Login (se_auth (pr_Env p)) clk ?req ''curl/8'' ''10.0.0.1'' db'
        = issueTokens (se_auth (pr_Env p)) clk u 0 (deviceNameFromUserAgent ''curl/8'') ''curl/8'' ''10.0.0.1'' db'"
    unfolding d by blast
  have "ProductDelete \<in> set AllPermissions" by (simp add: AllPermissions_def)
  with u have "ProductDelete \<in> set (AuthoritiesOf u)" by blast
  then show "\<exists>p db' u. main_start (demo_server N) demo_libs demo_environment (w\<lparr>ap_db := fresh_db\<rparr>)
       = (Inr (p :: (unit, nat, nat, unit) process), w\<lparr>ap_db := db'\<rparr>)
     \<and> ProductDelete \<in> set (AuthoritiesOf u)
     \<and> auth_Login (se_auth (pr_Env p)) clk ?req ''curl/8'' ''10.0.0.1'' db'
        = issueTokens (se_auth (pr_Env p)) clk u 0 (deviceNameFromUserAgent ''curl/8'') ''curl/8'' ''10.0.0.1'' db'"
    using b u(2) by blast
qed

end
