(* ===== verification/PasswordReset.thy ===== *)
theory PasswordReset
  imports Auth
begin

text \<open>
  The life of a password-reset token, over the definitions of theory \<open>Auth\<close>: requests, uses
  and clean-ups of tokens as a step relation on the server state, with the properties of the
  reset flow.  A token is known to the server only by its SHA-256 hash.
\<close>

section \<open>Steps on the reset tokens\<close>

text \<open>
  \<open>H\<close> holds the hashes of the tokens drawn along the way.  Every other operation of the
  program leaves the table of reset tokens alone.
\<close>

definition drawn_in :: "string set \<Rightarrow> go_error + string \<Rightarrow> bool" where
  "drawn_in H rnd = (case generateResetToken rnd of Inl _ \<Rightarrow> True | Inr (_, h) \<Rightarrow> h \<in> H)"

inductive reset_step :: "auth_env \<Rightarrow> string set \<Rightarrow> 'x auth_db_scheme \<Rightarrow> 'x auth_db_scheme \<Rightarrow> bool" for E H where
  step_Forgot: "drawn_in H rnd \<Longrightarrow> reset_step E H db (snd (auth_ForgotPassword E rnd clk email db))"
| step_Reset: "reset_step E H db (snd (auth_ResetPassword E salt clk ctx req db))"
| step_Cleanup: "reset_step E H db (snd (auth_CleanupExpiredResetTokens E now db))"
| step_Other: "ad_reset_tokens db' = ad_reset_tokens db \<Longrightarrow> reset_step E H db db'"

definition reset_steps :: "auth_env \<Rightarrow> string set \<Rightarrow> 'x auth_db_scheme \<Rightarrow> 'x auth_db_scheme \<Rightarrow> bool" where
  "reset_steps E H = (reset_step E H)\<^sup>*\<^sup>*"

section \<open>What a request for a token does\<close>

lemma Update_tokens: "user_repo_Update G ctx u db = (res, db') \<Longrightarrow> ad_reset_tokens db' = ad_reset_tokens db"
  by (auto simp: user_repo_Update_def bindE_def zoomE_def dbE_def put_users_def split: sum.splits prod.splits)

lemma Increment_tokens: "ad_reset_tokens (snd (user_repo_IncrementTokenVersion G ctx uid db)) = ad_reset_tokens db"
  by (auto simp: user_repo_IncrementTokenVersion_def bindE_def zoomE_def dbE_def split: sum.splits prod.splits)

lemma on_sessions_tokens: "ad_reset_tokens (snd (on_sessions m db)) = ad_reset_tokens db"
  by (simp add: on_sessions_def zoomE_def split: prod.splits)

lemma Forgot_answer:
  "fst (auth_ForgotPassword E rnd clk email db) = Inr ()"
  "snd (auth_ForgotPassword E rnd clk email db)
     = db\<lparr>ad_reset_tokens := ad_reset_tokens (snd (auth_ForgotPassword E rnd clk email db)),
          ad_outbox := ad_outbox (snd (auth_ForgotPassword E rnd clk email db))\<rparr>"
  by (auto simp: auth_ForgotPassword_def on_tokens_def zoomE_def post_def Let_def split: sum.splits option.splits prod.splits)

lemma h_forgotPassword_run:
  "h_forgotPassword E b rnd clk c db =
     (case BindJSON (ab_forgot b) c of
        Inl e \<Rightarrow> (Inl e, db)
      | Inr email \<Rightarrow> (Inr (MessageResponse (clk 0) ''If that email exists, a reset link has been sent''),
                      snd (auth_ForgotPassword E rnd (later 1 clk) email db)))"
  using Forgot_answer(1) [of E rnd "later 1 clk" _ db]
  by (auto simp: h_forgotPassword_def bindE_def split: sum.splits prod.splits) (metis fst_conv Inl_Inr_False)+

context auth_service begin

text \<open>A request creates at most one token, for an enabled account that matches, and mails its raw form only.\<close>

lemma Forgot_cases [consumes 1]:
  assumes "auth_ForgotPassword E rnd clk email db = (res, db')"
  obtains (silent) t where "res = Inr ()" "db' = db\<lparr>ad_reset_tokens := t\<rparr>" "rows t = rows (ad_reset_tokens db)"
      "ad_outbox db' = ad_outbox db"
  | (issued) u raw h r t ev where "res = Inr ()"
      "user_repo_GetByUsernameOrEmail (av_users E) email db = Inr (Some u)" "u_Enabled u"
      "generateResetToken rnd = Inr (raw, h)" "rows t = rows (ad_reset_tokens db) @ [r]" "rt_TokenHash r = h"
      "rt_UserID r = bm_ID u" "rt_ConsumedAt r = None" "rt_ExpiresAt r = clk 0 + mc_PasswordResetTTL (av_mailCfg E)"
      "db' = post ev (db\<lparr>ad_reset_tokens := t\<rparr>)"
      "case ev of EvEnqueue task p \<Rightarrow> task = TaskPasswordResetEmail \<and> pe_Email p = u_Email u
            \<and> pe_ResetURL p = mc_AppURL (av_mailCfg E) @ ''/reset-password?token='' @ raw
          | EvMail m \<Rightarrow> mm_To m = [u_Email u] | _ \<Rightarrow> False"
proof -
  let ?g = "user_repo_GetByUsernameOrEmail (av_users E) email db"
  consider "\<And>u raw h. ?g = Inr (Some u) \<Longrightarrow> u_Enabled u \<Longrightarrow> generateResetToken rnd \<noteq> Inr (raw, h)"
    | u raw h where "?g = Inr (Some u)" "u_Enabled u" "generateResetToken rnd = Inr (raw, h)" by blast
  then show thesis
  proof cases
    case 1
    then have "res = Inr () \<and> db' = db"
      using assms by (auto simp: auth_ForgotPassword_def split: sum.splits option.splits if_splits)
    then show thesis by (intro silent [of "ad_reset_tokens db"]) simp_all
  next
    case u: 2
    let ?row = "\<lparr>rt_ID = 0, rt_UserID = bm_ID u, rt_TokenHash = h,
       rt_ExpiresAt = clk 0 + mc_PasswordResetTTL (av_mailCfg E), rt_ConsumedAt = None, rt_CreatedAt = clk 1\<rparr>"
    obtain cres t where c: "db_Create (av_tokens E) ?row (ad_reset_tokens db) = (cres, t)" by fastforce
    show thesis
    proof (cases cres)
      case (Inl e)
      then have "res = Inr () \<and> db' = db\<lparr>ad_reset_tokens := t\<rparr>"
        using assms u c by (simp add: auth_ForgotPassword_def on_tokens_def zoomE_def dbE_def)
      moreover have "rows t = rows (ad_reset_tokens db)" using ts.Create_failed [OF c [unfolded Inl]] by simp
      ultimately show thesis by (intro silent [of t]) simp_all
    next
      case (Inr r)
      have r: "rows t = rows (ad_reset_tokens db) @ [r]" "token_filled ?row r"
        using ts.Create_ok [of ?row "ad_reset_tokens db" r t] c Inr by simp_all
      have eq: "r = ?row\<lparr>rt_ID := rt_ID r\<rparr>" using r(2) unfolding token_filled_def .
      have rf: "rt_TokenHash r = h" "rt_UserID r = bm_ID u" "rt_ConsumedAt r = None"
        "rt_ExpiresAt r = clk 0 + mc_PasswordResetTTL (av_mailCfg E)" by (subst eq, simp)+
      let ?p = "\<lparr>pe_Email = u_Email u, pe_Username = u_Username u,
         pe_ResetURL = mc_AppURL (av_mailCfg E) @ ''/reset-password?token='' @ raw,
         pe_TTL = DurationString (mc_PasswordResetTTL (av_mailCfg E))\<rparr>"
      let ?ev = "case av_Enqueue E TaskPasswordResetEmail ?p of Inr _ \<Rightarrow> EvEnqueue TaskPasswordResetEmail ?p
                 | Inl _ \<Rightarrow> EvMail (fst (sendPasswordResetEmail (av_mail E) ?p))"
      have "(res, db') = (Inr (), post ?ev (db\<lparr>ad_reset_tokens := t\<rparr>))"
        unfolding assms [symmetric] using u c Inr
        by (simp add: auth_ForgotPassword_def on_tokens_def zoomE_def dbE_def Let_def split: sum.splits)
      then show thesis
        by (intro issued [OF _ u(1,2,3) r(1) rf, of ?ev])
           (simp_all add: sendPasswordResetEmail_def Let_def split: sum.splits)
    qed
  qed
qed

lemma Forgot_mails:
  assumes "auth_ForgotPassword E rnd clk email db = (res, db')" "ad_outbox db' = ad_outbox db @ [ev]"
  shows "\<exists>x \<in> set (rows (ud_users db)). base_live x \<and> u_Enabled x \<and> (u_Username x = email \<or> u_Email x = email)
     \<and> (case ev of EvEnqueue _ p \<Rightarrow> pe_Email p = u_Email x | EvMail m \<Rightarrow> mm_To m = [u_Email x] | _ \<Rightarrow> False)
     \<and> (\<exists>r. rows (ad_reset_tokens db') = rows (ad_reset_tokens db) @ [r] \<and> rt_UserID r = bm_ID x
           \<and> rt_ConsumedAt r = None \<and> rt_ExpiresAt r = clk 0 + mc_PasswordResetTTL (av_mailCfg E))"
  using assms(1)
proof (cases rule: Forgot_cases)
  case (silent t)
  then show ?thesis using assms(2) by simp
next
  case (issued u raw h r t ev')
  then have ev: "ev' = ev" using assms(2) by (simp add: post_def)
  from issued(2) show ?thesis
  proof (rule GetByUsernameOrEmail_Some)
    fix x assume x: "x \<in> set (rows (ud_users db))" "base_live x" "u_Username x = email \<or> u_Email x = email"
      "u = x\<lparr>u_Roles := u_Roles u\<rparr>" "bm_ID u = bm_ID x" "u_Enabled u = u_Enabled x"
    have "u_Email u = u_Email x" by (subst x(4)) simp
    then show ?thesis using x issued ev
      by (intro bexI [of _ x]) (auto simp: post_def split: auth_event.splits)
  qed
qed

lemma Forgot_spent:
  assumes "token_spent h (ad_reset_tokens db)" "drawn_in H rnd" "h \<notin> H"
  shows "token_spent h (ad_reset_tokens (snd (auth_ForgotPassword E rnd clk email db)))"
proof -
  obtain res db' where f: "auth_ForgotPassword E rnd clk email db = (res, db')" by fastforce
  from f have "token_spent h (ad_reset_tokens db')"
    by (cases rule: Forgot_cases) (use assms in \<open>auto simp: token_spent_def drawn_in_def post_def list_all_iff\<close>)
  then show ?thesis by (simp add: f)
qed

text \<open>A call of \<open>ResetPassword\<close> only ever marks a row as consumed.\<close>

lemma consume_spent:
  assumes "token_spent h t" "row \<in> set (rows t)" "db_Save (av_tokens E) (row\<lparr>rt_ConsumedAt := Some now\<rparr>) t = (res, t')"
  shows "token_spent h t'"
proof (cases res)
  case (Inl e)
  then show ?thesis using assms(1) ts.Save_failed [OF assms(3) [unfolded Inl]] by simp
next
  case (Inr r)
  have "r = row\<lparr>rt_ConsumedAt := Some now\<rparr>" "rows t' = map (\<lambda>y. if rt_ID y = rt_ID row then r else y) (rows t)"
    using ts.Save_ok [OF assms(3) [unfolded Inr] assms(2)] by simp_all
  then show ?thesis using assms(1) unfolding token_spent_def by (simp add: list_all_map) (simp add: list_all_iff)
qed

lemma Reset_spent:
  assumes "token_spent h (ad_reset_tokens db)"
  shows "token_spent h (ad_reset_tokens (snd (auth_ResetPassword E salt clk ctx req db)))"
proof (cases "db_First (av_tokens E) (\<lambda>r. rt_TokenHash r = hashToken (rp_Token req)) (ad_reset_tokens db)")
  case (Inl e)
  then show ?thesis using assms by (cases e) (simp_all add: auth_ResetPassword_def)
next
  case (Inr row)
  then have row: "row \<in> set (rows (ad_reset_tokens db))" using ts.First_found by blast
  consider (fail) e where "auth_ResetPassword E salt clk ctx req db = (Inl e, db)"
    | (run) u hash where "rt_ConsumedAt row = None" "clk 0 \<le> rt_ExpiresAt row"
        "user_repo_GetByID (av_users E) (rt_UserID row) db = Inr (Some u)"
        "HashPassword (av_bcrypt E) salt (rp_NewPassword req) = Inr hash"
    using Inr unfolding auth_ResetPassword_def
    by (cases "rt_ConsumedAt row"; cases "clk 0 \<le> rt_ExpiresAt row"; cases "user_repo_GetByID (av_users E) (rt_UserID row) db";
        cases "projr (user_repo_GetByID (av_users E) (rt_UserID row) db)";
        cases "HashPassword (av_bcrypt E) salt (rp_NewPassword req)") (simp_all add: bindE_def)
  then show ?thesis
  proof cases
    case fail
    then show ?thesis using assms by simp
  next
    case run
    obtain ures db1 where u: "user_repo_Update (av_users E) ctx (u\<lparr>u_PasswordHash := hash\<rparr>) db = (ures, db1)" by fastforce
    obtain sres t where sv: "db_Save (av_tokens E) (row\<lparr>rt_ConsumedAt := Some (clk 1)\<rparr>) (ad_reset_tokens db) = (sres, t)" by fastforce
    have t: "token_spent h t" using consume_spent [OF assms row sv] .
    have db1: "ad_reset_tokens db1 = ad_reset_tokens db" using u by (rule Update_tokens)
    show ?thesis using Inr run u sv t db1 assms unfolding auth_ResetPassword_def
      by (cases ures; cases sres)
         (simp_all add: bindE_def on_tokens_def zoomE_def dbE_def ignoreE_def on_sessions_tokens Increment_tokens)
  qed
qed

lemma step_spent: "reset_step E H db db' \<Longrightarrow> h \<notin> H \<Longrightarrow> token_spent h (ad_reset_tokens db) \<Longrightarrow> token_spent h (ad_reset_tokens db')"
proof (induction rule: reset_step.induct)
  case (step_Cleanup db now)
  then show ?case using Cleanup_spent [of h db now] by (metis prod.collapse)
qed (simp_all add: Forgot_spent Reset_spent)

lemma steps_spent: "reset_steps E H db db' \<Longrightarrow> h \<notin> H \<Longrightarrow> token_spent h (ad_reset_tokens db) \<Longrightarrow> token_spent h (ad_reset_tokens db')"
  unfolding reset_steps_def by (induction rule: rtranclp_induct) (auto intro: step_spent)

end

section \<open>An example run\<close>

lemma demo_Reset:
  "fst (auth_ResetPassword demo_env 0 (\<lambda>_. 5) None \<lparr>rp_Token = ''tok'', rp_NewPassword = ''n3w-secret''\<rparr> demo_auth_db) = Inr ()"
  by (simp add: auth_ResetPassword_def on_tokens_def HashPassword_def plain_bcrypt_def mem_tokens_def user_run_defs
      mem_user_defs demo_auth_defs unique_users_def unique_on_def)

lemma demo_tokens_ok: "tokens_ok (ad_reset_tokens demo_auth_db)"
  by (simp add: table_ok_def unique_on_def demo_auth_db_def)

definition demo_empty_tokens :: auth_db where
  "demo_empty_tokens = demo_auth_db\<lparr>ad_reset_tokens := \<lparr>rows = [], next_id = 1\<rparr>\<rparr>"

lemma demo_Forgot:
  "\<exists>ev. ad_outbox (snd (auth_ForgotPassword demo_env (Inr ''r'') (\<lambda>_. 0) ''ada'' demo_empty_tokens)) = [ev]"
  by (simp add: auth_ForgotPassword_def on_tokens_def mem_tokens_def user_run_defs user_repo_GetByUsernameOrEmail_def
      mem_user_defs demo_auth_defs demo_empty_tokens_def unique_users_def unique_on_def generateResetToken_def
      sendPasswordResetEmail_def post_def Let_def demo_env_def)

lemma demo_emails: "x \<in> set (rows (ud_users demo_auth_db)) \<Longrightarrow> u_Email x \<noteq> ''ada''"
  by (auto simp: demo_auth_defs)

section \<open>Properties\<close>

text \<open>
  A reset token works once.  After it has reset a password, and whatever requests, resets,
  clean-ups and other operations follow, using it again is refused and changes nothing, unless
  a token with the same hash has been drawn since.
\<close>

theorem reset_token_single_use:
  assumes "auth_service E" "tokens_ok (ad_reset_tokens db)"
    and "auth_ResetPassword E salt clk ctx req db = (Inr (), db1)"
    and "reset_steps E H db1 db2" "hashToken (rp_Token req) \<notin> H" "rp_Token req' = rp_Token req"
  shows "\<exists>e. auth_ResetPassword E salt' clk' ctx' req' db2 = (Inl e, db2)
             \<and> (e = BadRequest ''Token has already been used'' \<or> e = BadRequest ''Invalid or expired reset token''
                \<or> (\<exists>d. e = DbError d))"
proof -
  obtain "token_spent (hashToken (rp_Token req)) (ad_reset_tokens db1)"
    using assms(1-3) by (rule auth_service.Reset_effect)
  then have "token_spent (hashToken (rp_Token req')) (ad_reset_tokens db2)"
    using auth_service.steps_spent [OF assms(1,4,5)] assms(6) by simp
  then show ?thesis by (rule auth_service.Reset_spent_fails [OF assms(1)])
qed

theorem reset_token_single_use_witness:
  "\<exists>db1 e. auth_ResetPassword demo_env 0 (\<lambda>_. 5) None \<lparr>rp_Token = ''tok'', rp_NewPassword = ''n3w-secret''\<rparr> demo_auth_db = (Inr (), db1)
     \<and> auth_ResetPassword demo_env 1 (\<lambda>_. 6) None \<lparr>rp_Token = ''tok'', rp_NewPassword = ''other''\<rparr>
           (snd (auth_CleanupExpiredResetTokens demo_env 6 db1)) = (Inl e, snd (auth_CleanupExpiredResetTokens demo_env 6 db1))"
proof -
  obtain db1 where r: "auth_ResetPassword demo_env 0 (\<lambda>_. 5) None \<lparr>rp_Token = ''tok'', rp_NewPassword = ''n3w-secret''\<rparr> demo_auth_db = (Inr (), db1)"
    using demo_Reset by (metis eq_fst_iff)
  have "reset_steps demo_env {} db1 (snd (auth_CleanupExpiredResetTokens demo_env 6 db1))"
    unfolding reset_steps_def by (intro r_into_rtranclp step_Cleanup)
  from reset_token_single_use [OF demo_auth.auth_service_axioms demo_tokens_ok r this,
      where req' = "\<lparr>rp_Token = ''tok'', rp_NewPassword = ''other''\<rparr>" and salt' = 1 and clk' = "\<lambda>_. 6" and ctx' = None]
  show ?thesis using r by (intro exI [of _ db1]) auto
qed



text \<open>
  The answer to a forgot-password request does not depend on the server state, so it does
  not reveal whether an account exists; accounts, roles and sessions are left alone.
\<close>

theorem forgotPassword_reveals_nothing:
  "snd (auth_routes E b salt rnd clk AuthRouteForgot (db, c)) = snd (auth_routes E b salt rnd' clk AuthRouteForgot (db2, c))
   \<and> fst (auth_routes E b salt rnd clk AuthRouteForgot (db, c))
       = db\<lparr>ad_reset_tokens := ad_reset_tokens (fst (auth_routes E b salt rnd clk AuthRouteForgot (db, c))),
            ad_outbox := ad_outbox (fst (auth_routes E b salt rnd clk AuthRouteForgot (db, c)))\<rparr>"
  using Forgot_answer(2) [of E rnd "later 4 clk" _ db]
  by (simp add: auth_routes_def Handler_def endpoint_def h_forgotPassword_run Let_def split: sum.splits)

text \<open>
  Whatever a forgot-password request sends goes to the address of a live, enabled account
  that the request names, and belongs to a token of that account that is stored, unused, and
  expires after the configured lifetime.
\<close>

theorem forgotPassword_mails_owner:
  assumes "auth_service E" "auth_ForgotPassword E rnd clk email db = (res, db')"
    and "ad_outbox db' = ad_outbox db @ [ev]"
  shows "\<exists>x \<in> set (rows (ud_users db)). base_live x \<and> u_Enabled x \<and> (u_Username x = email \<or> u_Email x = email)
     \<and> (case ev of EvEnqueue _ p \<Rightarrow> pe_Email p = u_Email x | EvMail m \<Rightarrow> mm_To m = [u_Email x] | _ \<Rightarrow> False)
     \<and> (\<exists>r. rows (ad_reset_tokens db') = rows (ad_reset_tokens db) @ [r] \<and> rt_UserID r = bm_ID x
           \<and> rt_ConsumedAt r = None \<and> rt_ExpiresAt r = clk 0 + mc_PasswordResetTTL (av_mailCfg E))"
  using assms by (rule auth_service.Forgot_mails)

theorem forgotPassword_mails_owner_witness:
  "\<exists>db' ev x r. auth_ForgotPassword demo_env (Inr ''r'') (\<lambda>_. 0) ''ada'' demo_empty_tokens = (Inr (), db')
     \<and> ad_outbox db' = [ev] \<and> x \<in> set (rows (ud_users demo_empty_tokens)) \<and> u_Username x = ''ada''
     \<and> rows (ad_reset_tokens db') = [r] \<and> rt_UserID r = bm_ID x \<and> rt_ExpiresAt r = 1800 * second"
proof -
  let ?r = "auth_ForgotPassword demo_env (Inr ''r'') (\<lambda>_. 0) ''ada'' demo_empty_tokens"
  obtain db' where r: "?r = (Inr (), db')" using Forgot_answer(1) by (metis eq_fst_iff)
  have "ad_outbox demo_empty_tokens = []" by (simp add: demo_empty_tokens_def demo_auth_db_def)
  then obtain ev where ev: "ad_outbox db' = ad_outbox demo_empty_tokens @ [ev]"
    using demo_Forgot [unfolded r snd_conv] by auto
  have d: "ud_users demo_empty_tokens = ud_users demo_auth_db" "rows (ad_reset_tokens demo_empty_tokens) = []"
    "mc_PasswordResetTTL (av_mailCfg demo_env) = 1800 * second" "ad_outbox demo_empty_tokens = []"
    by (simp_all add: demo_empty_tokens_def demo_auth_db_def demo_env_def demo_mail_cfg_def)
  obtain x rt where "x \<in> set (rows (ud_users demo_empty_tokens))" "u_Username x = ''ada'' \<or> u_Email x = ''ada''"
    "rows (ad_reset_tokens db') = rows (ad_reset_tokens demo_empty_tokens) @ [rt]" "rt_UserID rt = bm_ID x"
    "rt_ExpiresAt rt = 0 + mc_PasswordResetTTL (av_mailCfg demo_env)"
    using forgotPassword_mails_owner [OF demo_auth.auth_service_axioms r ev] by blast
  then show ?thesis using r ev d demo_emails [of x]
    by (intro exI [of _ db'] exI [of _ ev] exI [of _ x] exI [of _ rt]) auto
qed

end
