(* ===== verification/Server.thy ===== *)
theory Server
  imports Router PasswordReset
begin

text \<open>
  The running server as a transition system: requests in any order and number, and the background
  work between them.  What a component guarantees of its own operations is carried here to every
  run of the whole server: revoked sessions stay unusable, used reset tokens stay used, recorded
  responses are replayed, the audit trail only grows.

  A relation on states that is reflexive and transitive is kept by an operation when the operation
  relates every state to the one it leaves; the modules are composed of operations that keep it.
\<close>

section \<open>Operations and handlers that keep a relation\<close>

named_theorems keeps \<open>operations and handlers that keep a relation\<close>

definition op_keeps :: "('s \<Rightarrow> 's \<Rightarrow> bool) \<Rightarrow> ('s, 'e, 'a) op \<Rightarrow> bool" where
  "op_keeps R m = (\<forall>s. R s (snd (m s)))"

definition handler_keeps :: "('w \<Rightarrow> 'w \<Rightarrow> bool) \<Rightarrow> ('w, 'd) handler \<Rightarrow> bool" where
  "handler_keeps R h = (\<forall>w c. R w (fst (h (w, c))))"

lemma op_keepsD: "op_keeps R m \<Longrightarrow> R s (snd (m s))"
  by (simp add: op_keeps_def)

lemma handler_keepsD: "handler_keeps R h \<Longrightarrow> R w (fst (h (w, c)))"
  by (simp add: handler_keeps_def)

text \<open>Branching.\<close>

lemma keeps_if [keeps]: "op_keeps R m \<Longrightarrow> op_keeps R k \<Longrightarrow> op_keeps R (if b then m else k)"
  by simp

lemma keeps_option [keeps]:
  "op_keeps R m \<Longrightarrow> (\<And>x. op_keeps R (k x)) \<Longrightarrow> op_keeps R (case v of None \<Rightarrow> m | Some x \<Rightarrow> k x)"
  by (cases v) simp_all

lemma keeps_prod [keeps]: "(\<And>x y. op_keeps R (k x y)) \<Longrightarrow> op_keeps R (case v of (x, y) \<Rightarrow> k x y)"
  by (cases v) simp

lemma keeps_let [keeps]: "(\<And>x. op_keeps R (k x)) \<Longrightarrow> op_keeps R (let x = v in k x)"
  by (simp add: Let_def)

lemma keeps_sum_at:
  "(\<And>e. op_keeps R (m e)) \<Longrightarrow> (\<And>x. op_keeps R (k x)) \<Longrightarrow> op_keeps R (\<lambda>s. case f s of Inl e \<Rightarrow> m e s | Inr x \<Rightarrow> k x s)"
  by (auto simp: op_keeps_def split: sum.split)

lemma keeps_if_at: "op_keeps R m \<Longrightarrow> op_keeps R k \<Longrightarrow> op_keeps R (\<lambda>s. if b s then m s else k s)"
  by (simp add: op_keeps_def)

text \<open>An operation on a part, carried to the whole.\<close>

lemma keeps_zoom: "op_keeps Q m \<Longrightarrow> (\<And>s t. Q (get s) t \<Longrightarrow> R s (put t s)) \<Longrightarrow> op_keeps R (zoomE get put m)"
  by (auto simp: op_keeps_def zoomE_def split: prod.split) (metis snd_conv)

lemma keeps_mount:
  "handler_keeps Q h \<Longrightarrow> (\<And>w t. Q (get w) t \<Longrightarrow> R w (put t w)) \<Longrightarrow> handler_keeps R (mount get put emb h)"
  by (auto simp: handler_keeps_def mount_def split: prod.split) (metis fst_conv)

lemma keeps_Handler [keeps]: "(\<And>c. op_keeps R (f c)) \<Longrightarrow> handler_keeps R (Handler now (endpoint f))"
  by (auto simp: handler_keeps_def op_keeps_def Handler_def endpoint_def split: prod.split sum.split option.split)
     (metis snd_conv)+

text \<open>Nothing is known of a state, and nothing has to be shown.\<close>

lemma keeps_any: "op_keeps (\<lambda>_ _. True) m" "handler_keeps (\<lambda>_ _. True) h"
  by (simp_all add: op_keeps_def handler_keeps_def)

locale evolution =
  fixes R :: "'s \<Rightarrow> 's \<Rightarrow> bool"
  assumes refl: "R s s" and trans: "R s t \<Longrightarrow> R t u \<Longrightarrow> R s u"
begin

lemma keeps_return [keeps]: "op_keeps R (returnE x)"
  by (simp add: op_keeps_def refl)

lemma keeps_leave [keeps]: "op_keeps R (\<lambda>s. (r, s))"
  by (simp add: op_keeps_def refl)

lemma keeps_throw [keeps]: "op_keeps R (throwE e)"
  by (simp add: op_keeps_def refl)

lemma keeps_read [keeps]: "op_keeps R (readE f)"
  by (simp add: op_keeps_def refl)

lemma keeps_bind [keeps]: "op_keeps R m \<Longrightarrow> (\<And>x. op_keeps R (k x)) \<Longrightarrow> op_keeps R (bindE m k)"
  by (auto simp: op_keeps_def bindE_def split: prod.split sum.split) (metis snd_conv trans)+

lemma keeps_ignore [keeps]: "op_keeps R m \<Longrightarrow> op_keeps R k \<Longrightarrow> op_keeps R (ignoreE m k)"
  by (auto simp: op_keeps_def ignoreE_def intro: trans)

lemma keeps_RequireAuth [keeps]: "handler_keeps R h \<Longrightarrow> handler_keeps R (RequireAuth now h)"
  by (auto simp: handler_keeps_def RequireAuth_def refl split: sum.split)

lemma keeps_HasPermission [keeps]: "handler_keeps R h \<Longrightarrow> handler_keeps R (HasPermission now perms h)"
  by (auto simp: handler_keeps_def HasPermission_def refl split: sum.split)

lemma keeps_JWTAuth [keeps]:
  "handler_keeps R h \<Longrightarrow> (\<And>now sid w. R w (sv_Touch V now sid w)) \<Longrightarrow> handler_keeps R (JWTAuth L J (Some V) clk h)"
  by (auto simp: handler_keeps_def JWTAuth_def refl Let_def split: sum.split) (metis trans)

lemma keeps_idem [keeps]:
  assumes "handler_keeps R h" "\<And>r w. ir_ID r = 0 \<Longrightarrow> R w (snd (st_Save S r w))"
  shows "handler_keeps R (idem_Middleware wire rd S cfg clk h)"
  unfolding handler_keeps_def
proof (intro allI)
  fix w and c :: "'a gin_context"
  have h: "R w w'" if "h (w, c1) = (w', c')" for w' c1 c' using handler_keepsD [OF assms(1), of w c1] that by simp
  show "R w (fst (idem_Middleware wire rd S cfg clk h (w, c)))"
    using h by (auto simp: idem_Middleware_def Let_def refl handler_keepsD [OF assms(1)] split: sum.split option.split prod.split
        intro!: trans [OF h assms(2)])
qed

lemma keeps_audit:
  assumes "handler_keeps R h" "\<And>e w. al_ID e = 0 \<Longrightarrow> R w (snd (sink e w))"
  shows "R w (fst (snd (audit_Middleware wire rd J sink cfg clk (\<lambda>s. (None, h s)) (w, c))))"
proof -
  have h: "R w w'" if "h (w, c1) = (w', c')" for w' c1 c' using handler_keepsD [OF assms(1), of w c1] that by simp
  have s: "R w w''" if "sink (audit_entry clk1 path mf rb pb c1) w' = (p, w'')" "R w w'" for clk1 path mf rb pb c1 p w' w''
    using trans [OF that(2) assms(2) [of "audit_entry clk1 path mf rb pb c1" w']] that(1) by (simp add: audit_entry_def)
  show ?thesis
    by (auto simp: audit_Middleware_def Let_def handler_keepsD [OF assms(1)] split: option.split prod.split sum.split
        dest!: h intro: s)
qed

end

section \<open>The tables of accounts\<close>

text \<open>
  A relation on the database that sees the sessions through the steps of the session service and
  nothing of the tables of permissions, roles and users.
\<close>

locale db_evolution = evolution R
  for R :: "auth_db \<Rightarrow> auth_db \<Rightarrow> bool" +
  fixes E :: auth_env
  assumes elsewhere: "ud_sessions db' = ud_sessions db \<Longrightarrow> ad_reset_tokens db' = ad_reset_tokens db \<Longrightarrow> R db db'"
    and session: "session_step (av_sessions E) (ud_sessions db) t \<Longrightarrow> R db (db\<lparr>ud_sessions := t\<rparr>)"
begin

lemma keeps_elsewhere:
  "(\<And>db t. ud_sessions (put t db) = ud_sessions db \<and> ad_reset_tokens (put t db) = ad_reset_tokens db) \<Longrightarrow> op_keeps R (zoomE get put m)"
  by (rule keeps_zoom [of "\<lambda>_ _. True"]) (simp_all add: keeps_any elsewhere)

lemma keeps_on_sessions:
  "(\<And>t. session_step (av_sessions E) t (snd (m t))) \<Longrightarrow> op_keeps R (on_sessions m)"
  unfolding on_sessions_def by (rule keeps_zoom [of "session_step (av_sessions E)"]) (simp_all add: op_keeps_def session)

lemma keeps_revoke_ignored [keeps]:
  "op_keeps R k \<Longrightarrow> op_keeps R (revoke_ignored (Some (session_RevokeAllForUser (av_sessions E))) now uid reason k)"
  unfolding revoke_ignored_def option.case
  using keeps_on_sessions [of "session_RevokeAllForUser (av_sessions E) now uid reason"]
  by (intro keeps_ignore) (simp_all add: on_sessions_def step_RevokeAll)

lemma keeps_user_repo [keeps]:
  "op_keeps R (user_repo_Create G ctx u)" "op_keeps R (user_repo_Update G ctx u)" "op_keeps R (user_repo_Delete G uid)"
  "op_keeps R (user_repo_ReplaceRoles G u rs)" "op_keeps R (user_repo_IncrementTokenVersion G ctx uid)"
  unfolding user_repo_Create_def user_repo_Update_def user_repo_Delete_def user_repo_ReplaceRoles_def
    user_repo_IncrementTokenVersion_def
  by (intro keeps keeps_elsewhere; simp add: put_users_def)+

lemma keeps_role_repo [keeps]:
  "op_keeps R (role_repo_Create G' ctx r)" "op_keeps R (role_repo_Update G' ctx r)" "op_keeps R (role_repo_Delete G' rid)"
  "op_keeps R (role_repo_ReplacePermissions G' r ps)"
  unfolding role_repo_Create_def role_repo_Update_def role_repo_Delete_def role_repo_ReplacePermissions_def
  by (intro keeps keeps_elsewhere; simp add: put_roles_def)+

lemma keeps_with_user [keeps]: "(\<And>u. op_keeps R (k u)) \<Longrightarrow> op_keeps R (with_user G uid k)"
  unfolding with_user_def by (intro keeps)

lemma keeps_user_service [keeps]:
  "op_keeps R (user_Update G (Some (session_RevokeAllForUser (av_sessions E))) now ctx uid req)" "op_keeps R (user_Delete G (Some (session_RevokeAllForUser (av_sessions E))) now uid)"
  "op_keeps R (user_Activate G ctx uid)" "op_keeps R (user_Deactivate G (Some (session_RevokeAllForUser (av_sessions E))) now ctx uid caller)"
  "op_keeps R (user_ForceLogout G (Some (session_RevokeAllForUser (av_sessions E))) now ctx uid)" "op_keeps R (user_AssignRoles G (Some (session_RevokeAllForUser (av_sessions E))) now ctx uid names)"
  unfolding user_Update_def user_Delete_def user_Activate_def user_Deactivate_def user_ForceLogout_def user_AssignRoles_def
  by (intro keeps)+

lemma keeps_role_service [keeps]:
  "op_keeps R (role_Create G' ctx rq)" "op_keeps R (role_Update G' ctx rid rq)" "op_keeps R (role_Delete G' rid)"
  "op_keeps R (role_AssignPermissions G' rid names)"
  unfolding role_Create_def role_Update_def role_Delete_def role_AssignPermissions_def
  by (intro keeps)+

lemma keeps_user_endpoints [keeps]:
  "op_keeps R (user_me G now c)" "op_keeps R (user_list G like bindf bindp now c)" "op_keeps R (user_get G now c)"
  "op_keeps R (user_update G (Some (session_RevokeAllForUser (av_sessions E))) bindu clk c)" "op_keeps R (user_activate G now c)" "op_keeps R (user_deactivate G (Some (session_RevokeAllForUser (av_sessions E))) clk c)"
  "op_keeps R (user_forceLogout G (Some (session_RevokeAllForUser (av_sessions E))) clk c)" "op_keeps R (user_assignRoles G (Some (session_RevokeAllForUser (av_sessions E))) bindr clk c)" "op_keeps R (user_delete G (Some (session_RevokeAllForUser (av_sessions E))) clk c)"
  unfolding user_me_def user_list_def user_get_def user_update_def user_activate_def user_deactivate_def
    user_forceLogout_def user_assignRoles_def user_delete_def
  by (intro keeps)+

lemma keeps_role_endpoints [keeps]:
  "op_keeps R (role_list G' collate like bindf bindp now c)" "op_keeps R (role_get G' now c)" "op_keeps R (role_create G' bindr now c)"
  "op_keeps R (role_update G' bindr now c)" "op_keeps R (role_assignPermissions G' binda now c)" "op_keeps R (role_delete G' now c)"
  unfolding role_list_def role_get_def role_create_def role_update_def role_assignPermissions_def role_delete_def
  by (intro keeps)+

lemma keeps_user_Register: "handler_keeps R (user_Register G (Some (session_RevokeAllForUser (av_sessions E))) like b clk route)"
  unfolding user_Register_def by (cases route) (simp_all add: keeps)

lemma keeps_role_Register: "handler_keeps R (role_Register G' collate like bindf bindp bind binda clk route)"
  unfolding role_Register_def by (cases route) (simp_all add: keeps)

lemma keeps_issueTokens [keeps]: "op_keeps R (issueTokens E clk u imp dev ua ip)"
  unfolding issueTokens_def by (intro keeps keeps_on_sessions step_Create)

lemma keeps_auth_sessions [keeps]:
  "op_keeps R (auth_Login E clk lreq ua ip)" "op_keeps R (auth_Logout E now sid)" "op_keeps R (auth_LogoutAll E now uid)"
  "op_keeps R (auth_RevokeMySession E now uid sid)" "op_keeps R (auth_Impersonate E clk caller target ua ip)"
  unfolding auth_Login_def auth_Logout_def auth_LogoutAll_def auth_RevokeMySession_def auth_Impersonate_def
  by (intro keeps keeps_on_sessions step_Revoke step_RevokeAll)+

lemma keeps_before:
  assumes "op_keeps R m" "\<And>db. ud_sessions (f db) = ud_sessions db \<and> ad_reset_tokens (f db) = ad_reset_tokens db"
  shows "op_keeps R (\<lambda>db. m (f db))"
  unfolding op_keeps_def
proof
  fix db
  have "R db (f db)" by (rule elsewhere) (simp_all add: assms(2))
  then show "R db (snd (m (f db)))" by (rule trans) (rule op_keepsD [OF assms(1)])
qed

lemma keeps_auth_Register [keeps]: "op_keeps R (auth_Register E salt clk ctx req ua ip)"
proof -
  have "op_keeps R (\<lambda>db. issueTokens E clk' u 0 dev ua ip (post ev db))" for clk' u dev ev
    by (rule keeps_before [OF keeps_issueTokens]) (simp add: post_def)
  then show ?thesis unfolding auth_Register_def by (intro keeps_bind keeps_read keeps_if keeps_let keeps_option keeps_user_repo keeps_throw)
qed

lemma keeps_touch: "op_keeps R (\<lambda>db. (r, db\<lparr>ud_sessions := session_Touch (av_sessions E) now sid (ud_sessions db)\<rparr>))"
  by (simp add: op_keeps_def session step_Touch)

lemma keeps_auth_Refresh [keeps]: "op_keeps R (auth_Refresh E clk tok)"
  unfolding auth_Refresh_def
  by (intro keeps_sum_at keeps_if_at keeps keeps_touch)

end

text \<open>The endpoints of the authentication module, once the two operations on reset tokens keep the relation.\<close>

locale auth_evolution = db_evolution R E for R :: "auth_db \<Rightarrow> auth_db \<Rightarrow> bool" and E :: auth_env +
  fixes draws :: "go_error + string \<Rightarrow> bool"
  assumes forgot: "draws rnd \<Longrightarrow> op_keeps R (auth_ForgotPassword E rnd clk email)"
    and reset: "op_keeps R (auth_ResetPassword E salt clk ctx req)"
begin

lemma keeps_auth_endpoints [keeps]:
  "op_keeps R (h_register E b salt clk c)" "op_keeps R (h_login E b clk c)" "op_keeps R (h_refresh E b clk c)"
  "op_keeps R (h_resetPassword E b salt clk c)" "op_keeps R (h_logout E clk c)" "op_keeps R (h_logoutAll E clk c)"
  "op_keeps R (h_mySessions E clk c)" "op_keeps R (h_revokeSession E clk c)" "op_keeps R (h_impersonate E clk c)"
  unfolding h_register_def h_login_def h_refresh_def h_resetPassword_def h_logout_def h_logoutAll_def h_mySessions_def
    h_revokeSession_def h_impersonate_def
  by (intro keeps reset)+

lemma keeps_auth_routes: "draws rnd \<Longrightarrow> handler_keeps R (auth_routes E b salt rnd clk route)"
proof -
  assume "draws rnd"
  then have f: "op_keeps R (h_forgotPassword E b rnd clk' c)" for clk' c
    unfolding h_forgotPassword_def by (intro keeps forgot)
  show ?thesis unfolding auth_routes_def Let_def by (cases route) (simp_all add: keeps f)
qed

end

section \<open>What a component's table goes through\<close>

text \<open>The sessions by steps of the session service, the reset tokens by steps of their life.\<close>

definition sessions_evolve :: "auth_env \<Rightarrow> auth_db \<Rightarrow> auth_db \<Rightarrow> bool" where
  "sessions_evolve E db db' = session_steps (av_sessions E) (ud_sessions db) (ud_sessions db')"

definition accounts_evolve :: "auth_env \<Rightarrow> string set \<Rightarrow> auth_db \<Rightarrow> auth_db \<Rightarrow> bool" where
  "accounts_evolve E H db db' = (sessions_evolve E db db' \<and> reset_steps E H db db')"

lemma session_steps_refl [simp]: "session_steps G t t"
  by (simp add: session_steps_def)

lemma session_steps_step: "session_step G t t' \<Longrightarrow> session_steps G t t'"
  unfolding session_steps_def by blast

lemma session_steps_trans: "session_steps G t u \<Longrightarrow> session_steps G u v \<Longrightarrow> session_steps G t v"
  unfolding session_steps_def by (rule rtranclp_trans)

lemma reset_steps_step: "reset_step E H db db' \<Longrightarrow> reset_steps E H db db'"
  unfolding reset_steps_def by blast

lemma reset_steps_trans: "reset_steps E H s t \<Longrightarrow> reset_steps E H t u \<Longrightarrow> reset_steps E H s u"
  unfolding reset_steps_def by (rule rtranclp_trans)

interpretation ses: db_evolution "sessions_evolve E" E for E
  by unfold_locales (auto simp: sessions_evolve_def intro: session_steps_trans session_steps_step)

lemma forgot_sessions: "op_keeps (sessions_evolve E) (auth_ForgotPassword E rnd clk email)"
  unfolding op_keeps_def sessions_evolve_def
proof
  fix db :: auth_db
  have "ud_sessions (snd (auth_ForgotPassword E rnd clk email db)) = ud_sessions db"
    by (subst Forgot_answer(2)) simp
  then show "session_steps (av_sessions E) (ud_sessions db) (ud_sessions (snd (auth_ForgotPassword E rnd clk email db)))" by simp
qed

lemma reset_sessions: "op_keeps (sessions_evolve E) (auth_ResetPassword E salt clk ctx req)"
proof -
  have tokens: "op_keeps (sessions_evolve E) (on_tokens m)" for m :: "(PasswordResetToken table, go_error, 'a) op"
    unfolding on_tokens_def by (rule keeps_zoom [of "\<lambda>_ _. True"]) (simp_all add: keeps_any sessions_evolve_def)
  have err: "op_keeps (sessions_evolve E) (\<lambda>db. case e of ErrRecordNotFound \<Rightarrow> (r, db) | DbFailure m \<Rightarrow> (r' m, db))"
    for e and r :: "go_error + unit" and r'
    by (cases e) (simp_all add: ses.keeps_leave)
  have all: "session_step (av_sessions E) t (snd (session_RevokeAllForUser (av_sessions E) now uid reason t))" for t now uid reason
    by (rule step_RevokeAll)
  show ?thesis unfolding auth_ResetPassword_def
    by (intro keeps_sum_at keeps_if_at keeps err tokens ses.keeps_on_sessions all)
qed

text \<open>Everything that leaves the reset tokens alone is a step of their life.\<close>

interpretation accounts: auth_evolution "accounts_evolve E H" E "drawn_in H" for E H
proof
  fix db t u :: auth_db
  note other = reset_steps_step [OF step_Other]
  show "accounts_evolve E H db db" by (simp add: accounts_evolve_def sessions_evolve_def reset_steps_def)
  show "accounts_evolve E H db u" if "accounts_evolve E H db t" "accounts_evolve E H t u"
    using that by (auto simp: accounts_evolve_def intro: ses.trans reset_steps_trans)
  show "accounts_evolve E H db t" if "ud_sessions t = ud_sessions db" "ad_reset_tokens t = ad_reset_tokens db"
    using that by (simp add: accounts_evolve_def ses.elsewhere other)
  show "accounts_evolve E H db (db\<lparr>ud_sessions := x\<rparr>)" if "session_step (av_sessions E) (ud_sessions db) x" for x
    using that by (simp add: accounts_evolve_def ses.session other)
  show "op_keeps (accounts_evolve E H) (auth_ForgotPassword E rnd clk email)" if "drawn_in H rnd" for rnd clk email
    using that op_keepsD [OF forgot_sessions] by (simp add: op_keeps_def accounts_evolve_def reset_steps_step step_Forgot)
  show "op_keeps (accounts_evolve E H) (auth_ResetPassword E salt clk ctx req)" for salt clk ctx req
    using op_keepsD [OF reset_sessions] by (simp add: op_keeps_def accounts_evolve_def reset_steps_step step_Reset)
qed

section \<open>One request\<close>

text \<open>
  The audit trail only ever receives entries, in the order of the queue; as long as no entry waiting
  in the queue has a key, none written has.
\<close>

definition trail_grows :: "Log gorm \<Rightarrow> Log table \<Rightarrow> Log table \<Rightarrow> bool" where
  "trail_grows G = (\<lambda>t t'. \<exists>e. al_ID e = 0 \<and> t' = snd (db_Create G e t))\<^sup>*\<^sup>*"

definition unkeyed :: "audit_service \<Rightarrow> bool" where
  "unkeyed a = list_all (\<lambda>e. al_ID e = 0) (as_ch a)"

definition trail_evolves :: "Log gorm \<Rightarrow> audit_service \<Rightarrow> audit_service \<Rightarrow> bool" where
  "trail_evolves G a a' = (unkeyed a \<longrightarrow> unkeyed a' \<and> trail_grows G (as_table a) (as_table a'))"

text \<open>
  What the whole state goes through: \<open>H\<close> holds the hashes of the reset tokens drawn, \<open>T\<close> bounds
  the readings of the clean-up of recorded responses.
\<close>

definition app_evolves :: "'f server_env \<Rightarrow> string set \<Rightarrow> time \<Rightarrow> 'f app_state \<Rightarrow> 'f app_state \<Rightarrow> bool" where
  "app_evolves N H T w w' =
     (accounts_evolve (se_auth N) H (ap_db w) (ap_db w') \<and> idem_steps (se_idem N) T (ap_idem w) (ap_idem w')
      \<and> trail_evolves (se_audit N) (ap_audit w) (ap_audit w'))"

lemma idem_steps_refl [simp]: "idem_steps G T t t"
  by (simp add: idem_steps_def)

lemma idem_steps_step: "idem_step G T t t' \<Longrightarrow> idem_steps G T t t'"
  unfolding idem_steps_def by blast

lemma trail_grows_refl [simp]: "trail_grows G t t"
  by (simp add: trail_grows_def)

lemma trail_grows_Create: "al_ID e = 0 \<Longrightarrow> trail_grows G t (snd (db_Create G e t))"
  unfolding trail_grows_def by blast

lemma trail_evolves_refl [simp]: "trail_evolves G a a"
  by (simp add: trail_evolves_def)

interpretation app: evolution "app_evolves N H T" for N H T
proof
  fix w w1 w2 :: "'a app_state"
  show "app_evolves N H T w w" by (simp add: app_evolves_def accounts.refl)
  show "app_evolves N H T w w2" if "app_evolves N H T w w1" "app_evolves N H T w1 w2"
    using that unfolding app_evolves_def idem_steps_def trail_evolves_def trail_grows_def
    by (blast intro: accounts.trans rtranclp_trans)
qed

interpretation tab: evolution "session_steps G" for G
  by unfold_locales (auto intro: session_steps_trans)

interpretation same: evolution "(=)"
  by unfold_locales simp_all

text \<open>The parts of the state, each mounted with its module.\<close>

lemma mount_accounts: "handler_keeps (accounts_evolve (se_auth N) H) h \<Longrightarrow> handler_keeps (app_evolves N H T) (mount_db emb h)"
  by (erule keeps_mount) (simp add: app_evolves_def)

lemma mount_elsewhere:
  "(\<And>w t. ap_db (put t w) = ap_db w \<and> ap_idem (put t w) = ap_idem w \<and> ap_audit (put t w) = ap_audit w)
     \<Longrightarrow> handler_keeps (app_evolves N H T) (mount get put emb h)"
  by (rule keeps_mount [of "\<lambda>_ _. True"]) (simp_all add: keeps_any app_evolves_def accounts.refl)

lemma sessions_Register_keeps: "handler_keeps (session_steps G) (session_Register G like bindf bindp clk route)"
proof -
  have r: "op_keeps (session_steps G) (session_Revoke G now sid reason)" for now sid reason
    by (simp add: op_keeps_def session_steps_step step_Revoke)
  have "op_keeps (session_steps G) (session_search G like bindf bindp clk c)" "op_keeps (session_steps G) (session_get G clk c)"
    "op_keeps (session_steps G) (session_revoke G clk c)" for clk c
    unfolding session_search_def session_get_def session_revoke_def by (intro tab.keeps_bind tab.keeps_read tab.keeps_return r)+
  then show ?thesis by (cases route) (simp_all add: tab.keeps_HasPermission keeps_Handler)
qed

lemma sessions_in_accounts:
  "session_steps (av_sessions E) (ud_sessions db) t \<Longrightarrow> accounts_evolve E H db (db\<lparr>ud_sessions := t\<rparr>)"
  by (simp add: accounts_evolve_def sessions_evolve_def reset_steps_step step_Other)

lemma mount_sessions:
  "handler_keeps (app_evolves N H T)
     (mount (ud_sessions \<circ> ap_db) (\<lambda>t w. w\<lparr>ap_db := (ap_db w)\<lparr>ud_sessions := t\<rparr>\<rparr>) DSession
        (session_Register (av_sessions (se_auth N)) like bindf bindp clk route))"
  by (rule keeps_mount [OF sessions_Register_keeps]) (simp add: app_evolves_def sessions_in_accounts)

lemma mount_permissions:
  "handler_keeps (app_evolves N H T) (mount (rd_permissions \<circ> ap_db) (\<lambda>t w. w\<lparr>ap_db := (ap_db w)\<lparr>rd_permissions := t\<rparr>\<rparr>) DPermission h)"
  by (rule keeps_mount [of "\<lambda>_ _. True"]) (simp_all add: keeps_any app_evolves_def accounts.elsewhere)

lemma audit_Register_keeps: "audit_Register cfg G like bindf bindp clk = Some h \<Longrightarrow> handler_keeps (=) h"
proof -
  have "op_keeps (=) (audit_search G like bindf bindp now c)" for now c
    unfolding audit_search_def by (intro same.keeps_bind same.keeps_read same.keeps_return)
  then show "audit_Register cfg G like bindf bindp clk = Some h \<Longrightarrow> handler_keeps (=) h"
    by (auto simp: audit_Register_def same.keeps_HasPermission keeps_Handler split: if_split_asm)
qed

lemma store_keeps:
  "ir_ID r = 0 \<Longrightarrow> app_evolves N H T w (snd (st_Save (app_idem_store N) r w))"
proof -
  assume "ir_ID r = 0"
  then have "idem_steps (se_idem N) T (ap_idem w) (snd (gormStore_Save (se_idem N) r (ap_idem w)))"
    by (intro idem_steps_step step_Save)
  then show ?thesis
    by (cases "gormStore_Save (se_idem N) r (ap_idem w)")
       (simp add: app_idem_store_def Let_def zoomE_def app_evolves_def accounts.refl)
qed

lemma touch_keeps: "app_evolves N H T w (sv_Touch (app_sessions N) now sid w)"
  by (simp add: app_sessions_def Let_def db_sv_def app_evolves_def accounts.session step_Touch)

lemma sink_keeps: "al_ID e = 0 \<Longrightarrow> app_evolves N H T w (snd (app_audit_sink e w))"
  by (auto simp: app_audit_sink_def audit_Record_def app_evolves_def accounts.refl trail_evolves_def unkeyed_def)

lemma route_keeps:
  assumes "drawn_in H (dr_random d)"
  shows "handler_keeps (app_evolves N H T) (route_handler N d clk route)"
proof (cases route)
  case (RFile r)
  then show ?thesis by (simp add: route_handler_def mount_elsewhere)
next
  case (RAuth r)
  then show ?thesis by (simp add: route_handler_def mount_accounts accounts.keeps_auth_routes assms)
next
  case (RProduct r)
  then show ?thesis
    unfolding route_handler_def Let_def
    by (simp, intro app.keeps_RequireAuth app.keeps_idem mount_elsewhere store_keeps) (auto split: prod.split)
next
  case (RUser r)
  then show ?thesis by (simp add: route_handler_def Let_def app.keeps_RequireAuth mount_accounts accounts.keeps_user_Register)
next
  case (RRole r)
  then show ?thesis by (simp add: route_handler_def Let_def app.keeps_RequireAuth mount_accounts accounts.keeps_role_Register)
next
  case (RPermission r)
  then show ?thesis by (simp add: route_handler_def Let_def app.keeps_RequireAuth mount_permissions del: comp_apply)
next
  case (RSession r)
  then show ?thesis by (simp add: route_handler_def Let_def app.keeps_RequireAuth mount_sessions del: comp_apply)
next
  case RAudit
  have "handler_keeps (app_evolves N H T) (\<lambda>s. s)" by (simp add: handler_keeps_def app.refl)
  moreover have "handler_keeps (app_evolves N H T) (mount ap_audit (\<lambda>a w. w\<lparr>ap_audit := a\<rparr>) DAudit h)"
    if "handler_keeps (=) h" for h
    using that by (rule keeps_mount) (simp add: app.refl)
  ultimately show ?thesis using audit_Register_keeps
    by (auto simp: RAudit route_handler_def Let_def split: option.split intro!: app.keeps_RequireAuth)
qed

lemma dispatch_keeps:
  assumes "dispatch N d clk ((svc, w), c) = (p, (svc', w'), c')" "drawn_in H (dr_random d)"
  shows "app_evolves N H T w w'"
proof (cases "find_route (routes (cfg_Audit (se_cfg N))) (c_Method c) (c_Path c)")
  case None
  then show ?thesis using assms(1) by (simp add: dispatch_def app.refl)
next
  case (Some rp)
  obtain route params where rp: "rp = (route, params)" by (cases rp)
  let ?jwt = "JWTAuth (av_lib (se_auth N)) (av_jwt (se_auth N)) (Some (app_sessions N)) (later 10 clk) (route_handler N d (later 20 clk) route)"
  let ?audit = "audit_Middleware (se_wire N) (se_ReadAll N) (se_json N) app_audit_sink (cfg_Audit (se_cfg N)) (later 3 clk) (\<lambda>s. (None, ?jwt s))"
  let ?f = "\<lambda>((svc, w), c). let (p, w, c) = ?audit (w, c) in (p, (svc, w), c)"
  let ?c = "c\<lparr>c_Param := params\<rparr>"
  have "handler_keeps (app_evolves N H T) ?jwt"
    by (intro app.keeps_JWTAuth route_keeps assms(2) touch_keeps)
  then have "app_evolves N H T w (fst (snd (?audit (w, c1))))" for c1
    by (rule app.keeps_audit) (rule sink_keeps)
  moreover have "w' = fst (snd (?audit (w, c1)))" if "?f ((svc1, w), c1) = (p, (svc', w'), c')" for svc1 c1
    using that by (simp split: prod.split_asm)
  moreover have "(\<exists>c1. same_request ?c c1 \<and> ?f ((charged (dr_others d) clk (rate_identity ?c) (c_Path ?c) svc, w), c1) = (p, (svc', w'), c'))
       \<or> svc' = charged (dr_others d) clk (rate_identity ?c) (c_Path ?c) svc \<and> w' = w"
    by (rule rate_unwinding) (use assms(1) Some rp in \<open>simp add: dispatch_def api_chain_def\<close>)
  ultimately show ?thesis using app.refl by metis
qed

lemma serve_keeps:
  assumes "cors_library cors_New" "serve cors_New N d ((logs, svc, w), c) = ((logs', svc', w'), c')" "c_Keys c = Map.empty"
    and "drawn_in H (dr_random d)"
  shows "app_evolves N H T w w'"
  using assms(1-3) by (rule cors_library.serve_cases) (auto simp: app.refl intro: dispatch_keeps [OF _ assms(4)])

section \<open>The running server\<close>

text \<open>
  One step: a request, one of the clean-up jobs of the scheduler, a turn of the audit worker, the
  closing of its channel at shutdown, or the welcome mail of a registration.  A request arrives without keys; the hashes of the reset tokens it
  draws are in \<open>H\<close>, and the clean-up of recorded responses reads times up to \<open>T\<close>.
\<close>

inductive server_step ::
  "(cors_config \<Rightarrow> (RateService \<times> string option \<times> 'f app_state, server_data) handler
                 \<Rightarrow> (RateService \<times> string option \<times> 'f app_state, server_data) handler)
     \<Rightarrow> 'f server_env \<Rightarrow> string set \<Rightarrow> time \<Rightarrow> 'f server_state \<Rightarrow> 'f server_state \<Rightarrow> bool" for cors_New N H T where
  step_request: "c_Keys c = Map.empty \<Longrightarrow> drawn_in H (dr_random d) \<Longrightarrow> serve cors_New N d ((logs, svc, w), c) = (s', c') \<Longrightarrow>
    server_step cors_New N H T (logs, svc, w) s'"
| step_session_job: "server_step cors_New N H T (logs, svc, w) (logs, svc,
    w\<lparr>ap_db := snd (on_sessions (session_cleanup_job (av_sessions (se_auth N)) (cfg_Sessions (se_cfg N)) now) (ap_db w))\<rparr>)"
| step_idempotency_job: "now \<le> T \<Longrightarrow> server_step cors_New N H T (logs, svc, w)
    (logs, svc, snd (idempotency_cleanup_job (app_idem_store N) now w))"
| step_reset_job: "server_step cors_New N H T (logs, svc, w) (logs, svc,
    w\<lparr>ap_db := snd (password_reset_cleanup_job (se_auth N) now (ap_db w))\<rparr>)"
| step_audit_worker: "audit_worker (se_audit N) (ap_audit w) = Some a \<Longrightarrow>
    server_step cors_New N H T (logs, svc, w) (logs, svc, w\<lparr>ap_audit := a\<rparr>)"
| step_audit_close: "server_step cors_New N H T (logs, svc, w) (logs, svc, w\<lparr>ap_audit := snd (audit_close (ap_audit w))\<rparr>)"
| step_welcome: "server_step cors_New N H T (logs, svc, w) (logs, svc, w\<lparr>ap_db := sendWelcome (se_auth N) u (ap_db w)\<rparr>)"

inductive_cases server_stepE: "server_step cors_New N H T s s'"

inductive server_run ::
  "(cors_config \<Rightarrow> (RateService \<times> string option \<times> 'f app_state, server_data) handler
                 \<Rightarrow> (RateService \<times> string option \<times> 'f app_state, server_data) handler)
     \<Rightarrow> 'f server_env \<Rightarrow> string set \<Rightarrow> time \<Rightarrow> 'f server_state \<Rightarrow> 'f server_state \<Rightarrow> bool" for cors_New N H T where
  run_start: "server_run cors_New N H T s s"
| run_step: "server_run cors_New N H T s s1 \<Longrightarrow> server_step cors_New N H T s1 s2 \<Longrightarrow> server_run cors_New N H T s s2"

lemma cleanup_run_state: "snd (cleanup_run m s) = snd (m s)"
  by (simp add: cleanup_run_def bindE_def split: prod.split sum.split)

lemma session_job_keeps:
  "app_evolves N H T w (w\<lparr>ap_db := snd (on_sessions (session_cleanup_job (av_sessions (se_auth N)) cfg now) (ap_db w))\<rparr>)"
proof -
  have "session_step (av_sessions (se_auth N)) t (snd (session_cleanup_job (av_sessions (se_auth N)) cfg now t))" for t
    unfolding session_cleanup_job_def cleanup_run_state by (rule Session.step_Cleanup)
  from op_keepsD [OF accounts.keeps_on_sessions [OF this]] show ?thesis by (simp add: app_evolves_def)
qed

lemma idempotency_job_keeps:
  "now \<le> T \<Longrightarrow> app_evolves N H T w (snd (idempotency_cleanup_job (app_idem_store N) now w))"
proof -
  assume "now \<le> T"
  then have "idem_steps (se_idem N) T (ap_idem w) (snd (gormStore_DeleteExpired (se_idem N) now (ap_idem w)))"
    by (intro idem_steps_step step_Clean)
  then show ?thesis
    by (cases "gormStore_DeleteExpired (se_idem N) now (ap_idem w)")
       (simp add: idempotency_cleanup_job_def cleanup_run_state app_idem_store_def Let_def zoomE_def app_evolves_def accounts.refl)
qed

lemma reset_job_keeps:
  "app_evolves N H T w (w\<lparr>ap_db := snd (password_reset_cleanup_job (se_auth N) now (ap_db w))\<rparr>)"
proof -
  let ?db = "snd (auth_CleanupExpiredResetTokens (se_auth N) now (ap_db w))"
  have "ud_sessions ?db = ud_sessions (ap_db w)"
    by (simp add: auth_CleanupExpiredResetTokens_def on_tokens_def zoomE_def split: prod.split)
  then show ?thesis
    by (simp add: password_reset_cleanup_job_def cleanup_run_state app_evolves_def accounts_evolve_def sessions_evolve_def
        reset_steps_step PasswordReset.step_Cleanup)
qed

lemma audit_worker_keeps:
  assumes "audit_worker (se_audit N) (ap_audit w) = Some a"
  shows "app_evolves N H T w (w\<lparr>ap_audit := a\<rparr>)"
proof -
  have "trail_evolves (se_audit N) (ap_audit w) a"
  proof (cases "as_ch (ap_audit w)")
    case Nil
    then show ?thesis using assms by (auto simp: audit_worker_def trail_evolves_def unkeyed_def split: if_split_asm)
  next
    case (Cons e es)
    obtain res t where c: "db_Create (se_audit N) e (as_table (ap_audit w)) = (res, t)" by fastforce
    have "as_ch a = es \<and> as_table a = t"
      using assms Cons c by (auto simp: audit_worker_def split: if_split_asm sum.split_asm)
    moreover have "t = snd (db_Create (se_audit N) e (as_table (ap_audit w)))" using c by simp
    ultimately show ?thesis using Cons by (simp add: trail_evolves_def unkeyed_def trail_grows_Create)
  qed
  then show ?thesis by (simp add: app_evolves_def accounts.refl)
qed

lemma audit_close_keeps: "app_evolves N H T w (w\<lparr>ap_audit := snd (audit_close (ap_audit w))\<rparr>)"
  by (simp add: app_evolves_def accounts.refl audit_close_def trail_evolves_def unkeyed_def)

lemma welcome_keeps: "app_evolves N H T w (w\<lparr>ap_db := sendWelcome (se_auth N) u (ap_db w)\<rparr>)"
  by (simp add: app_evolves_def sendWelcome_def post_def Let_def accounts.elsewhere accounts.refl)

lemma step_evolves:
  assumes "cors_library cors_New" "server_step cors_New N H T (logs, svc, w) (logs', svc', w')"
  shows "app_evolves N H T w w'"
  using assms(2)
  by cases (auto intro: serve_keeps [OF assms(1)] session_job_keeps idempotency_job_keeps reset_job_keeps audit_worker_keeps audit_close_keeps welcome_keeps)

lemma run_evolves:
  assumes "cors_library cors_New" "server_run cors_New N H T s s'"
  shows "app_evolves N H T (snd (snd s)) (snd (snd s'))"
  using assms(2)
proof induction
  case (run_step s s1 s2)
  then show ?case using step_evolves [OF assms(1), of N H T "fst s1" "fst (snd s1)" "snd (snd s1)" "fst s2" "fst (snd s2)" "snd (snd s2)"]
    by (auto intro: app.trans)
qed (rule app.refl)

lemmas run_evolvesD = run_evolves [of _ _ _ _ "(_, _, _)" "(_, _, _)", unfolded snd_conv]

section \<open>A request with the token of a dead session\<close>

text \<open>A bearer or refresh token that belongs to a session: whenever it parses, its claims name it.\<close>

definition token_of :: "auth_env \<Rightarrow> uint64 \<Rightarrow> string \<Rightarrow> bool" where
  "token_of E sid raw = (raw \<noteq> '''' \<and> (\<forall>now cl. jwt_Parse (av_lib E) (av_jwt E) now raw = Inr cl \<longrightarrow> cl_SessionID cl = sid))"

definition only_audited :: "'f app_state \<Rightarrow> 'f app_state \<Rightarrow> bool" where
  "only_audited w w' = (\<exists>a. w' = w\<lparr>ap_audit := a\<rparr>)"

interpretation audited: evolution only_audited
proof
  fix w w1 w2 :: "'a app_state"
  show "only_audited w w" unfolding only_audited_def by (intro exI [of _ "ap_audit w"]) simp
  show "only_audited w w2" if "only_audited w w1" "only_audited w1 w2" using that by (auto simp: only_audited_def)
qed

lemma sink_audited: "only_audited w (snd (app_audit_sink e w))"
  by (simp add: only_audited_def app_audit_sink_def split: prod.split) blast

lemma never_validates:
  assumes "session_store G" "session_dead now sid t" "now \<le> now'"
  shows "\<exists>e. session_Validate G now' sid uid t = Inl e"
  using session_store.Validate_sound [OF assms(1), of now' sid uid t] session_store.dead_not_active [OF assms(1,2,3)]
  by (cases "session_Validate G now' sid uid t") auto

text \<open>The middleware answers such a request itself.\<close>

lemma dead_denied:
  assumes "session_store (av_sessions (se_auth N))" "\<And>now. session_dead now sid (ud_sessions (ap_db w))" "sid \<noteq> 0"
    and "token_of (se_auth N) sid (extractBearer (c_Header c ''Authorization''))"
  shows "fst (JWTAuth (av_lib (se_auth N)) (av_jwt (se_auth N)) (Some (app_sessions N)) clk h (w, c)) = w"
proof -
  let ?raw = "extractBearer (c_Header c ''Authorization'')"
  have "\<exists>e. sv_Validate (app_sessions N) now sid uid w = Inl e" for now uid
    using never_validates [OF assms(1,2), of now now uid] by (auto simp: app_sessions_def Let_def db_sv_def)
  then have v: "sv_Validate (app_sessions N) now sid uid w \<noteq> Inr u" for now uid u by (metis Inl_Inr_False)
  show ?thesis using assms(3,4) v
    by (cases "jwt_Parse (av_lib (se_auth N)) (av_jwt (se_auth N)) (clk 0) ?raw")
       (auto simp: JWTAuth_def token_of_def Let_def split: sum.split)
qed

lemma audit_around:
  assumes "\<And>b. fst (h (w, c\<lparr>c_Body := b\<rparr>)) = w" "\<And>e w. only_audited w (snd (sink e w))"
  shows "only_audited w (fst (snd (audit_Middleware wire rd J sink cfg clk (\<lambda>s. (None, h s)) (w, c))))"
proof -
  have id: "c\<lparr>c_Body := c_Body c\<rparr> = c" by simp
  have h: "fst (h (w, c)) = w" using assms(1) [of "c_Body c"] unfolding id .
  have h1: "w1 = w" if "h (w, c) = (w1, c1)" for w1 c1 using h that by simp
  have h2: "w1 = w" if "h (w, c\<lparr>c_Body := b\<rparr>) = (w1, c1)" for b w1 c1 using assms(1) [of b] that by simp
  have s: "only_audited w w1" if "sink e w = (p, w1)" for e p w1 using assms(2) [where e = e and w = w] that by simp
  show ?thesis
    by (auto simp: audit_Middleware_def Let_def h assms(1) audited.refl split: prod.split option.split sum.split
        dest!: h1 h2 intro: s)
qed

text \<open>What the API chain leaves of a request its token middleware does not let through.\<close>

lemma api_audited:
  assumes "api_chain N d clk route ((svc, w), c) = (p, (svc', w'), c')"
    and "\<And>c1. c_Header c1 = c_Header c \<Longrightarrow>
      fst (JWTAuth (av_lib (se_auth N)) (av_jwt (se_auth N)) (Some (app_sessions N)) (later 10 clk)
             (route_handler N d (later 20 clk) route) (w, c1)) = w"
  shows "only_audited w w'"
proof -
  let ?jwt = "JWTAuth (av_lib (se_auth N)) (av_jwt (se_auth N)) (Some (app_sessions N)) (later 10 clk) (route_handler N d (later 20 clk) route)"
  let ?audit = "audit_Middleware (se_wire N) (se_ReadAll N) (se_json N) app_audit_sink (cfg_Audit (se_cfg N)) (later 3 clk) (\<lambda>s. (None, ?jwt s))"
  let ?f = "\<lambda>((svc, w), c). let (p, w, c) = ?audit (w, c) in (p, (svc, w), c)"
  have a: "only_audited w (fst (snd (?audit (w, c1))))" if "same_request c c1" for c1
    using same_request_fields [OF that] by (intro audit_around assms(2) sink_audited) simp
  have "w' = fst (snd (?audit (w, c1)))" if "?f ((svc1, w), c1) = (p, (svc', w'), c')" for svc1 c1
    using that by (simp split: prod.split_asm)
  moreover have "(\<exists>c1. same_request c c1 \<and> ?f ((charged (dr_others d) clk (rate_identity c) (c_Path c) svc, w), c1) = (p, (svc', w'), c'))
       \<or> svc' = charged (dr_others d) clk (rate_identity c) (c_Path c) svc \<and> w' = w"
    by (rule rate_unwinding) (use assms(1) in \<open>simp add: api_chain_def\<close>)
  ultimately show ?thesis using a audited.refl by metis
qed

lemma serve_dead:
  assumes "cors_library cors_New" "serve cors_New N d ((logs, svc, w), c) = ((logs', svc', w'), c')" "c_Keys c = Map.empty"
    and "session_store (av_sessions (se_auth N))" "\<And>now. session_dead now sid (ud_sessions (ap_db w))" "sid \<noteq> 0"
    and "token_of (se_auth N) sid (extractBearer (c_Header c ''Authorization''))"
  shows "only_audited w w'"
  using assms(1-3)
proof (rule cors_library.serve_cases)
  fix c1 p c2
  assume disp: "dispatch N d (later 3 (dr_clock d)) ((svc, w), c1) = (p, (svc', w'), c2)" and h: "c_Header c1 = c_Header c"
  show ?thesis
  proof (cases "find_route (routes (cfg_Audit (se_cfg N))) (c_Method c1) (c_Path c1)")
    case None
    then show ?thesis using disp by (simp add: dispatch_def audited.refl)
  next
    case (Some rp)
    obtain route params where rp: "rp = (route, params)" by (cases rp)
    have "api_chain N d (later 3 (dr_clock d)) route ((svc, w), c1\<lparr>c_Param := params\<rparr>) = (p, (svc', w'), c2)"
      using disp Some rp by (simp add: dispatch_def)
    then show ?thesis
      by (rule api_audited) (use assms(7) h in \<open>simp add: dead_denied [OF assms(4,5,6)]\<close>)
  qed
qed (simp add: audited.refl)

lemma refresh_dead:
  assumes "session_store (av_sessions E)" "\<And>now. session_dead now sid (ud_sessions db)" "sid \<noteq> 0" "token_of E sid raw"
  shows "\<exists>e. auth_Refresh E clk raw db = (Inl e, db)"
proof (cases "jwt_Parse (av_lib E) (av_jwt E) (clk 0) raw")
  case (Inr cl)
  then have "cl_SessionID cl = sid" using assms(4) by (simp add: token_of_def)
  moreover have "session_Validate (av_sessions E) (clk 1) sid (cl_UserID cl) (ud_sessions db) \<noteq> Inr ()"
    using never_validates [OF assms(1,2), of "clk 1" "clk 1" "cl_UserID cl"] by auto
  ultimately show ?thesis using Inr assms(3) by (simp add: auth_Refresh_def)
qed (simp add: auth_Refresh_def)

section \<open>Properties\<close>

text \<open>
  C2: a logout is final.  Once it has succeeded, and whatever the server does afterwards, in
  requests of anyone and in its background jobs, a request that bears a token of that session
  changes nothing but the audit trail on any route, and a refresh with such a token is refused.
\<close>

theorem server_logout_final:
  assumes "cors_library cors_New" "session_store (av_sessions (se_auth N))"
    and "auth_Logout (se_auth N) now sid (ap_db w) = (Inr (), db1)" "sid \<noteq> 0" "unat sid < next_id (ud_sessions (ap_db w))"
    and "server_run cors_New N H T (logs, svc, w\<lparr>ap_db := db1\<rparr>) (logs2, svc2, w2)"
    and "token_of (se_auth N) sid raw"
  shows "(\<forall>d c. c_Keys c = Map.empty \<longrightarrow> extractBearer (c_Header c ''Authorization'') = raw \<longrightarrow>
            (\<exists>logs3 svc3 a c3. serve cors_New N d ((logs2, svc2, w2), c) = ((logs3, svc3, w2\<lparr>ap_audit := a\<rparr>), c3)))
       \<and> (\<forall>clk. \<exists>e. auth_Refresh (se_auth N) clk raw (ap_db w2) = (Inl e, ap_db w2))"
proof -
  obtain t where t: "session_Revoke (av_sessions (se_auth N)) now sid ''user-logout'' (ud_sessions (ap_db w)) = (Inr (), t)"
    "ud_sessions db1 = t" using assms(3) by (auto simp: auth_Logout_def on_sessions_def zoomE_eq)
  have "session_steps (av_sessions (se_auth N)) t (ud_sessions (ap_db w2))"
    using run_evolves [OF assms(1,6)] t(2) by (simp add: app_evolves_def accounts_evolve_def sessions_evolve_def)
  then have dead: "session_dead now' sid (ud_sessions (ap_db w2))" for now'
    using session_store.Revoke_dead [OF assms(2) t(1) assms(5)] by (rule session_store.steps_dead [OF assms(2)])
  have "\<exists>logs3 svc3 a c3. serve cors_New N d ((logs2, svc2, w2), c) = ((logs3, svc3, w2\<lparr>ap_audit := a\<rparr>), c3)"
    if c: "c_Keys c = Map.empty" "extractBearer (c_Header c ''Authorization'') = raw" for d c
  proof -
    obtain logs3 svc3 w3 c3 where s: "serve cors_New N d ((logs2, svc2, w2), c) = ((logs3, svc3, w3), c3)"
      by (cases "serve cors_New N d ((logs2, svc2, w2), c)") auto
    have "only_audited w2 w3"
      using serve_dead [OF assms(1) s c(1) assms(2) dead assms(4)] c(2) assms(7) by simp
    then show ?thesis using s by (auto simp: only_audited_def)
  qed
  then show ?thesis using refresh_dead [OF assms(2) dead assms(4,7)] by blast
qed

text \<open>The example server: the tokens of its token library are the same at every time.\<close>

lemma demo_token_claims:
  "jwt_Parse plain_jwt demo_jwt now demo_access = Inr cl \<Longrightarrow> cl_SessionID cl = 1 \<and> cl_UserID cl = 7"
proof -
  have "cl = cl'" if "jwt_Parse plain_jwt demo_jwt now tok = Inr cl" "jwt_Parse plain_jwt demo_jwt now' tok = Inr cl'" for now now' tok cl cl'
    using that by (auto simp: jwt_Parse_def plain_jwt_def split: option.splits sum.splits prod.splits if_split_asm)
  then show "jwt_Parse plain_jwt demo_jwt now demo_access = Inr cl \<Longrightarrow> cl_SessionID cl = 1 \<and> cl_UserID cl = 7"
    using demo_access_claims by (fastforce simp: issue_claims_def)
qed

lemma demo_token: "token_of demo_env 1 demo_access"
  using demo_token_claims demo_access_shape by (auto simp: token_of_def demo_env_def)

theorem server_logout_final_witness:
  "\<forall>(N :: unit server_env) d logs (w :: unit app_state). \<exists>db1 logs3 svc3 a c3 e.
     auth_Logout demo_env 5 1 demo_auth_db = (Inr (), db1)
   \<and> (let w2 = w\<lparr>ap_db := snd (password_reset_cleanup_job demo_env 6 db1)\<rparr>
      in serve simple_cors (demo_server N) d ((logs, demo_limiter, w2), demo_logout) = ((logs3, svc3, w2\<lparr>ap_audit := a\<rparr>), c3)
       \<and> auth_Refresh demo_env (\<lambda>_. 7) demo_access (ap_db w2) = (Inl e, ap_db w2))"
proof (intro allI)
  fix N :: "unit server_env" and d logs and w :: "unit app_state"
  let ?N = "demo_server N" and ?w = "w\<lparr>ap_db := demo_auth_db\<rparr>"
  obtain db1 where l: "auth_Logout demo_env 5 1 demo_auth_db = (Inr (), db1)" using demo_Logout by blast
  let ?w2 = "w\<lparr>ap_db := snd (password_reset_cleanup_job demo_env 6 db1)\<rparr>"
  have run: "server_run simple_cors ?N {} 0 (logs, demo_limiter, ?w\<lparr>ap_db := db1\<rparr>) (logs, demo_limiter, ?w2)"
    using run_step [OF run_start step_reset_job, of simple_cors ?N "{}" 0 logs demo_limiter "?w\<lparr>ap_db := db1\<rparr>" 6] by simp
  have ss: "session_store (av_sessions (se_auth ?N))" using mem_sessions.session_store_axioms by simp
  have n: "unat (1 :: uint64) < next_id (ud_sessions (ap_db ?w))" by (simp add: demo_auth_db_def demo_sessions_def)
  have k: "c_Keys demo_logout = Map.empty" by (simp add: demo_logout_def demo_context_def)
  have "(\<forall>d c. c_Keys c = Map.empty \<longrightarrow> extractBearer (c_Header c ''Authorization'') = demo_access \<longrightarrow>
            (\<exists>logs3 svc3 a c3. serve simple_cors ?N d ((logs, demo_limiter, ?w2), c) = ((logs3, svc3, ?w2\<lparr>ap_audit := a\<rparr>), c3)))
       \<and> (\<forall>clk. \<exists>e. auth_Refresh (se_auth ?N) clk demo_access (ap_db ?w2) = (Inl e, ap_db ?w2))"
    by (rule server_logout_final [OF simple_cors.cors_library_axioms ss _ _ n run, of 5]) (simp_all add: l demo_token)
  then have "\<exists>logs3 svc3 a c3. serve simple_cors ?N d ((logs, demo_limiter, ?w2), demo_logout) = ((logs3, svc3, ?w2\<lparr>ap_audit := a\<rparr>), c3)"
    and "\<exists>e. auth_Refresh demo_env (\<lambda>_. 7) demo_access (ap_db ?w2) = (Inl e, ap_db ?w2)"
    using k demo_logout_bearer by (blast, simp)
  then show "\<exists>db1 logs3 svc3 a c3 e.
     auth_Logout demo_env 5 1 demo_auth_db = (Inr (), db1)
   \<and> (let w2 = w\<lparr>ap_db := snd (password_reset_cleanup_job demo_env 6 db1)\<rparr>
      in serve simple_cors (demo_server N) d ((logs, demo_limiter, w2), demo_logout) = ((logs3, svc3, w2\<lparr>ap_audit := a\<rparr>), c3)
       \<and> auth_Refresh demo_env (\<lambda>_. 7) demo_access (ap_db w2) = (Inl e, ap_db w2))"
    using l by (auto simp: Let_def)
qed

text \<open>
  C11: a password reset token works once in the life of the server.  After it has reset a password,
  and whatever requests and background jobs follow, using it again is refused and changes nothing,
  unless the server has drawn a token with the same hash since.
\<close>

theorem server_reset_token_single_use:
  assumes "cors_library cors_New" "auth_service (se_auth N)" "tokens_ok (ad_reset_tokens (ap_db w))"
    and "auth_ResetPassword (se_auth N) salt clk ctx req (ap_db w) = (Inr (), db1)"
    and "server_run cors_New N H T (logs, svc, w\<lparr>ap_db := db1\<rparr>) (logs2, svc2, w2)"
    and "hashToken (rp_Token req) \<notin> H" "rp_Token req' = rp_Token req"
  shows "\<exists>e. auth_ResetPassword (se_auth N) salt' clk' ctx' req' (ap_db w2) = (Inl e, ap_db w2)
             \<and> (e = BadRequest ''Token has already been used'' \<or> e = BadRequest ''Invalid or expired reset token''
                \<or> (\<exists>d. e = DbError d))"
proof -
  obtain "token_spent (hashToken (rp_Token req)) (ad_reset_tokens db1)"
    using assms(2-4) by (rule auth_service.Reset_effect)
  moreover have "reset_steps (se_auth N) H db1 (ap_db w2)"
    using run_evolves [OF assms(1,5)] by (simp add: app_evolves_def accounts_evolve_def)
  ultimately have "token_spent (hashToken (rp_Token req')) (ad_reset_tokens (ap_db w2))"
    using auth_service.steps_spent [OF assms(2) _ assms(6)] assms(7) by simp
  then show ?thesis by (rule auth_service.Reset_spent_fails [OF assms(2)])
qed

theorem server_reset_token_single_use_witness:
  "\<forall>(N :: unit server_env) logs svc (w :: unit app_state). \<exists>db1 db2 e.
     auth_ResetPassword demo_env 0 (\<lambda>_. 5) None \<lparr>rp_Token = ''tok'', rp_NewPassword = ''n3w-secret''\<rparr> demo_auth_db = (Inr (), db1)
   \<and> db2 = snd (password_reset_cleanup_job demo_env 6 db1)
   \<and> server_run simple_cors (demo_server N) {} 0 (logs, svc, w\<lparr>ap_db := db1\<rparr>) (logs, svc, w\<lparr>ap_db := db2\<rparr>)
   \<and> auth_ResetPassword demo_env 1 (\<lambda>_. 6) None \<lparr>rp_Token = ''tok'', rp_NewPassword = ''other''\<rparr> db2 = (Inl e, db2)"
proof (intro allI)
  fix N :: "unit server_env" and logs svc and w :: "unit app_state"
  let ?N = "demo_server N" and ?w = "w\<lparr>ap_db := demo_auth_db\<rparr>"
  obtain db1 where r: "auth_ResetPassword demo_env 0 (\<lambda>_. 5) None \<lparr>rp_Token = ''tok'', rp_NewPassword = ''n3w-secret''\<rparr> demo_auth_db = (Inr (), db1)"
    using demo_Reset by (metis eq_fst_iff)
  let ?db2 = "snd (password_reset_cleanup_job demo_env 6 db1)"
  have run: "server_run simple_cors ?N {} 0 (logs, svc, ?w\<lparr>ap_db := db1\<rparr>) (logs, svc, w\<lparr>ap_db := ?db2\<rparr>)"
    using run_step [OF run_start step_reset_job, of simple_cors ?N "{}" 0 logs svc "?w\<lparr>ap_db := db1\<rparr>" 6] by simp
  have r': "auth_ResetPassword (se_auth ?N) 0 (\<lambda>_. 5) None \<lparr>rp_Token = ''tok'', rp_NewPassword = ''n3w-secret''\<rparr> (ap_db ?w) = (Inr (), db1)"
    using r by simp
  from server_reset_token_single_use [OF simple_cors.cors_library_axioms _ _ r' run,
      where req' = "\<lparr>rp_Token = ''tok'', rp_NewPassword = ''other''\<rparr>" and salt' = 1 and clk' = "\<lambda>_. 6" and ctx' = None]
  have "\<exists>e. auth_ResetPassword demo_env 1 (\<lambda>_. 6) None \<lparr>rp_Token = ''tok'', rp_NewPassword = ''other''\<rparr> ?db2 = (Inl e, ?db2)"
    by (auto simp: demo_auth.auth_service_axioms demo_tokens_ok)
  then show "\<exists>db1 db2 e. auth_ResetPassword demo_env 0 (\<lambda>_. 5) None \<lparr>rp_Token = ''tok'', rp_NewPassword = ''n3w-secret''\<rparr> demo_auth_db = (Inr (), db1)
   \<and> db2 = snd (password_reset_cleanup_job demo_env 6 db1)
   \<and> server_run simple_cors ?N {} 0 (logs, svc, w\<lparr>ap_db := db1\<rparr>) (logs, svc, w\<lparr>ap_db := db2\<rparr>)
   \<and> auth_ResetPassword demo_env 1 (\<lambda>_. 6) None \<lparr>rp_Token = ''tok'', rp_NewPassword = ''other''\<rparr> db2 = (Inl e, db2)"
    using r run by auto
qed

text \<open>
  C22: the audit trail is append-only.  Whatever requests and background jobs the server runs, the
  entries written so far stay as they are and in their order; new ones are added behind them.
\<close>

theorem server_trail_append_only:
  assumes "cors_library cors_New" "audit_rows (se_audit N)" "unkeyed (ap_audit w)"
    and "server_run cors_New N H T (logs, svc, w) (logs2, svc2, w2)"
  shows "\<exists>es. rows (as_table (ap_audit w2)) = rows (as_table (ap_audit w)) @ es"
proof -
  have law: "gorm_table (se_audit N) al_ID (\<lambda>_. True) log_filled (=) (\<lambda>_. True)"
    using assms(2) by (simp add: audit_rows_def gorm_hard_def)
  have "trail_grows (se_audit N) (as_table (ap_audit w)) (as_table (ap_audit w2))"
    using run_evolves [OF assms(1,4)] assms(3) by (simp add: app_evolves_def trail_evolves_def)
  then show ?thesis unfolding trail_grows_def
  proof (induction rule: rtranclp_induct)
    case (step t t')
    then obtain e where e: "al_ID e = 0" "t' = snd (db_Create (se_audit N) e t)" by blast
    obtain res where c: "db_Create (se_audit N) e t = (res, t')" using e(2) by (metis prod.collapse)
    have "\<exists>es. rows t' = rows t @ es"
      using gorm_table.Create_ok [OF law, of e t _ t'] gorm_table.Create_failed [OF law, of e t _ t'] c e(1) by (cases res) auto
    then show ?case using step.IH by auto
  qed simp
qed

theorem server_trail_append_only_witness:
  "\<forall>(N :: unit server_env) logs svc (w :: unit app_state). \<exists>a es.
     audit_worker mem_logs \<lparr>as_ch = [demo_entry], as_closed = False, as_table = \<lparr>rows = [], next_id = 1\<rparr>, as_done = False, as_warnings = []\<rparr> = Some a
   \<and> server_run simple_cors (N\<lparr>se_audit := mem_logs\<rparr>) {} 0
       (logs, svc, w\<lparr>ap_audit := \<lparr>as_ch = [demo_entry], as_closed = False, as_table = \<lparr>rows = [], next_id = 1\<rparr>, as_done = False, as_warnings = []\<rparr>\<rparr>)
       (logs, svc, w\<lparr>ap_audit := a\<rparr>)
   \<and> rows (as_table a) = [] @ es"
proof (intro allI)
  fix N :: "unit server_env" and logs svc and w :: "unit app_state"
  let ?s = "\<lparr>as_ch = [demo_entry], as_closed = False, as_table = \<lparr>rows = [], next_id = 1\<rparr>, as_done = False, as_warnings = []\<rparr>"
  let ?N = "N\<lparr>se_audit := mem_logs\<rparr>" and ?w = "w\<lparr>ap_audit := ?s\<rparr>"
  obtain a where a: "audit_worker mem_logs ?s = Some a" by (cases "db_Create mem_logs demo_entry \<lparr>rows = [], next_id = 1\<rparr>"; cases "fst (db_Create mem_logs demo_entry \<lparr>rows = [], next_id = 1\<rparr>)")
       (simp_all add: audit_worker_def)
  have run: "server_run simple_cors ?N {} 0 (logs, svc, ?w) (logs, svc, w\<lparr>ap_audit := a\<rparr>)"
    using run_step [OF run_start step_audit_worker, of ?N ?w a simple_cors "{}" 0 logs svc] a by simp
  have "\<exists>es. rows (as_table (ap_audit (w\<lparr>ap_audit := a\<rparr>))) = rows (as_table (ap_audit ?w)) @ es"
    by (rule server_trail_append_only [OF simple_cors.cors_library_axioms _ _ run])
       (simp_all add: mem_logs.audit_rows_axioms unkeyed_def demo_entry_def audit_entry_def)
  then show "\<exists>a es. audit_worker mem_logs ?s = Some a
   \<and> server_run simple_cors ?N {} 0 (logs, svc, ?w) (logs, svc, w\<lparr>ap_audit := a\<rparr>) \<and> rows (as_table a) = [] @ es"
    using a run by auto
qed

text \<open>A product request under a recorded key is answered by the idempotency middleware or refused before it.\<close>

lemma stored_found:
  assumes "record_store_live (se_idem N)" "records_ok (ap_idem w)" "r \<in> set (rows (ap_idem w))" "ir_for k m p u r" "now < ir_ExpiresAt r"
  shows "st_Find (app_idem_store N) now k m p u w = Inr (Some r)"
proof -
  have rs: "record_store (se_idem N)" using assms(1) by (simp add: record_store_live_def)
  have f: "st_Find (app_idem_store N) now k m p u w = st_Find (NewStore (se_idem N)) now k m p u (ap_idem w, ())"
    by (simp add: app_idem_store_def NewStore_def Let_def)
  obtain x where x: "st_Find (NewStore (se_idem N)) now k m p u (ap_idem w, ()) = Inr x"
    using record_store_live.Find_answers [OF assms(1)] by blast
  have "x = Some r"
    by (rule idem_store.Find_stored [OF record_store.store_laws [OF rs] _ _ assms(4,5) x]) (use assms(2,3) in simp_all)
  then show ?thesis using f x by simp
qed

lemma product_replayed:
  assumes "record_store_live (se_idem N)" "records_ok (ap_idem w)" "r \<in> set (rows (ap_idem w))" "clk 1 < ir_ExpiresAt r"
    and "idem_id (se_ReadAll N) (cfg_Idem (se_cfg N)) c = Some (k, m, p, u, h)" "ir_for k m p u r"
  shows "fst (route_handler N d clk (RProduct route) (w, c)) = w"
proof -
  have "st_Find (app_idem_store N) (later 1 clk 0) k m p u w = Inr (Some r)"
    using stored_found [OF assms(1-3,6), of "later 1 clk 0"] assms(4) by simp
  then have "fst (idem_Middleware (se_wire N) (se_ReadAll N) (app_idem_store N) (cfg_Idem (se_cfg N)) (later 1 clk) h' (w, c)) = w" for h'
    using Middleware_hit [OF assms(5), of "app_idem_store N" "later 1 clk"] by simp
  then show ?thesis
    unfolding route_handler_def Let_def api_route.case by (cases "CurrentPrincipal c") (simp_all add: RequireAuth_def)
qed

text \<open>What identifies a request to the idempotency middleware once its caller is known.\<close>

definition replay_key :: "'f server_env \<Rightarrow> 'd gin_context \<Rightarrow> uint64 \<Rightarrow> Record \<Rightarrow> bool" where
  "replay_key N c u r =
     (ic_Enabled (cfg_Idem (se_cfg N)) \<and> c_Method c \<notin> {''GET'', ''HEAD'', ''OPTIONS''} \<and> c_Header c HeaderKey \<noteq> ''''
      \<and> (\<forall>b. \<not> isl (se_ReadAll N b)) \<and> ir_for (c_Header c HeaderKey) (c_Method c) (c_Path c) u r
      \<and> (\<forall>now cl. jwt_Parse (av_lib (se_auth N)) (av_jwt (se_auth N)) now (extractBearer (c_Header c ''Authorization'')) = Inr cl
            \<longrightarrow> cl_UserID cl = u))"

lemma replay_jwt:
  assumes "record_store_live (se_idem N)" "records_ok (ap_idem w)" "r \<in> set (rows (ap_idem w))" "clk' 1 < ir_ExpiresAt r"
    and "replay_key N c u r" "principal_in c = None"
  shows "only_traces N w (fst (JWTAuth (av_lib (se_auth N)) (av_jwt (se_auth N)) (Some (app_sessions N)) clk
           (route_handler N d clk' (RProduct route)) (w, c)))"
proof -
  let ?raw = "extractBearer (c_Header c ''Authorization'')" and ?h = "route_handler N d clk' (RProduct route)"
  have anon: "fst (?h (w, c)) = w" using assms(6) by (intro route_confined) (simp add: permits_def)
  have "fst (?h (w', set_principal (principal_of cl) c)) = w'"
    if w': "ap_idem w' = ap_idem w" and cl: "jwt_Parse (av_lib (se_auth N)) (av_jwt (se_auth N)) now ?raw = Inr cl" for w' cl now
  proof -
    let ?c = "set_principal (principal_of cl) c"
    obtain b where "se_ReadAll N (c_Body c) = Inr b" using assms(5) by (cases "se_ReadAll N (c_Body c)") (auto simp: replay_key_def dest: spec [of _ "c_Body c"])
    moreover have "c_Body ?c = c_Body c" "c_Method ?c = c_Method c" "c_Path ?c = c_Path c" "c_Header ?c = c_Header c"
      by (simp_all add: set_principal_def SetKey_def Let_def)
    moreover have "GetU64 CtxUserID ?c = Some u"
      using assms(5) cl by (simp add: set_principal_def GetU64_def SetKey_def ctx_key_defs Let_def principal_of_def replay_key_def)
    ultimately have i: "idem_id (se_ReadAll N) (cfg_Idem (se_cfg N)) ?c
        = Some (c_Header c HeaderKey, c_Method c, c_Path c, u, EncodeToString (Sum256 b))"
      using assms(5) by (simp add: idem_id_def replay_key_def)
    have ir: "ir_for (c_Header c HeaderKey) (c_Method c) (c_Path c) u r" using assms(5) by (simp add: replay_key_def)
    show ?thesis
      by (rule product_replayed [where clk = clk', OF assms(1) _ _ assms(4) i ir]) (simp_all add: w' assms(2,3))
  qed
  moreover have "ap_idem (sv_Touch (app_sessions N) now sid w) = ap_idem w" for now sid
    by (simp add: app_sessions_def Let_def)
  ultimately show ?thesis using anon only_traces_refl only_traces_touch
    by (auto simp: JWTAuth_def Let_def split: sum.split)
qed



text \<open>The example record belongs to user 7, whose access token the request carries.\<close>

definition demo_shop :: "'f server_env \<Rightarrow> 'f server_env" where
  "demo_shop N = (demo_server N)\<lparr>se_idem := mem_records, se_ReadAll := Inr,
     se_cfg := (se_cfg (demo_server N))\<lparr>cfg_Idem := demo_idem\<rparr>\<rparr>"

definition demo_retry :: "server_data gin_context" where
  "demo_retry = demo_logout\<lparr>c_Path := ''/api/v1/products'',
     c_Header := (\<lambda>h. if h = HeaderKey then ''k1'' else c_Header demo_logout h)\<rparr>"


end
