(* ===== verification/SessionRegistry.thy ===== *)
theory SessionRegistry
  imports Session
begin

text \<open>
  What the session service promises, said without a table: a registry from session ids to the
  user, the expiry and the revocation of a session.  The operations of theory \<open>Session\<close> over a
  database that obeys the laws refine the operations of the registry.
\<close>

section \<open>The abstract service\<close>

type_synonym registry = "uint64 \<rightharpoonup> uint64 \<times> time \<times> time option"

definition reg_open :: "uint64 \<Rightarrow> uint64 \<Rightarrow> time \<Rightarrow> registry \<Rightarrow> registry" where
  "reg_open sid uid expi R = R(sid \<mapsto> (uid, expi, None))"

definition reg_end :: "(uint64 \<Rightarrow> uint64 \<Rightarrow> bool) \<Rightarrow> time \<Rightarrow> registry \<Rightarrow> registry" where
  "reg_end P now R =
     (\<lambda>sid. case R sid of
        None \<Rightarrow> None
      | Some (uid, expi, v) \<Rightarrow> Some (uid, expi, if P sid uid \<and> v = None then Some now else v))"

definition reg_purge :: "time \<Rightarrow> registry \<Rightarrow> registry" where
  "reg_purge cutoff R =
     (\<lambda>sid. case R sid of
        None \<Rightarrow> None
      | Some (uid, expi, v) \<Rightarrow>
          if expi \<le> cutoff \<or> (case v of None \<Rightarrow> False | Some ended \<Rightarrow> ended \<le> cutoff) then None else Some (uid, expi, v))"

definition reg_usable :: "time \<Rightarrow> uint64 \<Rightarrow> uint64 \<Rightarrow> registry \<Rightarrow> bool" where
  "reg_usable now sid uid R = (case R sid of Some (u, expi, None) \<Rightarrow> u = uid \<and> now < expi | _ \<Rightarrow> False)"

section \<open>The abstraction\<close>

definition session_entry :: "UserSession \<Rightarrow> uint64 \<times> uint64 \<times> time \<times> time option" where
  "session_entry r = (us_ID r, us_UserID r, us_ExpiresAt r, us_RevokedAt r)"

definition registry :: "sessions \<Rightarrow> registry" where
  "registry t = map_of (map session_entry (rows t))"

definition row_registry :: "UserSession list \<Rightarrow> registry" where
  "row_registry rs = map_of (map session_entry rs)"

lemma registry_rows: "registry t = row_registry (rows t)"
  by (simp add: registry_def row_registry_def)

lemma row_registry_Cons:
  "row_registry (r # rs) = (row_registry rs)(us_ID r \<mapsto> (us_UserID r, us_ExpiresAt r, us_RevokedAt r))"
  by (simp add: row_registry_def session_entry_def)

lemma row_registry_Nil [simp]: "row_registry [] = Map.empty"
  by (simp add: row_registry_def)

lemma dom_row_registry: "dom (row_registry rs) = us_ID ` set rs"
  by (simp add: row_registry_def dom_map_of_conv_image_fst session_entry_def image_image)

lemma row_registry_append:
  "us_ID r \<notin> us_ID ` set rs \<Longrightarrow> row_registry (rs @ [r]) = reg_open (us_ID r) (us_UserID r) (us_ExpiresAt r) (row_registry rs)"
  if "us_RevokedAt r = None" for r
  using that by (induction rs) (auto simp: row_registry_Cons reg_open_def fun_upd_twist)

lemma row_registry_map:
  assumes "\<And>r. us_ID (f r) = us_ID r" "\<And>r. us_UserID (f r) = us_UserID r" "\<And>r. us_ExpiresAt (f r) = us_ExpiresAt r"
    and "\<And>r. us_RevokedAt (f r) = (if P (us_ID r) (us_UserID r) \<and> us_RevokedAt r = None then Some now else us_RevokedAt r)"
  shows "row_registry (map f rs) = reg_end P now (row_registry rs)"
  by (induction rs) (auto simp: row_registry_Cons reg_end_def assms fun_eq_iff)

lemma row_registry_filter:
  assumes "distinct (map us_ID rs)"
    and "\<And>r. keep r \<longleftrightarrow> \<not> (us_ExpiresAt r \<le> cutoff \<or> (case us_RevokedAt r of None \<Rightarrow> False | Some ended \<Rightarrow> ended \<le> cutoff))"
  shows "row_registry (filter keep rs) = reg_purge cutoff (row_registry rs)"
  using assms(1)
proof (induction rs)
  case (Cons r rs)
  have "row_registry (filter keep rs) (us_ID r) = None"
    using Cons.prems dom_row_registry [of "filter keep rs"] by (auto simp: domIff [symmetric])
  then show ?case using Cons assms(2) [of r]
    by (auto simp: row_registry_Cons reg_purge_def fun_eq_iff split: option.splits)
qed (simp add: reg_purge_def fun_eq_iff)

lemma reg_usable_rows:
  assumes "distinct (map us_ID rs)"
  shows "reg_usable now sid uid (row_registry rs)
     \<longleftrightarrow> list_ex (\<lambda>r. us_ID r = sid \<and> us_UserID r = uid \<and> us_RevokedAt r = None \<and> now < us_ExpiresAt r) rs"
  using assms
proof (induction rs)
  case (Cons r rs)
  have "\<not> list_ex (\<lambda>x. us_ID x = us_ID r \<and> us_UserID x = uid \<and> us_RevokedAt x = None \<and> now < us_ExpiresAt x) rs"
    using Cons.prems by (auto simp: list_ex_iff image_iff)
  then show ?case using Cons by (cases "sid = us_ID r") (auto simp: row_registry_Cons reg_usable_def split: option.splits)
qed (simp add: reg_usable_def)

section \<open>Refinement\<close>

context session_store begin

lemma Create_refines:
  assumes "table_ok us_ID (\<lambda>_. True) t" "session_Create G now uid imp expi dev ua ip t = (res, t')"
  shows "case res of Inl _ \<Rightarrow> registry t' = registry t
       | Inr r \<Rightarrow> registry t (us_ID r) = None \<and> registry t' = reg_open (us_ID r) uid expi (registry t)"
  using assms(2)
proof (cases rule: Create_cases)
  case (created r)
  have fresh: "us_ID r \<notin> us_ID ` set (rows t)" using assms(1) created(4) by (auto simp: table_ok_def list_all_iff)
  then have "registry t (us_ID r) = None" using dom_row_registry [of "rows t"] by (auto simp: registry_rows domIff [symmetric])
  then show ?thesis using created fresh row_registry_append [of r "rows t"] by (simp add: registry_rows)
qed (simp add: registry_rows)

lemma Touch_refines: "registry (session_Touch G now sid t) = registry t"
proof (cases rule: Touch_cases [of now sid t])
  case touched
  have "session_entry \<circ> (\<lambda>r. if us_ID r = sid then r\<lparr>us_LastUsedAt := now\<rparr> else r) = session_entry"
    by (auto simp: session_entry_def)
  then show ?thesis using touched(1) by (simp add: registry_def)
qed simp

lemma Revoke_refines:
  assumes "session_Revoke G now sid reason t = (res, t')"
  shows "case res of Inl _ \<Rightarrow> registry t' = registry t | Inr _ \<Rightarrow> registry t' = reg_end (\<lambda>s _. s = sid) now (registry t)"
  using assms
proof (cases rule: Revoke_cases)
  case revoked
  then show ?thesis by (simp add: registry_rows row_registry_map [where P = "\<lambda>s _. s = sid" and now = now])
qed simp

lemma RevokeAll_refines:
  assumes "session_RevokeAllForUser G now uid reason t = (res, t')"
  shows "case res of Inl _ \<Rightarrow> registry t' = registry t | Inr _ \<Rightarrow> registry t' = reg_end (\<lambda>_ u. u = uid) now (registry t)"
  using assms
proof (cases rule: RevokeAll_cases)
  case revoked
  then show ?thesis by (simp add: registry_rows row_registry_map [where P = "\<lambda>_ u. u = uid" and now = now])
qed simp

lemma Cleanup_refines:
  assumes "table_ok us_ID (\<lambda>_. True) t" "session_CleanupExpired G now retention t = (res, t')"
  shows "case res of Inl _ \<Rightarrow> registry t' = registry t | Inr _ \<Rightarrow> registry t' = reg_purge (now - retention) (registry t)"
  using assms(2)
proof (cases rule: Cleanup_cases)
  case (deleted n)
  then show ?thesis using assms(1)
    by (simp add: registry_rows table_ok_def row_registry_filter [where cutoff = "now - retention"])
qed simp

end

context session_store_live begin

lemma Validate_refines:
  "table_ok us_ID (\<lambda>_. True) t \<Longrightarrow> session_Validate G now sid uid t = Inr () \<longleftrightarrow> reg_usable now sid uid (registry t)"
  by (simp add: Validate_iff registry_rows reg_usable_rows session_active_def table_ok_def)

end

section \<open>Properties\<close>

text \<open>
  C4: the session service refines a registry of sessions.  Over a consistent table every operation
  either fails and leaves the registry as it was, or does what its abstract counterpart does: a
  new session gets an id that no session has, a touch is invisible, the two revocations end
  exactly the sessions they name that have not ended yet, the clean-up forgets exactly those that
  expired or ended before its cut-off, and validation accepts exactly the usable sessions.  The
  table stays consistent.
\<close>

theorem session_service_refines:
  assumes "session_store_live G" "table_ok us_ID (\<lambda>_. True) t"
  shows "(case session_Create G now uid imp expi dev ua ip t of
            (Inl _, t') \<Rightarrow> registry t' = registry t
          | (Inr r, t') \<Rightarrow> registry t (us_ID r) = None \<and> registry t' = reg_open (us_ID r) uid expi (registry t))
       \<and> registry (session_Touch G now sid t) = registry t
       \<and> (case session_Revoke G now sid reason t of
            (Inl _, t') \<Rightarrow> registry t' = registry t | (Inr _, t') \<Rightarrow> registry t' = reg_end (\<lambda>s _. s = sid) now (registry t))
       \<and> (case session_RevokeAllForUser G now uid reason t of
            (Inl _, t') \<Rightarrow> registry t' = registry t | (Inr _, t') \<Rightarrow> registry t' = reg_end (\<lambda>_ u. u = uid) now (registry t))
       \<and> (case session_CleanupExpired G now retention t of
            (Inl _, t') \<Rightarrow> registry t' = registry t | (Inr _, t') \<Rightarrow> registry t' = reg_purge (now - retention) (registry t))
       \<and> (session_Validate G now sid uid t = Inr () \<longleftrightarrow> reg_usable now sid uid (registry t))
       \<and> (\<forall>t'. session_step G t t' \<longrightarrow> table_ok us_ID (\<lambda>_. True) t')"
proof -
  have s: "session_store G" using assms(1) by (simp add: session_store_live_def)
  note r = session_store.Create_refines [OF s assms(2)] session_store.Touch_refines [OF s] session_store.Revoke_refines [OF s]
    session_store.RevokeAll_refines [OF s] session_store.Cleanup_refines [OF s assms(2)]
    session_store_live.Validate_refines [OF assms] session_store.step_table_ok [OF s _ assms(2)]
  show ?thesis
    by (intro conjI allI impI; (rule r(2,6,7))?; (split prod.split)?; (split sum.split)?; use r(1,3-5) in fastforce)
qed

theorem session_service_refines_witness:
  "registry demo_sessions = [1 \<mapsto> (7, 100, None), 2 \<mapsto> (8, 100, None)]
   \<and> registry (snd (session_Revoke mem_sessions 10 1 ''user-logout'' demo_sessions)) = [1 \<mapsto> (7, 100, Some 10), 2 \<mapsto> (8, 100, None)]
   \<and> session_Validate mem_sessions 20 2 8 demo_sessions = Inr ()"
proof -
  have d: "registry demo_sessions = [1 \<mapsto> (7, 100, None), 2 \<mapsto> (8, 100, None)]"
    by (auto simp: registry_def demo_sessions_def demo_session_def session_entry_def fun_eq_iff)
  note r = session_service_refines [OF mem_sessions.session_store_live_axioms demo_sessions_ok]
  have "registry (snd (session_Revoke mem_sessions 10 1 ''user-logout'' demo_sessions)) = reg_end (\<lambda>s _. s = 1) 10 (registry demo_sessions)"
    using r [where now = 10 and sid = 1 and reason = "''user-logout''"] by (simp add: mem_sessions_Revoke)
  moreover have "session_Validate mem_sessions 20 2 8 demo_sessions = Inr ()"
    using r [where now = 20 and sid = 2 and uid = 8] by (simp add: d reg_usable_def)
  ultimately show ?thesis by (auto simp: d reg_end_def fun_eq_iff)
qed

end
