(* ===== verification/Routing.thy ===== *)
theory Routing
  imports Router
begin

text \<open>
  The route table of theory \<open>Router\<close> as a specification: which handler a request gets does not
  depend on the order in which the routes are registered.
\<close>

section \<open>Patterns that a path can match together\<close>

fun clash :: "string list \<Rightarrow> string list \<Rightarrow> bool" where
  "clash [] [] = True"
| "clash [] (q # qs) = False"
| "clash (p # ps) [] = False"
| "clash (p # ps) (q # qs) =
     (if HasPrefix p ''*'' \<or> HasPrefix q ''*'' then True
      else if HasPrefix p '':'' \<or> HasPrefix q '':'' then clash ps qs
      else p = q \<and> clash ps qs)"

lemma match_clash: "match_segs p s = Some f \<Longrightarrow> match_segs q s = Some g \<Longrightarrow> clash p q"
proof (induction p q arbitrary: s f g rule: clash.induct)
  case (2 q qs)
  then show ?case by (cases s) simp_all
next
  case (3 p ps)
  then show ?case by (cases s) simp_all
next
  case (4 p ps q qs)
  then show ?case by (cases s) (auto split: if_split_asm)
qed simp

fun all_pairs :: "('a \<Rightarrow> 'a \<Rightarrow> bool) \<Rightarrow> 'a list \<Rightarrow> bool" where
  "all_pairs P [] = True"
| "all_pairs P (x # xs) = (list_all (P x) xs \<and> all_pairs P xs)"

text \<open>The only two routes of one method that can match together, the static one first.\<close>

definition apart :: "string \<times> string list \<times> api_route \<Rightarrow> string \<times> string list \<times> api_route \<Rightarrow> bool" where
  "apart a b = (case (a, b) of ((m, p, r), (m', p', r')) \<Rightarrow>
     m \<noteq> m' \<or> \<not> clash p p' \<or> r = RUser UserRouteMe \<and> r' = RUser UserRouteGet)"

definition split_routes :: "(string \<times> string \<times> api_route) list \<Rightarrow> (string \<times> string list \<times> api_route) list" where
  "split_routes rs = map (\<lambda>(m, p, r). (m, Split (CHR ''/'') p, r)) rs"

lemma full_routes_apart:
  "all_pairs apart (split_routes (file_paths @ auth_paths @ product_paths @ user_paths @ role_paths @ permission_paths @ session_paths
     @ [(''GET'', ''/api/v1/audit-logs'', RAudit)]))"
  by code_simp

section \<open>The specification\<close>

definition matched :: "(string \<times> string \<times> api_route) list \<Rightarrow> string \<Rightarrow> string \<Rightarrow> api_route \<Rightarrow> (string \<Rightarrow> string) \<Rightarrow> bool" where
  "matched rs meth path r f = (\<exists>pat. (meth, pat, r) \<in> set rs \<and> match_segs (Split (CHR ''/'') pat) (Split (CHR ''/'') path) = Some f)"

text \<open>A static segment goes before a parameter, as gin documents.\<close>

definition shadowed :: "(string \<times> string \<times> api_route) list \<Rightarrow> string \<Rightarrow> string \<Rightarrow> api_route \<Rightarrow> bool" where
  "shadowed rs meth path r = (r = RUser UserRouteGet \<and> (\<exists>g. matched rs meth path (RUser UserRouteMe) g))"

lemma matched_Cons:
  "matched ((m, pat, r0) # rs) meth path r f \<longleftrightarrow>
     m = meth \<and> r = r0 \<and> match_segs (Split (CHR ''/'') pat) (Split (CHR ''/'') path) = Some f \<or> matched rs meth path r f"
  by (auto simp: matched_def)

lemma find_route_matched:
  "all_pairs apart (split_routes rs) \<Longrightarrow>
     find_route rs meth path = Some (r, f) \<longleftrightarrow> matched rs meth path r f \<and> \<not> shadowed rs meth path r"
proof (induction rs)
  case Nil
  then show ?case by (simp add: matched_def)
next
  case (Cons x rs)
  obtain m pat r0 where x: "x = (m, pat, r0)" by (cases x)
  have ap: "r0 = RUser UserRouteMe \<and> r' = RUser UserRouteGet"
    if "m = meth" "match_segs (Split (CHR ''/'') pat) (Split (CHR ''/'') path) = Some g" "matched rs meth path r' h" for g r' h
  proof -
    note t = that
    obtain pat' where p': "(meth, pat', r') \<in> set rs" "match_segs (Split (CHR ''/'') pat') (Split (CHR ''/'') path) = Some h"
      using t(3) by (auto simp: matched_def)
    have "apart (m, Split (CHR ''/'') pat, r0) (meth, Split (CHR ''/'') pat', r')"
      using Cons.prems p'(1) by (force simp: x split_routes_def list_all_iff)
    then show ?thesis using t(1) match_clash [OF t(2) p'(2)] by (simp add: apart_def)
  qed
  have all: "all_pairs apart (split_routes rs)" using Cons.prems by (simp add: split_routes_def)
  show ?case
  proof (cases "m = meth \<and> match_segs (Split (CHR ''/'') pat) (Split (CHR ''/'') path) \<noteq> None")
    case True
    then obtain g where g: "m = meth" "match_segs (Split (CHR ''/'') pat) (Split (CHR ''/'') path) = Some g" by auto
    have "matched ((m, pat, r0) # rs) meth path r f \<and> \<not> shadowed ((m, pat, r0) # rs) meth path r \<longleftrightarrow> r = r0 \<and> f = g"
      using ap [OF g] g by (auto simp: matched_Cons shadowed_def)
    then show ?thesis using g by (auto simp: x)
  next
    case False
    then show ?thesis using Cons.IH [OF all] by (auto simp: x matched_Cons shadowed_def split: option.split)
  qed
qed

lemma routes_apart: "all_pairs apart (split_routes (routes cfg))"
proof -
  have "all_pairs P xs" if "all_pairs P (xs @ ys)" for P :: "_ \<Rightarrow> _ \<Rightarrow> bool" and xs ys :: "(string \<times> string list \<times> api_route) list"
    using that by (induction xs) simp_all
  note prefix = this
  show ?thesis using full_routes_apart prefix [of apart "split_routes (file_paths @ auth_paths @ product_paths @ user_paths @ role_paths
      @ permission_paths @ session_paths)" "split_routes [(''GET'', ''/api/v1/audit-logs'', RAudit)]"]
    by (auto simp: routes_def audit_paths_def split_routes_def)
qed

lemma match_static:
  "list_all (\<lambda>p. \<not> HasPrefix p ''*'' \<and> \<not> HasPrefix p '':'') ps \<Longrightarrow> match_segs ps ss = Some f \<longleftrightarrow> ss = ps \<and> f = (\<lambda>_. '''')"
  by (induction ps ss arbitrary: f rule: match_segs.induct) auto

lemma matched_one:
  assumes "\<And>pat. (meth, pat, r) \<in> set rs \<longleftrightarrow> meth = m \<and> pat = p"
    and "match_segs (Split (CHR ''/'') p) (Split (CHR ''/'') path) = Some g \<longleftrightarrow> path = p \<and> g = h"
  shows "matched rs meth path r g \<longleftrightarrow> meth = m \<and> path = p \<and> g = h"
  using assms by (auto simp: matched_def)

lemma matched_me: "matched (routes cfg) meth path (RUser UserRouteMe) g \<longleftrightarrow> meth = ''GET'' \<and> path = ''/api/v1/users/me'' \<and> g = (\<lambda>_. '''')"
proof -
  let ?p = "''/api/v1/users/me''"
  have "list_all (\<lambda>p. \<not> HasPrefix p ''*'' \<and> \<not> HasPrefix p '':'') (Split (CHR ''/'') ?p)" by code_simp
  from match_static [OF this]
  have "match_segs (Split (CHR ''/'') ?p) (Split (CHR ''/'') path) = Some g \<longleftrightarrow> path = ?p \<and> g = (\<lambda>_. '''')"
    using arg_cong [of "Split (CHR ''/'') path" "Split (CHR ''/'') ?p" "JoinStr (CHR ''/'')", unfolded JoinStr_Split] by blast
  then show ?thesis
    by (rule matched_one [rotated])
       (auto simp: routes_def file_paths_def auth_paths_def product_paths_def user_paths_def role_paths_def permission_paths_def
        session_paths_def audit_paths_def)
qed

lemma get_route_method: "matched (routes cfg) meth path (RUser UserRouteGet) f \<Longrightarrow> meth = ''GET''"
  by (auto simp: matched_def routes_def file_paths_def auth_paths_def product_paths_def user_paths_def role_paths_def permission_paths_def
      session_paths_def audit_paths_def split: if_split_asm)

section \<open>Properties\<close>


end
