(* ===== verification/Spec2Isabelle.thy ===== *)
theory Spec2Isabelle
  imports Boot Server SessionRegistry Routing
begin

text \<open>
  A verification development for the Gin API template (\<open>src/\<close>): a Go server with JWT
  authentication, roles and permissions, sessions, password reset, idempotency keys, rate
  limiting, an audit log, file uploads, background jobs and the usual web plumbing around them.

  \<^bold>\<open>How the program is modelled.\<close>  A Go method that reads and writes a store and returns
  \<open>(T, error)\<close> is a function from the store to a result and the store (theory \<open>Prelude\<close>:
  \<open>bindE\<close>, \<open>throwE\<close>, \<open>readE\<close>, \<open>zoomE\<close>); errors are values of \<open>go_error\<close> (theory \<open>Errs\<close>,
  \<open>internal/common/errs\<close>).  \<open>uint64\<close> and \<open>int\<close> are 64-bit words, instants and durations are
  nanosecond counts, \<open>float64\<close> is IEEE binary64 with rounding (theory \<open>Float64\<close>).  Every call
  of \<open>time.Now()\<close> reads the next value of a \<open>clock\<close>, of which nothing is assumed unless a
  theorem says so.  A handler works on the server state and a \<open>gin_context\<close> (theory \<open>Gin\<close>);
  what the program asks gin to send is appended to a log of effects.  A panic is a value that
  unwinds the middleware chain.

  \<^bold>\<open>What is not under src/.\<close>  GORM, gin's binder and validator, the JWT and bcrypt libraries,
  \<open>LIKE\<close>, UUIDs, random bytes, the JSON codec, the calls of package \<open>os\<close>, the SMTP connection,
  asynq, robfig/cron, \<open>gin-contrib/cors\<close>, goose and the database drivers are arguments of the
  definitions.  What the program relies on is stated as locales: \<open>gorm_table\<close>, \<open>gorm_hard\<close>,
  \<open>gorm_soft\<close>, \<open>gorm_live\<close> (theory \<open>Gorm\<close>), \<open>gorm_m2m\<close> (theory \<open>Assoc\<close>), \<open>jwt_library\<close> and
  \<open>bcrypt_library\<close> (theory \<open>Jwt\<close>), \<open>file_system\<close> (theory \<open>FileStore\<close>), \<open>audit_rows\<close> (theory
  \<open>AuditLog\<close>), \<open>cors_library\<close> (theory \<open>Router\<close>).  In-memory instances (\<open>mem_gorm\<close>, \<open>plain_jwt\<close>,
  \<open>plain_bcrypt\<close>, \<open>mem_fs\<close>, \<open>simple_cors\<close>) satisfy every law and serve the witnesses.
  Packages \<open>strings\<close>, \<open>strconv\<close>, \<open>time\<close>, \<open>path/filepath\<close>, \<open>encoding/hex\<close>, \<open>encoding/base64\<close> and
  \<open>crypto/sha256\<close> are modelled (theories \<open>GoStd\<close>, \<open>GoPath\<close>, \<open>Encoding\<close>, \<open>Configuration\<close>).

  \<^bold>\<open>Components.\<close>
  \<^item> \<open>Dto\<close>, \<open>Web\<close>, \<open>Cors\<close>: \<open>internal/common/dto\<close> and \<open>internal/common/web\<close>.  The page offsets and
    page counts are shown exact within bounds, the origin matcher equal to a glob matcher.
  \<^item> \<open>BaseModel\<close>: \<open>internal/common/audit\<close>, the columns every entity has.
  \<^item> \<open>Principal\<close>, \<open>Jwt\<close>, \<open>Security\<close>: \<open>internal/common/security\<close>.  Tokens round trip; the gates run
    the chain exactly for callers that own an authority; the middleware relies on the locale
    \<open>session_validator\<close>, which the session service is shown to satisfy.
  \<^item> \<open>Session\<close>, \<open>Permission\<close>, \<open>Role\<close>, \<open>User\<close>, \<open>Product\<close>: \<open>internal/modules/*\<close>, each with its
    repository, service, endpoints and routes.  Sessions are a state machine (\<open>session_step\<close>) on
    which a revoked session stays dead; permissions refine an abstract catalogue; the authorities
    of a user are what the join tables grant.
  \<^item> \<open>SessionRegistry\<close>: an abstract registry of sessions, which the session service refines.
  \<^item> \<open>Auth\<close>, \<open>PasswordReset\<close>: \<open>internal/modules/auth\<close>.  Login, refresh, impersonation and reset are
    sound, a login's token is accepted by the middleware, reset tokens are single-use over the
    step relation \<open>reset_step\<close>.
  \<^item> \<open>FileStore\<close>: \<open>internal/modules/file\<close>.  Serving is confined to the storage directory, a stored
    file is served back.
  \<^item> \<open>AuditLog\<close>: \<open>internal/modules/audit\<close>.  Masked fields do not reach a row; the bounded channel is
    first-in-first-out and drained on shutdown.
  \<^item> \<open>Idempotency\<close>: \<open>internal/common/idempotency\<close>.  The contract of the store is the locale
    \<open>idem_store\<close>; within its lifetime a key has one effect.
  \<^item> \<open>RateLimit\<close>: \<open>internal/common/ratelimit\<close>.  The bucket invariant holds through float64
    refills, bursts are exact, identities do not interfere.
  \<^item> \<open>WorkerPool\<close>, \<open>Scheduler\<close>: \<open>internal/common/worker\<close>, \<open>internal/common/scheduler\<close> and
    \<open>internal/common/jobs\<close>.  The pool is a step relation over its channel and its workers, the
    scheduler the list of goroutines it spawned and the contexts it cancelled.
  \<^item> \<open>Queue\<close>, \<open>Mail\<close>: \<open>internal/common/queue\<close> and \<open>internal/common/mail\<close>.  Options, retry delays and
    the reset-email task; the SMTP dialogue and the layout of the message.
  \<^item> \<open>Configuration\<close>: \<open>internal/config\<close>.  The environment readers and \<open>Load\<close>; durations and queue
    weights round trip, and what makes \<open>Load\<close> fail is characterised.
  \<^item> \<open>Bootstrap\<close>: \<open>internal/bootstrap\<close>.  Seeding establishes what every boot relies on and changes
    nothing when repeated; the background jobs start and stop together.
  \<^item> \<open>Logger\<close>, \<open>Database\<close>: \<open>internal/logger\<close>, \<open>internal/common/applog\<close> and \<open>internal/database\<close>.  Which
    line reaches which file, over the states the logger package can reach; connection strings.
  \<^item> \<open>Router\<close>: \<open>internal/router\<close>.  The whole server: every middleware around every route.  Nothing
    but an authorised request changes what is stored (\<open>router_effects_authorised\<close>).
  \<^item> \<open>Routing\<close>: the route table read as a specification; which handler a request gets does not
    depend on the order of registration.
  \<^item> \<open>Server\<close>: the running server as a transition system (\<open>server_step\<close>, \<open>server_run\<close>): requests through
    \<open>serve\<close> in any order, the clean-up jobs, the audit worker.  Every operation of every module is
    shown to keep what each component promises of its table (locales \<open>evolution\<close>, \<open>db_evolution\<close>,
    \<open>auth_evolution\<close>), so that over every run a logout stays final, a used reset token stays used, a
    recorded product request is not repeated and the audit trail only grows.  A request is one step:
    interleavings of the statements of two requests are not represented.
  \<^item> \<open>Boot\<close>: \<open>main.go\<close>.  The boot either ends in an exit or in a process over seeded tables.

  \<^bold>\<open>Bounds.\<close>  Recursions over data are structural or have a measure; \<open>audit_drain\<close> takes as fuel a
  number of worker turns, and its theorems state how many are enough.  Table keys are bounded by
  \<open>2 ^ 63\<close> where a witness creates rows.

  \<^bold>\<open>Not modelled.\<close>  Goroutines run as explicit steps or as lists of effects; data races inside the
  standard library's primitives are outside the model.  The bridges from the loggers of gorm,
  goose and asynq to zap, the generated Swagger documents, signal delivery, the HTTP server's
  sockets and time-outs, and the SQL of the migrations are left out.

  This theory holds the properties that span the session service, the login and the middleware.
\<close>

context session_store begin

lemmas db_JWTAuth_inactive = dbv.JWTAuth_inactive

end

section \<open>Properties that span components\<close>

text \<open>
  Logging out is effective for every later request.  After a successful logout, whatever
  the session service does next, the authentication middleware answers 401 to every access
  token of that session and does not run the rest of the chain.
\<close>

theorem logout_denies_token:
  assumes "auth_service E" "unat sid < next_id (ud_sessions db)" "auth_Logout E now sid db = (Inr (), db1)"
    and "session_steps (av_sessions E) (ud_sessions db1) (ud_sessions db2)"
    and "extractBearer (c_Header c ''Authorization'') = raw" "raw \<noteq> ''''"
    and "jwt_Parse (av_lib E) (av_jwt E) (ck 0) raw = Inr cl" "cl_Type cl = TokenTypeAccess"
    and "cl_SessionID cl = sid" "sid \<noteq> 0"
  shows "JWTAuth (av_lib E) (av_jwt E) (Some (db_sv (av_sessions E))) ck next_h (db2, c)
         = (db2, Abort (send (EJSON 401 (ErrorResponse (ck 3) 401 ''Session no longer active'' None)) c))"
proof -
  have ss: "session_store (av_sessions E)" using assms(1) by (simp add: auth_service_def)
  have "session_Revoke (av_sessions E) now sid ''user-logout'' (ud_sessions db) = (Inr (), ud_sessions db1)"
    using assms(3) by (auto simp: auth_Logout_def on_sessions_def zoomE_eq)
  then have "session_dead (ck 1) sid (ud_sessions db1)" using assms(2) by (rule session_store.Revoke_dead [OF ss])
  then have "session_dead (ck 1) sid (ud_sessions db2)" by (rule session_store.steps_dead [OF ss assms(4)])
  then have "\<not> db_active (ck 1) (cl_SessionID cl) (cl_UserID cl) db2"
    unfolding db_active_def assms(9) by (rule session_store.dead_not_active [OF ss]) simp
  then have "JWTAuth (av_lib E) (av_jwt E) (Some (db_sv (av_sessions E))) ck next_h (db2, c)
      = deny (ck 3) 401 ''Session no longer active'' (db2, c)"
    by (intro session_store.db_JWTAuth_inactive [where clk = ck, OF ss assms(5-8)]) (use assms(9,10) in simp_all)
  then show ?thesis by (simp add: deny_def)
qed

theorem logout_denies_token_witness:
  "\<exists>db1. auth_Logout demo_env 5 1 demo_auth_db = (Inr (), db1)
     \<and> JWTAuth plain_jwt demo_jwt (Some (db_sv mem_sessions)) (\<lambda>_. 5) (\<lambda>s. s) (db1, demo_context (''Bearer '' @ demo_access) :: nat gin_context)
       = (db1, Abort (send (EJSON 401 (ErrorResponse 5 401 ''Session no longer active'' None)) (demo_context (''Bearer '' @ demo_access))))"
proof -
  let ?c = "demo_context (''Bearer '' @ demo_access) :: nat gin_context"
  obtain db1 where l: "auth_Logout demo_env 5 1 demo_auth_db = (Inr (), db1)"
    using demo_Logout by blast
  have h: "extractBearer (c_Header ?c ''Authorization'') = demo_access"
    using extractBearer_Bearer demo_access_shape by (simp add: demo_context_def)
  have n: "unat (1 :: uint64) < next_id (ud_sessions demo_auth_db)" by (simp add: demo_auth_db_def demo_sessions_def)
  have s: "session_steps (av_sessions demo_env) (ud_sessions db1) (ud_sessions db1)" by (simp add: session_steps_def)
  show ?thesis
    using l logout_denies_token [where ck = "\<lambda>_. 5" and next_h = "\<lambda>s. s" and c = ?c, OF demo_auth.auth_service_axioms n l s h] demo_access_shape demo_access_claims
    by (intro exI [of _ db1]) (simp add: issue_claims_def)
qed



end
